(* ===== verification/Js_Prelude.thy ===== *)
theory Js_Prelude
  imports Complex_Main "HOL-Library.Word" "HOL-Library.Sublist"
begin

text \<open>
  The part of ECMAScript the runtime's modules are written against, shared by every component.

  \<^item> Strings are sequences of UTF-16 code units (\<open>jsstr\<close>); \<open>js ''...''\<close> is an ASCII literal.
  \<^item> Numbers are NaN, the infinities and finite values (a rational; every double is one).
  \<^item> Values are finite trees (\<open>jsval\<close>). An object has a prototype and an ordered list of own
    properties, each a data or an accessor descriptor, as \<open>Object.getOwnPropertyDescriptor\<close> and
    \<open>Reflect.ownKeys\<close> show them; where a key is listed twice the first entry counts. An accessor
    carries what its getter returns (\<open>None\<close>: it throws); a proxy carries the answers of its
    \<open>get\<close> trap. Functions and the empty frozen null-prototype objects that serve as handles
    have an identity. Freezing does not change a value, so \<open>deepFreeze\<close> is the identity here.
  \<^item> A function that throws returns \<open>Inl\<close> of what it throws; a check that only throws or
    returns is an \<open>'e option\<close>, \<open>None\<close> for "returns", and \<open>first_err\<close> runs a sequence of them.
\<close>

named_theorems js_lits \<open>evaluation of string literals\<close>
named_theorems chk \<open>evaluation of check sequences\<close>

section \<open>Results and check sequences\<close>

definition ensure :: "bool \<Rightarrow> 'e \<Rightarrow> 'e option" where
  "ensure b e = (if b then None else Some e)"

fun first_err :: "'e option list \<Rightarrow> 'e option" where
  "first_err [] = None"
| "first_err (None # cs) = first_err cs"
| "first_err (Some e # cs) = Some e"

definition guarded :: "'e option list \<Rightarrow> 'e + 'a \<Rightarrow> 'e + 'a" where
  "guarded cs r = (case first_err cs of Some e \<Rightarrow> Inl e | None \<Rightarrow> r)"

definition rbind :: "'e + 'a \<Rightarrow> ('a \<Rightarrow> 'e + 'b) \<Rightarrow> 'e + 'b" where
  "rbind m f = (case m of Inl e \<Rightarrow> Inl e | Inr a \<Rightarrow> f a)"

definition err_of :: "'e + 'a \<Rightarrow> 'e option" where
  "err_of r = (case r of Inl e \<Rightarrow> Some e | Inr _ \<Rightarrow> None)"

text \<open>\<open>try { ... } catch { fail(code) }\<close>: every error becomes the given one.\<close>

definition rcatch :: "'e + 'a \<Rightarrow> 'f \<Rightarrow> 'f + 'a" where
  "rcatch r e = (case r of Inl _ \<Rightarrow> Inl e | Inr a \<Rightarrow> Inr a)"

lemma ensure_None [simp]: "ensure b e = None \<longleftrightarrow> b"
  by (simp add: ensure_def)

lemma ensure_Some [simp]: "ensure b e = Some e' \<longleftrightarrow> \<not> b \<and> e' = e"
  by (auto simp: ensure_def)

lemma ensure_Some_flip [simp]: "Some e' = ensure b e \<longleftrightarrow> \<not> b \<and> e' = e"
  by (auto simp: ensure_def)

lemma ensure_simps [simp]: "ensure True e = None" "ensure False e = Some e"
  by (simp_all add: ensure_def)

lemma first_err_None [simp]: "first_err cs = None \<longleftrightarrow> list_all (\<lambda>c. c = None) cs"
  by (induction cs rule: first_err.induct) auto

lemma first_err_Cons: "first_err (c # cs) = (case c of None \<Rightarrow> first_err cs | Some e \<Rightarrow> Some e)"
  by (cases c) auto

lemma first_err_SomeD: "first_err cs = Some e \<Longrightarrow> Some e \<in> set cs"
  by (induction cs rule: first_err.induct) auto

lemma guarded_ok: "list_all (\<lambda>c. c = None) cs \<Longrightarrow> guarded cs r = r"
  by (simp add: guarded_def first_err_None [symmetric] del: first_err_None)

lemma guarded_err: "first_err cs = Some e \<Longrightarrow> guarded cs r = Inl e"
  by (simp add: guarded_def)

lemma guarded_cases:
  "list_all (\<lambda>c. c = None) cs \<and> guarded cs r = r \<or>
   (\<exists>e. first_err cs = Some e \<and> \<not> list_all (\<lambda>c. c = None) cs \<and> guarded cs r = Inl e)"
  by (cases "first_err cs") (auto simp: guarded_ok guarded_err simp flip: first_err_None)

lemma guarded_Inr [simp]:
  "guarded cs r = Inr x \<longleftrightarrow> list_all (\<lambda>c. c = None) cs \<and> r = Inr x"
  using guarded_cases [of cs r] by auto

lemma guarded_Inl:
  "guarded cs r = Inl e \<longleftrightarrow> first_err cs = Some e \<or> list_all (\<lambda>c. c = None) cs \<and> r = Inl e"
  using guarded_cases [of cs r] by (auto simp flip: first_err_None)

lemma guarded_InlD:
  "guarded cs r = Inl e \<Longrightarrow> Some e \<in> set cs \<or> r = Inl e"
  by (auto simp: guarded_Inl dest: first_err_SomeD)

lemma rbind_Inr [simp]: "rbind m f = Inr b \<longleftrightarrow> (\<exists>a. m = Inr a \<and> f a = Inr b)"
  by (auto simp: rbind_def split: sum.splits)

lemma rbind_Inl: "rbind m f = Inl e \<longleftrightarrow> m = Inl e \<or> (\<exists>a. m = Inr a \<and> f a = Inl e)"
  by (auto simp: rbind_def split: sum.splits)

lemma rbind_simps [simp]: "rbind (Inl e) f = Inl e" "rbind (Inr a) f = f a"
  by (simp_all add: rbind_def)

lemma err_of_None [simp]: "err_of r = None \<longleftrightarrow> (\<exists>a. r = Inr a)"
  by (cases r) (auto simp: err_of_def)

lemma err_of_Some [simp]: "err_of r = Some e \<longleftrightarrow> r = Inl e"
  by (cases r) (auto simp: err_of_def)

lemma err_of_Some_flip [simp]: "Some e = err_of r \<longleftrightarrow> r = Inl e"
  by (cases r) (auto simp: err_of_def)

lemma rcatch_Inr [simp]: "rcatch r e = Inr a \<longleftrightarrow> r = Inr a"
  by (cases r) (auto simp: rcatch_def)

lemma rcatch_Inl [simp]: "rcatch r e = Inl e' \<longleftrightarrow> (\<exists>d. r = Inl d) \<and> e' = e"
  by (cases r) (auto simp: rcatch_def)

lemmas check_defs = guarded_def rbind_def err_of_def rcatch_def

lemma map_of_map_key: "map_of (map (\<lambda>k. (k, f k)) ks) k = (if k \<in> set ks then Some (f k) else None)"
  by (induction ks) auto

section \<open>Strings\<close>

type_synonym unit16 = "16 word"
type_synonym jsstr = "unit16 list"

definition js :: "string \<Rightarrow> jsstr" where
  "js s = map of_char s"

lemma of_char_unit_inject [simp]: "(of_char c :: unit16) = of_char d \<longleftrightarrow> c = d"
proof
  assume "(of_char c :: unit16) = of_char d"
  then have "unat (of_char c :: unit16) = unat (of_char d :: unit16)" by simp
  moreover have "unat (of_char x :: unit16) = (of_char x :: nat)" for x
  proof -
    have "unat (of_nat (of_char x) :: unit16) = (of_char x :: nat) mod 2 ^ 16"
      by (simp add: unat_of_nat)
    moreover have "(of_char x :: nat) < 2 ^ 16"
      by (rule less_trans [of _ 256]) simp_all
    ultimately show ?thesis by (simp add: of_nat_of_char)
  qed
  ultimately show "c = d" by simp
qed simp

lemma js_eq [simp, js_lits]: "js a = js b \<longleftrightarrow> a = b"
proof -
  have "inj (of_char :: char \<Rightarrow> unit16)" by (rule injI) simp
  then show ?thesis by (simp add: js_def inj_map_eq_map)
qed

lemma length_js [simp]: "length (js s) = length s"
  by (simp add: js_def)

lemma js_Nil [simp]: "js [] = []" and js_Cons: "js (c # s) = of_char c # js s"
  by (simp_all add: js_def)

lemma list_all_js: "list_all P (js s) \<longleftrightarrow> list_all (\<lambda>c. P (of_char c)) s"
  by (simp add: js_def list_all_length)

end
