(* ===== verification/Js_Regex.thy ===== *)
theory Js_Regex
  imports Js_Prelude
begin

text \<open>
  The anchored regular expressions of the sources (\<open>/^...$/u\<close>), matched by derivatives, with
  the languages they denote. \<open>rx_match\<close> is what \<open>RegExp.prototype.exec\<close> answers for them
  (a match or \<open>null\<close>); \<open>rx_match_lang\<close> ties the matcher to the language.
\<close>

datatype rx =
    RNone
  | REps
  | RCls "unit16 \<Rightarrow> bool"
  | RSeq rx rx
  | RAlt rx rx
  | RStar rx

primrec nullable :: "rx \<Rightarrow> bool" where
  "nullable RNone = False"
| "nullable REps = True"
| "nullable (RCls _) = False"
| "nullable (RSeq r s) = (nullable r \<and> nullable s)"
| "nullable (RAlt r s) = (nullable r \<or> nullable s)"
| "nullable (RStar _) = True"

primrec deriv :: "unit16 \<Rightarrow> rx \<Rightarrow> rx" where
  "deriv c RNone = RNone"
| "deriv c REps = RNone"
| "deriv c (RCls p) = (if p c then REps else RNone)"
| "deriv c (RSeq r s) = (if nullable r then RAlt (RSeq (deriv c r) s) (deriv c s)
     else RSeq (deriv c r) s)"
| "deriv c (RAlt r s) = RAlt (deriv c r) (deriv c s)"
| "deriv c (RStar r) = RSeq (deriv c r) (RStar r)"

primrec rx_match :: "rx \<Rightarrow> jsstr \<Rightarrow> bool" where
  "rx_match r [] = nullable r"
| "rx_match r (c # s) = rx_match (deriv c r) s"

text \<open>Sequencing, \<open>{n}\<close>, \<open>{0,n}\<close>, \<open>+\<close> and literal text.\<close>

definition rx_cat :: "rx list \<Rightarrow> rx" where
  "rx_cat rs = foldr RSeq rs REps"

definition rx_rep :: "nat \<Rightarrow> rx \<Rightarrow> rx" where
  "rx_rep n r = rx_cat (replicate n r)"

primrec rx_upto :: "nat \<Rightarrow> rx \<Rightarrow> rx" where
  "rx_upto 0 r = REps"
| "rx_upto (Suc n) r = RAlt REps (RSeq r (rx_upto n r))"

definition rx_plus :: "rx \<Rightarrow> rx" where
  "rx_plus r = RSeq r (RStar r)"

definition rx_lit :: "string \<Rightarrow> rx" where
  "rx_lit s = rx_cat (map (\<lambda>c. RCls (\<lambda>u. u = c)) (js s))"

definition rng :: "unit16 \<Rightarrow> unit16 \<Rightarrow> unit16 \<Rightarrow> bool" where
  "rng a b c \<longleftrightarrow> a \<le> c \<and> c \<le> b"

section \<open>Languages\<close>

primrec lang :: "rx \<Rightarrow> jsstr set" where
  "lang RNone = {}"
| "lang REps = {[]}"
| "lang (RCls p) = {[c] | c. p c}"
| "lang (RSeq r s) = {u @ v | u v. u \<in> lang r \<and> v \<in> lang s}"
| "lang (RAlt r s) = lang r \<union> lang s"
| "lang (RStar r) = {concat us | us. set us \<subseteq> lang r}"

lemma nullable_lang: "nullable r \<longleftrightarrow> [] \<in> lang r"
  by (induction r) (auto intro: exI [of _ "[]"])

lemma star_Cons:
  "c # s \<in> lang (RStar r) \<longleftrightarrow> (\<exists>u v. s = u @ v \<and> c # u \<in> lang r \<and> v \<in> lang (RStar r))"
proof
  assume "c # s \<in> lang (RStar r)"
  then obtain us where "c # s = concat us" "set us \<subseteq> lang r" by auto
  then show "\<exists>u v. s = u @ v \<and> c # u \<in> lang r \<and> v \<in> lang (RStar r)"
  proof (induction us)
    case (Cons w us)
    show ?case
    proof (cases w)
      case Nil
      with Cons show ?thesis by simp
    next
      case (Cons d w')
      with Cons.prems have "s = w' @ concat us" "c # w' \<in> lang r" "set us \<subseteq> lang r" by auto
      then show ?thesis by auto
    qed
  qed simp
next
  assume "\<exists>u v. s = u @ v \<and> c # u \<in> lang r \<and> v \<in> lang (RStar r)"
  then obtain u us where "s = u @ concat us" "c # u \<in> lang r" "set us \<subseteq> lang r" by auto
  then have "c # s = concat ((c # u) # us)" "set ((c # u) # us) \<subseteq> lang r" by auto
  then show "c # s \<in> lang (RStar r)" by (simp only: lang.simps) blast
qed

lemma seq_Cons:
  "c # s \<in> lang (RSeq p q) \<longleftrightarrow>
     (\<exists>u v. s = u @ v \<and> c # u \<in> lang p \<and> v \<in> lang q) \<or> [] \<in> lang p \<and> c # s \<in> lang q"
  by (auto simp: Cons_eq_append_conv)

lemma deriv_lang: "s \<in> lang (deriv c r) \<longleftrightarrow> c # s \<in> lang r"
proof (induction r arbitrary: s)
  case (RSeq p q)
  then show ?case by (simp only: seq_Cons) (auto simp: nullable_lang)
next
  case (RStar r)
  then show ?case
    by (simp only: deriv.simps star_Cons) auto
qed auto

theorem rx_match_lang: "rx_match r s \<longleftrightarrow> s \<in> lang r"
  by (induction s arbitrary: r) (simp_all add: nullable_lang deriv_lang)

section \<open>Languages of the pattern forms the sources use\<close>

lemma lang_cls_Cons: "c # s \<in> lang (RSeq (RCls p) r) \<longleftrightarrow> p c \<and> s \<in> lang r"
  by (simp only: seq_Cons) auto

lemma lang_cls_seq: "s \<in> lang (RSeq (RCls p) r) \<longleftrightarrow> (\<exists>c u. s = c # u \<and> p c \<and> u \<in> lang r)"
proof (cases s)
  case Nil
  then show ?thesis by simp
next
  case (Cons c u)
  then show ?thesis by (simp add: lang_cls_Cons del: lang.simps)
qed

text \<open>A run of single-character classes.\<close>

lemma lang_classes: "s \<in> lang (rx_cat (map RCls ps)) \<longleftrightarrow> list_all2 (\<lambda>p c. p c) ps s"
proof (induction ps arbitrary: s)
  case Nil
  show ?case by (simp add: rx_cat_def)
next
  case (Cons p ps)
  then show ?case
    by (auto simp add: rx_cat_def lang_cls_seq list_all2_Cons1 simp del: lang.simps)
qed

lemma lang_cat_Cons:
  "s \<in> lang (rx_cat (r # rs)) \<longleftrightarrow> (\<exists>u v. s = u @ v \<and> u \<in> lang r \<and> v \<in> lang (rx_cat rs))"
  by (simp add: rx_cat_def)

lemma lang_rep_classes: "rx_rep n (RCls p) = rx_cat (map RCls (replicate n p))"
  by (simp add: rx_rep_def)

text \<open>
  A fixed-length pattern, one class per character: \<open>fixed r ps\<close> says \<open>r\<close> matches exactly the
  strings whose characters lie in the classes \<open>ps\<close>, one by one.
\<close>

definition fixed :: "rx \<Rightarrow> (unit16 \<Rightarrow> bool) list \<Rightarrow> bool" where
  "fixed r ps \<longleftrightarrow> (\<forall>s. s \<in> lang r \<longleftrightarrow> list_all2 (\<lambda>p c. p c) ps s)"

lemma fixed_cls: "fixed (RCls p) [p]"
  by (auto simp: fixed_def list_all2_Cons1)

lemma fixed_rep: "fixed (rx_rep n (RCls p)) (replicate n p)"
  by (simp only: fixed_def lang_rep_classes lang_classes) simp

lemma fixed_lit: "fixed (rx_lit t) (map (\<lambda>c u. u = c) (js t))"
proof -
  have "rx_lit t = rx_cat (map RCls (map (\<lambda>c u. u = c) (js t)))"
    by (simp add: rx_lit_def comp_def)
  then show ?thesis by (simp only: fixed_def lang_classes) simp
qed

lemma fixed_cat_Nil: "fixed (rx_cat []) []"
  by (simp add: fixed_def rx_cat_def)

lemma fixed_cat_Cons:
  assumes "fixed r ps" and "fixed (rx_cat rs) qs"
  shows "fixed (rx_cat (r # rs)) (ps @ qs)"
  using assms unfolding fixed_def lang_cat_Cons list_all2_append1
  by (metis list_all2_lengthD)

lemmas fixed_intros = fixed_cat_Nil fixed_cat_Cons fixed_cls fixed_rep fixed_lit

lemma fixed_match: "fixed r ps \<Longrightarrow> rx_match r s \<longleftrightarrow> list_all2 (\<lambda>p c. p c) ps s"
  by (simp add: fixed_def rx_match_lang)

lemma lang_rep_cls: "s \<in> lang (rx_rep n (RCls p)) \<longleftrightarrow> length s = n \<and> list_all p s"
  unfolding lang_rep_classes lang_classes
  by (auto simp: list_all2_conv_all_nth list_all_length)

lemma lang_upto_cls: "s \<in> lang (rx_upto n (RCls p)) \<longleftrightarrow> length s \<le> n \<and> list_all p s"
proof (induction n arbitrary: s)
  case 0
  show ?case by auto
next
  case (Suc n)
  show ?case
    by (cases s) (auto simp add: Suc lang_cls_seq simp del: lang.simps(4))
qed

lemma lang_star_cls: "s \<in> lang (RStar (RCls p)) \<longleftrightarrow> list_all p s"
proof (induction s)
  case Nil
  show ?case by (auto intro: exI [of _ "[]"])
next
  case (Cons c s)
  show ?case by (simp only: star_Cons) (use Cons in auto)
qed

lemma lang_plus_cls: "s \<in> lang (rx_plus (RCls p)) \<longleftrightarrow> s \<noteq> [] \<and> list_all p s"
  by (cases s) (simp_all only: rx_plus_def lang_cls_Cons lang_star_cls, auto)

lemma lang_lit: "s \<in> lang (rx_lit t) \<longleftrightarrow> s = js t"
proof -
  have "s \<in> lang (rx_lit t) \<longleftrightarrow> list_all2 (\<lambda>p c. p c) (map (\<lambda>c u. u = c) (js t)) s"
    using fixed_lit [of t] by (simp add: fixed_def)
  also have "\<dots> \<longleftrightarrow> s = js t"
    by (auto simp: list_all2_conv_all_nth list_eq_iff_nth_eq)
  finally show ?thesis .
qed

lemma lang_cat_two: "lang (rx_cat [r, q]) = lang (RSeq r q)"
  by (simp add: rx_cat_def)

lemma match_head_upto:
  "rx_match (rx_cat [RCls p, rx_upto n (RCls q)]) s \<longleftrightarrow>
     (case s of [] \<Rightarrow> False | c # u \<Rightarrow> p c \<and> length u \<le> n \<and> list_all q u)"
proof (cases s)
  case Nil
  then show ?thesis by (simp add: rx_match_lang rx_cat_def)
next
  case (Cons c u)
  then show ?thesis
    by (simp only: rx_match_lang lang_cat_two lang_cls_Cons lang_upto_cls) simp
qed

end
