(* ===== verification/Js_Value.thy ===== *)
theory Js_Value
  imports Js_Prelude
begin

text \<open>
  ECMAScript values as the validators inspect them: property descriptors, own keys, prototypes,
  property reads, strict equality and \<open>structuredClone\<close>. The lemmas say what an
  exact-keys check gives about later reads and about the clone that the validators return.
\<close>

section \<open>Numbers\<close>

datatype jsnum = JNaN | JPosInf | JNegInf | JFin rat

fun num_eq :: "jsnum \<Rightarrow> jsnum \<Rightarrow> bool" where
  "num_eq (JFin a) (JFin b) \<longleftrightarrow> a = b"
| "num_eq JPosInf JPosInf \<longleftrightarrow> True"
| "num_eq JNegInf JNegInf \<longleftrightarrow> True"
| "num_eq _ _ \<longleftrightarrow> False"

fun num_less :: "jsnum \<Rightarrow> jsnum \<Rightarrow> bool" where
  "num_less (JFin a) (JFin b) \<longleftrightarrow> a < b"
| "num_less JNegInf (JFin _) \<longleftrightarrow> True"
| "num_less JNegInf JPosInf \<longleftrightarrow> True"
| "num_less (JFin _) JPosInf \<longleftrightarrow> True"
| "num_less _ _ \<longleftrightarrow> False"

text \<open>\<open>Number.isSafeInteger\<close>: an integer of magnitude at most \<open>2^53 - 1\<close>.\<close>

definition num_is_safe_integer :: "jsnum \<Rightarrow> bool" where
  "num_is_safe_integer n = (case n of
     JFin q \<Rightarrow> of_int \<lfloor>q\<rfloor> = q \<and> \<bar>q\<bar> \<le> 9007199254740991 | _ \<Rightarrow> False)"

definition num_is_finite :: "jsnum \<Rightarrow> bool" where
  "num_is_finite n = (case n of JFin _ \<Rightarrow> True | _ \<Rightarrow> False)"

section \<open>Values\<close>

datatype jskey = KStr jsstr | KSym nat

datatype jsval =
    JUndefined
  | JNull
  | JBool bool
  | JNum jsnum
  | JBigInt int
  | JStr jsstr
  | JSymbol nat
  | JFun nat bool \<comment> \<open>identity; whether it is a generator function\<close>
  | JOpaque nat \<comment> \<open>an empty frozen null-prototype object, by identity\<close>
  | JObjectPrototype
  | JArray "jsval list"
  | JObj jsval "(jskey \<times> jsdesc) list" \<comment> \<open>prototype, own properties\<close>
  | JProxy bool "(jskey \<times> jsval) list" \<comment> \<open>whether callable; answers of its get trap\<close>
and jsdesc =
    DataDesc bool jsval \<comment> \<open>enumerable, value\<close>
  | AccessorDesc bool "jsval option" \<comment> \<open>enumerable, what the getter returns\<close>

abbreviation JInt :: "int \<Rightarrow> jsval" where
  "JInt i \<equiv> JNum (JFin (of_int i))"

abbreviation lit :: "string \<Rightarrow> jsval" where
  "lit s \<equiv> JStr (js s)"

abbreviation key :: "string \<Rightarrow> jskey" where
  "key s \<equiv> KStr (js s)"

fun is_string :: "jsval \<Rightarrow> bool" where
  "is_string (JStr _) = True"
| "is_string _ = False"

text \<open>\<open>typeof v === "function"\<close> and \<open>v !== null && typeof v === "object"\<close>.\<close>

fun is_function :: "jsval \<Rightarrow> bool" where
  "is_function (JFun _ _) = True"
| "is_function (JProxy c _) = c"
| "is_function _ = False"

fun is_object :: "jsval \<Rightarrow> bool" where
  "is_object (JOpaque _) = True"
| "is_object JObjectPrototype = True"
| "is_object (JArray _) = True"
| "is_object (JObj _ _) = True"
| "is_object (JProxy c _) = (\<not> c)"
| "is_object _ = False"

fun is_proxy :: "jsval \<Rightarrow> bool" where
  "is_proxy (JProxy _ _) = True"
| "is_proxy _ = False"

fun is_array :: "jsval \<Rightarrow> bool" where
  "is_array (JArray _) = True"
| "is_array _ = False"

fun is_boolean :: "jsval \<Rightarrow> bool" where
  "is_boolean (JBool _) = True"
| "is_boolean _ = False"

definition is_prim :: "jsval \<Rightarrow> bool" where
  "is_prim v \<longleftrightarrow> \<not> is_object v \<and> \<not> is_function v"

text \<open>\<open>Object.prototype\<close>: its own properties are the specified methods, none enumerable.\<close>

definition object_prototype_keys :: "jskey list" where
  "object_prototype_keys = map key
     [''constructor'', ''__defineGetter__'', ''__defineSetter__'', ''hasOwnProperty'',
      ''__lookupGetter__'', ''__lookupSetter__'', ''isPrototypeOf'', ''propertyIsEnumerable'',
      ''toString'', ''valueOf'', ''__proto__'', ''toLocaleString'']"

fun own_keys :: "jsval \<Rightarrow> jskey list" where
  "own_keys (JObj _ ps) = remdups (map fst ps)"
| "own_keys JObjectPrototype = object_prototype_keys"
| "own_keys _ = []"

fun own_desc :: "jsval \<Rightarrow> jskey \<Rightarrow> jsdesc option" where
  "own_desc (JObj _ ps) k = map_of ps k"
| "own_desc JObjectPrototype k =
     (if k \<in> set object_prototype_keys then Some (AccessorDesc False None) else None)"
| "own_desc _ _ = None"

fun proto_of :: "jsval \<Rightarrow> jsval" where
  "proto_of (JObj p _) = p"
| "proto_of (JArray _) = JObj JObjectPrototype []"
| "proto_of (JFun _ _) = JObj JObjectPrototype []"
| "proto_of _ = JNull"

definition desc_value :: "jsdesc \<Rightarrow> jsval option" where
  "desc_value d = (case d of DataDesc _ v \<Rightarrow> Some v | AccessorDesc _ r \<Rightarrow> r)"

text \<open>\<open>value[key]\<close>: \<open>None\<close> when a getter on the way throws.\<close>

fun js_get :: "jsval \<Rightarrow> jskey \<Rightarrow> jsval option" where
  "js_get (JObj p ps) k = (case map_of ps k of
     Some d \<Rightarrow> desc_value d | None \<Rightarrow> js_get p k)"
| "js_get (JProxy _ answers) k = (case map_of answers k of
     Some v \<Rightarrow> Some v | None \<Rightarrow> Some JUndefined)"
| "js_get _ _ = Some JUndefined"

definition fld :: "jsval \<Rightarrow> string \<Rightarrow> jsval" where
  "fld v k = (case js_get v (key k) of Some x \<Rightarrow> x | None \<Rightarrow> JUndefined)"

text \<open>The value of an own data property.\<close>

definition own_value :: "jsval \<Rightarrow> jskey \<Rightarrow> jsval" where
  "own_value v k = (case own_desc v k of Some (DataDesc _ x) \<Rightarrow> x | _ \<Rightarrow> JUndefined)"

section \<open>Strict equality\<close>

text \<open>
  \<open>===\<close>. Objects that are trees here carry no identity; the sources compare them only with
  primitives, where the answer is \<open>False\<close>.
\<close>

definition js_seq :: "jsval \<Rightarrow> jsval \<Rightarrow> bool" where
  "js_seq a b = (case a of
     JNum m \<Rightarrow> (case b of JNum n \<Rightarrow> num_eq m n | _ \<Rightarrow> False)
   | JFun i _ \<Rightarrow> (case b of JFun j _ \<Rightarrow> i = j | _ \<Rightarrow> False)
   | JArray _ \<Rightarrow> False
   | JObj _ _ \<Rightarrow> False
   | JProxy _ _ \<Rightarrow> False
   | _ \<Rightarrow> a = b)"

text \<open>\<open>[...].includes(v)\<close> for an array of string literals.\<close>

definition array_includes :: "string list \<Rightarrow> jsval \<Rightarrow> bool" where
  "array_includes ss v \<longleftrightarrow> list_ex (\<lambda>s. v = lit s) ss"

lemma num_eqD: "num_eq a b \<Longrightarrow> a = b"
  by (cases "(a, b)" rule: num_eq.cases) auto

lemma num_eq_sym: "num_eq a b = num_eq b a"
  by (cases "(a, b)" rule: num_eq.cases) auto

lemma js_seq_str [simp]: "js_seq v (JStr s) \<longleftrightarrow> v = JStr s"
  by (cases v) (auto simp: js_seq_def)

lemma js_seq_str2 [simp]: "js_seq (JStr s) v \<longleftrightarrow> v = JStr s"
  by (auto simp: js_seq_def)

lemma js_seq_fin [simp]: "js_seq v (JNum (JFin q)) \<longleftrightarrow> v = JNum (JFin q)"
  by (cases v) (auto simp: js_seq_def dest: num_eqD)

lemma js_seq_const [simp]:
  "js_seq v (JBool b) \<longleftrightarrow> v = JBool b" "js_seq v JNull \<longleftrightarrow> v = JNull"
  "js_seq v JUndefined \<longleftrightarrow> v = JUndefined"
  by (cases v; simp add: js_seq_def)+

lemma js_seq_strings: "is_string a \<Longrightarrow> js_seq a b \<longleftrightarrow> a = b"
  by (cases a) auto

lemma js_seqD: "js_seq a b \<Longrightarrow> is_prim a \<Longrightarrow> a = b"
  by (cases a) (auto simp: js_seq_def is_prim_def dest: num_eqD split: jsval.splits)

lemma is_prim_str [simp]: "is_prim (JStr s)"
  and is_prim_num [simp]: "is_prim (JNum n)"
  and is_prim_bool [simp]: "is_prim (JBool b)"
  and is_prim_null [simp]: "is_prim JNull"
  by (simp_all add: is_prim_def)

lemma is_stringE: "is_string v \<Longrightarrow> (\<And>s. v = JStr s \<Longrightarrow> P) \<Longrightarrow> P"
  by (cases v) auto

lemma array_includes_iff [simp]: "array_includes ss v \<longleftrightarrow> (\<exists>s \<in> set ss. v = lit s)"
  by (auto simp: array_includes_def list_ex_iff)

section \<open>structuredClone\<close>

text \<open>
  The own enumerable string-keyed properties, read and cloned, on a fresh ordinary object;
  \<open>None\<close> when the algorithm throws (functions, symbols, proxies, throwing getters).
\<close>

fun structured_clone :: "jsval \<Rightarrow> jsval option"
and clone_list :: "jsval list \<Rightarrow> jsval list option"
and clone_props :: "jskey list \<Rightarrow> (jskey \<times> jsdesc) list \<Rightarrow> (jskey \<times> jsdesc) list option"
and clone_desc :: "jsdesc \<Rightarrow> jsval option option"
where
  "structured_clone JUndefined = Some JUndefined"
| "structured_clone JNull = Some JNull"
| "structured_clone (JBool b) = Some (JBool b)"
| "structured_clone (JNum n) = Some (JNum n)"
| "structured_clone (JBigInt i) = Some (JBigInt i)"
| "structured_clone (JStr s) = Some (JStr s)"
| "structured_clone (JSymbol _) = None"
| "structured_clone (JFun _ _) = None"
| "structured_clone (JOpaque _) = Some (JObj JObjectPrototype [])"
| "structured_clone JObjectPrototype = Some (JObj JObjectPrototype [])"
| "structured_clone (JArray xs) = map_option JArray (clone_list xs)"
| "structured_clone (JObj _ ps) = map_option (JObj JObjectPrototype) (clone_props [] ps)"
| "structured_clone (JProxy _ _) = None"
| "clone_list [] = Some []"
| "clone_list (x # xs) = (case structured_clone x of None \<Rightarrow> None
     | Some y \<Rightarrow> map_option (\<lambda>ys. y # ys) (clone_list xs))"
| "clone_props seen [] = Some []"
| "clone_props seen ((k, d) # ps) =
     (if k \<in> set seen then clone_props seen ps
      else case k of
        KSym _ \<Rightarrow> clone_props (k # seen) ps
      | KStr _ \<Rightarrow> (case clone_desc d of
          None \<Rightarrow> None
        | Some None \<Rightarrow> clone_props (k # seen) ps
        | Some (Some w) \<Rightarrow> map_option (\<lambda>r. (k, DataDesc True w) # r) (clone_props (k # seen) ps)))"
| "clone_desc (DataDesc e v) = (if e then map_option Some (structured_clone v) else Some None)"
| "clone_desc (AccessorDesc e r) = (if e then (case r of None \<Rightarrow> None
     | Some v \<Rightarrow> map_option Some (structured_clone v)) else Some None)"

lemma clone_prim: "is_prim v \<Longrightarrow> structured_clone v = Some w \<Longrightarrow> w = v"
  by (cases v) (auto simp: is_prim_def)

lemma clone_props_ConsE:
  assumes "clone_props seen ((k, d) # ps) = Some rs"
  obtains (seen) "k \<in> set seen" "clone_props seen ps = Some rs"
    | (skip) "k \<notin> set seen" "clone_props (k # seen) ps = Some rs"
        "\<And>s. k = KStr s \<Longrightarrow> clone_desc d = Some None"
    | (copy) s w rs' where "k \<notin> set seen" "k = KStr s" "clone_desc d = Some (Some w)"
        "clone_props (k # seen) ps = Some rs'" "rs = (k, DataDesc True w) # rs'"
  using assms by (cases k) (auto split: if_splits option.splits)

lemma clone_props_keys:
  "clone_props seen ps = Some rs \<Longrightarrow>
     distinct (map fst rs) \<and> set (map fst rs) \<inter> set seen = {}"
proof (induction ps arbitrary: seen rs)
  case (Cons kd ps)
  obtain k d where kd: "kd = (k, d)" by (cases kd)
  from Cons.prems [unfolded kd] show ?case
  proof (cases rule: clone_props_ConsE)
    case seen
    from Cons.IH [OF seen(2)] show ?thesis .
  next
    case skip
    from Cons.IH [OF skip(2)] show ?thesis by simp
  next
    case (copy s w rs')
    from Cons.IH [OF copy(4)] copy(1,5) show ?thesis by auto
  qed
qed simp

lemma clone_props_get:
  "clone_props seen ps = Some rs \<Longrightarrow> KStr s \<notin> set seen \<Longrightarrow>
     map_of ps (KStr s) = Some (DataDesc True x) \<Longrightarrow>
     \<exists>y. structured_clone x = Some y \<and> map_of rs (KStr s) = Some (DataDesc True y)"
proof (induction ps arbitrary: seen rs)
  case (Cons kd ps)
  obtain k d where kd: "kd = (k, d)" by (cases kd)
  from Cons.prems(1) [unfolded kd] show ?case
  proof (cases rule: clone_props_ConsE)
    case seen
    with Cons.prems(2,3) Cons.IH [OF seen(2)] show ?thesis by (auto simp: kd split: if_splits)
  next
    case skip
    with Cons.prems(2,3) Cons.IH [OF skip(2)] show ?thesis by (auto simp: kd split: if_splits)
  next
    case (copy t w rs')
    with Cons.prems(2,3) Cons.IH [OF copy(4)] show ?thesis by (auto simp: kd split: if_splits)
  qed
qed simp

lemma clone_props_only:
  "clone_props seen ps = Some rs \<Longrightarrow> set (map fst rs) \<subseteq> set (map fst ps)"
proof (induction ps arbitrary: seen rs)
  case (Cons kd ps)
  obtain k d where kd: "kd = (k, d)" by (cases kd)
  from Cons.prems [unfolded kd] show ?case
  proof (cases rule: clone_props_ConsE)
    case seen
    from Cons.IH [OF seen(2)] show ?thesis by (auto simp: kd)
  next
    case skip
    from Cons.IH [OF skip(2)] show ?thesis by (auto simp: kd)
  next
    case (copy s w rs')
    from Cons.IH [OF copy(4)] copy(5) show ?thesis by (auto simp: kd)
  qed
qed simp

text \<open>A clone is its own clone.\<close>

lemma clone_idem_all:
  "structured_clone v = Some w \<Longrightarrow> structured_clone w = Some w"
  "clone_list xs = Some ys \<Longrightarrow> clone_list ys = Some ys"
  "clone_props seen ps = Some rs \<Longrightarrow>
     (\<forall>seen'. set seen' \<inter> set (map fst rs) = {} \<longrightarrow> clone_props seen' rs = Some rs)"
  "clone_desc d = Some (Some u) \<Longrightarrow> structured_clone u = Some u"
proof (induction v and xs and seen ps and d arbitrary: w and ys and rs and u
    rule: structured_clone_clone_list_clone_props_clone_desc.induct)
  case (17 seen k d ps)
  from "17.prems" show ?case
  proof (cases rule: clone_props_ConsE)
    case seen
    then show ?thesis using "17.IH"(1) by simp
  next
    case skip
    then show ?thesis using "17.IH" by (cases k) auto
  next
    case (copy s w rs')
    have w: "structured_clone w = Some w"
      by (rule "17.IH"(2) [OF copy(1,2,3)])
    have "\<forall>seen'. set seen' \<inter> set (map fst rs') = {} \<longrightarrow> clone_props seen' rs' = Some rs'"
      by (rule "17.IH"(4) [OF copy(1,2,3) refl copy(4)])
    moreover have "k \<notin> set (map fst rs')"
      using clone_props_keys [OF copy(4)] by auto
    ultimately show ?thesis using copy(2,5) w by auto
  qed
qed (auto split: option.splits if_splits)

lemmas clone_idem = clone_idem_all(1)

section \<open>Plain data objects\<close>

definition enumerable_data :: "jsval \<Rightarrow> jskey \<Rightarrow> bool" where
  "enumerable_data v k = (case own_desc v k of Some (DataDesc e _) \<Rightarrow> e | _ \<Rightarrow> False)"

definition plain_object :: "jsval \<Rightarrow> bool" where
  "plain_object v \<longleftrightarrow> \<not> is_proxy v \<and> is_object v \<and> \<not> is_array v \<and>
     (proto_of v = JObjectPrototype \<or> proto_of v = JNull)"

text \<open>An object with exactly the given own keys, all enumerable data properties.\<close>

definition exact_object :: "jsval \<Rightarrow> string list \<Rightarrow> bool" where
  "exact_object v ks \<longleftrightarrow> plain_object v \<and> length (own_keys v) = length ks \<and>
     list_all (\<lambda>k. list_ex (\<lambda>s. k = key s) ks) (own_keys v) \<and>
     list_all (enumerable_data v) (own_keys v)"

definition plain_obj :: "(string \<times> jsval) list \<Rightarrow> jsval" where
  "plain_obj kvs = JObj JObjectPrototype (map (\<lambda>(k, v). (key k, DataDesc True v)) kvs)"

lemma distinct_own_keys: "distinct (own_keys v)"
  by (cases v) (simp_all add: object_prototype_keys_def)

lemma own_desc_iff_keys: "own_desc v k \<noteq> None \<longleftrightarrow> k \<in> set (own_keys v)"
  by (cases v) (auto simp: map_of_eq_None_iff)

lemma exact_own_keys:
  assumes "exact_object v ks" and "distinct ks"
  shows "set (own_keys v) = key ` set ks"
proof (rule card_subset_eq)
  show "finite (key ` set ks)" by simp
  show "set (own_keys v) \<subseteq> key ` set ks"
    using assms by (auto simp: exact_object_def list_all_iff list_ex_iff)
  have "inj_on key (set ks)" by (rule inj_onI) simp
  then show "card (set (own_keys v)) = card (key ` set ks)"
    using assms distinct_own_keys [of v]
    by (simp add: exact_object_def card_image distinct_card)
qed

lemma own_data_fld: "own_desc v (key s) = Some (DataDesc e x) \<Longrightarrow> fld v s = x"
  by (cases v) (auto simp: fld_def desc_value_def split: if_splits)

lemma exact_own_desc:
  assumes "exact_object v ks" and "distinct ks" and "s \<in> set ks"
  shows "own_desc v (key s) = Some (DataDesc True (fld v s))"
proof -
  from assms have "key s \<in> set (own_keys v)"
    using exact_own_keys by auto
  with assms(1) have "enumerable_data v (key s)"
    by (auto simp: exact_object_def list_all_iff)
  then obtain x where "own_desc v (key s) = Some (DataDesc True x)"
    by (auto simp: enumerable_data_def split: option.splits jsdesc.splits)
  then show ?thesis using own_data_fld by simp
qed

text \<open>The normalized options of the modules: the own data properties on a null-prototype object.\<close>

definition own_copy :: "jsval \<Rightarrow> jsval" where
  "own_copy v = JObj JNull (map (\<lambda>k. (k, DataDesc True (own_value v k))) (own_keys v))"

lemma own_copy_keys: "own_keys (own_copy v) = own_keys v"
  by (simp add: own_copy_def comp_def distinct_remdups_id distinct_own_keys)

lemma own_copy_exact:
  assumes "exact_object v ks" and "distinct ks"
  shows "exact_object (own_copy v) ks" and "s \<in> set ks \<Longrightarrow> fld (own_copy v) s = fld v s"
proof -
  have desc: "own_desc (own_copy v) k =
      (if k \<in> set (own_keys v) then Some (DataDesc True (own_value v k)) else None)" for k
    by (simp add: own_copy_def map_of_map_key)
  show "exact_object (own_copy v) ks"
    using assms(1) desc unfolding exact_object_def own_copy_keys
    by (auto simp: own_copy_def plain_object_def list_all_iff enumerable_data_def)
  assume s: "s \<in> set ks"
  with exact_own_keys [OF assms] have "key s \<in> set (own_keys v)" by simp
  then have "fld (own_copy v) s = own_value v (key s)" using desc own_data_fld by simp
  with exact_own_desc [OF assms s] show "fld (own_copy v) s = fld v s" by (simp add: own_value_def)
qed

text \<open>
  The options check that several modules repeat, with their own error: a plain object with exactly
  these own enumerable data properties, which are copied.
\<close>

definition exact_options :: "'e \<Rightarrow> jsval \<Rightarrow> string list \<Rightarrow> 'e + jsval" where
  "exact_options e v ks =
     (if is_proxy v \<or> v = JNull \<or> \<not> is_object v \<or> is_array v then Inl e
      else guarded
        ([ensure (proto_of v = JObjectPrototype \<or> proto_of v = JNull) e,
          ensure (length (own_keys v) = length ks \<and>
                  list_all (\<lambda>k. list_ex (\<lambda>s. k = key s) ks) (own_keys v)) e]
         @ map (\<lambda>k. ensure (enumerable_data v k) e) (own_keys v))
        (Inr (own_copy v)))"

lemma exact_options_iff: "exact_options e v ks = Inr opts \<longleftrightarrow> exact_object v ks \<and> opts = own_copy v"
  by (cases v) (auto simp: exact_options_def exact_object_def plain_object_def list_all_iff)

lemma exact_options_fld:
  assumes "exact_options e v ks = Inr opts" and "distinct ks"
  shows "s \<in> set ks \<Longrightarrow> fld opts s = fld v s"
  using assms own_copy_exact(2) [of v ks s] by (simp add: exact_options_iff)

lemma exact_cases:
  assumes "exact_object v ks"
  obtains (obj) p ps where "v = JObj p ps" | (handle) n where "v = JOpaque n" "ks = []"
  using assms
  by (cases v) (auto simp: exact_object_def plain_object_def enumerable_data_def
      object_prototype_keys_def)

text \<open>
  The clone of an object that passed an exact-keys check passes it too, and its fields are the
  clones of the fields.
\<close>

lemma exact_clone_obj:
  assumes ex: "exact_object (JObj p ps) ks" and "distinct ks"
    and cl: "clone_props [] ps = Some rs"
  shows "exact_object (JObj JObjectPrototype rs) ks"
    and "s \<in> set ks \<Longrightarrow> structured_clone (fld (JObj p ps) s) = Some (fld (JObj JObjectPrototype rs) s)"
proof -
  let ?v = "JObj p ps" and ?w = "JObj JObjectPrototype rs"
  have get: "\<exists>y. structured_clone (fld ?v t) = Some y \<and> map_of rs (key t) = Some (DataDesc True y)"
    if "t \<in> set ks" for t
  proof (rule clone_props_get [OF cl])
    show "map_of ps (key t) = Some (DataDesc True (fld ?v t))"
      using exact_own_desc [OF ex \<open>distinct ks\<close> that] by simp
  qed simp
  have "set (own_keys ?w) = key ` set ks"
  proof
    show "set (own_keys ?w) \<subseteq> key ` set ks"
      using clone_props_only [OF cl] exact_own_keys [OF ex \<open>distinct ks\<close>] by auto
    show "key ` set ks \<subseteq> set (own_keys ?w)"
    proof
      fix k assume "k \<in> key ` set ks"
      then obtain t where "t \<in> set ks" "k = key t" by blast
      with get [of t] show "k \<in> set (own_keys ?w)"
        by (metis own_desc.simps(1) own_desc_iff_keys option.distinct(1))
    qed
  qed
  moreover have "length (own_keys ?w) = length ks"
  proof -
    have "card (set (own_keys ?w)) = card (set ks)"
      unfolding calculation by (rule card_image) (simp add: inj_on_def)
    then show ?thesis
      using distinct_card [OF distinct_own_keys [of ?w]] distinct_card [OF \<open>distinct ks\<close>]
      by (simp only:)
  qed
  moreover have "enumerable_data ?w (key t)" if "t \<in> set ks" for t
    using get [OF that] by (auto simp: enumerable_data_def)
  ultimately show "exact_object ?w ks"
    by (auto simp: exact_object_def plain_object_def list_all_iff list_ex_iff)
  show "structured_clone (fld ?v s) = Some (fld ?w s)" if "s \<in> set ks"
    using get [OF that] own_data_fld [of ?w s] by auto
qed

lemma exact_clone:
  assumes "exact_object v ks" and "distinct ks" and "structured_clone v = Some w"
  shows "exact_object w ks"
    and "s \<in> set ks \<Longrightarrow> structured_clone (fld v s) = Some (fld w s)"
proof -
  have "exact_object w ks \<and> (s \<in> set ks \<longrightarrow> structured_clone (fld v s) = Some (fld w s))"
    using assms(1)
  proof (cases rule: exact_cases)
    case (obj p ps)
    with assms(3) obtain rs where "clone_props [] ps = Some rs" "w = JObj JObjectPrototype rs"
      by auto
    with exact_clone_obj assms(1,2) obj show ?thesis by blast
  next
    case (handle n)
    with assms(3) have "w = JObj JObjectPrototype []" by simp
    with handle show ?thesis by (simp add: exact_object_def plain_object_def)
  qed
  then show "exact_object w ks" "s \<in> set ks \<Longrightarrow> structured_clone (fld v s) = Some (fld w s)"
    by simp_all
qed

lemma exact_clone_prim:
  assumes "exact_object v ks" and "distinct ks" and "structured_clone v = Some w"
    and "s \<in> set ks" and "is_prim (fld v s)"
  shows "fld w s = fld v s"
  using exact_clone(2) [OF assms(1-4)] clone_prim assms(5) by blast

text \<open>Primitives that \<open>structuredClone\<close> accepts: everything but symbols.\<close>

fun data_prim :: "jsval \<Rightarrow> bool" where
  "data_prim (JStr _) = True"
| "data_prim (JNum _) = True"
| "data_prim (JBool _) = True"
| "data_prim (JBigInt _) = True"
| "data_prim JNull = True"
| "data_prim JUndefined = True"
| "data_prim _ = False"

lemma clone_data_prim: "data_prim v \<Longrightarrow> structured_clone v = Some v"
  by (cases v) auto

lemma clone_props_total:
  "(\<And>k d. map_of ps k = Some d \<Longrightarrow> k \<notin> set seen \<Longrightarrow>
      \<exists>s x y. k = KStr s \<and> d = DataDesc True x \<and> structured_clone x = Some y) \<Longrightarrow>
     \<exists>rs. clone_props seen ps = Some rs"
proof (induction ps arbitrary: seen)
  case (Cons kd ps)
  obtain k d where kd: "kd = (k, d)" by (cases kd)
  show ?case
  proof (cases "k \<in> set seen")
    case True
    have "\<exists>rs. clone_props seen ps = Some rs"
      by (rule Cons.IH, rule Cons.prems) (use True in \<open>auto simp: kd\<close>)
    with True show ?thesis by (simp add: kd)
  next
    case False
    from Cons.prems [of k d] False obtain s x y
      where d: "k = KStr s" "d = DataDesc True x" "structured_clone x = Some y"
      by (auto simp: kd)
    have "\<exists>rs. clone_props (k # seen) ps = Some rs"
      by (rule Cons.IH, rule Cons.prems) (auto simp: kd)
    with False d show ?thesis by (auto simp: kd)
  qed
qed simp

lemma exact_clone_total:
  assumes ex: "exact_object v ks" and "distinct ks"
    and fields: "\<And>s. s \<in> set ks \<Longrightarrow> structured_clone (fld v s) \<noteq> None"
  shows "\<exists>w. structured_clone v = Some w"
  using ex
proof (cases rule: exact_cases)
  case (obj p ps)
  have "\<exists>rs. clone_props [] ps = Some rs"
  proof (rule clone_props_total)
    fix k d assume kd: "map_of ps k = Some d"
    then have "own_desc v k \<noteq> None" by (simp add: obj)
    then have "k \<in> set (own_keys v)" by (simp only: own_desc_iff_keys)
    then obtain s where s: "s \<in> set ks" "k = key s"
      using exact_own_keys [OF ex \<open>distinct ks\<close>] by auto
    then have "d = DataDesc True (fld v s)"
      using exact_own_desc [OF ex \<open>distinct ks\<close> s(1)] kd obj by simp
    with s fields show "\<exists>s x y. k = KStr s \<and> d = DataDesc True x \<and> structured_clone x = Some y"
      by blast
  qed
  with obj show ?thesis by auto
qed auto

text \<open>Literal records.\<close>

lemma fld_plain_obj:
  "fld (plain_obj kvs) k = (case map_of kvs k of Some v \<Rightarrow> v | None \<Rightarrow> JUndefined)"
proof -
  have "map_of (map (\<lambda>(k, v). (key k, DataDesc True v)) kvs) (key k) =
      map_option (DataDesc True) (map_of kvs k)"
    by (induction kvs) auto
  then show ?thesis
    by (auto simp: fld_def plain_obj_def desc_value_def split: option.splits)
qed

lemma own_keys_plain_obj: "distinct (map fst kvs) \<Longrightarrow> own_keys (plain_obj kvs) = map (key \<circ> fst) kvs"
proof -
  assume "distinct (map fst kvs)"
  then have "distinct (map (key \<circ> fst) kvs)"
    unfolding map_map [symmetric] distinct_map by (simp add: inj_on_def)
  then show ?thesis
    by (simp add: plain_obj_def comp_def split_beta distinct_remdups_id)
qed

lemma exact_plain_obj:
  assumes "distinct (map fst kvs)" and "length ks = length kvs" and "set (map fst kvs) \<subseteq> set ks"
  shows "exact_object (plain_obj kvs) ks"
proof -
  have "enumerable_data (plain_obj kvs) (key k)" if "k \<in> fst ` set kvs" for k
  proof -
    from that have "map_of kvs k \<noteq> None" by (simp add: map_of_eq_None_iff)
    moreover have "own_desc (plain_obj kvs) (key k) = map_option (DataDesc True) (map_of kvs k)"
      by (simp add: plain_obj_def, induction kvs) auto
    ultimately show ?thesis by (auto simp: enumerable_data_def)
  qed
  then show ?thesis
    using assms
    by (auto simp: exact_object_def own_keys_plain_obj list_all_iff list_ex_iff)
      (auto simp: plain_obj_def plain_object_def)
qed

lemma clone_plain_obj:
  assumes "distinct (map fst kvs)" and "\<forall>(k, v) \<in> set kvs. structured_clone v = Some v"
  shows "structured_clone (plain_obj kvs) = Some (plain_obj kvs)"
proof -
  have "clone_props seen (map (\<lambda>(k, v). (key k, DataDesc True v)) kvs) =
      Some (map (\<lambda>(k, v). (key k, DataDesc True v)) kvs)"
    if "\<forall>k \<in> fst ` set kvs. key k \<notin> set seen" for seen
    using assms that
  proof (induction kvs arbitrary: seen)
    case (Cons kv kvs)
    obtain k v where kv: "kv = (k, v)" by (cases kv)
    have "clone_props (key k # seen) (map (\<lambda>(k, v). (key k, DataDesc True v)) kvs) =
        Some (map (\<lambda>(k, v). (key k, DataDesc True v)) kvs)"
      by (rule Cons.IH) (use Cons.prems in \<open>auto simp: kv rev_image_eqI\<close>)
    with Cons.prems show ?case by (simp add: kv)
  qed simp
  then show ?thesis by (simp add: plain_obj_def)
qed

lemma exact_clone_data:
  assumes "exact_object v ks" and "distinct ks" and "structured_clone v = Some w"
    and "s \<in> set ks" and "data_prim (fld v s)"
  shows "fld w s = fld v s"
  using exact_clone(2) [OF assms(1-4)] clone_data_prim [OF assms(5)] by simp

lemma exact_clone_all:
  assumes "exact_object v ks" and "distinct ks" and "structured_clone v = Some w"
    and "list_all (\<lambda>k. data_prim (fld v k)) ks"
  shows "exact_object w ks \<and> (\<forall>k \<in> set ks. fld w k = fld v k)"
  using exact_clone(1) [OF assms(1-3)] exact_clone_data [OF assms(1-3)] assms(4)
  by (simp add: list_all_iff)

section \<open>Frozen records\<close>

text \<open>\<open>exactFrozenRecord\<close>: a null-prototype record with the given own values.\<close>

definition exactFrozenRecord :: "(string \<times> jsval) list \<Rightarrow> jsval" where
  "exactFrozenRecord kvs = JObj JNull (map (\<lambda>(k, v). (key k, DataDesc True v)) kvs)"

lemma fld_frozen: "fld (exactFrozenRecord kvs) k = (case map_of kvs k of Some v \<Rightarrow> v | None \<Rightarrow> JUndefined)"
proof -
  have "map_of (map (\<lambda>(k, v). (key k, DataDesc True v)) kvs) (key k) = map_option (DataDesc True) (map_of kvs k)"
    by (induction kvs) auto
  then show ?thesis
    by (auto simp: fld_def exactFrozenRecord_def desc_value_def split: option.splits)
qed

end
