(* ===== verification/Js_Text.thy ===== *)
theory Js_Text
  imports Js_Value
begin

text \<open>
  The textual library functions the sources call: \<open>BigInt(string)\<close> on decimal digits and
  \<open>BigInt.prototype.toString\<close>, \<open>Date.parse\<close> and \<open>Date.prototype.toISOString\<close>, POSIX
  \<open>path.resolve\<close> on absolute paths, and UTF-8 encoding of UTF-16 strings.
\<close>

section \<open>Decimal integers\<close>

definition is_digit :: "unit16 \<Rightarrow> bool" where
  "is_digit c \<longleftrightarrow> 48 \<le> c \<and> c \<le> 57"

definition digit_val :: "unit16 \<Rightarrow> nat" where
  "digit_val c = unat c - 48"

definition dec_val :: "jsstr \<Rightarrow> nat" where
  "dec_val s = foldl (\<lambda>n c. 10 * n + digit_val c) 0 s"

fun dec_of :: "nat \<Rightarrow> jsstr" where
  "dec_of n = (if n < 10 then [of_nat (48 + n)] else dec_of (n div 10) @ [of_nat (48 + n mod 10)])"

declare dec_of.simps [simp del]

definition canonical_pos_dec :: "jsstr \<Rightarrow> bool" where
  "canonical_pos_dec s \<longleftrightarrow> s \<noteq> [] \<and> list_all is_digit s \<and> hd s \<noteq> 48"

lemma dec_val_append: "dec_val (s @ [c]) = 10 * dec_val s + digit_val c"
  by (simp add: dec_val_def)

lemma dec_val_Nil [simp]: "dec_val [] = 0"
  by (simp add: dec_val_def)

lemma digit_unit:
  assumes "n < 10"
  shows "is_digit (of_nat (48 + n))" and "digit_val (of_nat (48 + n)) = n"
    and "0 < n \<Longrightarrow> of_nat (48 + n) \<noteq> (48 :: unit16)"
proof -
  have u: "unat (of_nat (48 + n) :: unit16) = 48 + n"
    using assms by (simp add: unat_of_nat del: of_nat_add)
  show "is_digit (of_nat (48 + n))" "digit_val (of_nat (48 + n)) = n"
    using u assms by (simp_all add: is_digit_def digit_val_def word_le_nat_alt del: of_nat_add)
  show "of_nat (48 + n) \<noteq> (48 :: unit16)" if "0 < n"
  proof
    assume "of_nat (48 + n) = (48 :: unit16)"
    then have "unat (of_nat (48 + n) :: unit16) = 48" by simp
    with u that show False by simp
  qed
qed

lemma digit_val_less: "is_digit c \<Longrightarrow> digit_val c < 10 \<and> c = of_nat (48 + digit_val c)"
proof -
  assume "is_digit c"
  then have "48 \<le> unat c" "unat c \<le> 57"
    by (simp_all add: is_digit_def word_le_nat_alt)
  then show ?thesis
    by (auto simp: digit_val_def simp del: of_nat_add)
qed

lemma dec_val_of [simp]: "dec_val (dec_of n) = n"
proof (induction n rule: dec_of.induct)
  case (1 n)
  show ?case
  proof (cases "n < 10")
    case True
    then have "dec_of n = [] @ [of_nat (48 + n)]" by (subst dec_of.simps) simp
    then show ?thesis
      using True by (simp only: dec_val_append) (simp add: digit_unit(2) del: of_nat_add)
  next
    case False
    then have "dec_of n = dec_of (n div 10) @ [of_nat (48 + n mod 10)]"
      by (subst dec_of.simps) simp
    then show ?thesis
      using 1 False by (simp add: dec_val_append digit_unit(2) del: of_nat_add)
  qed
qed

lemma dec_of_nonempty [simp]: "dec_of n \<noteq> []"
  by (subst dec_of.simps) simp

lemma dec_of_digits: "list_all is_digit (dec_of n)"
proof (induction n rule: dec_of.induct)
  case (1 n)
  then show ?case
    by (subst dec_of.simps) (auto simp: digit_unit(1) simp del: of_nat_add)
qed

lemma dec_of_canonical: "0 < n \<Longrightarrow> canonical_pos_dec (dec_of n)"
proof (induction n rule: dec_of.induct)
  case (1 n)
  show ?case
  proof (cases "n < 10")
    case True
    then show ?thesis
      using 1 digit_unit [OF True]
      by (subst dec_of.simps) (simp add: canonical_pos_dec_def del: of_nat_add)
  next
    case False
    then have eq: "dec_of n = dec_of (n div 10) @ [of_nat (48 + n mod 10)]"
      by (subst dec_of.simps) simp
    moreover have "canonical_pos_dec (dec_of (n div 10))"
      using 1 False by (simp add: div_greater_zero_iff)
    ultimately show ?thesis
      by (simp add: canonical_pos_dec_def digit_unit(1) del: of_nat_add)
  qed
qed

lemma canonical_dec_pos: "canonical_pos_dec s \<Longrightarrow> 0 < dec_val s"
proof (induction s rule: rev_induct)
  case (snoc c s)
  show ?case
  proof (cases "s = []")
    case True
    with snoc.prems have c: "is_digit c" "c \<noteq> 48" by (simp_all add: canonical_pos_dec_def)
    then have "digit_val c \<noteq> 0" using digit_val_less [of c] by (metis add_0_right of_nat_numeral)
    with True show ?thesis by (simp add: dec_val_def)
  next
    case False
    with snoc show ?thesis by (simp add: canonical_pos_dec_def dec_val_append)
  qed
qed (simp add: canonical_pos_dec_def)

lemma dec_of_val: "canonical_pos_dec s \<Longrightarrow> dec_of (dec_val s) = s"
proof (induction s rule: rev_induct)
  case (snoc c s)
  from snoc.prems have c: "digit_val c < 10" "of_nat (48 + digit_val c) = c"
    using digit_val_less [of c] by (simp_all add: canonical_pos_dec_def)
  show ?case
  proof (cases "s = []")
    case True
    with c show ?thesis
      by (subst dec_of.simps) (simp add: dec_val_def del: of_nat_add)
  next
    case False
    with snoc.prems have s: "canonical_pos_dec s" by (simp add: canonical_pos_dec_def)
    then have "0 < dec_val s" by (rule canonical_dec_pos)
    with s c snoc.IH show ?thesis
      by (subst dec_of.simps) (simp add: dec_val_append del: of_nat_add)
  qed
qed (simp add: canonical_pos_dec_def)

lemma dec_val_inject:
  "canonical_pos_dec s \<Longrightarrow> canonical_pos_dec t \<Longrightarrow> dec_val s = dec_val t \<longleftrightarrow> s = t"
  using dec_of_val by metis

text \<open>A canonical decimal below \<open>2^64\<close> has at most twenty digits.\<close>

lemma dec_val_lower: "canonical_pos_dec s \<Longrightarrow> 10 ^ (length s - 1) \<le> dec_val s"
proof (induction s rule: rev_induct)
  case (snoc c s)
  show ?case
  proof (cases "s = []")
    case True
    with canonical_dec_pos [OF snoc.prems] show ?thesis by simp
  next
    case False
    with snoc have "10 ^ (length s - 1) \<le> dec_val s" by (simp add: canonical_pos_dec_def)
    moreover have "(10 :: nat) ^ length s = 10 * 10 ^ (length s - 1)"
      using False by (cases s) simp_all
    ultimately show ?thesis by (simp add: dec_val_append)
  qed
qed (simp add: canonical_pos_dec_def)

section \<open>Dates\<close>

text \<open>
  \<open>Date.prototype.toISOString\<close> on a time value in milliseconds: the proleptic Gregorian date
  of its day number, years outside 0..9999 in the signed six-digit form.
\<close>

definition civil_of_day :: "int \<Rightarrow> int \<times> int \<times> int" where
  "civil_of_day day =
     (let z = day + 719468; era = z div 146097; doe = z mod 146097;
          yoe = (doe - doe div 1460 + doe div 36524 - doe div 146096) div 365;
          doy = doe - (365 * yoe + yoe div 4 - yoe div 100);
          mp = (5 * doy + 2) div 153;
          d = doy - (153 * mp + 2) div 5 + 1;
          m = (if mp < 10 then mp + 3 else mp - 9);
          y = yoe + era * 400 + (if m \<le> 2 then 1 else 0)
      in (y, m, d))"

definition day_of_civil :: "int \<Rightarrow> int \<Rightarrow> int \<Rightarrow> int" where
  "day_of_civil year m d =
     (let y = (if m \<le> 2 then year - 1 else year); era = y div 400; yoe = y mod 400;
          doy = (153 * (if m > 2 then m - 3 else m + 9) + 2) div 5 + d - 1;
          doe = yoe * 365 + yoe div 4 - yoe div 100 + doy
      in era * 146097 + doe - 719468)"

fun pad_dec :: "nat \<Rightarrow> nat \<Rightarrow> jsstr" where
  "pad_dec 0 n = []"
| "pad_dec (Suc w) n = pad_dec w (n div 10) @ [of_nat (48 + n mod 10)]"

lemma pad_dec_numeral [simp]:
  "pad_dec (numeral k) n = pad_dec (pred_numeral k) (n div 10) @ [of_nat (48 + n mod 10)]"
  unfolding numeral_eq_Suc [of k] by (rule pad_dec.simps)

definition iso_year :: "int \<Rightarrow> jsstr" where
  "iso_year y = (if 0 \<le> y \<and> y \<le> 9999 then pad_dec 4 (nat y)
     else if y < 0 then 45 # pad_dec 6 (nat (- y)) else 43 # pad_dec 6 (nat y))"

definition to_iso_string :: "int \<Rightarrow> jsstr" where
  "to_iso_string t =
     (let (y, m, d) = civil_of_day (t div 86400000); ms = t mod 86400000
      in iso_year y @ [45] @ pad_dec 2 (nat m) @ [45] @ pad_dec 2 (nat d) @ [84] @
         pad_dec 2 (nat (ms div 3600000)) @ [58] @ pad_dec 2 (nat (ms div 60000 mod 60)) @ [58] @
         pad_dec 2 (nat (ms div 1000 mod 60)) @ [46] @ pad_dec 3 (nat (ms mod 1000)) @ [90])"

text \<open>
  \<open>Date.parse\<close> on the two formats \<open>toISOString\<close> writes; \<open>None\<close> is NaN. The sources use the
  result only together with \<open>new Date(t).toISOString() === value\<close>, which no string in another
  format satisfies, so every other format may answer NaN here.
\<close>

definition max_time :: int where
  "max_time = 8640000000000000"

definition iso_time :: "int \<Rightarrow> int \<Rightarrow> int \<Rightarrow> int \<Rightarrow> int \<Rightarrow> int \<Rightarrow> int \<Rightarrow> int option" where
  "iso_time y mo d h mi sec ms =
     (let t = ((day_of_civil y mo d * 24 + h) * 60 + mi) * 60000 + sec * 1000 + ms
      in if 1 \<le> mo \<and> mo \<le> 12 \<and> 1 \<le> d \<and> d \<le> 31 \<and> h \<le> 23 \<and> mi \<le> 59 \<and> sec \<le> 59 \<and>
            \<bar>t\<bar> \<le> max_time
         then Some t else None)"

definition iso_num :: "jsstr \<Rightarrow> nat \<Rightarrow> nat \<Rightarrow> int" where
  "iso_num s i n = int (dec_val (take n (drop i s)))"

definition iso_fields :: "int \<Rightarrow> jsstr \<Rightarrow> int option" where
  "iso_fields y s =
     (if length s = 20 \<and> s ! 0 = 45 \<and> s ! 3 = 45 \<and> s ! 6 = 84 \<and> s ! 9 = 58 \<and> s ! 12 = 58 \<and>
         s ! 15 = 46 \<and> s ! 19 = 90 \<and>
         list_all (\<lambda>i. is_digit (s ! i)) [1, 2, 4, 5, 7, 8, 10, 11, 13, 14, 16, 17, 18]
      then iso_time y (iso_num s 1 2) (iso_num s 4 2) (iso_num s 7 2) (iso_num s 10 2)
             (iso_num s 13 2) (iso_num s 16 3)
      else None)"

definition date_parse :: "jsstr \<Rightarrow> int option" where
  "date_parse s =
     (if length s = 24 \<and> list_all is_digit (take 4 s)
      then iso_fields (int (dec_val (take 4 s))) (drop 4 s)
      else if length s = 27 \<and> list_all is_digit (take 6 (drop 1 s)) \<and> s ! 0 = 43
      then iso_fields (int (dec_val (take 6 (drop 1 s)))) (drop 7 s)
      else if length s = 27 \<and> list_all is_digit (take 6 (drop 1 s)) \<and> s ! 0 = 45
      then iso_fields (- int (dec_val (take 6 (drop 1 s)))) (drop 7 s)
      else None)"

definition canonical_iso :: "jsstr \<Rightarrow> bool" where
  "canonical_iso s = (case date_parse s of None \<Rightarrow> False | Some t \<Rightarrow> to_iso_string t = s)"

section \<open>POSIX paths\<close>

fun split_slash :: "jsstr \<Rightarrow> jsstr list" where
  "split_slash [] = [[]]"
| "split_slash (c # s) = (if c = 47 then [] # split_slash s
     else case split_slash s of g # gs \<Rightarrow> (c # g) # gs | [] \<Rightarrow> [[c]])"

text \<open>The segment stack of \<open>normalizeString\<close> with \<open>allowAboveRoot = false\<close>.\<close>

fun normalize_segs :: "jsstr list \<Rightarrow> jsstr list \<Rightarrow> jsstr list" where
  "normalize_segs acc [] = rev acc"
| "normalize_segs acc (g # gs) =
     (if g = [] \<or> g = [46] then normalize_segs acc gs
      else if g = [46, 46] then normalize_segs (tl acc) gs
      else normalize_segs (g # acc) gs)"

definition join_segs :: "jsstr list \<Rightarrow> jsstr" where
  "join_segs gs = (if gs = [] then [47] else concat (map (\<lambda>g. 47 # g) gs))"

definition path_is_absolute :: "jsstr \<Rightarrow> bool" where
  "path_is_absolute s = (case s of [] \<Rightarrow> False | c # _ \<Rightarrow> c = 47)"

definition path_resolve :: "jsstr \<Rightarrow> jsstr" where
  "path_resolve s = join_segs (normalize_segs [] (split_slash s))"

text \<open>An absolute path in normal form below the root: one or more proper segments.\<close>

definition proper_seg :: "jsstr \<Rightarrow> bool" where
  "proper_seg g \<longleftrightarrow> g \<noteq> [] \<and> g \<noteq> [46] \<and> g \<noteq> [46, 46] \<and> 47 \<notin> set g"

definition normal_path :: "jsstr \<Rightarrow> bool" where
  "normal_path s \<longleftrightarrow> (\<exists>gs. gs \<noteq> [] \<and> list_all proper_seg gs \<and> s = concat (map (\<lambda>g. 47 # g) gs))"

lemma split_slash_nonempty [simp]: "split_slash s \<noteq> []"
  by (induction s) (auto split: list.splits)

lemma split_slash_no_slash: "list_all (\<lambda>g. 47 \<notin> set g) (split_slash s)"
  by (induction s) (auto split: list.splits)

lemma split_slash_seg: "47 \<notin> set g \<Longrightarrow> split_slash (g @ 47 # s) = g # split_slash s"
  by (induction g) auto

lemma split_slash_last: "47 \<notin> set g \<Longrightarrow> split_slash g = [g]"
  by (induction g) auto

lemma normalize_proper:
  "list_all proper_seg (rev acc) \<Longrightarrow> list_all (\<lambda>g. 47 \<notin> set g) gs \<Longrightarrow>
     list_all proper_seg (normalize_segs acc gs)"
proof (induction acc gs rule: normalize_segs.induct)
  case (2 acc g gs)
  have "list_all proper_seg (rev (tl acc))"
    using "2.prems"(1) by (cases acc) auto
  moreover have "proper_seg g" if "g \<noteq> []" "g \<noteq> [46]" "g \<noteq> [46, 46]"
    using "2.prems"(2) that by (simp add: proper_seg_def)
  ultimately show ?case using 2 by auto
qed simp

lemma normalize_id: "list_all proper_seg gs \<Longrightarrow> normalize_segs acc gs = rev acc @ gs"
  by (induction gs arbitrary: acc) (auto simp: proper_seg_def)

lemma split_join:
  assumes "gs \<noteq> []" and "list_all (\<lambda>g. 47 \<notin> set g) gs"
  shows "split_slash (concat (map (\<lambda>g. 47 # g) gs)) = [] # gs"
  using assms
proof (induction gs)
  case (Cons g gs)
  show ?case
  proof (cases gs)
    case Nil
    with Cons.prems show ?thesis by (simp add: split_slash_last)
  next
    case (Cons h hs)
    with Cons.prems Cons.IH show ?thesis
      by (simp add: split_slash_seg)
  qed
qed simp

text \<open>\<open>resolve(s) === s\<close> for an absolute path other than the root says it is in normal form.\<close>

lemma resolve_fixed_iff:
  "path_is_absolute s \<and> path_resolve s = s \<and> s \<noteq> [47] \<longleftrightarrow> normal_path s"
proof
  assume a: "path_is_absolute s \<and> path_resolve s = s \<and> s \<noteq> [47]"
  let ?gs = "normalize_segs [] (split_slash s)"
  have "list_all proper_seg ?gs"
    by (rule normalize_proper) (simp_all add: split_slash_no_slash)
  moreover have "?gs \<noteq> []" "s = concat (map (\<lambda>g. 47 # g) ?gs)"
    using a by (auto simp: path_resolve_def join_segs_def split: if_splits)
  ultimately show "normal_path s" unfolding normal_path_def by blast
next
  assume "normal_path s"
  then obtain gs where gs: "gs \<noteq> []" "list_all proper_seg gs"
      "s = concat (map (\<lambda>g. 47 # g) gs)"
    by (auto simp: normal_path_def)
  have "list_all (\<lambda>g. 47 \<notin> set g) gs"
    using gs(2) by (simp add: list_all_iff proper_seg_def)
  then have "split_slash s = [] # gs"
    using split_join gs(1,3) by simp
  then have "path_resolve s = s"
    using gs by (simp add: path_resolve_def normalize_id join_segs_def)
  moreover have "path_is_absolute s" "s \<noteq> [47]"
    using gs by (auto simp: path_is_absolute_def proper_seg_def neq_Nil_conv)
  ultimately show "path_is_absolute s \<and> path_resolve s = s \<and> s \<noteq> [47]" by simp
qed

section \<open>UTF-8\<close>

text \<open>
  \<open>Buffer.from(s, "utf8")\<close> encodes the scalar values of \<open>s\<close>, a lone surrogate as U+FFFD, and
  decoding those bytes gives the scalar values back.
\<close>

definition hi_surrogate :: "unit16 \<Rightarrow> bool" where
  "hi_surrogate c \<longleftrightarrow> 55296 \<le> c \<and> c \<le> 56319"

definition lo_surrogate :: "unit16 \<Rightarrow> bool" where
  "lo_surrogate c \<longleftrightarrow> 56320 \<le> c \<and> c \<le> 57343"

fun to_scalars :: "jsstr \<Rightarrow> nat list" where
  "to_scalars [] = []"
| "to_scalars (h # s) = (if hi_surrogate h then
       (case s of l # s' \<Rightarrow>
          if lo_surrogate l
          then (65536 + (unat h - 55296) * 1024 + (unat l - 56320)) # to_scalars s'
          else 65533 # to_scalars s
        | [] \<Rightarrow> [65533])
     else if lo_surrogate h then 65533 # to_scalars s
     else unat h # to_scalars s)"

definition utf8_width :: "nat \<Rightarrow> nat" where
  "utf8_width n = (if n < 128 then 1 else if n < 2048 then 2 else if n < 65536 then 3 else 4)"

definition utf8_length :: "jsstr \<Rightarrow> nat" where
  "utf8_length s = sum_list (map utf8_width (to_scalars s))"

definition of_scalar :: "nat \<Rightarrow> jsstr" where
  "of_scalar n = (if n < 65536 then [of_nat n]
     else [of_nat (55296 + (n - 65536) div 1024), of_nat (56320 + (n - 65536) mod 1024)])"

definition utf8_roundtrip :: "jsstr \<Rightarrow> jsstr" where
  "utf8_roundtrip s = concat (map of_scalar (to_scalars s))"

lemma ascii_not_surrogate: "c < 128 \<Longrightarrow> \<not> hi_surrogate c \<and> \<not> lo_surrogate c"
  by (auto simp: hi_surrogate_def lo_surrogate_def word_less_nat_alt word_le_nat_alt)

lemma to_scalars_ascii: "list_all (\<lambda>c. c < 128) s \<Longrightarrow> to_scalars s = map unat s"
  by (induction s) (auto simp: ascii_not_surrogate)

lemma utf8_ascii:
  assumes "list_all (\<lambda>c. c < 128) s"
  shows "utf8_length s = length s" and "utf8_roundtrip s = s"
proof -
  have w: "utf8_width (unat c) = 1 \<and> of_scalar (unat c) = [c]" if "c < 128" for c :: unit16
  proof -
    have "unat c < 128" using that by (simp add: word_less_nat_alt)
    then show ?thesis by (simp add: utf8_width_def of_scalar_def)
  qed
  show "utf8_length s = length s"
    using assms unfolding utf8_length_def to_scalars_ascii [OF assms]
    by (induction s) (auto simp: w)
  show "utf8_roundtrip s = s"
    using assms unfolding utf8_roundtrip_def to_scalars_ascii [OF assms]
    by (induction s) (auto simp: w)
qed

text \<open>One step of the decoding: a surrogate pair, or one unit of at most three bytes.\<close>

lemma to_scalars_step:
  obtains (pair) l u a b where "t = l # u" "to_scalars (h # t) = (65536 + a + b) # to_scalars u"
  | (unit) n where "utf8_width n \<le> 3" "to_scalars (h # t) = n # to_scalars t"
proof (cases "hi_surrogate h \<and> t \<noteq> [] \<and> lo_surrogate (hd t)")
  case True
  then obtain l u where "t = l # u" by (cases t) auto
  with True pair show thesis by simp
next
  case False
  let ?n = "if hi_surrogate h \<or> lo_surrogate h then 65533 else unat h"
  have "to_scalars (h # t) = ?n # to_scalars t"
    unfolding to_scalars.simps(2) [of h t] using False by (cases t) (simp_all del: to_scalars.simps(2))
  moreover have "unat h < 65536" using unsigned_less [of h] by simp
  then have "utf8_width ?n \<le> 3" by (simp add: utf8_width_def)
  ultimately show thesis by (rule unit [rotated])
qed

lemma utf8_bounds: "length s \<le> utf8_length s \<and> utf8_length s \<le> 3 * length s"
proof (induction s rule: length_induct)
  case (1 s)
  have w: "1 \<le> utf8_width n" "utf8_width (65536 + a + b) = 4" for n a b by (simp_all add: utf8_width_def)
  show ?case
  proof (cases s)
    case (Cons h t)
    show ?thesis
    proof (cases h t rule: to_scalars_step)
      case (pair l u a b)
      moreover have "length u \<le> utf8_length u \<and> utf8_length u \<le> 3 * length u" using 1 Cons pair by simp
      ultimately show ?thesis using w(2) [of a b] by (simp add: Cons utf8_length_def del: to_scalars.simps)
    next
      case (unit n)
      moreover have "length t \<le> utf8_length t \<and> utf8_length t \<le> 3 * length t" using 1 Cons by simp
      ultimately show ?thesis using w(1) [of n] by (simp add: Cons utf8_length_def del: to_scalars.simps)
    qed
  qed (simp add: utf8_length_def)
qed

end
