(* ===== verification/Contract_Core.thy ===== *)
theory Contract_Core
  imports Js_Regex Js_Text
begin

text \<open>
  The checks every record validator of \<open>session-storage-contracts.mjs\<close> is built from: plain
  objects with exact keys, identifiers, fencing epochs, timestamps and attachment paths. The
  error is the \<open>code\<close> of the \<open>SessionStorageContractError\<close>; its message is not modelled. The
  lemmas show the hand-written character loops equal to the regular expressions other modules
  use for the same identifiers, and the locale \<open>record_schema\<close> states once what every
  record validator promises: it accepts exact records, returns their clone, and accepts its own
  output unchanged.
\<close>

datatype contract_error =
    Invalid_session_manifest | Unsupported_manifest_version | Invalid_image_resolution
  | Invalid_fence | Stale_fence | Lease_expired
  | Invalid_storage_ref | Invalid_storage_provision | Invalid_storage_attachment
  | Invalid_storage_backend | Invalid_atomic_crash_capture
  | Invalid_storage_force_fence | Invalid_storage_force_fence_reconciliation
  | Invalid_storage_mutation | Invalid_restore_checkpoint_admission
  | Invalid_restore_attachment_activation | Invalid_restore_attachment_reconciliation
  | Invalid_worker_template | Invalid_checkpoint
  | Type_error \<comment> \<open>a \<open>TypeError\<close>\<close>
  | Foreign_error \<comment> \<open>thrown by a getter of the caller\<close>

type_synonym check = "contract_error option"
type_synonym 'a result = "contract_error + 'a"

definition UINT64_MAX :: nat where
  "UINT64_MAX = 18446744073709551615"

definition STORAGE_CONTRACT_VERSION :: int where
  "STORAGE_CONTRACT_VERSION = 1"

section \<open>Plain objects\<close>

definition defensiveClone :: "jsval \<Rightarrow> contract_error \<Rightarrow> jsval result" where
  "defensiveClone v e = (case structured_clone v of None \<Rightarrow> Inl e | Some w \<Rightarrow> Inr w)"

definition inspectPlainDataObject :: "jsval \<Rightarrow> contract_error \<Rightarrow> jskey list result" where
  "inspectPlainDataObject v e =
     (if is_proxy v \<or> v = JNull \<or> \<not> is_object v \<or> is_array v then Inl e
      else if proto_of v = JObjectPrototype \<or> proto_of v = JNull then Inr (own_keys v)
      else Inl e)"

definition plainDataDescriptor :: "jsval \<Rightarrow> jskey \<Rightarrow> contract_error \<Rightarrow> jsval result" where
  "plainDataDescriptor v k e = (case own_desc v k of
     Some (DataDesc True x) \<Rightarrow> Inr x
   | _ \<Rightarrow> Inl e)"

definition assertExactObject :: "jsval \<Rightarrow> string list \<Rightarrow> contract_error \<Rightarrow> check" where
  "assertExactObject v ks e = (case inspectPlainDataObject v e of
     Inl e' \<Rightarrow> Some e'
   | Inr actual \<Rightarrow> first_err
      (ensure (length actual = length ks \<and>
               list_all (\<lambda>k. list_ex (\<lambda>s. k = key s) ks) actual) e
       # map (\<lambda>k. err_of (plainDataDescriptor v k e)) actual))"

text \<open>The normalized options are a null-prototype object with the given own values.\<close>

definition assertOptionsObject ::
    "jsval \<Rightarrow> string list \<Rightarrow> string list \<Rightarrow> contract_error \<Rightarrow> jsval result" where
  "assertOptionsObject v allowed required e =
     rbind (inspectPlainDataObject v e) (\<lambda>actual.
       guarded
         (ensure (list_all (\<lambda>k. list_ex (\<lambda>s. k = key s) allowed) actual \<and>
                  list_all (\<lambda>s. key s \<in> set actual) required) e
          # map (\<lambda>k. err_of (plainDataDescriptor v k e)) actual)
         (Inr (JObj JNull (map (\<lambda>k. (k, DataDesc True
            (case plainDataDescriptor v k e of Inr x \<Rightarrow> x | Inl _ \<Rightarrow> JUndefined))) actual))))"

lemma inspect_iff: "inspectPlainDataObject v e = Inr ks \<longleftrightarrow> plain_object v \<and> ks = own_keys v"
  by (cases v) (auto simp: inspectPlainDataObject_def plain_object_def)

lemma inspect_Inl: "inspectPlainDataObject v e = Inl e' \<longleftrightarrow> \<not> plain_object v \<and> e' = e"
  by (cases v) (auto simp: inspectPlainDataObject_def plain_object_def)

lemma plainDataDescriptor_Inr:
  "plainDataDescriptor v k e = Inr x \<longleftrightarrow> own_desc v k = Some (DataDesc True x)"
  by (auto simp: plainDataDescriptor_def split: option.splits jsdesc.splits bool.splits)

lemma plainDataDescriptor_ok:
  "(\<exists>x. plainDataDescriptor v k e = Inr x) \<longleftrightarrow> enumerable_data v k"
  by (auto simp: plainDataDescriptor_Inr enumerable_data_def split: option.splits jsdesc.splits)

lemma plainDataDescriptor_Inl:
  "plainDataDescriptor v k e = Inl e' \<longleftrightarrow> \<not> enumerable_data v k \<and> e' = e"
  by (auto simp: plainDataDescriptor_def enumerable_data_def
      split: option.splits jsdesc.splits bool.splits)

lemma assertExactObject_iff [simp]: "assertExactObject v ks e = None \<longleftrightarrow> exact_object v ks"
proof (cases "plain_object v")
  case True
  then have "inspectPlainDataObject v e = Inr (own_keys v)" by (simp add: inspect_iff)
  then show ?thesis
    using True
    by (auto simp: assertExactObject_def exact_object_def list_all_iff plainDataDescriptor_ok)
next
  case False
  then have "inspectPlainDataObject v e = Inl e" by (simp add: inspect_Inl)
  with False show ?thesis by (simp add: assertExactObject_def exact_object_def)
qed

lemma assertExactObject_code: "assertExactObject v ks e = Some e' \<Longrightarrow> e' = e"
  unfolding assertExactObject_def
  by (auto simp: inspect_Inl split: sum.splits simp: plainDataDescriptor_Inl dest!: first_err_SomeD)

text \<open>What the destructured options hold: the own values of the options object.\<close>

lemma options_own:
  assumes "assertOptionsObject v allowed required e = Inr opts"
  shows "plain_object v" and "\<And>k. k \<in> set (own_keys v) \<Longrightarrow> enumerable_data v k"
    and "opts = JObj JNull (map (\<lambda>k. (k, DataDesc True
      (case plainDataDescriptor v k e of Inr x \<Rightarrow> x | Inl _ \<Rightarrow> JUndefined))) (own_keys v))"
    and "\<And>k. k \<in> set required \<Longrightarrow> key k \<in> set (own_keys v)"
    and "set (own_keys v) \<subseteq> key ` set allowed"
  using assms
  by (auto simp: assertOptionsObject_def inspect_iff plainDataDescriptor_ok list_all_iff list_ex_iff)

lemma options_field:
  assumes "assertOptionsObject v allowed required e = Inr opts"
  shows "fld opts k = (if key k \<in> set (own_keys v) then fld v k else JUndefined)"
proof -
  let ?val = "\<lambda>k. DataDesc True (case plainDataDescriptor v k e of Inr x \<Rightarrow> x | Inl _ \<Rightarrow> JUndefined)"
  have o: "own_desc opts (key k) = (if key k \<in> set (own_keys v) then Some (?val (key k)) else None)"
    unfolding options_own(3) [OF assms] by (simp add: map_of_map_key)
  show ?thesis
  proof (cases "key k \<in> set (own_keys v)")
    case True
    then have "enumerable_data v (key k)" by (rule options_own(2) [OF assms])
    then obtain x where x: "own_desc v (key k) = Some (DataDesc True x)"
      by (auto simp: enumerable_data_def split: option.splits jsdesc.splits)
    then have "plainDataDescriptor v (key k) e = Inr x" by (simp add: plainDataDescriptor_Inr)
    with o True have "own_desc opts (key k) = Some (DataDesc True x)" by simp
    with True x show ?thesis by (simp add: own_data_fld)
  next
    case False
    then show ?thesis
      using o unfolding options_own(3) [OF assms] by (simp add: fld_def)
  qed
qed

lemma options_plain_obj:
  assumes "distinct (map fst kvs)" and "set (map fst kvs) \<subseteq> set allowed"
    and "set required \<subseteq> set (map fst kvs)"
  shows "\<exists>opts. assertOptionsObject (plain_obj kvs) allowed required e = Inr opts"
proof -
  have ks: "own_keys (plain_obj kvs) = map (key \<circ> fst) kvs"
    using assms(1) by (rule own_keys_plain_obj)
  have "exact_object (plain_obj kvs) (map fst kvs)"
    by (rule exact_plain_obj) (use assms(1) in simp_all)
  then have ex: "plain_object (plain_obj kvs)"
      "list_all (enumerable_data (plain_obj kvs)) (own_keys (plain_obj kvs))"
    by (simp_all add: exact_object_def)
  have "list_all (\<lambda>k. list_ex (\<lambda>s. k = key s) allowed) (own_keys (plain_obj kvs))"
    using assms(2) by (auto simp: ks list_all_iff list_ex_iff)
  moreover have "list_all (\<lambda>s. key s \<in> set (own_keys (plain_obj kvs))) required"
    using assms(3) by (auto simp: ks list_all_iff)
  moreover have "inspectPlainDataObject (plain_obj kvs) e = Inr (own_keys (plain_obj kvs))"
    using ex by (simp add: inspect_iff)
  ultimately show ?thesis
    using ex(2) by (auto simp: assertOptionsObject_def list_all_iff plainDataDescriptor_ok)
qed

lemma options_plain_field:
  assumes "assertOptionsObject (plain_obj kvs) allowed required e = Inr opts"
    and "distinct (map fst kvs)"
  shows "fld opts k = (case map_of kvs k of Some v \<Rightarrow> v | None \<Rightarrow> JUndefined)"
proof -
  have "key k \<in> set (own_keys (plain_obj kvs)) \<longleftrightarrow> map_of kvs k \<noteq> None"
    using own_keys_plain_obj [OF assms(2)] by (auto simp: map_of_eq_None_iff image_iff)
  then show ?thesis
    using options_field [OF assms(1), of k] by (simp add: fld_plain_obj)
qed

section \<open>Identifiers\<close>

definition containsNullCharacter :: "jsstr \<Rightarrow> bool" where
  "containsNullCharacter s = list_ex (\<lambda>c. c = 0) s"

definition isAsciiAlphaNumeric :: "unit16 \<Rightarrow> bool" where
  "isAsciiAlphaNumeric c \<longleftrightarrow> 48 \<le> c \<and> c \<le> 57 \<or> 65 \<le> c \<and> c \<le> 90 \<or> 97 \<le> c \<and> c \<le> 122"

definition isLowerHex :: "unit16 \<Rightarrow> bool" where
  "isLowerHex c \<longleftrightarrow> 48 \<le> c \<and> c \<le> 57 \<or> 97 \<le> c \<and> c \<le> 102"

definition isCanonicalUuid :: "jsval \<Rightarrow> bool" where
  "isCanonicalUuid v = (case v of
     JStr s \<Rightarrow> length s = 36 \<and>
       list_all (\<lambda>i. if i = 8 \<or> i = 13 \<or> i = 18 \<or> i = 23 then s ! i = 45
                     else isLowerHex (s ! i)) [0..<length s] \<and>
       49 \<le> s ! 14 \<and> s ! 14 \<le> 56 \<and>
       (s ! 19 = 56 \<or> s ! 19 = 57 \<or> s ! 19 = 97 \<or> s ! 19 = 98)
   | _ \<Rightarrow> False)"

definition isOpaqueId :: "jsval \<Rightarrow> bool" where
  "isOpaqueId v = (case v of
     JStr s \<Rightarrow> 1 \<le> length s \<and> length s \<le> 128 \<and> isAsciiAlphaNumeric (s ! 0) \<and>
       list_all (\<lambda>c. isAsciiAlphaNumeric c \<or> c = 45 \<or> c = 46 \<or> c = 58 \<or> c = 95) (drop 1 s)
   | _ \<Rightarrow> False)"

definition isSha256Hex :: "jsval \<Rightarrow> bool" where
  "isSha256Hex v = (case v of
     JStr s \<Rightarrow> length s = 64 \<and> list_all isLowerHex s | _ \<Rightarrow> False)"

definition assertUuid :: "jsval \<Rightarrow> contract_error \<Rightarrow> check" where
  "assertUuid v e = ensure (isCanonicalUuid v) e"

definition assertOpaqueId :: "jsval \<Rightarrow> contract_error \<Rightarrow> check" where
  "assertOpaqueId v e = ensure (isOpaqueId v) e"

definition assertPersistentObjectId :: "jsval \<Rightarrow> contract_error \<Rightarrow> check" where
  "assertPersistentObjectId v e = (case v of
     JStr s \<Rightarrow> first_err
       [ensure (1 \<le> length s \<and> length s \<le> 256 \<and> isAsciiAlphaNumeric (s ! 0)) e,
        ensure (list_all (\<lambda>c. isAsciiAlphaNumeric c \<or> c = 45 \<or> c = 46 \<or> c = 58 \<or> c = 95) (drop 1 s)) e]
   | _ \<Rightarrow> Some e)"

definition assertAttachmentRootPath :: "jsval \<Rightarrow> contract_error \<Rightarrow> check" where
  "assertAttachmentRootPath v e = (case v of
     JStr s \<Rightarrow> first_err
       [ensure (length s \<le> 4095) e,
        ensure (utf8_length s \<le> 4095 \<and> utf8_roundtrip s = s \<and> \<not> containsNullCharacter s \<and>
                path_is_absolute s \<and> path_resolve s = s \<and> s \<noteq> [47]) e]
   | _ \<Rightarrow> Some e)"

definition assertIsoTimestamp :: "jsval \<Rightarrow> contract_error \<Rightarrow> int result" where
  "assertIsoTimestamp v e = (case v of
     JStr s \<Rightarrow> (case date_parse s of
        Some t \<Rightarrow> if to_iso_string t = s then Inr t else Inl e
      | None \<Rightarrow> Inl e)
   | _ \<Rightarrow> Inl e)"

section \<open>Fencing epochs\<close>

text \<open>
  \<open>assertPositiveUint64Decimal\<close> is the same code as \<open>parseFencingEpochForRecord\<close> with another
  message.
\<close>

definition parseFencingEpochForRecord :: "jsval \<Rightarrow> contract_error \<Rightarrow> nat result" where
  "parseFencingEpochForRecord v e = (case v of
     JStr s \<Rightarrow> guarded
       [ensure (1 \<le> length s \<and> length s \<le> 20 \<and> 49 \<le> s ! 0 \<and> s ! 0 \<le> 57) e,
        ensure (list_all (\<lambda>c. 48 \<le> c \<and> c \<le> 57) (drop 1 s)) e,
        ensure (dec_val s \<le> UINT64_MAX) e]
       (Inr (dec_val s))
   | _ \<Rightarrow> Inl e)"

definition assertPositiveUint64Decimal :: "jsval \<Rightarrow> contract_error \<Rightarrow> nat result" where
  "assertPositiveUint64Decimal v e = (case v of
     JStr s \<Rightarrow> guarded
       [ensure (1 \<le> length s \<and> length s \<le> 20 \<and> 49 \<le> s ! 0 \<and> s ! 0 \<le> 57) e,
        ensure (list_all (\<lambda>c. 48 \<le> c \<and> c \<le> 57) (drop 1 s)) e,
        ensure (dec_val s \<le> UINT64_MAX) e]
       (Inr (dec_val s))
   | _ \<Rightarrow> Inl e)"

definition parseFencingEpoch :: "jsval \<Rightarrow> nat result" where
  "parseFencingEpoch v = parseFencingEpochForRecord v Invalid_fence"

definition compareFencingEpochs :: "jsval \<Rightarrow> jsval \<Rightarrow> int result" where
  "compareFencingEpochs l r =
     rbind (parseFencingEpoch l) (\<lambda>a. rbind (parseFencingEpoch r) (\<lambda>b.
       Inr (if a < b then - 1 else if a > b then 1 else 0)))"

section \<open>Patterns\<close>

definition hex_cls :: "unit16 \<Rightarrow> bool" where
  "hex_cls c \<longleftrightarrow> rng 48 57 c \<or> rng 97 102 c"

definition UUID_PATTERN :: rx where
  "UUID_PATTERN = rx_cat
     [rx_rep 8 (RCls hex_cls), rx_lit ''-'', rx_rep 4 (RCls hex_cls), rx_lit ''-'',
      RCls (rng 49 56), rx_rep 3 (RCls hex_cls), rx_lit ''-'',
      RCls (\<lambda>c. c = 56 \<or> c = 57 \<or> c = 97 \<or> c = 98), rx_rep 3 (RCls hex_cls), rx_lit ''-'',
      rx_rep 12 (RCls hex_cls)]"

definition OCI_DIGEST_PATTERN :: rx where
  "OCI_DIGEST_PATTERN = rx_cat [rx_lit ''sha256:'', rx_rep 64 (RCls hex_cls)]"

definition CODEX_VERSION_PATTERN :: rx where
  "CODEX_VERSION_PATTERN = rx_cat
     [rx_lit ''codex-cli '', rx_plus (RCls (rng 48 57)), rx_lit ''.'',
      rx_plus (RCls (rng 48 57)), rx_lit ''.'', rx_plus (RCls (rng 48 57))]"

definition OPAQUE_ID_PATTERN :: rx where
  "OPAQUE_ID_PATTERN = rx_cat
     [RCls (\<lambda>c. rng 65 90 c \<or> rng 97 122 c \<or> rng 48 57 c),
      rx_upto 127 (RCls (\<lambda>c. rng 65 90 c \<or> rng 97 122 c \<or> rng 48 57 c \<or>
        c = 46 \<or> c = 95 \<or> c = 58 \<or> c = 45))]"

definition FENCING_EPOCH_PATTERN :: rx where
  "FENCING_EPOCH_PATTERN = rx_cat [RCls (rng 49 57), rx_upto 19 (RCls (rng 48 57))]"

text \<open>The character class at each position of a UUID.\<close>

definition uuid_class :: "nat \<Rightarrow> unit16 \<Rightarrow> bool" where
  "uuid_class i = (if i = 8 \<or> i = 13 \<or> i = 18 \<or> i = 23 then (\<lambda>c. c = 45)
     else if i = 14 then rng 49 56
     else if i = 19 then (\<lambda>c. c = 56 \<or> c = 57 \<or> c = 97 \<or> c = 98)
     else hex_cls)"

lemma js_dash: "js ''-'' = [45]" and js_dot: "js ''.'' = [46]"
  by (simp_all add: js_def)

lemma uuid_classes: "fixed UUID_PATTERN (map uuid_class [0..<36])"
proof -
  have "fixed UUID_PATTERN
     (replicate 8 hex_cls @ map (\<lambda>c u. u = c) (js ''-'') @ replicate 4 hex_cls @
      map (\<lambda>c u. u = c) (js ''-'') @ [rng 49 56] @ replicate 3 hex_cls @
      map (\<lambda>c u. u = c) (js ''-'') @ [\<lambda>c. c = 56 \<or> c = 57 \<or> c = 97 \<or> c = 98] @
      replicate 3 hex_cls @ map (\<lambda>c u. u = c) (js ''-'') @ replicate 12 hex_cls @ [])"
    unfolding UUID_PATTERN_def by (intro fixed_intros)
  also have "\<dots> = map uuid_class [0..<36]"
    by (simp add: uuid_class_def js_dash upt_rec numeral_eq_Suc)
  finally show ?thesis .
qed

lemma hex_cls_iff [simp]: "hex_cls c = isLowerHex c"
  by (simp add: hex_cls_def isLowerHex_def rng_def)

lemma version_hex: "rng 49 56 c \<Longrightarrow> isLowerHex c"
  by (auto simp: isLowerHex_def rng_def word_le_nat_alt)

lemma uuid_class_hex: "i \<noteq> 8 \<Longrightarrow> i \<noteq> 13 \<Longrightarrow> i \<noteq> 18 \<Longrightarrow> i \<noteq> 23 \<Longrightarrow> uuid_class i c \<Longrightarrow> isLowerHex c"
  by (auto simp: uuid_class_def version_hex split: if_splits) (auto simp: isLowerHex_def)

lemma isCanonicalUuid_classes:
  "isCanonicalUuid (JStr s) \<longleftrightarrow> length s = 36 \<and> (\<forall>i<36. uuid_class i (s ! i))"
proof
  assume c: "isCanonicalUuid (JStr s)"
  have loop: "if i = 8 \<or> i = 13 \<or> i = 18 \<or> i = 23 then s ! i = 45 else isLowerHex (s ! i)"
    if "i < 36" for i
    using c that unfolding isCanonicalUuid_def by (simp add: list_all_iff)
  have "uuid_class i (s ! i)" if "i < 36" for i
    using c loop [OF that]
    by (auto simp: isCanonicalUuid_def uuid_class_def rng_def split: if_splits)
  with c show "length s = 36 \<and> (\<forall>i<36. uuid_class i (s ! i))"
    by (simp add: isCanonicalUuid_def)
next
  assume c: "length s = 36 \<and> (\<forall>i<36. uuid_class i (s ! i))"
  then have "uuid_class 14 (s ! 14)" "uuid_class 19 (s ! 19)" by simp_all
  then have "49 \<le> s ! 14 \<and> s ! 14 \<le> 56 \<and>
      (s ! 19 = 56 \<or> s ! 19 = 57 \<or> s ! 19 = 97 \<or> s ! 19 = 98)"
    by (simp add: uuid_class_def rng_def)
  moreover have loop: "if i = 8 \<or> i = 13 \<or> i = 18 \<or> i = 23 then s ! i = 45
      else isLowerHex (s ! i)" if "i < 36" for i
  proof -
    from c that have "uuid_class i (s ! i)" by simp
    then show ?thesis using uuid_class_hex [of i "s ! i"] by (auto simp: uuid_class_def)
  qed
  moreover from loop have "list_all (\<lambda>i. if i = 8 \<or> i = 13 \<or> i = 18 \<or> i = 23 then s ! i = 45
      else isLowerHex (s ! i)) [0..<length s]"
    using c by (simp add: list_all_iff)
  ultimately show "isCanonicalUuid (JStr s)"
    using c unfolding isCanonicalUuid_def jsval.case by blast
qed

text \<open>The loops agree with the patterns.\<close>

lemma isCanonicalUuid_pattern: "isCanonicalUuid (JStr s) \<longleftrightarrow> rx_match UUID_PATTERN s"
  unfolding isCanonicalUuid_classes fixed_match [OF uuid_classes]
  by (auto simp: list_all2_conv_all_nth)

lemma isOpaqueId_pattern: "isOpaqueId (JStr s) \<longleftrightarrow> rx_match OPAQUE_ID_PATTERN s"
proof (cases s)
  case Nil
  then show ?thesis
    unfolding OPAQUE_ID_PATTERN_def match_head_upto by (simp add: isOpaqueId_def)
next
  case (Cons c u)
  have cls: "(isAsciiAlphaNumeric d \<or> d = 45 \<or> d = 46 \<or> d = 58 \<or> d = 95) \<longleftrightarrow>
      (rng 65 90 d \<or> rng 97 122 d \<or> rng 48 57 d \<or> d = 46 \<or> d = 95 \<or> d = 58 \<or> d = 45)" for d
    by (auto simp: isAsciiAlphaNumeric_def rng_def)
  have "isAsciiAlphaNumeric c \<longleftrightarrow> (rng 65 90 c \<or> rng 97 122 c \<or> rng 48 57 c)"
    by (auto simp: isAsciiAlphaNumeric_def rng_def)
  then show ?thesis
    unfolding OPAQUE_ID_PATTERN_def match_head_upto
    by (simp add: Cons isOpaqueId_def cls) blast
qed

lemma epoch_pattern:
  "(1 \<le> length s \<and> length s \<le> 20 \<and> 49 \<le> s ! 0 \<and> s ! 0 \<le> 57) \<and>
     list_all (\<lambda>c. 48 \<le> c \<and> c \<le> 57) (drop 1 s) \<longleftrightarrow> rx_match FENCING_EPOCH_PATTERN s"
  unfolding FENCING_EPOCH_PATTERN_def match_head_upto
  by (cases s) (auto simp: rng_def list_all_iff)

text \<open>
  A fencing epoch is exactly the canonical decimal of a number from 1 to \<open>2^64 - 1\<close>: the length
  bound of twenty characters never excludes one.
\<close>

lemma canonical_unfold:
  "canonical_pos_dec s \<longleftrightarrow> s \<noteq> [] \<and> 49 \<le> s ! 0 \<and> s ! 0 \<le> 57 \<and>
     list_all (\<lambda>c. 48 \<le> c \<and> c \<le> 57) (drop 1 s)"
proof (cases s)
  case (Cons c u)
  have "(48 \<le> c \<and> c \<le> 57) \<and> c \<noteq> 48 \<longleftrightarrow> 49 \<le> c \<and> c \<le> 57"
    unfolding word_le_nat_alt unat_arith_simps by auto
  with Cons show ?thesis
    by (auto simp: canonical_pos_dec_def is_digit_def [abs_def])
qed (simp add: canonical_pos_dec_def)

lemma uint64_dec_length:
  assumes "canonical_pos_dec s" and "dec_val s \<le> UINT64_MAX"
  shows "length s \<le> 20"
proof (rule ccontr)
  assume "\<not> length s \<le> 20"
  then have "(10 :: nat) ^ 20 \<le> 10 ^ (length s - 1)" by (intro power_increasing) simp_all
  also have "\<dots> \<le> dec_val s" by (rule dec_val_lower) (rule assms(1))
  finally show False using assms(2) by (simp add: UINT64_MAX_def)
qed

lemma parseFencingEpoch_iff:
  "parseFencingEpochForRecord v e = Inr n \<longleftrightarrow>
     (\<exists>s. v = JStr s \<and> canonical_pos_dec s \<and> dec_val s = n \<and> n \<le> UINT64_MAX)"
proof (cases v)
  case (JStr s)
  have "parseFencingEpochForRecord v e = Inr n \<longleftrightarrow>
      (length s \<le> 20 \<and> canonical_pos_dec s) \<and> dec_val s \<le> UINT64_MAX \<and> n = dec_val s"
    by (auto simp: JStr parseFencingEpochForRecord_def canonical_unfold Suc_le_eq)
  then show ?thesis
    using uint64_dec_length [of s] by (auto simp: JStr)
qed (auto simp: parseFencingEpochForRecord_def)

lemma parseFencingEpoch_dec_of:
  "parseFencingEpochForRecord v e = Inr n \<longleftrightarrow> v = JStr (dec_of n) \<and> 1 \<le> n \<and> n \<le> UINT64_MAX"
proof
  assume "parseFencingEpochForRecord v e = Inr n"
  then obtain s where "v = JStr s" "canonical_pos_dec s" "dec_val s = n" "n \<le> UINT64_MAX"
    by (auto simp: parseFencingEpoch_iff)
  then show "v = JStr (dec_of n) \<and> 1 \<le> n \<and> n \<le> UINT64_MAX"
    using dec_of_val canonical_dec_pos [of s] by auto
next
  assume "v = JStr (dec_of n) \<and> 1 \<le> n \<and> n \<le> UINT64_MAX"
  then show "parseFencingEpochForRecord v e = Inr n"
    using dec_of_canonical [of n] by (simp add: parseFencingEpoch_iff)
qed

lemma parseFencingEpoch_Inl: "parseFencingEpochForRecord v e = Inl e' \<Longrightarrow> e' = e"
  by (auto simp: parseFencingEpochForRecord_def guarded_Inl split: jsval.splits
      dest!: first_err_SomeD)

lemma parseFencingEpoch_prim: "parseFencingEpochForRecord v e = Inr n \<Longrightarrow> is_prim v"
  by (auto simp: parseFencingEpoch_iff)

section \<open>The order of fencing epochs\<close>

text \<open>
  Two modules parse and compare epochs, one with a loop and one with a regular expression.
  Clients rely only on these laws: what is accepted, and that the comparison is numeric.
\<close>

locale epoch_order =
  fixes parse :: "jsval \<Rightarrow> 'e + nat"
    and compare :: "jsval \<Rightarrow> jsval \<Rightarrow> 'e + int"
  assumes parse_iff: "parse v = Inr n \<longleftrightarrow> v = JStr (dec_of n) \<and> 1 \<le> n \<and> n \<le> UINT64_MAX"
    and compare_value: "parse l = Inr a \<Longrightarrow> parse r = Inr b \<Longrightarrow>
      compare l r = Inr (if a < b then - 1 else if a > b then 1 else 0)"
    and compare_parsed: "compare l r = Inr c \<Longrightarrow> \<exists>a b. parse l = Inr a \<and> parse r = Inr b"
begin

lemma parse_unique: "parse l = Inr n \<Longrightarrow> parse r = Inr n \<Longrightarrow> l = r"
  by (simp add: parse_iff)

lemma compare_later: "parse l = Inr a \<Longrightarrow> parse r = Inr b \<Longrightarrow> (\<exists>c > 0. compare l r = Inr c) \<longleftrightarrow> b < a"
  by (simp add: compare_value)

lemma compare_equal:
  assumes "compare l r = Inr 0"
  shows "l = r"
proof -
  obtain a b where p: "parse l = Inr a" "parse r = Inr b" using compare_parsed [OF assms] by blast
  with assms have "a = b" by (simp add: compare_value split: if_splits)
  with p show ?thesis by (simp add: parse_unique)
qed

lemma compare_swap:
  assumes "compare l r = Inr c"
  shows "compare r l = Inr (- c)"
proof -
  obtain a b where "parse l = Inr a" "parse r = Inr b" using compare_parsed [OF assms] by blast
  with assms show ?thesis by (auto simp: compare_value split: if_splits)
qed

lemma compare_trans:
  assumes "compare x y = Inr 1" and "compare y z = Inr 1"
  shows "compare x z = Inr 1"
proof -
  obtain a b c where "parse x = Inr a" "parse y = Inr b" "parse z = Inr c"
    using compare_parsed [OF assms(1)] compare_parsed [OF assms(2)] by auto
  with assms show ?thesis by (auto simp: compare_value split: if_splits)
qed

end

interpretation contract_epochs: epoch_order parseFencingEpoch compareFencingEpochs
proof
  show "parseFencingEpoch v = Inr n \<longleftrightarrow> v = JStr (dec_of n) \<and> 1 \<le> n \<and> n \<le> UINT64_MAX" for v n
    by (simp add: parseFencingEpoch_def parseFencingEpoch_dec_of)
qed (auto simp: compareFencingEpochs_def)

section \<open>What a record validator promises\<close>

text \<open>
  \<open>validate\<close> checks for the exact keys \<open>ks\<close>, runs further checks on the fields and returns a
  clone. The only law is that the checks accept the clones of fields they accept.
\<close>

locale record_schema =
  fixes validate :: "jsval \<Rightarrow> jsval result"
    and ks :: "string list"
    and e :: contract_error
    and checks :: "(string \<Rightarrow> jsval) \<Rightarrow> check list"
  assumes distinct_keys: "distinct ks"
    and shape: "validate v = guarded (assertExactObject v ks e # checks (fld v)) (defensiveClone v e)"
    and clone_checks: "list_all (\<lambda>c. c = None) (checks f) \<Longrightarrow>
      (\<And>k. k \<in> set ks \<Longrightarrow> structured_clone (f k) = Some (g k)) \<Longrightarrow>
      list_all (\<lambda>c. c = None) (checks g)"
begin

lemma accepted:
  "validate v = Inr w \<longleftrightarrow> exact_object v ks \<and> list_all (\<lambda>c. c = None) (checks (fld v)) \<and>
     structured_clone v = Some w"
  by (auto simp: shape defensiveClone_def split: option.splits)

lemma result_field: "validate v = Inr w \<Longrightarrow> k \<in> set ks \<Longrightarrow> structured_clone (fld v k) = Some (fld w k)"
  using exact_clone(2) distinct_keys by (auto simp: accepted)

lemma result_exact: "validate v = Inr w \<Longrightarrow> exact_object w ks"
  using exact_clone(1) distinct_keys by (auto simp: accepted)

lemma result_checks: "validate v = Inr w \<Longrightarrow> list_all (\<lambda>c. c = None) (checks (fld w))"
  by (rule clone_checks [of "fld v" "fld w"]) (simp add: accepted, rule result_field)

lemma result_clone: "validate v = Inr w \<Longrightarrow> structured_clone w = Some w"
  unfolding accepted by (blast intro: clone_idem)

lemma idempotent: "validate v = Inr w \<Longrightarrow> validate w = Inr w"
  unfolding accepted [of w w] by (intro conjI) (erule result_exact result_checks result_clone)+

lemma same_prim: "validate v = Inr w \<Longrightarrow> k \<in> set ks \<Longrightarrow> is_prim (fld v k) \<Longrightarrow> fld w k = fld v k"
  using result_field clone_prim by blast

end

text \<open>A record all of whose fields are primitives.\<close>

locale flat_record =
  fixes validate :: "jsval \<Rightarrow> jsval result"
    and ks :: "string list"
    and e :: contract_error
    and checks :: "(string \<Rightarrow> jsval) \<Rightarrow> check list"
  assumes keys_distinct: "distinct ks"
    and flat_shape:
      "validate v = guarded (assertExactObject v ks e # checks (fld v)) (defensiveClone v e)"
    and reads: "(\<And>k. k \<in> set ks \<Longrightarrow> f k = g k) \<Longrightarrow> checks f = checks g"
    and prims: "list_all (\<lambda>c. c = None) (checks f) \<Longrightarrow> list_all (\<lambda>k. data_prim (f k)) ks"

sublocale flat_record < record_schema
proof
  show "distinct ks" by (rule keys_distinct)
  show "validate v = guarded (assertExactObject v ks e # checks (fld v)) (defensiveClone v e)" for v
    by (rule flat_shape)
next
  fix f g
  assume ok: "list_all (\<lambda>c. c = None) (checks f)"
    and cl: "\<And>k. k \<in> set ks \<Longrightarrow> structured_clone (f k) = Some (g k)"
  from prims [OF ok] have "f k = g k" if "k \<in> set ks" for k
    using that cl [OF that] clone_data_prim by (auto simp: list_all_iff)
  then have "checks f = checks g" by (rule reads)
  with ok show "list_all (\<lambda>c. c = None) (checks g)" by simp
qed

context flat_record
begin

lemma same_field:
  assumes "validate v = Inr w" and "k \<in> set ks"
  shows "fld w k = fld v k"
proof -
  from assms(1) have "list_all (\<lambda>k. data_prim (fld v k)) ks"
    by (intro prims) (simp add: accepted)
  with assms(2) have "structured_clone (fld v k) = Some (fld v k)"
    by (simp add: list_all_iff clone_data_prim)
  with result_field [OF assms] show ?thesis by simp
qed

lemma accepts_iff:
  "(\<exists>w. validate v = Inr w) \<longleftrightarrow> exact_object v ks \<and> list_all (\<lambda>c. c = None) (checks (fld v))"
proof
  assume ok: "exact_object v ks \<and> list_all (\<lambda>c. c = None) (checks (fld v))"
  then have "structured_clone (fld v k) \<noteq> None" if "k \<in> set ks" for k
    using prims [of "fld v"] clone_data_prim that by (auto simp: list_all_iff)
  with ok obtain w where "structured_clone v = Some w"
    using exact_clone_total keys_distinct by blast
  with ok show "\<exists>w. validate v = Inr w" by (auto simp: accepted)
qed (auto simp: accepted)

lemma field_prim: "validate v = Inr w \<Longrightarrow> k \<in> set ks \<Longrightarrow> data_prim (fld w k)"
  using prims [OF result_checks [of v w]] unfolding list_all_iff by blast

end

section \<open>Facts the record checks share\<close>

lemma uuid_data: "isCanonicalUuid v \<Longrightarrow> data_prim v"
  by (cases v) (auto simp: isCanonicalUuid_def)

lemma opaque_data: "isOpaqueId v \<Longrightarrow> data_prim v"
  by (cases v) (auto simp: isOpaqueId_def)

lemma sha_data: "isSha256Hex v \<Longrightarrow> data_prim v"
  by (cases v) (auto simp: isSha256Hex_def)

lemma epoch_data: "parseFencingEpochForRecord v e = Inr n \<Longrightarrow> data_prim v"
  by (auto simp: parseFencingEpoch_iff)

lemma iso_iff: "assertIsoTimestamp v e = Inr t \<longleftrightarrow>
    (\<exists>s. v = JStr s \<and> date_parse s = Some t \<and> to_iso_string t = s)"
  by (cases v) (auto simp: assertIsoTimestamp_def split: option.split if_split_asm)

lemma iso_data: "assertIsoTimestamp v e = Inr t \<Longrightarrow> data_prim v"
  by (auto simp: iso_iff)

lemma root_data: "assertAttachmentRootPath v e = None \<Longrightarrow> data_prim v"
  by (cases v) (auto simp: assertAttachmentRootPath_def)

lemma object_id_data: "assertPersistentObjectId v e = None \<Longrightarrow> data_prim v"
  by (cases v) (auto simp: assertPersistentObjectId_def)

lemma assertUuid_None [simp]: "assertUuid v e = None \<longleftrightarrow> isCanonicalUuid v"
  and assertOpaqueId_None [simp]: "assertOpaqueId v e = None \<longleftrightarrow> isOpaqueId v"
  by (simp_all add: assertUuid_def assertOpaqueId_def)

lemmas field_data = uuid_data opaque_data sha_data epoch_data iso_data root_data object_id_data

section \<open>Concrete identifiers and timestamps\<close>

abbreviation ex_session :: jsval where
  "ex_session \<equiv> lit ''11111111-1111-4111-8111-111111111111''"

lemma ex_session_ok [simp]: "isCanonicalUuid ex_session"
  by code_simp

lemma ex_civil: "civil_of_day 20666 = (2026, 8, 1)"
  by code_simp

lemma ex_noon [simp]: "date_parse (js ''2026-08-01T12:00:00.000Z'') = Some 1785585600000"
    "to_iso_string 1785585600000 = js ''2026-08-01T12:00:00.000Z''"
  by (simp add: date_parse_def js_def is_digit_def dec_val_def digit_val_def iso_fields_def
      iso_num_def iso_time_def max_time_def day_of_civil_def)
    (simp add: to_iso_string_def ex_civil iso_year_def js_def Let_def)

lemma ex_one [simp]: "date_parse (js ''2026-08-01T13:00:00.000Z'') = Some 1785589200000"
    "to_iso_string 1785589200000 = js ''2026-08-01T13:00:00.000Z''"
  by (simp add: date_parse_def js_def is_digit_def dec_val_def digit_val_def iso_fields_def
      iso_num_def iso_time_def max_time_def day_of_civil_def)
    (simp add: to_iso_string_def ex_civil iso_year_def js_def Let_def)

lemma ex_ts_ok [simp]:
  "assertIsoTimestamp (lit ''2026-08-01T12:00:00.000Z'') e = Inr 1785585600000"
  "assertIsoTimestamp (lit ''2026-08-01T13:00:00.000Z'') e = Inr 1785589200000"
  by (simp_all add: iso_iff)

lemma ex_ids [simp]: "isOpaqueId (lit ''lease-1'')" "isOpaqueId (lit ''holder-1'')"
  by (simp_all add: isOpaqueId_def isAsciiAlphaNumeric_def js_def)

lemma ex_epoch [simp]: "parseFencingEpochForRecord (lit ''7'') e = Inr 7"
  "parseFencingEpochForRecord (lit ''8'') e = Inr 8"
  by (simp_all add: parseFencingEpochForRecord_def js_def guarded_def dec_val_def digit_val_def is_digit_def UINT64_MAX_def)

end
