(* ===== verification/Contract_Lease.thy ===== *)
theory Contract_Lease
  imports Contract_Core
begin

text \<open>
  Lease grants and their renewal, storage references, provisioning and writable attachments
  of \<open>session-storage-contracts.mjs\<close>. A fence is the tuple session, lease, holder and epoch;
  the lemmas say when a presented or renewed lease carries the canonical fence.
\<close>

text \<open>\<open>a.k === b.k && ...\<close> over a list of fields.\<close>

definition same_fields :: "string list \<Rightarrow> jsval \<Rightarrow> jsval \<Rightarrow> bool" where
  "same_fields ks a b = list_all (\<lambda>k. js_seq (fld a k) (fld b k)) ks"

text \<open>\<open>Date.parse(v)\<close> as a number, and \<open>Number.isFinite(v)\<close>.\<close>

definition date_num :: "jsval \<Rightarrow> jsnum" where
  "date_num v = (case v of
     JStr s \<Rightarrow> (case date_parse s of Some t \<Rightarrow> JFin (of_int t) | None \<Rightarrow> JNaN)
   | _ \<Rightarrow> JNaN)"

definition is_finite_number :: "jsval \<Rightarrow> bool" where
  "is_finite_number v = (case v of JNum n \<Rightarrow> num_is_finite n | _ \<Rightarrow> False)"

definition num_of :: "jsval \<Rightarrow> jsnum" where
  "num_of v = (case v of JNum n \<Rightarrow> n | _ \<Rightarrow> JNaN)"

section \<open>Lease grants\<close>

definition lease_keys :: "string list" where
  "lease_keys = [''contractVersion'', ''expiresAt'', ''fencingEpoch'', ''holderId'', ''leaseId'',
     ''sessionId'']"

definition lease_checks :: "(string \<Rightarrow> jsval) \<Rightarrow> check list" where
  "lease_checks f =
     [ensure (js_seq (f ''contractVersion'') (JInt STORAGE_CONTRACT_VERSION)) Invalid_fence,
      assertUuid (f ''sessionId'') Invalid_fence,
      assertOpaqueId (f ''leaseId'') Invalid_fence,
      assertOpaqueId (f ''holderId'') Invalid_fence,
      err_of (parseFencingEpochForRecord (f ''fencingEpoch'') Invalid_fence),
      err_of (assertIsoTimestamp (f ''expiresAt'') Invalid_fence)]"

definition assertLeaseGrant :: "jsval \<Rightarrow> jsval result" where
  "assertLeaseGrant v =
     guarded (assertExactObject v lease_keys Invalid_fence # lease_checks (fld v))
       (defensiveClone v Invalid_fence)"

abbreviation fence_fields :: "string list" where
  "fence_fields \<equiv> [''sessionId'', ''leaseId'', ''holderId'', ''fencingEpoch'']"

definition assertLeaseRenewal :: "jsval \<Rightarrow> jsval \<Rightarrow> jsval \<Rightarrow> jsval result" where
  "assertLeaseRenewal previous next options =
     rbind (assertOptionsObject options [''canonical'', ''now''] [''canonical'', ''now''] Invalid_fence)
       (\<lambda>opts. rbind (assertLeaseGrant previous) (\<lambda>before.
        rbind (assertLeaseGrant next) (\<lambda>after.
        rbind (assertLeaseGrant (fld opts ''canonical'')) (\<lambda>current.
        guarded
          [ensure (is_finite_number (fld opts ''now'')) Invalid_fence,
           ensure (same_fields [''sessionId'', ''leaseId'', ''holderId'', ''fencingEpoch'',
             ''expiresAt''] before current) Stale_fence,
           ensure (num_less (num_of (fld opts ''now'')) (date_num (fld before ''expiresAt'')))
             Lease_expired,
           ensure (same_fields fence_fields before after) Stale_fence,
           ensure (num_less (date_num (fld before ''expiresAt'')) (date_num (fld after ''expiresAt'')))
             Invalid_fence]
          (Inr after)))))"

definition assertCanonicalFenceMatch :: "jsval \<Rightarrow> jsval result" where
  "assertCanonicalFenceMatch options =
     rbind (assertOptionsObject options [''canonical'', ''now'', ''presented'']
             [''canonical'', ''now'', ''presented''] Invalid_fence)
       (\<lambda>opts. rbind (assertLeaseGrant (fld opts ''canonical'')) (\<lambda>expected.
        rbind (assertLeaseGrant (fld opts ''presented'')) (\<lambda>actual.
        guarded
          [ensure (is_finite_number (fld opts ''now'')) Invalid_fence,
           ensure (same_fields fence_fields expected actual) Stale_fence,
           ensure (num_less (num_of (fld opts ''now'')) (date_num (fld expected ''expiresAt'')))
             Lease_expired]
          (Inr expected))))"

section \<open>Storage references and provisioning\<close>

definition storage_ref_keys :: "string list" where
  "storage_ref_keys = [''backendId'', ''contractVersion'', ''sessionId'', ''storageId'']"

definition storage_ref_checks :: "(string \<Rightarrow> jsval) \<Rightarrow> check list" where
  "storage_ref_checks f =
     [ensure (js_seq (f ''contractVersion'') (JInt STORAGE_CONTRACT_VERSION)) Invalid_storage_ref,
      assertOpaqueId (f ''backendId'') Invalid_storage_ref,
      assertOpaqueId (f ''storageId'') Invalid_storage_ref,
      assertUuid (f ''sessionId'') Invalid_storage_ref]"

definition assertSessionStorageRef :: "jsval \<Rightarrow> jsval result" where
  "assertSessionStorageRef v =
     guarded (assertExactObject v storage_ref_keys Invalid_storage_ref # storage_ref_checks (fld v))
       (defensiveClone v Invalid_storage_ref)"

definition provision_keys :: "string list" where
  "provision_keys = [''backendId'', ''contractVersion'', ''operationId'', ''sessionId'']"

definition provision_checks :: "(string \<Rightarrow> jsval) \<Rightarrow> check list" where
  "provision_checks f =
     [ensure (js_seq (f ''contractVersion'') (JInt STORAGE_CONTRACT_VERSION)) Invalid_storage_provision,
      assertOpaqueId (f ''backendId'') Invalid_storage_provision,
      assertUuid (f ''sessionId'') Invalid_storage_provision,
      assertOpaqueId (f ''operationId'') Invalid_storage_provision]"

definition assertSessionProvisionRequest :: "jsval \<Rightarrow> jsval result" where
  "assertSessionProvisionRequest v =
     guarded (assertExactObject v provision_keys Invalid_storage_provision # provision_checks (fld v))
       (defensiveClone v Invalid_storage_provision)"

definition provision_result_keys :: "string list" where
  "provision_result_keys = [''backendId'', ''contractVersion'', ''operationId'', ''proofId'',
     ''sessionId'', ''status'', ''storageId'']"

text \<open>The object literal \<open>{ k: value.k, ... }\<close>.\<close>

definition pick :: "string list \<Rightarrow> jsval \<Rightarrow> jsval" where
  "pick ks v = plain_obj (map (\<lambda>k. (k, fld v k)) ks)"

text \<open>The checks on the result itself, as both the call and the replay of an earlier result run them.\<close>

definition provision_result_matches :: "jsval \<Rightarrow> jsval \<Rightarrow> check" where
  "provision_result_matches v request =
     first_err [assertExactObject v provision_result_keys Invalid_storage_provision,
       err_of (rbind (assertSessionProvisionRequest request) (\<lambda>expected.
         rbind (assertSessionProvisionRequest (pick provision_keys v)) (\<lambda>actual.
         guarded
           [assertOpaqueId (fld v ''storageId'') Invalid_storage_provision,
            assertOpaqueId (fld v ''proofId'') Invalid_storage_provision,
            ensure (js_seq (fld v ''status'') (lit ''provisioned'')) Invalid_storage_provision,
            ensure (same_fields provision_keys expected actual) Invalid_storage_provision]
           (Inr ()))))]"

definition assertSessionProvisionResult :: "jsval \<Rightarrow> jsval \<Rightarrow> jsval result" where
  "assertSessionProvisionResult v options =
     rbind (assertOptionsObject options [''previousResult'', ''request''] [''request'']
             Invalid_storage_provision)
       (\<lambda>opts. guarded
         (provision_result_matches v (fld opts ''request'') #
          (if fld opts ''previousResult'' = JUndefined then []
           else [provision_result_matches (fld opts ''previousResult'') (fld opts ''request''),
                 ensure (same_fields provision_result_keys (fld opts ''previousResult'') v)
                   Invalid_storage_provision]))
         (defensiveClone v Invalid_storage_provision))"

section \<open>Attachments\<close>

definition attachment_keys :: "string list" where
  "attachment_keys = [''attachmentId'', ''backendId'', ''contractVersion'', ''fencingEpoch'',
     ''holderId'', ''kind'', ''leaseId'', ''mode'', ''operationId'', ''proofId'', ''rootPath'',
     ''sessionId'', ''storageId'']"

definition attachment_checks :: "(string \<Rightarrow> jsval) \<Rightarrow> check list" where
  "attachment_checks f =
     [ensure (js_seq (f ''contractVersion'') (JInt STORAGE_CONTRACT_VERSION)) Invalid_storage_attachment,
      assertOpaqueId (f ''backendId'') Invalid_storage_attachment,
      assertOpaqueId (f ''storageId'') Invalid_storage_attachment,
      assertUuid (f ''sessionId'') Invalid_storage_attachment,
      assertOpaqueId (f ''attachmentId'') Invalid_storage_attachment,
      assertOpaqueId (f ''leaseId'') Invalid_storage_attachment,
      assertOpaqueId (f ''holderId'') Invalid_storage_attachment,
      assertOpaqueId (f ''operationId'') Invalid_storage_attachment,
      assertOpaqueId (f ''proofId'') Invalid_storage_attachment,
      err_of (parseFencingEpochForRecord (f ''fencingEpoch'') Invalid_storage_attachment),
      ensure (js_seq (f ''kind'') (lit ''directory'')) Invalid_storage_attachment,
      assertAttachmentRootPath (f ''rootPath'') Invalid_storage_attachment,
      ensure (js_seq (f ''mode'') (lit ''read-write'')) Invalid_storage_attachment]"

definition assertSessionAttachment :: "jsval \<Rightarrow> jsval result" where
  "assertSessionAttachment v =
     guarded (assertExactObject v attachment_keys Invalid_storage_attachment # attachment_checks (fld v))
       (defensiveClone v Invalid_storage_attachment)"

section \<open>Fields of picked and compared records\<close>

lemma data_prim_prim: "data_prim v \<Longrightarrow> is_prim v"
  by (cases v) (simp_all add: is_prim_def)

lemma same_fields_eq:
  "same_fields ks a b \<Longrightarrow> k \<in> set ks \<Longrightarrow> data_prim (fld a k) \<Longrightarrow> fld b k = fld a k"
  using js_seqD [of "fld a k" "fld b k"] data_prim_prim by (simp add: same_fields_def list_all_iff)

lemma fld_pick: "fld (pick ks v) k = (if k \<in> set ks then fld v k else fld (plain_obj []) k)"
  by (simp add: pick_def fld_plain_obj map_of_map_key comp_def)

section \<open>Each is a flat record\<close>

interpretation lease: flat_record assertLeaseGrant lease_keys Invalid_fence lease_checks
proof
  show "list_all (\<lambda>k. data_prim (f k)) lease_keys"
    if "list_all (\<lambda>c. c = None) (lease_checks f)" for f
    using that by (auto simp: lease_checks_def lease_keys_def dest: field_data)
qed (simp_all add: lease_keys_def assertLeaseGrant_def lease_checks_def)

interpretation storage_ref: flat_record assertSessionStorageRef storage_ref_keys Invalid_storage_ref
  storage_ref_checks
proof
  show "list_all (\<lambda>k. data_prim (f k)) storage_ref_keys"
    if "list_all (\<lambda>c. c = None) (storage_ref_checks f)" for f
    using that by (auto simp: storage_ref_checks_def storage_ref_keys_def dest: field_data)
qed (simp_all add: storage_ref_keys_def assertSessionStorageRef_def storage_ref_checks_def)

interpretation provision: flat_record assertSessionProvisionRequest provision_keys
  Invalid_storage_provision provision_checks
proof
  show "list_all (\<lambda>k. data_prim (f k)) provision_keys"
    if "list_all (\<lambda>c. c = None) (provision_checks f)" for f
    using that by (auto simp: provision_checks_def provision_keys_def dest: field_data)
qed (simp_all add: provision_keys_def assertSessionProvisionRequest_def provision_checks_def)

interpretation attachment: flat_record assertSessionAttachment attachment_keys
  Invalid_storage_attachment attachment_checks
proof
  show "list_all (\<lambda>k. data_prim (f k)) attachment_keys"
    if "list_all (\<lambda>c. c = None) (attachment_checks f)" for f
    using that by (auto simp: attachment_checks_def attachment_keys_def dest: field_data)
qed (simp_all add: attachment_keys_def assertSessionAttachment_def attachment_checks_def)

section \<open>The lease as the authority sees it\<close>

text \<open>
  The typed content of an accepted lease: its fence and its expiration in milliseconds. Epochs and
  timestamps are canonical, so two leases agree on a field exactly when they agree on its value.
\<close>

record lease =
  l_session :: jsstr
  l_lease :: jsstr
  l_holder :: jsstr
  l_epoch :: nat
  l_expires :: int

definition str_of :: "jsval \<Rightarrow> jsstr" where
  "str_of v = (case v of JStr s \<Rightarrow> s | _ \<Rightarrow> [])"

definition lease_view :: "jsval \<Rightarrow> lease" where
  "lease_view w = \<lparr>l_session = str_of (fld w ''sessionId''), l_lease = str_of (fld w ''leaseId''),
     l_holder = str_of (fld w ''holderId''), l_epoch = dec_val (str_of (fld w ''fencingEpoch'')),
     l_expires = (case date_parse (str_of (fld w ''expiresAt'')) of Some t \<Rightarrow> t | None \<Rightarrow> 0)\<rparr>"

definition lease_of :: "jsval \<Rightarrow> lease option" where
  "lease_of v = (case assertLeaseGrant v of Inl _ \<Rightarrow> None | Inr w \<Rightarrow> Some (lease_view w))"

definition same_fence :: "lease \<Rightarrow> lease \<Rightarrow> bool" where
  "same_fence a b \<longleftrightarrow> l_session a = l_session b \<and> l_lease a = l_lease b \<and>
     l_holder a = l_holder b \<and> l_epoch a = l_epoch b"

text \<open>What renewal promises, on typed leases.\<close>

definition renew_spec :: "lease \<Rightarrow> lease \<Rightarrow> lease \<Rightarrow> rat \<Rightarrow> contract_error + lease" where
  "renew_spec prev next cur now =
     (if prev \<noteq> cur then Inl Stale_fence
      else if of_int (l_expires prev) \<le> now then Inl Lease_expired
      else if \<not> same_fence prev next then Inl Stale_fence
      else if l_expires next \<le> l_expires prev then Inl Invalid_fence
      else Inr next)"

definition fence_match_spec :: "lease \<Rightarrow> lease \<Rightarrow> rat \<Rightarrow> contract_error + lease" where
  "fence_match_spec canonical presented now =
     (if \<not> same_fence canonical presented then Inl Stale_fence
      else if of_int (l_expires canonical) \<le> now then Inl Lease_expired
      else Inr canonical)"

lemma opaque_str: "isOpaqueId v \<Longrightarrow> v = JStr (str_of v)"
  by (cases v) (auto simp: isOpaqueId_def str_of_def)

lemma uuid_str: "isCanonicalUuid v \<Longrightarrow> v = JStr (str_of v)"
  by (cases v) (auto simp: isCanonicalUuid_def str_of_def)

lemma lease_fields:
  assumes "assertLeaseGrant v = Inr w"
  shows "fld w ''sessionId'' = JStr (l_session (lease_view w))"
    and "fld w ''leaseId'' = JStr (l_lease (lease_view w))"
    and "fld w ''holderId'' = JStr (l_holder (lease_view w))"
    and "fld w ''fencingEpoch'' = JStr (dec_of (l_epoch (lease_view w)))"
    and "fld w ''expiresAt'' = JStr (to_iso_string (l_expires (lease_view w)))"
    and "date_parse (to_iso_string (l_expires (lease_view w))) = Some (l_expires (lease_view w))"
    and "1 \<le> l_epoch (lease_view w)" and "l_epoch (lease_view w) \<le> UINT64_MAX"
proof -
  from lease.result_checks [OF assms] obtain n t where
    f: "isCanonicalUuid (fld w ''sessionId'')" "isOpaqueId (fld w ''leaseId'')"
      "isOpaqueId (fld w ''holderId'')"
    and n: "parseFencingEpochForRecord (fld w ''fencingEpoch'') Invalid_fence = Inr n"
    and t: "assertIsoTimestamp (fld w ''expiresAt'') Invalid_fence = Inr t"
    by (auto simp: lease_checks_def)
  show "fld w ''sessionId'' = JStr (l_session (lease_view w))"
    "fld w ''leaseId'' = JStr (l_lease (lease_view w))"
    "fld w ''holderId'' = JStr (l_holder (lease_view w))"
    using f by (simp_all add: lease_view_def opaque_str uuid_str)
  from n have "fld w ''fencingEpoch'' = JStr (dec_of n)" "1 \<le> n" "n \<le> UINT64_MAX"
    by (simp_all add: parseFencingEpoch_dec_of)
  then show "fld w ''fencingEpoch'' = JStr (dec_of (l_epoch (lease_view w)))"
    "1 \<le> l_epoch (lease_view w)" "l_epoch (lease_view w) \<le> UINT64_MAX"
    by (simp_all add: lease_view_def str_of_def)
  from t obtain s where "fld w ''expiresAt'' = JStr s" "date_parse s = Some t" "to_iso_string t = s"
    by (auto simp: iso_iff)
  then show "fld w ''expiresAt'' = JStr (to_iso_string (l_expires (lease_view w)))"
    "date_parse (to_iso_string (l_expires (lease_view w))) = Some (l_expires (lease_view w))"
    by (simp_all add: lease_view_def str_of_def)
qed

lemma dec_of_inject [simp]: "dec_of m = dec_of n \<longleftrightarrow> m = n"
  by (metis dec_val_of)

lemma lease_expiry_inject:
  assumes "assertLeaseGrant v = Inr w" and "assertLeaseGrant v' = Inr w'"
  shows "fld w ''expiresAt'' = fld w' ''expiresAt'' \<longleftrightarrow>
    l_expires (lease_view w) = l_expires (lease_view w')"
  using lease_fields(5,6) [OF assms(1)] lease_fields(5,6) [OF assms(2)]
  by (metis jsval.inject(4) option.inject)

lemma lease_date_num:
  "assertLeaseGrant v = Inr w \<Longrightarrow> date_num (fld w ''expiresAt'') = JFin (of_int (l_expires (lease_view w)))"
  using lease_fields(5,6) by (simp add: date_num_def)

lemma same_fields_fence:
  assumes "assertLeaseGrant v = Inr w" and "assertLeaseGrant v' = Inr w'"
  shows "same_fields fence_fields w w' \<longleftrightarrow> same_fence (lease_view w) (lease_view w')"
  using lease_fields(1-4) [OF assms(1)] lease_fields(1-4) [OF assms(2)]
  by (auto simp: same_fields_def same_fence_def)

lemma same_fields_lease:
  assumes "assertLeaseGrant v = Inr w" and "assertLeaseGrant v' = Inr w'"
  shows "same_fields [''sessionId'', ''leaseId'', ''holderId'', ''fencingEpoch'', ''expiresAt''] w w' \<longleftrightarrow>
    lease_view w = lease_view w'"
proof -
  have "same_fields [''sessionId'', ''leaseId'', ''holderId'', ''fencingEpoch'', ''expiresAt''] w w' \<longleftrightarrow>
      same_fields fence_fields w w' \<and> js_seq (fld w ''expiresAt'') (fld w' ''expiresAt'')"
    by (auto simp: same_fields_def)
  also have "\<dots> \<longleftrightarrow> same_fence (lease_view w) (lease_view w') \<and>
      l_expires (lease_view w) = l_expires (lease_view w')"
    using same_fields_fence [OF assms] lease_expiry_inject [OF assms] lease_fields(5) [OF assms(1)]
      lease_fields(5) [OF assms(2)] by auto
  finally show ?thesis by (auto simp: same_fence_def)
qed

lemma lease_ofE:
  assumes "lease_of v = Some L"
  obtains w where "assertLeaseGrant v = Inr w" "lease_view w = L"
  using assms by (auto simp: lease_of_def split: sum.splits)

definition ex_lease :: "string \<Rightarrow> jsval" where
  "ex_lease expires = plain_obj [(''contractVersion'', JInt 1), (''expiresAt'', lit expires),
     (''fencingEpoch'', lit ''7''), (''holderId'', lit ''holder-1''), (''leaseId'', lit ''lease-1''),
     (''sessionId'', ex_session)]"

lemma ex_lease_ok:
  assumes "assertIsoTimestamp (lit x) Invalid_fence = Inr t"
  shows "assertLeaseGrant (ex_lease x) = Inr (ex_lease x)"
  using assms unfolding assertLeaseGrant_def
  by (simp add: ex_lease_def lease_keys_def lease_checks_def exact_plain_obj clone_plain_obj fld_plain_obj defensiveClone_def STORAGE_CONTRACT_VERSION_def)

lemma ex_lease_view: "lease_view (ex_lease x) = \<lparr>l_session = js ''11111111-1111-4111-8111-111111111111'',
    l_lease = js ''lease-1'', l_holder = js ''holder-1'', l_epoch = 7,
    l_expires = (case date_parse (js x) of Some t \<Rightarrow> t | None \<Rightarrow> 0)\<rparr>"
  by (simp add: lease_view_def ex_lease_def fld_plain_obj str_of_def dec_val_def js_def digit_val_def)

lemma ex_lease_of [simp]:
  "lease_of (ex_lease ''2026-08-01T12:00:00.000Z'') = Some (lease_view (ex_lease ''2026-08-01T12:00:00.000Z''))"
  "lease_of (ex_lease ''2026-08-01T13:00:00.000Z'') = Some (lease_view (ex_lease ''2026-08-01T13:00:00.000Z''))"
  by (simp_all add: lease_of_def ex_lease_ok [OF ex_ts_ok(1)] ex_lease_ok [OF ex_ts_ok(2)])

text \<open>
  C18: Lease renewal refines its specification on typed leases: a renewal succeeds exactly when it
  starts from the canonical lease, that lease has not expired, the fence (session, lease, holder,
  epoch) is unchanged and the expiration moves strictly forward, and each failed condition
  raises the code the specification gives, in that order.
\<close>
theorem lease_renewal_refines:
  assumes "assertOptionsObject options [''canonical'', ''now''] [''canonical'', ''now''] Invalid_fence
      = Inr opts"
    and "lease_of previous = Some P" and "lease_of next = Some N"
    and "lease_of (fld opts ''canonical'') = Some C" and "fld opts ''now'' = JNum (JFin q)"
  shows "map_sum id lease_view (assertLeaseRenewal previous next options) = renew_spec P N C q"
proof -
  obtain p n c where p: "assertLeaseGrant previous = Inr p" "lease_view p = P"
    and n: "assertLeaseGrant next = Inr n" "lease_view n = N"
    and c: "assertLeaseGrant (fld opts ''canonical'') = Inr c" "lease_view c = C"
    using assms(2-4) by (auto elim!: lease_ofE)
  have "same_fields [''sessionId'', ''leaseId'', ''holderId'', ''fencingEpoch'', ''expiresAt''] p c
      \<longleftrightarrow> P = C"
    using same_fields_lease [OF p(1) c(1)] p(2) c(2) by simp
  moreover have "same_fields fence_fields p n \<longleftrightarrow> same_fence P N"
    using same_fields_fence [OF p(1) n(1)] p(2) n(2) by simp
  ultimately show ?thesis
    using lease_date_num [OF p(1)] lease_date_num [OF n(1)] p n c assms(1,5)
    by (auto simp: assertLeaseRenewal_def renew_spec_def is_finite_number_def num_is_finite_def
        num_of_def guarded_def first_err_Cons ensure_def not_less)
qed

theorem lease_renewal_refines_witness:
  "\<exists>options. map_sum id l_expires (map_sum id lease_view
      (assertLeaseRenewal (ex_lease ''2026-08-01T12:00:00.000Z'') (ex_lease ''2026-08-01T13:00:00.000Z'')
        options)) = Inr 1785589200000"
proof -
  let ?kvs = "[(''canonical'', ex_lease ''2026-08-01T12:00:00.000Z''), (''now'', JInt 1785585599999)]"
  obtain opts where o: "assertOptionsObject (plain_obj ?kvs) [''canonical'', ''now'']
      [''canonical'', ''now''] Invalid_fence = Inr opts"
    using options_plain_obj [of ?kvs "[''canonical'', ''now'']" "[''canonical'', ''now'']"] by auto
  show ?thesis
    using lease_renewal_refines [OF o ex_lease_of] options_plain_field [OF o]
    by (auto intro!: exI [of _ "plain_obj ?kvs"] simp: ex_lease_view renew_spec_def same_fence_def)
qed

text \<open>
  C19: Matching a presented lease against the canonical one refines its specification: it succeeds
  exactly when the fences are equal and the canonical lease has not expired, and returns the
  canonical lease; the expiration of the presented lease plays no part.
\<close>
theorem canonical_fence_match_refines:
  assumes "assertOptionsObject options [''canonical'', ''now'', ''presented'']
      [''canonical'', ''now'', ''presented''] Invalid_fence = Inr opts"
    and "lease_of (fld opts ''canonical'') = Some C" and "lease_of (fld opts ''presented'') = Some P"
    and "fld opts ''now'' = JNum (JFin q)"
  shows "map_sum id lease_view (assertCanonicalFenceMatch options) = fence_match_spec C P q"
proof -
  obtain p c where p: "assertLeaseGrant (fld opts ''presented'') = Inr p" "lease_view p = P"
    and c: "assertLeaseGrant (fld opts ''canonical'') = Inr c" "lease_view c = C"
    using assms(2,3) by (auto elim!: lease_ofE)
  have "same_fields fence_fields c p \<longleftrightarrow> same_fence C P"
    using same_fields_fence [OF c(1) p(1)] p(2) c(2) by simp
  then show ?thesis
    using lease_date_num [OF c(1)] p c assms(1,4)
    by (auto simp: assertCanonicalFenceMatch_def fence_match_spec_def is_finite_number_def
        num_is_finite_def num_of_def guarded_def first_err_Cons ensure_def not_less)
qed

theorem canonical_fence_match_refines_witness:
  "\<exists>options. map_sum id lease_view (assertCanonicalFenceMatch options) = Inl Lease_expired"
proof -
  let ?kvs = "[(''canonical'', ex_lease ''2026-08-01T12:00:00.000Z''), (''now'', JInt 1785585600000),
     (''presented'', ex_lease ''2026-08-01T13:00:00.000Z'')]"
  obtain opts where o: "assertOptionsObject (plain_obj ?kvs) [''canonical'', ''now'', ''presented'']
      [''canonical'', ''now'', ''presented''] Invalid_fence = Inr opts"
    using options_plain_obj [of ?kvs "[''canonical'', ''now'', ''presented'']"
        "[''canonical'', ''now'', ''presented'']"] by auto
  show ?thesis
    using canonical_fence_match_refines [OF o] options_plain_field [OF o]
    by (auto intro!: exI [of _ "plain_obj ?kvs"] simp: ex_lease_view fence_match_spec_def same_fence_def)
qed

end
