(* ===== verification/Contract_Manifest.thy ===== *)
theory Contract_Manifest
  imports Contract_Lease
begin

text \<open>
  The session manifest of \<open>session-storage-contracts.mjs\<close>: its validator, its construction, the
  comparison with a resolved platform image, and the two operations that combine a manifest with
  a lease, a storage reference and an attachment: the attachment match and the rootless worker
  template.
\<close>

definition SESSION_MANIFEST_SCHEMA_VERSION :: int where
  "SESSION_MANIFEST_SCHEMA_VERSION = 1"

definition SESSION_LAYOUT_VERSION :: int where
  "SESSION_LAYOUT_VERSION = 1"

definition SESSION_AUTH_MODE :: string where
  "SESSION_AUTH_MODE = ''external-chatgpt-access-token''"

definition PLATFORM_IMAGE_MEDIA_TYPES :: "string list" where
  "PLATFORM_IMAGE_MEDIA_TYPES =
     [''application/vnd.oci.image.manifest.v1+json'',
      ''application/vnd.docker.distribution.manifest.v2+json'']"

definition MAX_SUBAGENTS :: int where
  "MAX_SUBAGENTS = 10"

definition MAX_AGENT_DEPTH :: int where
  "MAX_AGENT_DEPTH = 2"

definition DEFAULT_AGENT_POLICY :: jsval where
  "DEFAULT_AGENT_POLICY = plain_obj
     [(''defaultMaxSubagents'', JInt 6), (''maxDepth'', JInt MAX_AGENT_DEPTH),
      (''maxSubagents'', JInt MAX_SUBAGENTS)]"

section \<open>The validator\<close>

definition assertManifestExactObject :: "jsval \<Rightarrow> string list \<Rightarrow> check" where
  "assertManifestExactObject v ks = assertExactObject v ks Invalid_session_manifest"

definition pattern_ok :: "rx \<Rightarrow> jsval \<Rightarrow> bool" where
  "pattern_ok r v = (case v of JStr s \<Rightarrow> rx_match r s | _ \<Rightarrow> False)"

definition assertManifestUuid :: "jsval \<Rightarrow> check" where
  "assertManifestUuid v = ensure (pattern_ok UUID_PATTERN v) Invalid_session_manifest"

definition is_safe_integer :: "jsval \<Rightarrow> bool" where
  "is_safe_integer v = (case v of JNum n \<Rightarrow> num_is_safe_integer n | _ \<Rightarrow> False)"

text \<open>\<open>a <= b\<close> on numbers.\<close>

definition js_le :: "jsval \<Rightarrow> jsval \<Rightarrow> bool" where
  "js_le a b = (num_less (num_of a) (num_of b) \<or> num_eq (num_of a) (num_of b))"

definition agent_policy_keys :: "string list" where
  "agent_policy_keys = [''defaultMaxSubagents'', ''maxDepth'', ''maxSubagents'']"

definition assertAgentPolicy :: "jsval \<Rightarrow> check" where
  "assertAgentPolicy v = first_err
     [assertManifestExactObject v agent_policy_keys,
      ensure (is_safe_integer (fld v ''maxSubagents'') \<and>
              js_seq (fld v ''maxSubagents'') (JInt MAX_SUBAGENTS)) Invalid_session_manifest,
      ensure (is_safe_integer (fld v ''maxDepth'') \<and>
              js_seq (fld v ''maxDepth'') (JInt MAX_AGENT_DEPTH)) Invalid_session_manifest,
      ensure (is_safe_integer (fld v ''defaultMaxSubagents'') \<and>
              js_le (JInt 1) (fld v ''defaultMaxSubagents'') \<and>
              js_le (fld v ''defaultMaxSubagents'') (fld v ''maxSubagents'')) Invalid_session_manifest]"

definition codex_version_ok :: "jsval \<Rightarrow> bool" where
  "codex_version_ok v = (case v of
     JStr s \<Rightarrow> length s \<le> 128 \<and> rx_match CODEX_VERSION_PATTERN s | _ \<Rightarrow> False)"

definition manifest_keys :: "string list" where
  "manifest_keys = [''agents'', ''authMode'', ''codex'', ''layoutVersion'', ''runtime'',
     ''schemaVersion'', ''sessionId'']"

definition codex_keys :: "string list" where
  "codex_keys = [''ephemeral'', ''historyMode'', ''rootThreadId'', ''sessionId'']"

definition runtime_keys :: "string list" where
  "runtime_keys = [''codexSandbox'', ''codexVersion'', ''imageDigest'', ''imageMediaType'', ''platform'']"

definition manifest_checks :: "(string \<Rightarrow> jsval) \<Rightarrow> check list" where
  "manifest_checks f =
     [ensure (js_seq (f ''schemaVersion'') (JInt SESSION_MANIFEST_SCHEMA_VERSION))
        Unsupported_manifest_version,
      assertManifestUuid (f ''sessionId''),
      assertManifestExactObject (f ''codex'') codex_keys,
      assertManifestUuid (fld (f ''codex'') ''rootThreadId''),
      assertManifestUuid (fld (f ''codex'') ''sessionId''),
      ensure (js_seq (fld (f ''codex'') ''sessionId'') (fld (f ''codex'') ''rootThreadId''))
        Invalid_session_manifest,
      ensure (js_seq (fld (f ''codex'') ''ephemeral'') (JBool False)) Invalid_session_manifest,
      ensure (array_includes [''legacy'', ''paginated''] (fld (f ''codex'') ''historyMode''))
        Invalid_session_manifest,
      assertManifestExactObject (f ''runtime'') runtime_keys,
      ensure (pattern_ok OCI_DIGEST_PATTERN (fld (f ''runtime'') ''imageDigest''))
        Invalid_session_manifest,
      ensure (array_includes PLATFORM_IMAGE_MEDIA_TYPES (fld (f ''runtime'') ''imageMediaType''))
        Invalid_session_manifest,
      ensure (array_includes [''linux/amd64'', ''linux/arm64''] (fld (f ''runtime'') ''platform''))
        Invalid_session_manifest,
      ensure (codex_version_ok (fld (f ''runtime'') ''codexVersion'')) Invalid_session_manifest,
      ensure (js_seq (fld (f ''runtime'') ''codexSandbox'') (lit ''danger-full-access''))
        Invalid_session_manifest,
      ensure (js_seq (f ''layoutVersion'') (JInt SESSION_LAYOUT_VERSION)) Invalid_session_manifest,
      ensure (js_seq (f ''authMode'') (lit SESSION_AUTH_MODE)) Invalid_session_manifest,
      assertAgentPolicy (f ''agents'')]"

definition assertSessionManifest :: "jsval \<Rightarrow> jsval result" where
  "assertSessionManifest v =
     guarded (assertExactObject v manifest_keys Invalid_session_manifest # manifest_checks (fld v))
       (defensiveClone v Invalid_session_manifest)"

definition createSessionManifest :: "jsval \<Rightarrow> jsval result" where
  "createSessionManifest input =
     guarded [assertExactObject input [''codex'', ''runtime'', ''sessionId''] Invalid_session_manifest]
       (assertSessionManifest (plain_obj
         [(''agents'', DEFAULT_AGENT_POLICY), (''authMode'', lit SESSION_AUTH_MODE),
          (''codex'', fld input ''codex''), (''layoutVersion'', JInt SESSION_LAYOUT_VERSION),
          (''runtime'', fld input ''runtime''),
          (''schemaVersion'', JInt SESSION_MANIFEST_SCHEMA_VERSION),
          (''sessionId'', fld input ''sessionId'')]))"

section \<open>Resolved platform images\<close>

definition resolution_keys :: "string list" where
  "resolution_keys = [''codexVersion'', ''digest'', ''mediaType'', ''platform'']"

definition assertResolvedPlatformImageMatchesManifest :: "jsval \<Rightarrow> jsval result" where
  "assertResolvedPlatformImageMatchesManifest options =
     rbind (assertOptionsObject options [''manifest'', ''resolution''] [''manifest'', ''resolution'']
             Invalid_image_resolution)
       (\<lambda>opts. rbind (assertSessionManifest (fld opts ''manifest'')) (\<lambda>m.
        let r = fld opts ''resolution''; rt = fld m ''runtime'' in
        guarded
          [assertExactObject r resolution_keys Invalid_image_resolution,
           ensure (pattern_ok OCI_DIGEST_PATTERN (fld r ''digest'')) Invalid_image_resolution,
           ensure (array_includes PLATFORM_IMAGE_MEDIA_TYPES (fld r ''mediaType''))
             Invalid_image_resolution,
           ensure (array_includes [''linux/amd64'', ''linux/arm64''] (fld r ''platform''))
             Invalid_image_resolution,
           ensure (codex_version_ok (fld r ''codexVersion'')) Invalid_image_resolution,
           ensure (js_seq (fld r ''digest'') (fld rt ''imageDigest'') \<and>
                   js_seq (fld r ''mediaType'') (fld rt ''imageMediaType'') \<and>
                   js_seq (fld r ''platform'') (fld rt ''platform'') \<and>
                   js_seq (fld r ''codexVersion'') (fld rt ''codexVersion''))
             Invalid_image_resolution]
          (defensiveClone r Invalid_image_resolution)))"

section \<open>Attachment match and worker template\<close>

definition assertSessionAttachmentMatches :: "jsval \<Rightarrow> jsval result" where
  "assertSessionAttachmentMatches options =
     rbind (assertOptionsObject options [''attachment'', ''lease'', ''manifest'', ''storageRef'']
             [''attachment'', ''lease'', ''manifest'', ''storageRef''] Invalid_storage_attachment)
       (\<lambda>opts. rbind (assertSessionManifest (fld opts ''manifest'')) (\<lambda>m.
        rbind (assertSessionStorageRef (fld opts ''storageRef'')) (\<lambda>storage.
        rbind (assertLeaseGrant (fld opts ''lease'')) (\<lambda>l.
        rbind (assertSessionAttachment (fld opts ''attachment'')) (\<lambda>mounted.
        guarded
          [ensure (js_seq (fld storage ''sessionId'') (fld m ''sessionId'') \<and>
                   js_seq (fld l ''sessionId'') (fld m ''sessionId'') \<and>
                   js_seq (fld mounted ''sessionId'') (fld m ''sessionId'') \<and>
                   same_fields [''backendId'', ''storageId''] mounted storage \<and>
                   same_fields [''leaseId'', ''holderId'', ''fencingEpoch''] mounted l)
             Stale_fence]
          (Inr (plain_obj [(''attachment'', mounted), (''lease'', l), (''manifest'', m),
                 (''storageRef'', storage)])))))))"

definition createRootlessWorkerTemplate :: "jsval \<Rightarrow> jsval result" where
  "createRootlessWorkerTemplate options =
     rbind (assertOptionsObject options [''attachment'', ''lease'', ''manifest'', ''storageRef'']
             [''attachment'', ''lease'', ''manifest'', ''storageRef''] Invalid_worker_template)
       (\<lambda>opts. rbind (assertSessionAttachmentMatches
             (pick [''attachment'', ''lease'', ''manifest'', ''storageRef''] opts))
       (\<lambda>matched. Inr (plain_obj
         [(''agentPolicy'', fld (fld matched ''manifest'') ''agents''),
          (''auth'', plain_obj [(''authJsonPolicy'', lit ''forbidden''),
             (''mode'', fld (fld matched ''manifest'') ''authMode'')]),
          (''codexConfig'', plain_obj
             [(''cliOverrides'', plain_obj [(''sqlite_home'', lit ''/session/codex-home'')]),
              (''deniedRequestOverrideKeys'', JArray [lit ''sqlite_home'']),
              (''requiredEffectiveValues'', plain_obj [(''sqlite_home'', lit ''/session/codex-home'')])]),
          (''codexSandbox'', fld (fld (fld matched ''manifest'') ''runtime'') ''codexSandbox''),
          (''cwd'', lit ''/session/workspace''),
          (''env'', plain_obj [(''CODEX_HOME'', lit ''/session/codex-home''),
             (''CODEX_SQLITE_HOME'', lit ''/session/codex-home'')]),
          (''mount'', plain_obj [(''propagation'', lit ''rprivate''), (''readOnly'', JBool False),
             (''source'', fld (fld matched ''attachment'') ''rootPath''),
             (''target'', lit ''/session''), (''type'', lit ''bind'')]),
          (''rootless'', JBool True)])))"

section \<open>The manifest is a record schema\<close>

lemma pattern_data: "pattern_ok r v \<Longrightarrow> data_prim v"
  by (cases v) (auto simp: pattern_ok_def)

lemma version_data: "codex_version_ok v \<Longrightarrow> data_prim v"
  by (cases v) (auto simp: codex_version_ok_def)

lemma integer_data: "is_safe_integer v \<Longrightarrow> data_prim v"
  by (cases v) (auto simp: is_safe_integer_def)

lemmas manifest_data = pattern_data version_data integer_data

lemma manifest_uuid_None [simp]: "assertManifestUuid v = None \<longleftrightarrow> isCanonicalUuid v"
  by (cases v) (simp_all add: assertManifestUuid_def pattern_ok_def isCanonicalUuid_pattern,
      simp_all add: isCanonicalUuid_def)

lemma manifest_exact_None [simp]: "assertManifestExactObject v ks = None \<longleftrightarrow> exact_object v ks"
  by (simp add: assertManifestExactObject_def)

lemmas manifest_key_defs = manifest_keys_def codex_keys_def runtime_keys_def agent_policy_keys_def

lemma agent_policy_clone:
  assumes "assertAgentPolicy v = None" and "structured_clone v = Some w"
  shows "assertAgentPolicy w = None" and "\<forall>k \<in> set agent_policy_keys. fld w k = fld v k"
proof -
  from assms(1) have ex: "exact_object v agent_policy_keys"
    and d: "list_all (\<lambda>k. data_prim (fld v k)) agent_policy_keys"
    by (auto simp: assertAgentPolicy_def agent_policy_keys_def intro: integer_data)
  have w: "exact_object w agent_policy_keys \<and> (\<forall>k \<in> set agent_policy_keys. fld w k = fld v k)"
    by (rule exact_clone_all [OF ex _ assms(2) d]) (simp add: agent_policy_keys_def)
  then show "\<forall>k \<in> set agent_policy_keys. fld w k = fld v k" ..
  then have "fld w ''maxSubagents'' = fld v ''maxSubagents''" "fld w ''maxDepth'' = fld v ''maxDepth''"
    "fld w ''defaultMaxSubagents'' = fld v ''defaultMaxSubagents''"
    by (simp_all add: agent_policy_keys_def)
  moreover have "assertManifestExactObject w agent_policy_keys = assertManifestExactObject v agent_policy_keys"
    using w ex by (metis manifest_exact_None)
  ultimately have "assertAgentPolicy w = assertAgentPolicy v"
    unfolding assertAgentPolicy_def by (simp only:)
  with assms(1) show "assertAgentPolicy w = None" by simp
qed

lemma manifest_codex_data:
  "list_all (\<lambda>c. c = None) (manifest_checks f) \<Longrightarrow>
     exact_object (f ''codex'') codex_keys \<and> list_all (\<lambda>k. data_prim (fld (f ''codex'') k)) codex_keys"
  by (auto simp: manifest_checks_def codex_keys_def intro: uuid_data)

lemma manifest_runtime_data:
  "list_all (\<lambda>c. c = None) (manifest_checks f) \<Longrightarrow>
     exact_object (f ''runtime'') runtime_keys \<and>
     list_all (\<lambda>k. data_prim (fld (f ''runtime'') k)) runtime_keys"
  by (auto simp: manifest_checks_def runtime_keys_def intro: manifest_data)

lemma manifest_flat_data:
  "list_all (\<lambda>c. c = None) (manifest_checks f) \<Longrightarrow>
     list_all (\<lambda>k. data_prim (f k)) [''authMode'', ''layoutVersion'', ''schemaVersion'', ''sessionId'']"
  by (auto simp: manifest_checks_def intro: uuid_data)

interpretation manifest: record_schema assertSessionManifest manifest_keys Invalid_session_manifest
  manifest_checks
proof
  show "distinct manifest_keys" by (simp add: manifest_keys_def)
  show "assertSessionManifest v = guarded (assertExactObject v manifest_keys Invalid_session_manifest
      # manifest_checks (fld v)) (defensiveClone v Invalid_session_manifest)" for v
    by (rule assertSessionManifest_def)
next
  fix f g
  assume ok: "list_all (\<lambda>c. c = None) (manifest_checks f)"
    and cl: "\<And>k. k \<in> set manifest_keys \<Longrightarrow> structured_clone (f k) = Some (g k)"
  have cl': "structured_clone (f ''codex'') = Some (g ''codex'')"
    "structured_clone (f ''runtime'') = Some (g ''runtime'')"
    "structured_clone (f ''agents'') = Some (g ''agents'')"
    by (simp_all add: cl manifest_keys_def)
  have codex: "exact_object (g ''codex'') codex_keys \<and>
      (\<forall>k \<in> set codex_keys. fld (g ''codex'') k = fld (f ''codex'') k)"
    using manifest_codex_data [OF ok] cl'(1)
    by (intro exact_clone_all) (simp_all add: codex_keys_def)
  have runtime: "exact_object (g ''runtime'') runtime_keys \<and>
      (\<forall>k \<in> set runtime_keys. fld (g ''runtime'') k = fld (f ''runtime'') k)"
    using manifest_runtime_data [OF ok] cl'(2)
    by (intro exact_clone_all) (simp_all add: runtime_keys_def)
  have "assertAgentPolicy (f ''agents'') = None"
    using ok by (simp add: manifest_checks_def)
  then have agents: "assertAgentPolicy (g ''agents'') = assertAgentPolicy (f ''agents'')"
    using agent_policy_clone(1) cl'(3) by simp
  have flat: "g k = f k" if "structured_clone (f k) = Some (g k)" "data_prim (f k)" for k
    using that clone_data_prim by simp
  have "g ''authMode'' = f ''authMode''" "g ''layoutVersion'' = f ''layoutVersion''"
    "g ''schemaVersion'' = f ''schemaVersion''" "g ''sessionId'' = f ''sessionId''"
    using manifest_flat_data [OF ok] by (auto intro!: flat cl simp: manifest_keys_def)
  moreover have "fld (g ''codex'') ''ephemeral'' = fld (f ''codex'') ''ephemeral''"
    "fld (g ''codex'') ''historyMode'' = fld (f ''codex'') ''historyMode''"
    "fld (g ''codex'') ''rootThreadId'' = fld (f ''codex'') ''rootThreadId''"
    "fld (g ''codex'') ''sessionId'' = fld (f ''codex'') ''sessionId''"
    using codex by (simp_all add: codex_keys_def)
  moreover have "fld (g ''runtime'') ''codexSandbox'' = fld (f ''runtime'') ''codexSandbox''"
    "fld (g ''runtime'') ''codexVersion'' = fld (f ''runtime'') ''codexVersion''"
    "fld (g ''runtime'') ''imageDigest'' = fld (f ''runtime'') ''imageDigest''"
    "fld (g ''runtime'') ''imageMediaType'' = fld (f ''runtime'') ''imageMediaType''"
    "fld (g ''runtime'') ''platform'' = fld (f ''runtime'') ''platform''"
    using runtime by (simp_all add: runtime_keys_def)
  moreover have "assertManifestExactObject (g ''codex'') codex_keys =
      assertManifestExactObject (f ''codex'') codex_keys"
    "assertManifestExactObject (g ''runtime'') runtime_keys =
      assertManifestExactObject (f ''runtime'') runtime_keys"
    using codex runtime manifest_codex_data [OF ok] manifest_runtime_data [OF ok]
    by (metis manifest_exact_None)+
  ultimately have "manifest_checks g = manifest_checks f"
    unfolding manifest_checks_def agents by (simp only:)
  with ok show "list_all (\<lambda>c. c = None) (manifest_checks g)" by simp
qed

end
