(* ===== verification/Contract_Mutation.thy ===== *)
theory Contract_Mutation
  imports Contract_Manifest
begin

text \<open>
  Storage mutations of \<open>session-storage-contracts.mjs\<close>: requests with their targets, results
  that must answer a request, force fences, checkpoint descriptors, the restore admission, and
  the comparison of a mutation with the canonical lease.
\<close>

section \<open>Force fences\<close>

definition revoked_fence_keys :: "string list" where
  "revoked_fence_keys = [''fencingEpoch'', ''holderId'', ''leaseId'']"

definition assertStorageForceFenceRevokedFence :: "jsval \<Rightarrow> nat result" where
  "assertStorageForceFenceRevokedFence v = guarded
     [assertExactObject v revoked_fence_keys Invalid_storage_force_fence,
      assertOpaqueId (fld v ''holderId'') Invalid_storage_force_fence,
      assertOpaqueId (fld v ''leaseId'') Invalid_storage_force_fence]
     (parseFencingEpochForRecord (fld v ''fencingEpoch'') Invalid_storage_force_fence)"

definition fence_target_keys :: "string list" where
  "fence_target_keys = [''attachmentId'', ''kind'']"

definition assertStorageForceFenceTarget :: "jsval \<Rightarrow> check" where
  "assertStorageForceFenceTarget v = first_err
     [assertExactObject v fence_target_keys Invalid_storage_force_fence,
      assertOpaqueId (fld v ''attachmentId'') Invalid_storage_force_fence,
      ensure (js_seq (fld v ''kind'') (lit ''attachment'')) Invalid_storage_force_fence]"

definition force_fence_keys :: "string list" where
  "force_fence_keys = [''backendId'', ''contractVersion'', ''fencingEpoch'', ''operationId'',
     ''revokedFence'', ''sessionId'', ''storageId'', ''target'']"

definition force_fence_checks :: "(string \<Rightarrow> jsval) \<Rightarrow> check list" where
  "force_fence_checks f =
     [ensure (js_seq (f ''contractVersion'') (JInt STORAGE_CONTRACT_VERSION)) Invalid_storage_force_fence,
      assertOpaqueId (f ''backendId'') Invalid_storage_force_fence,
      assertOpaqueId (f ''storageId'') Invalid_storage_force_fence,
      assertUuid (f ''sessionId'') Invalid_storage_force_fence,
      assertOpaqueId (f ''operationId'') Invalid_storage_force_fence,
      err_of (rbind (parseFencingEpochForRecord (f ''fencingEpoch'') Invalid_storage_force_fence)
        (\<lambda>fencingEpoch. rbind (assertStorageForceFenceRevokedFence (f ''revokedFence''))
        (\<lambda>revokedFencingEpoch. guarded
          [ensure (fencingEpoch > revokedFencingEpoch) Invalid_storage_force_fence] (Inr ())))),
      assertStorageForceFenceTarget (f ''target'')]"

definition assertStorageForceFenceRequest :: "jsval \<Rightarrow> jsval result" where
  "assertStorageForceFenceRequest v =
     guarded (assertExactObject v force_fence_keys Invalid_storage_force_fence
         # force_fence_checks (fld v))
       (defensiveClone v Invalid_storage_force_fence)"

definition force_fence_result_keys :: "string list" where
  "force_fence_result_keys = [''backendId'', ''contractVersion'', ''fencingEpoch'', ''operationId'',
     ''proofId'', ''revokedFence'', ''sessionId'', ''status'', ''storageId'', ''target'']"

definition force_fence_matches :: "jsval \<Rightarrow> jsval \<Rightarrow> bool" where
  "force_fence_matches expected actual \<longleftrightarrow>
     same_fields [''backendId'', ''contractVersion'', ''fencingEpoch'', ''operationId'', ''sessionId'',
       ''storageId''] expected actual \<and>
     same_fields revoked_fence_keys (fld expected ''revokedFence'') (fld actual ''revokedFence'') \<and>
     same_fields fence_target_keys (fld expected ''target'') (fld actual ''target'')"

definition assertStorageForceFenceResult :: "jsval \<Rightarrow> jsval \<Rightarrow> jsval result" where
  "assertStorageForceFenceResult v options =
     rbind (assertOptionsObject options [''request''] [''request''] Invalid_storage_force_fence)
       (\<lambda>opts. guarded [assertExactObject v force_fence_result_keys Invalid_storage_force_fence]
       (rbind (assertStorageForceFenceRequest (fld opts ''request'')) (\<lambda>expected.
        rbind (assertStorageForceFenceRequest (pick force_fence_keys v)) (\<lambda>actual.
        guarded
          [assertOpaqueId (fld v ''proofId'') Invalid_storage_force_fence,
           ensure (js_seq (fld v ''status'') (lit ''fenced'')) Invalid_storage_force_fence,
           ensure (force_fence_matches expected actual) Invalid_storage_force_fence]
          (defensiveClone v Invalid_storage_force_fence)))))"

text \<open>A reconciliation proves the committed result or stays unknown.\<close>

definition assertStorageForceFenceReconciliationResult :: "jsval \<Rightarrow> jsval \<Rightarrow> jsval result" where
  "assertStorageForceFenceReconciliationResult v options =
     rbind (assertOptionsObject options [''request''] [''request'']
             Invalid_storage_force_fence_reconciliation)
       (\<lambda>opts. rbind (rcatch (assertStorageForceFenceRequest (fld opts ''request''))
                       Invalid_storage_force_fence_reconciliation)
       (\<lambda>expected. guarded
         [assertExactObject v [''contractVersion'', ''outcome'', ''result'']
            Invalid_storage_force_fence_reconciliation,
          ensure (js_seq (fld v ''contractVersion'') (JInt 1)) Invalid_storage_force_fence_reconciliation]
         (if js_seq (fld v ''outcome'') (lit ''committed'')
          then rbind (rcatch (assertStorageForceFenceResult (fld v ''result'')
                 (plain_obj [(''request'', expected)])) Invalid_storage_force_fence_reconciliation)
            (\<lambda>result. Inr (plain_obj [(''contractVersion'', JInt 1), (''outcome'', lit ''committed''),
               (''result'', result)]))
          else guarded
            [ensure (js_seq (fld v ''outcome'') (lit ''unknown'') \<and> js_seq (fld v ''result'') JNull)
               Invalid_storage_force_fence_reconciliation]
            (Inr (plain_obj [(''contractVersion'', JInt 1), (''outcome'', lit ''unknown''),
               (''result'', JNull)])))))"

section \<open>Mutation requests\<close>

definition mutation_operations :: "string list" where
  "mutation_operations = [''attach'', ''checkpoint'', ''destroy'', ''detach'', ''restore'']"

definition target_schema :: "jsval \<Rightarrow> string list" where
  "target_schema operation =
     (if operation = lit ''checkpoint'' \<or> operation = lit ''restore''
      then [''artifactId'', ''checkpointId'', ''kind'']
      else if operation = lit ''destroy'' then [''kind'', ''storageId'']
      else [''attachmentId'', ''kind''])"

definition target_kind :: "jsval \<Rightarrow> string" where
  "target_kind operation =
     (if operation = lit ''checkpoint'' \<or> operation = lit ''restore'' then ''checkpoint''
      else if operation = lit ''destroy'' then ''storage'' else ''attachment'')"

definition target_ids :: "jsval \<Rightarrow> string list" where
  "target_ids operation =
     (if operation = lit ''checkpoint'' \<or> operation = lit ''restore''
      then [''artifactId'', ''checkpointId'']
      else if operation = lit ''destroy'' then [''storageId''] else [''attachmentId''])"

definition assertStorageMutationTarget :: "jsval \<Rightarrow> jsval \<Rightarrow> jsval \<Rightarrow> check" where
  "assertStorageMutationTarget v operation storageId = first_err
     (assertExactObject v (target_schema operation) Invalid_storage_mutation
      # ensure (js_seq (fld v ''kind'') (lit (target_kind operation))) Invalid_storage_mutation
      # map (\<lambda>k. assertOpaqueId (fld v k) Invalid_storage_mutation) (target_ids operation)
      @ [ensure (operation = lit ''destroy'' \<longrightarrow> js_seq (fld v ''storageId'') storageId)
           Invalid_storage_mutation])"

definition mutation_keys :: "string list" where
  "mutation_keys = [''backendId'', ''contractVersion'', ''fencingEpoch'', ''holderId'', ''leaseId'',
     ''operation'', ''operationId'', ''sessionId'', ''storageId'', ''target'']"

definition mutation_checks :: "(string \<Rightarrow> jsval) \<Rightarrow> check list" where
  "mutation_checks f =
     [ensure (js_seq (f ''contractVersion'') (JInt STORAGE_CONTRACT_VERSION)) Invalid_storage_mutation,
      assertOpaqueId (f ''backendId'') Invalid_storage_mutation,
      assertOpaqueId (f ''storageId'') Invalid_storage_mutation,
      assertUuid (f ''sessionId'') Invalid_storage_mutation,
      assertOpaqueId (f ''leaseId'') Invalid_storage_mutation,
      assertOpaqueId (f ''holderId'') Invalid_storage_mutation,
      assertOpaqueId (f ''operationId'') Invalid_storage_mutation,
      err_of (parseFencingEpochForRecord (f ''fencingEpoch'') Invalid_storage_mutation),
      ensure (array_includes mutation_operations (f ''operation'')) Invalid_storage_mutation,
      assertStorageMutationTarget (f ''target'') (f ''operation'') (f ''storageId'')]"

definition assertStorageMutationRequest :: "jsval \<Rightarrow> jsval result" where
  "assertStorageMutationRequest v =
     guarded (assertExactObject v mutation_keys Invalid_storage_mutation # mutation_checks (fld v))
       (defensiveClone v Invalid_storage_mutation)"

section \<open>Mutation results\<close>

definition mutation_result_keys :: "string list" where
  "mutation_result_keys = [''backendId'', ''contractVersion'', ''fencingEpoch'', ''holderId'', ''leaseId'',
     ''operation'', ''operationId'', ''proofId'', ''sessionId'', ''status'', ''storageId'', ''target'']"

definition operation_status :: "jsval \<Rightarrow> jsval" where
  "operation_status operation =
     (if operation = lit ''attach'' then lit ''attached''
      else if operation = lit ''checkpoint'' then lit ''checkpoint-created''
      else if operation = lit ''destroy'' then lit ''destroyed''
      else if operation = lit ''detach'' then lit ''detached''
      else if operation = lit ''restore'' then lit ''restored'' else JUndefined)"

definition targets_match :: "jsval \<Rightarrow> jsval \<Rightarrow> bool" where
  "targets_match expected actual =
     (let op = fld expected ''operation''; a = fld expected ''target''; b = fld actual ''target'' in
      js_seq (fld a ''kind'') (fld b ''kind'') \<and>
      (if js_seq op (lit ''attach'') \<or> js_seq op (lit ''detach'')
       then js_seq (fld a ''attachmentId'') (fld b ''attachmentId'')
       else if js_seq op (lit ''destroy'') then js_seq (fld a ''storageId'') (fld b ''storageId'')
       else js_seq (fld a ''artifactId'') (fld b ''artifactId'') \<and>
            js_seq (fld a ''checkpointId'') (fld b ''checkpointId'')))"

definition assertStorageMutationResult :: "jsval \<Rightarrow> jsval \<Rightarrow> jsval result" where
  "assertStorageMutationResult v options =
     rbind (assertOptionsObject options [''request''] [''request''] Invalid_storage_mutation)
       (\<lambda>opts. guarded [assertExactObject v mutation_result_keys Invalid_storage_mutation]
       (rbind (assertStorageMutationRequest (fld opts ''request'')) (\<lambda>expected.
        rbind (assertStorageMutationRequest (pick mutation_keys v)) (\<lambda>actual.
        guarded
          [assertOpaqueId (fld v ''proofId'') Invalid_storage_mutation,
           ensure (js_seq (operation_status (fld v ''operation'')) (fld v ''status''))
             Invalid_storage_mutation,
           ensure (same_fields [''backendId'', ''contractVersion'', ''operation'', ''operationId'',
               ''sessionId'', ''storageId''] expected actual \<and> targets_match expected actual)
             Invalid_storage_mutation,
           ensure (same_fields [''fencingEpoch'', ''holderId'', ''leaseId''] expected actual) Stale_fence]
          (defensiveClone v Invalid_storage_mutation)))))"

text \<open>\<open>{ ...mutation, rootPath }\<close> for an ordinary object without that key.\<close>

definition with_root_path :: "jsval \<Rightarrow> jsval \<Rightarrow> jsval" where
  "with_root_path mutation rootPath = (case mutation of
     JObj _ ps \<Rightarrow> JObj JObjectPrototype (ps @ [(key ''rootPath'', DataDesc True rootPath)])
   | _ \<Rightarrow> plain_obj [(''rootPath'', rootPath)])"

definition writer_attachment_keys :: "string list" where
  "writer_attachment_keys = [''backendId'', ''contractVersion'', ''fencingEpoch'', ''holderId'',
     ''leaseId'', ''operation'', ''operationId'', ''proofId'', ''rootPath'', ''sessionId'', ''status'',
     ''storageId'', ''target'']"

definition assertWriterAttachmentMutationResult :: "jsval \<Rightarrow> jsval \<Rightarrow> jsval result" where
  "assertWriterAttachmentMutationResult v options =
     guarded
       [assertExactObject v writer_attachment_keys Invalid_storage_attachment,
        assertAttachmentRootPath (fld v ''rootPath'') Invalid_storage_attachment]
       (rbind (assertStorageMutationResult (pick mutation_result_keys v) options) (\<lambda>mutation.
        guarded
          [ensure (js_seq (fld mutation ''operation'') (lit ''attach'') \<and>
                   js_seq (fld mutation ''status'') (lit ''attached'')) Invalid_storage_attachment]
          (Inr (with_root_path mutation (fld v ''rootPath'')))))"

section \<open>Checkpoint descriptors\<close>

definition assertCheckpointClass :: "jsval \<Rightarrow> jsval result" where
  "assertCheckpointClass v =
     guarded [ensure (array_includes [''clean'', ''graceful-abort'', ''crash-prefix''] v) Invalid_checkpoint]
       (Inr v)"

record checkpoint_policy =
  captureBoundary :: string
  explicitAbortMarker :: string
  requiresTailRepair :: bool
  writerBoundary :: string
  writableResume :: string

definition CHECKPOINT_CLASS_POLICIES :: "jsval \<Rightarrow> checkpoint_policy" where
  "CHECKPOINT_CLASS_POLICIES v =
     (if v = lit ''clean'' then
        \<lparr>captureBoundary = ''storage-barrier'', explicitAbortMarker = ''not-required'',
         requiresTailRepair = False, writerBoundary = ''stopped'', writableResume = ''after-new-lease''\<rparr>
      else if v = lit ''graceful-abort'' then
        \<lparr>captureBoundary = ''storage-barrier'', explicitAbortMarker = ''required'',
         requiresTailRepair = False, writerBoundary = ''stopped'', writableResume = ''after-new-lease''\<rparr>
      else
        \<lparr>captureBoundary = ''atomic-crash-capture'', explicitAbortMarker = ''must-not-infer'',
         requiresTailRepair = True, writerBoundary = ''stopped-or-fenced'',
         writableResume = ''after-tail-repair-and-new-lease''\<rparr>)"

definition checkpointClassPolicy :: "jsval \<Rightarrow> checkpoint_policy result" where
  "checkpointClassPolicy v = rbind (assertCheckpointClass v) (\<lambda>c. Inr (CHECKPOINT_CLASS_POLICIES c))"

definition checkpoint_keys :: "string list" where
  "checkpoint_keys = [''artifactId'', ''backendId'', ''checkpointClass'', ''checkpointId'',
     ''codexSessionId'', ''codexThreadId'', ''contractVersion'', ''createdAt'', ''imageDigest'',
     ''sessionId'', ''sourceFencingEpoch'', ''storageId'']"

definition checkpoint_checks :: "(string \<Rightarrow> jsval) \<Rightarrow> check list" where
  "checkpoint_checks f =
     [ensure (js_seq (f ''contractVersion'') (JInt STORAGE_CONTRACT_VERSION)) Invalid_checkpoint,
      assertOpaqueId (f ''checkpointId'') Invalid_checkpoint,
      assertOpaqueId (f ''artifactId'') Invalid_checkpoint,
      assertOpaqueId (f ''backendId'') Invalid_checkpoint,
      assertOpaqueId (f ''storageId'') Invalid_checkpoint,
      assertUuid (f ''sessionId'') Invalid_checkpoint,
      assertUuid (f ''codexThreadId'') Invalid_checkpoint,
      assertUuid (f ''codexSessionId'') Invalid_checkpoint,
      ensure (js_seq (f ''codexThreadId'') (f ''codexSessionId'')) Invalid_checkpoint,
      ensure (pattern_ok OCI_DIGEST_PATTERN (f ''imageDigest'')) Invalid_checkpoint,
      err_of (parseFencingEpochForRecord (f ''sourceFencingEpoch'') Invalid_checkpoint),
      err_of (assertCheckpointClass (f ''checkpointClass'')),
      err_of (assertIsoTimestamp (f ''createdAt'') Invalid_checkpoint)]"

definition checkpoint_manifest_check :: "jsval \<Rightarrow> jsval \<Rightarrow> check" where
  "checkpoint_manifest_check v manifest =
     (if manifest = JUndefined then None
      else err_of (rbind (assertSessionManifest manifest) (\<lambda>m. guarded
        [ensure (js_seq (fld v ''sessionId'') (fld m ''sessionId'') \<and>
                 js_seq (fld v ''codexThreadId'') (fld (fld m ''codex'') ''rootThreadId'') \<and>
                 js_seq (fld v ''codexSessionId'') (fld (fld m ''codex'') ''sessionId'') \<and>
                 js_seq (fld v ''imageDigest'') (fld (fld m ''runtime'') ''imageDigest''))
           Invalid_checkpoint] (Inr ()))))"

definition checkpoint_storage_check :: "jsval \<Rightarrow> jsval \<Rightarrow> check" where
  "checkpoint_storage_check v storageRef =
     (if storageRef = JUndefined then None
      else err_of (rbind (assertSessionStorageRef storageRef) (\<lambda>s. guarded
        [ensure (same_fields [''sessionId'', ''backendId'', ''storageId''] v s) Invalid_checkpoint]
        (Inr ()))))"

definition assertCheckpointDescriptor :: "jsval \<Rightarrow> jsval \<Rightarrow> jsval result" where
  "assertCheckpointDescriptor v options =
     rbind (assertOptionsObject options [''manifest'', ''storageRef''] [] Invalid_checkpoint)
       (\<lambda>opts. guarded
         (assertExactObject v checkpoint_keys Invalid_checkpoint # checkpoint_checks (fld v) @
          [checkpoint_manifest_check v (fld opts ''manifest''),
           checkpoint_storage_check v (fld opts ''storageRef'')])
         (defensiveClone v Invalid_checkpoint))"

text \<open>The call without options.\<close>

definition assertBareCheckpointDescriptor :: "jsval \<Rightarrow> jsval result" where
  "assertBareCheckpointDescriptor v = assertCheckpointDescriptor v (plain_obj [])"

section \<open>Restore admission and lease snapshots\<close>

definition assertRestoreCheckpointAdmission :: "jsval \<Rightarrow> jsval result" where
  "assertRestoreCheckpointAdmission v =
     guarded [assertExactObject v [''checkpoint'', ''request''] Invalid_restore_checkpoint_admission]
       (rbind (rcatch (assertBareCheckpointDescriptor (fld v ''checkpoint''))
                Invalid_restore_checkpoint_admission) (\<lambda>checkpoint.
        rbind (rcatch (assertStorageMutationRequest (fld v ''request''))
                Invalid_restore_checkpoint_admission) (\<lambda>request.
        guarded
          [ensure (js_seq (fld checkpoint ''checkpointClass'') (lit ''clean'') \<and>
                   js_seq (fld request ''operation'') (lit ''restore'') \<and>
                   same_fields [''backendId'', ''sessionId''] request checkpoint \<and>
                   js_seq (fld (fld request ''target'') ''kind'') (lit ''checkpoint'') \<and>
                   same_fields [''artifactId'', ''checkpointId''] (fld request ''target'') checkpoint)
             Invalid_restore_checkpoint_admission,
           err_of (rbind (parseFencingEpochForRecord (fld request ''fencingEpoch'')
               Invalid_restore_checkpoint_admission) (\<lambda>new.
             rbind (parseFencingEpochForRecord (fld checkpoint ''sourceFencingEpoch'')
               Invalid_restore_checkpoint_admission) (\<lambda>old.
             guarded [ensure (new > old) Invalid_restore_checkpoint_admission] (Inr ()))))]
          (Inr (plain_obj [(''checkpoint'', checkpoint), (''request'', request)])))))"

definition assertStorageMutationMatchesLeaseSnapshot :: "jsval \<Rightarrow> jsval result" where
  "assertStorageMutationMatchesLeaseSnapshot options =
     rbind (assertOptionsObject options
             [''allowExpired'', ''canonicalLease'', ''now'', ''request'', ''storageRef'']
             [''canonicalLease'', ''now'', ''request'', ''storageRef''] Invalid_storage_mutation)
       (\<lambda>opts. let allowExpired = (if fld opts ''allowExpired'' = JUndefined then JBool False
                                  else fld opts ''allowExpired'') in
        guarded [ensure (is_boolean allowExpired) Invalid_storage_mutation]
        (rbind (assertStorageMutationRequest (fld opts ''request'')) (\<lambda>mutation.
         rbind (assertLeaseGrant (fld opts ''canonicalLease'')) (\<lambda>canonical.
         rbind (assertSessionStorageRef (fld opts ''storageRef'')) (\<lambda>storage.
         guarded
           [ensure (is_finite_number (fld opts ''now'')) Invalid_fence,
            ensure (same_fields [''sessionId'', ''leaseId'', ''holderId'', ''fencingEpoch'']
              mutation canonical) Stale_fence,
            ensure (same_fields [''sessionId'', ''backendId'', ''storageId''] mutation storage)
              Invalid_storage_mutation,
            (if allowExpired = JBool True
             then ensure (js_seq (fld mutation ''operation'') (lit ''detach'')) Invalid_storage_mutation
             else ensure (num_less (num_of (fld opts ''now'')) (date_num (fld canonical ''expiresAt'')))
               Lease_expired)]
           (Inr mutation))))))"

section \<open>Requests and descriptors are record schemas\<close>

lemma assertExactObject_same:
  "exact_object v ks \<Longrightarrow> exact_object w ks \<Longrightarrow> assertExactObject w ks e = assertExactObject v ks e"
  by (metis assertExactObject_iff)

lemma mutation_target_clone:
  assumes "assertStorageMutationTarget v op sid = None" and "structured_clone v = Some w"
  shows "assertStorageMutationTarget w op sid = None"
    and "\<forall>k \<in> set (target_schema op). fld w k = fld v k"
proof -
  from assms(1) have ex: "exact_object v (target_schema op)"
    and d: "list_all (\<lambda>k. data_prim (fld v k)) (target_schema op)"
    by (auto simp: assertStorageMutationTarget_def target_schema_def target_ids_def list_all_iff
        intro: opaque_data)
  have w: "exact_object w (target_schema op) \<and> (\<forall>k \<in> set (target_schema op). fld w k = fld v k)"
    by (rule exact_clone_all [OF ex _ assms(2) d]) (simp add: target_schema_def)
  then show "\<forall>k \<in> set (target_schema op). fld w k = fld v k" ..
  then have f: "fld w k = fld v k" if "k \<in> insert ''kind'' (set (target_ids op))" for k
    using that by (auto simp: target_schema_def target_ids_def split: if_splits)
  have ids: "map (\<lambda>k. assertOpaqueId (fld w k) Invalid_storage_mutation) (target_ids op) =
      map (\<lambda>k. assertOpaqueId (fld v k) Invalid_storage_mutation) (target_ids op)"
    using f by simp
  have kind: "fld w ''kind'' = fld v ''kind''" by (rule f) simp
  have "op = lit ''destroy'' \<Longrightarrow> fld w ''storageId'' = fld v ''storageId''"
    by (rule f) (simp add: target_ids_def)
  then have sid: "(op = lit ''destroy'' \<longrightarrow> js_seq (fld w ''storageId'') sid) \<longleftrightarrow>
      (op = lit ''destroy'' \<longrightarrow> js_seq (fld v ''storageId'') sid)" by auto
  have "assertStorageMutationTarget w op sid = assertStorageMutationTarget v op sid"
    unfolding assertStorageMutationTarget_def ids kind sid
    using assertExactObject_same [OF ex] w by simp
  with assms(1) show "assertStorageMutationTarget w op sid = None" by simp
qed

lemma mutation_flat_data:
  "list_all (\<lambda>c. c = None) (mutation_checks f) \<Longrightarrow>
     list_all (\<lambda>k. data_prim (f k)) [''backendId'', ''contractVersion'', ''fencingEpoch'', ''holderId'',
       ''leaseId'', ''operation'', ''operationId'', ''sessionId'', ''storageId'']"
  by (auto simp: mutation_checks_def dest: field_data)

lemma clone_same: "structured_clone v = Some w \<Longrightarrow> data_prim v \<Longrightarrow> w = v"
  using clone_data_prim by simp

interpretation mutation: record_schema assertStorageMutationRequest mutation_keys
  Invalid_storage_mutation mutation_checks
proof
  fix f g
  assume ok: "list_all (\<lambda>c. c = None) (mutation_checks f)"
    and cl: "\<And>k. k \<in> set mutation_keys \<Longrightarrow> structured_clone (f k) = Some (g k)"
  have flat: "g ''backendId'' = f ''backendId''" "g ''contractVersion'' = f ''contractVersion''"
    "g ''fencingEpoch'' = f ''fencingEpoch''" "g ''holderId'' = f ''holderId''"
    "g ''leaseId'' = f ''leaseId''" "g ''operation'' = f ''operation''"
    "g ''operationId'' = f ''operationId''" "g ''sessionId'' = f ''sessionId''"
    "g ''storageId'' = f ''storageId''"
    using mutation_flat_data [OF ok] by (auto intro!: clone_same cl simp: mutation_keys_def)
  have "assertStorageMutationTarget (f ''target'') (f ''operation'') (f ''storageId'') = None"
    using ok by (simp add: mutation_checks_def)
  then have "assertStorageMutationTarget (g ''target'') (f ''operation'') (f ''storageId'') = None"
    by (rule mutation_target_clone) (simp add: cl mutation_keys_def)
  then have "assertStorageMutationTarget (g ''target'') (f ''operation'') (f ''storageId'') =
      assertStorageMutationTarget (f ''target'') (f ''operation'') (f ''storageId'')"
    using ok by (simp add: mutation_checks_def)
  with flat have "mutation_checks g = mutation_checks f"
    unfolding mutation_checks_def by (simp only:)
  with ok show "list_all (\<lambda>c. c = None) (mutation_checks g)" by simp
qed (simp_all add: mutation_keys_def assertStorageMutationRequest_def)

lemma revoked_fence_clone:
  assumes "assertStorageForceFenceRevokedFence v = Inr n" and "structured_clone v = Some w"
  shows "assertStorageForceFenceRevokedFence w = Inr n"
    and "\<forall>k \<in> set revoked_fence_keys. fld w k = fld v k"
proof -
  from assms(1) have ex: "exact_object v revoked_fence_keys"
    and d: "list_all (\<lambda>k. data_prim (fld v k)) revoked_fence_keys"
    by (auto simp: assertStorageForceFenceRevokedFence_def revoked_fence_keys_def dest: field_data)
  have w: "exact_object w revoked_fence_keys \<and> (\<forall>k \<in> set revoked_fence_keys. fld w k = fld v k)"
    by (rule exact_clone_all [OF ex _ assms(2) d]) (simp add: revoked_fence_keys_def)
  then show "\<forall>k \<in> set revoked_fence_keys. fld w k = fld v k" ..
  with w assms(1) show "assertStorageForceFenceRevokedFence w = Inr n"
    by (simp add: assertStorageForceFenceRevokedFence_def revoked_fence_keys_def)
qed

lemma fence_target_clone:
  assumes "assertStorageForceFenceTarget v = None" and "structured_clone v = Some w"
  shows "assertStorageForceFenceTarget w = None"
    and "\<forall>k \<in> set fence_target_keys. fld w k = fld v k"
proof -
  from assms(1) have ex: "exact_object v fence_target_keys"
    and d: "list_all (\<lambda>k. data_prim (fld v k)) fence_target_keys"
    by (auto simp: assertStorageForceFenceTarget_def fence_target_keys_def dest: field_data)
  have w: "exact_object w fence_target_keys \<and> (\<forall>k \<in> set fence_target_keys. fld w k = fld v k)"
    by (rule exact_clone_all [OF ex _ assms(2) d]) (simp add: fence_target_keys_def)
  then show "\<forall>k \<in> set fence_target_keys. fld w k = fld v k" ..
  with w assms(1) show "assertStorageForceFenceTarget w = None"
    by (simp add: assertStorageForceFenceTarget_def fence_target_keys_def)
qed

lemma force_fence_flat_data:
  "list_all (\<lambda>c. c = None) (force_fence_checks f) \<Longrightarrow>
     list_all (\<lambda>k. data_prim (f k)) [''backendId'', ''contractVersion'', ''fencingEpoch'',
       ''operationId'', ''sessionId'', ''storageId'']"
  by (auto simp: force_fence_checks_def dest: field_data)

interpretation force_fence: record_schema assertStorageForceFenceRequest force_fence_keys
  Invalid_storage_force_fence force_fence_checks
proof
  fix f g
  assume ok: "list_all (\<lambda>c. c = None) (force_fence_checks f)"
    and cl: "\<And>k. k \<in> set force_fence_keys \<Longrightarrow> structured_clone (f k) = Some (g k)"
  have flat: "g ''backendId'' = f ''backendId''" "g ''contractVersion'' = f ''contractVersion''"
    "g ''fencingEpoch'' = f ''fencingEpoch''" "g ''operationId'' = f ''operationId''"
    "g ''sessionId'' = f ''sessionId''" "g ''storageId'' = f ''storageId''"
    using force_fence_flat_data [OF ok] by (auto intro!: clone_same cl simp: force_fence_keys_def)
  obtain n where "assertStorageForceFenceRevokedFence (f ''revokedFence'') = Inr n"
    using ok by (auto simp: force_fence_checks_def)
  moreover from this have "assertStorageForceFenceRevokedFence (g ''revokedFence'') = Inr n"
    by (rule revoked_fence_clone) (simp add: cl force_fence_keys_def)
  ultimately have revoked: "assertStorageForceFenceRevokedFence (g ''revokedFence'') =
      assertStorageForceFenceRevokedFence (f ''revokedFence'')" by simp
  have t: "assertStorageForceFenceTarget (f ''target'') = None"
    using ok by (simp add: force_fence_checks_def)
  moreover from t have "assertStorageForceFenceTarget (g ''target'') = None"
    by (rule fence_target_clone) (simp add: cl force_fence_keys_def)
  ultimately have target: "assertStorageForceFenceTarget (g ''target'') =
      assertStorageForceFenceTarget (f ''target'')" by simp
  have "force_fence_checks g = force_fence_checks f"
    unfolding force_fence_checks_def flat revoked target ..
  with ok show "list_all (\<lambda>c. c = None) (force_fence_checks g)" by simp
qed (simp_all add: force_fence_keys_def assertStorageForceFenceRequest_def)

lemma bare_checkpoint_shape:
  "assertBareCheckpointDescriptor v =
     guarded (assertExactObject v checkpoint_keys Invalid_checkpoint # checkpoint_checks (fld v))
       (defensiveClone v Invalid_checkpoint)"
proof -
  obtain opts where o: "assertOptionsObject (plain_obj []) [''manifest'', ''storageRef''] []
      Invalid_checkpoint = Inr opts"
    using options_plain_obj [of "[]" "[''manifest'', ''storageRef'']" "[]" Invalid_checkpoint] by auto
  have none: "fld opts ''manifest'' = JUndefined" "fld opts ''storageRef'' = JUndefined"
    using options_plain_field [OF o] by simp_all
  have "guarded (cs @ [None, None]) r = guarded cs r" for cs :: "check list" and r :: "jsval result"
    by (simp add: guarded_def, induction cs rule: first_err.induct) auto
  then show ?thesis
    using o none
    by (simp add: assertBareCheckpointDescriptor_def assertCheckpointDescriptor_def
        checkpoint_manifest_check_def checkpoint_storage_check_def flip: append_Cons)
qed

lemma checkpoint_class_iff:
  "assertCheckpointClass v = Inr c \<longleftrightarrow> c = v \<and> v \<in> lit ` {''clean'', ''graceful-abort'', ''crash-prefix''}"
  by (auto simp: assertCheckpointClass_def)

interpretation checkpoint: flat_record assertBareCheckpointDescriptor checkpoint_keys
  Invalid_checkpoint checkpoint_checks
proof
  show "list_all (\<lambda>k. data_prim (f k)) checkpoint_keys"
    if "list_all (\<lambda>c. c = None) (checkpoint_checks f)" for f
    using that
    by (auto simp: checkpoint_checks_def checkpoint_keys_def checkpoint_class_iff
        dest: field_data pattern_data)
qed (simp_all add: checkpoint_keys_def bare_checkpoint_shape checkpoint_checks_def)

end
