(* ===== verification/Contract_Capture.thy ===== *)
theory Contract_Capture
  imports Contract_Mutation
begin

text \<open>
  Atomic crash capture and restore-attachment activation of \<open>session-storage-contracts.mjs\<close>:
  the requests that bind a capture or an activation to one storage, fence and checkpoint or
  publication, the results that must echo them, and the source-free verification and
  reconciliation answers.
\<close>

section \<open>Atomic crash capture\<close>

definition artifact_keys :: "string list" where
  "artifact_keys = [''byteLength'', ''contentSha256'', ''objectId'', ''objectIdentityScheme'', ''readOnly'']"

definition artifact_checks :: "(string \<Rightarrow> jsval) \<Rightarrow> check list" where
  "artifact_checks f =
     [err_of (assertPositiveUint64Decimal (f ''byteLength'') Invalid_atomic_crash_capture),
      ensure (isSha256Hex (f ''contentSha256'')) Invalid_atomic_crash_capture,
      assertPersistentObjectId (f ''objectId'') Invalid_atomic_crash_capture,
      assertOpaqueId (f ''objectIdentityScheme'') Invalid_atomic_crash_capture,
      ensure (js_seq (f ''readOnly'') (JBool True)) Invalid_atomic_crash_capture]"

definition assertAtomicCrashCaptureArtifact :: "jsval \<Rightarrow> jsval result" where
  "assertAtomicCrashCaptureArtifact v =
     guarded (assertExactObject v artifact_keys Invalid_atomic_crash_capture # artifact_checks (fld v))
       (defensiveClone v Invalid_atomic_crash_capture)"

definition crash_request_keys :: "string list" where
  "crash_request_keys = [''captureAttemptId'', ''checkpoint'', ''contractVersion'', ''mutationRequest'',
     ''sourceAttachment'', ''storageRef'']"

definition crash_request_bound :: "jsval \<Rightarrow> jsval \<Rightarrow> jsval \<Rightarrow> jsval \<Rightarrow> bool" where
  "crash_request_bound checkpoint mutationRequest sourceAttachment storageRef \<longleftrightarrow>
     js_seq (fld checkpoint ''checkpointClass'') (lit ''crash-prefix'') \<and>
     js_seq (fld mutationRequest ''operation'') (lit ''checkpoint'') \<and>
     same_fields [''backendId'', ''sessionId'', ''storageId''] checkpoint storageRef \<and>
     same_fields [''backendId'', ''sessionId'', ''storageId''] sourceAttachment storageRef \<and>
     same_fields [''backendId'', ''sessionId'', ''storageId''] mutationRequest storageRef \<and>
     same_fields [''fencingEpoch'', ''holderId'', ''leaseId''] mutationRequest sourceAttachment \<and>
     js_seq (fld checkpoint ''sourceFencingEpoch'') (fld sourceAttachment ''fencingEpoch'') \<and>
     js_seq (fld (fld mutationRequest ''target'') ''kind'') (lit ''checkpoint'') \<and>
     same_fields [''artifactId'', ''checkpointId''] (fld mutationRequest ''target'') checkpoint"

definition assertAtomicCrashCaptureRequest :: "jsval \<Rightarrow> jsval result" where
  "assertAtomicCrashCaptureRequest v =
     guarded
       [assertExactObject v crash_request_keys Invalid_atomic_crash_capture,
        ensure (js_seq (fld v ''contractVersion'') (JInt 1)) Invalid_atomic_crash_capture,
        assertOpaqueId (fld v ''captureAttemptId'') Invalid_atomic_crash_capture]
       (rbind (rcatch (assertBareCheckpointDescriptor (fld v ''checkpoint'')) Invalid_atomic_crash_capture)
          (\<lambda>checkpoint.
        rbind (rcatch (assertStorageMutationRequest (fld v ''mutationRequest'')) Invalid_atomic_crash_capture)
          (\<lambda>mutationRequest.
        rbind (rcatch (assertSessionAttachment (fld v ''sourceAttachment'')) Invalid_atomic_crash_capture)
          (\<lambda>sourceAttachment.
        rbind (rcatch (assertSessionStorageRef (fld v ''storageRef'')) Invalid_atomic_crash_capture)
          (\<lambda>storageRef.
        guarded
          [ensure (crash_request_bound checkpoint mutationRequest sourceAttachment storageRef)
             Invalid_atomic_crash_capture]
          (Inr (plain_obj [(''captureAttemptId'', fld v ''captureAttemptId''),
             (''checkpoint'', checkpoint), (''contractVersion'', fld v ''contractVersion''),
             (''mutationRequest'', mutationRequest), (''sourceAttachment'', sourceAttachment),
             (''storageRef'', storageRef)])))))))"

definition crash_result_ids :: "string list" where
  "crash_result_ids = [''artifactId'', ''backendId'', ''captureAttemptId'', ''checkpointId'',
     ''operationId'', ''proofId'', ''storageId'']"

definition crash_result_keys :: "string list" where
  "crash_result_keys = [''artifact'', ''artifactId'', ''backendId'', ''captureAttemptId'',
     ''checkpointId'', ''contractVersion'', ''operationId'', ''proofId'', ''sessionId'',
     ''sourceFencingEpoch'', ''status'', ''storageId'']"

definition atomicCrashCaptureResultsMatch :: "jsval \<Rightarrow> jsval \<Rightarrow> bool" where
  "atomicCrashCaptureResultsMatch expected actual \<longleftrightarrow>
     same_fields [''artifactId'', ''backendId'', ''captureAttemptId'', ''checkpointId'',
       ''contractVersion'', ''operationId'', ''proofId'', ''sessionId'', ''sourceFencingEpoch'',
       ''status'', ''storageId''] expected actual \<and>
     same_fields artifact_keys (fld expected ''artifact'') (fld actual ''artifact'')"

text \<open>Everything but the replay comparison, against an already validated request.\<close>

definition crash_result_normalized :: "jsval \<Rightarrow> jsval \<Rightarrow> jsval result" where
  "crash_result_normalized v expected =
     rbind (assertAtomicCrashCaptureArtifact (fld v ''artifact'')) (\<lambda>artifact. guarded
       ([ensure (js_seq (fld v ''contractVersion'') (JInt 1)) Invalid_atomic_crash_capture] @
        map (\<lambda>k. assertOpaqueId (fld v k) Invalid_atomic_crash_capture) crash_result_ids @
        [assertUuid (fld v ''sessionId'') Invalid_atomic_crash_capture,
         err_of (parseFencingEpochForRecord (fld v ''sourceFencingEpoch'') Invalid_atomic_crash_capture),
         ensure (js_seq (fld v ''status'') (lit ''committed'') \<and>
           js_seq (fld v ''artifactId'') (fld (fld expected ''checkpoint'') ''artifactId'') \<and>
           js_seq (fld v ''backendId'') (fld (fld expected ''storageRef'') ''backendId'') \<and>
           js_seq (fld v ''captureAttemptId'') (fld expected ''captureAttemptId'') \<and>
           js_seq (fld v ''checkpointId'') (fld (fld expected ''checkpoint'') ''checkpointId'') \<and>
           js_seq (fld v ''operationId'') (fld (fld expected ''mutationRequest'') ''operationId'') \<and>
           js_seq (fld v ''sessionId'') (fld (fld expected ''storageRef'') ''sessionId'') \<and>
           js_seq (fld v ''sourceFencingEpoch'')
             (fld (fld expected ''checkpoint'') ''sourceFencingEpoch'') \<and>
           js_seq (fld v ''storageId'') (fld (fld expected ''storageRef'') ''storageId''))
           Invalid_atomic_crash_capture])
       (Inr (plain_obj ((''artifact'', artifact) #
          map (\<lambda>k. (k, fld v k)) (tl crash_result_keys)))))"

definition crash_result_against :: "jsval \<Rightarrow> jsval \<Rightarrow> (jsval \<times> jsval) result" where
  "crash_result_against v request =
     guarded [assertExactObject v crash_result_keys Invalid_atomic_crash_capture]
       (rbind (assertAtomicCrashCaptureRequest request) (\<lambda>expected.
        rbind (crash_result_normalized v expected) (\<lambda>normalized. Inr (expected, normalized))))"

definition assertAtomicCrashCaptureResult :: "jsval \<Rightarrow> jsval \<Rightarrow> jsval result" where
  "assertAtomicCrashCaptureResult v options =
     rbind (assertOptionsObject options [''previousResult'', ''request''] [''request'']
             Invalid_atomic_crash_capture)
       (\<lambda>opts. rbind (crash_result_against v (fld opts ''request'')) (\<lambda>(expected, normalized).
        if fld opts ''previousResult'' = JUndefined then Inr normalized
        else rbind (crash_result_against (fld opts ''previousResult'') expected) (\<lambda>(_, previous).
          guarded [ensure (atomicCrashCaptureResultsMatch previous normalized)
                     Invalid_atomic_crash_capture] (Inr normalized))))"

definition assertAtomicCrashCaptureVerificationResult :: "jsval \<Rightarrow> jsval \<Rightarrow> jsval result" where
  "assertAtomicCrashCaptureVerificationResult v options =
     rbind (assertOptionsObject options [''request''] [''request''] Invalid_atomic_crash_capture)
       (\<lambda>opts. rbind (assertAtomicCrashCaptureRequest (fld opts ''request'')) (\<lambda>expected. guarded
         [assertExactObject v [''contractVersion'', ''outcome'', ''result''] Invalid_atomic_crash_capture,
          ensure (js_seq (fld v ''contractVersion'') (JInt 1)) Invalid_atomic_crash_capture]
         (if js_seq (fld v ''outcome'') (lit ''committed'')
          then rbind (assertAtomicCrashCaptureResult (fld v ''result'')
                 (plain_obj [(''request'', expected)]))
            (\<lambda>result. Inr (plain_obj [(''contractVersion'', fld v ''contractVersion''),
               (''outcome'', fld v ''outcome''), (''result'', result)]))
          else guarded
            [ensure (js_seq (fld v ''outcome'') (lit ''unknown'') \<and> js_seq (fld v ''result'') JNull)
               Invalid_atomic_crash_capture]
            (Inr (plain_obj [(''contractVersion'', fld v ''contractVersion''),
               (''outcome'', fld v ''outcome''), (''result'', JNull)])))))"

section \<open>Restore-attachment activation\<close>

definition publication_keys :: "string list" where
  "publication_keys = [''artifactManifestDigest'', ''coordinatorBindingSha256'', ''modeledDigest'',
     ''publicationId'', ''publicationKind'', ''root'', ''treeIdentityDigest'']"

definition publication_root_keys :: "string list" where
  "publication_root_keys = [''filesystemId'', ''objectIdentityScheme'', ''objectId'', ''rootPath'']"

definition publication_checks :: "(string \<Rightarrow> jsval) \<Rightarrow> check list" where
  "publication_checks f =
     [assertExactObject (f ''root'') publication_root_keys Invalid_restore_attachment_activation,
      ensure (isSha256Hex (f ''artifactManifestDigest'') \<and>
              isSha256Hex (f ''coordinatorBindingSha256'') \<and>
              isSha256Hex (f ''modeledDigest'') \<and> isSha256Hex (f ''treeIdentityDigest''))
        Invalid_restore_attachment_activation,
      assertOpaqueId (f ''publicationId'') Invalid_restore_attachment_activation,
      ensure (js_seq (f ''publicationKind'') (lit ''restore-destination''))
        Invalid_restore_attachment_activation,
      assertOpaqueId (fld (f ''root'') ''filesystemId'') Invalid_restore_attachment_activation,
      assertOpaqueId (fld (f ''root'') ''objectIdentityScheme'') Invalid_restore_attachment_activation,
      assertPersistentObjectId (fld (f ''root'') ''objectId'') Invalid_restore_attachment_activation,
      assertAttachmentRootPath (fld (f ''root'') ''rootPath'') Invalid_restore_attachment_activation]"

definition assertRestoreAttachmentPublication :: "jsval \<Rightarrow> jsval result" where
  "assertRestoreAttachmentPublication v =
     guarded (assertExactObject v publication_keys Invalid_restore_attachment_activation
         # publication_checks (fld v))
       (defensiveClone v Invalid_restore_attachment_activation)"

definition restoreAttachmentPublicationsMatch :: "jsval \<Rightarrow> jsval \<Rightarrow> bool" where
  "restoreAttachmentPublicationsMatch expected actual \<longleftrightarrow>
     same_fields [''artifactManifestDigest'', ''coordinatorBindingSha256'', ''modeledDigest'',
       ''publicationId'', ''publicationKind'', ''treeIdentityDigest''] expected actual \<and>
     same_fields publication_root_keys (fld expected ''root'') (fld actual ''root'')"

definition activation_request_keys :: "string list" where
  "activation_request_keys = [''contractVersion'', ''lease'', ''manifest'', ''mutationRequest'',
     ''publication'', ''storageRef'']"

definition assertRestoreAttachmentActivationRequest :: "jsval \<Rightarrow> jsval result" where
  "assertRestoreAttachmentActivationRequest v =
     guarded
       [assertExactObject v activation_request_keys Invalid_restore_attachment_activation,
        ensure (js_seq (fld v ''contractVersion'') (JInt 1)) Invalid_restore_attachment_activation]
       (rbind (assertLeaseGrant (fld v ''lease'')) (\<lambda>writerLease.
        rbind (assertSessionManifest (fld v ''manifest'')) (\<lambda>sessionManifest.
        rbind (assertStorageMutationRequest (fld v ''mutationRequest'')) (\<lambda>mutation.
        rbind (assertRestoreAttachmentPublication (fld v ''publication'')) (\<lambda>publication.
        rbind (assertSessionStorageRef (fld v ''storageRef'')) (\<lambda>storage.
        guarded
          [ensure (js_seq (fld mutation ''operation'') (lit ''attach''))
             Invalid_restore_attachment_activation,
           ensure (js_seq (fld sessionManifest ''sessionId'') (fld writerLease ''sessionId'') \<and>
                   js_seq (fld storage ''sessionId'') (fld sessionManifest ''sessionId'') \<and>
                   js_seq (fld mutation ''sessionId'') (fld sessionManifest ''sessionId'') \<and>
                   same_fields [''backendId'', ''storageId''] mutation storage)
             Invalid_restore_attachment_activation,
           ensure (same_fields [''leaseId'', ''holderId'', ''fencingEpoch''] mutation writerLease)
             Stale_fence]
          (Inr (plain_obj [(''contractVersion'', JInt 1), (''lease'', writerLease),
             (''manifest'', sessionManifest), (''mutationRequest'', mutation),
             (''publication'', publication), (''storageRef'', storage)]))))))))"

definition assertRestoreAttachmentActivationResult :: "jsval \<Rightarrow> jsval \<Rightarrow> jsval result" where
  "assertRestoreAttachmentActivationResult v options =
     rbind (assertOptionsObject options [''request''] [''request''] Invalid_restore_attachment_activation)
       (\<lambda>opts. guarded
         [assertExactObject v [''attachment'', ''contractVersion'', ''mutationResult'', ''publication'']
            Invalid_restore_attachment_activation,
          ensure (js_seq (fld v ''contractVersion'') (JInt 1)) Invalid_restore_attachment_activation]
       (rbind (assertRestoreAttachmentActivationRequest (fld opts ''request'')) (\<lambda>expected.
        rbind (assertRestoreAttachmentPublication (fld v ''publication'')) (\<lambda>publication.
        guarded
          [ensure (restoreAttachmentPublicationsMatch (fld expected ''publication'') publication)
             Invalid_restore_attachment_activation]
       (rbind (assertStorageMutationResult (fld v ''mutationResult'')
                 (plain_obj [(''request'', fld expected ''mutationRequest'')])) (\<lambda>mutationResult.
        rbind (assertSessionAttachmentMatches (plain_obj [(''attachment'', fld v ''attachment''),
                 (''lease'', fld expected ''lease''), (''manifest'', fld expected ''manifest''),
                 (''storageRef'', fld expected ''storageRef'')])) (\<lambda>matched.
        let a = fld matched ''attachment''; req = fld expected ''mutationRequest'' in guarded
          [ensure (js_seq (fld a ''operationId'') (fld req ''operationId'') \<and>
                   js_seq (fld a ''operationId'') (fld mutationResult ''operationId'') \<and>
                   js_seq (fld a ''attachmentId'') (fld (fld req ''target'') ''attachmentId'') \<and>
                   js_seq (fld a ''attachmentId'') (fld (fld mutationResult ''target'') ''attachmentId'') \<and>
                   js_seq (fld a ''proofId'') (fld mutationResult ''proofId''))
             Invalid_restore_attachment_activation,
           ensure (js_seq (fld a ''rootPath'') (fld (fld publication ''root'') ''rootPath''))
             Invalid_restore_attachment_activation]
          (Inr (plain_obj [(''attachment'', a), (''contractVersion'', JInt 1),
             (''mutationResult'', mutationResult), (''publication'', publication)])))))))))"

definition assertRestoreAttachmentReconciliationResult :: "jsval \<Rightarrow> jsval \<Rightarrow> jsval result" where
  "assertRestoreAttachmentReconciliationResult v options =
     rbind (assertOptionsObject options [''request''] [''request'']
             Invalid_restore_attachment_reconciliation)
       (\<lambda>opts. rbind (rcatch (assertRestoreAttachmentActivationRequest (fld opts ''request''))
                       Invalid_restore_attachment_reconciliation) (\<lambda>expected.
        rbind (inspectPlainDataObject v Invalid_restore_attachment_reconciliation) (\<lambda>_.
        rbind (plainDataDescriptor v (key ''contractVersion'') Invalid_restore_attachment_reconciliation)
          (\<lambda>contractVersion.
        rbind (plainDataDescriptor v (key ''outcome'') Invalid_restore_attachment_reconciliation)
          (\<lambda>outcome. guarded
         [ensure (js_seq contractVersion (JInt 1)) Invalid_restore_attachment_reconciliation]
         (if js_seq outcome (lit ''applied'')
          then guarded
            [assertExactObject v [''contractVersion'', ''outcome'', ''result'']
               Invalid_restore_attachment_reconciliation]
            (rbind (rcatch (assertRestoreAttachmentActivationResult (fld v ''result'')
                 (plain_obj [(''request'', expected)])) Invalid_restore_attachment_reconciliation)
              (\<lambda>result. Inr (plain_obj [(''contractVersion'', JInt 1), (''outcome'', lit ''applied''),
                 (''result'', result)])))
          else guarded
            [ensure (js_seq outcome (lit ''absent-and-quiescent'') \<or> js_seq outcome (lit ''unknown''))
               Invalid_restore_attachment_reconciliation,
             assertExactObject v [''contractVersion'', ''outcome'']
               Invalid_restore_attachment_reconciliation]
            (Inr (plain_obj [(''contractVersion'', JInt 1), (''outcome'', outcome)]))))))))"

section \<open>Flat records among them\<close>

lemma positive_uint64_eq: "assertPositiveUint64Decimal v e = parseFencingEpochForRecord v e"
  by (simp add: assertPositiveUint64Decimal_def parseFencingEpochForRecord_def)

interpretation artifact: flat_record assertAtomicCrashCaptureArtifact artifact_keys
  Invalid_atomic_crash_capture artifact_checks
proof
  show "list_all (\<lambda>k. data_prim (f k)) artifact_keys"
    if "list_all (\<lambda>c. c = None) (artifact_checks f)" for f
    using that
    by (auto simp: artifact_checks_def artifact_keys_def positive_uint64_eq dest: field_data)
qed (simp_all add: artifact_keys_def assertAtomicCrashCaptureArtifact_def artifact_checks_def)

end
