(* ===== verification/Writer_Binding.thy ===== *)
theory Writer_Binding
  imports Contract_Lease
begin

text \<open>
  The request validation of \<open>stopped-writer-capability.mjs\<close>: options objects, the binding of an
  attachment to the canonical lease, and the tests that decide whether a value may be awaited.
  The module repeats the identifier checks of \<open>session-storage-contracts.mjs\<close> with regular
  expressions; the names it shares with that module carry the suffix \<open>W\<close> here. The lemmas show
  that the second pass over a binding never rejects one the contracts accepted.
\<close>

datatype writer_error =
    Invalid_stopped_writer_request
  | Snapshot_outcome_uncertain
  | Stopped_writer_capability_rejected
  | Writer_state_conflict
  | Writer_stop_outcome_uncertain

type_synonym 'a wresult = "writer_error + 'a"

section \<open>Options and identifiers\<close>

definition assertExactOptions :: "jsval \<Rightarrow> string list \<Rightarrow> jsval wresult" where
  "assertExactOptions v ks = exact_options Invalid_stopped_writer_request v ks"

definition str_matches :: "rx \<Rightarrow> jsval \<Rightarrow> bool" where
  "str_matches r v = (case v of JStr s \<Rightarrow> rx_match r s | _ \<Rightarrow> False)"

definition assertOpaqueIdW :: "jsval \<Rightarrow> jsval wresult" where
  "assertOpaqueIdW v = guarded [ensure (str_matches OPAQUE_ID_PATTERN v) Invalid_stopped_writer_request]
     (Inr v)"

definition assertUuidW :: "jsval \<Rightarrow> jsval wresult" where
  "assertUuidW v = guarded [ensure (str_matches UUID_PATTERN v) Invalid_stopped_writer_request] (Inr v)"

definition parseFencingEpochW :: "jsval \<Rightarrow> nat wresult" where
  "parseFencingEpochW v = (case v of
     JStr s \<Rightarrow> guarded
       [ensure (rx_match FENCING_EPOCH_PATTERN s) Invalid_stopped_writer_request,
        ensure (dec_val s \<le> UINT64_MAX) Invalid_stopped_writer_request]
       (Inr (dec_val s))
   | _ \<Rightarrow> Inl Invalid_stopped_writer_request)"

definition compareFencingEpochsW :: "jsval \<Rightarrow> jsval \<Rightarrow> int wresult" where
  "compareFencingEpochsW l r =
     rbind (parseFencingEpochW l) (\<lambda>a. rbind (parseFencingEpochW r) (\<lambda>b.
       Inr (if a < b then - 1 else if a > b then 1 else 0)))"

definition assertIsoTimestampW :: "jsval \<Rightarrow> writer_error option" where
  "assertIsoTimestampW v = (case v of
     JStr s \<Rightarrow> (case date_parse s of
        Some t \<Rightarrow> ensure (to_iso_string t = s) Invalid_stopped_writer_request
      | None \<Rightarrow> Some Invalid_stopped_writer_request)
   | _ \<Rightarrow> Some Invalid_stopped_writer_request)"

section \<open>The binding of an attachment to its lease\<close>

definition owned_root_path :: "jsval \<Rightarrow> bool" where
  "owned_root_path v = (case v of
     JStr s \<Rightarrow> \<not> list_ex (\<lambda>c. c = 0) s \<and> path_is_absolute s \<and> path_resolve s = s \<and> s \<noteq> [47]
   | _ \<Rightarrow> False)"

definition assertOwnedBinding :: "jsval \<Rightarrow> jsval \<Rightarrow> writer_error option" where
  "assertOwnedBinding att l = first_err
     ([ensure (js_seq (fld att ''contractVersion'') (JInt STORAGE_CONTRACT_VERSION) \<and>
               js_seq (fld l ''contractVersion'') (JInt STORAGE_CONTRACT_VERSION))
         Invalid_stopped_writer_request,
       err_of (assertUuidW (fld att ''sessionId'')),
       err_of (assertUuidW (fld l ''sessionId''))]
      @ map (\<lambda>k. err_of (assertOpaqueIdW (fld att k)))
          [''attachmentId'', ''backendId'', ''holderId'', ''leaseId'', ''operationId'', ''proofId'',
           ''storageId'']
      @ map (\<lambda>k. err_of (assertOpaqueIdW (fld l k))) [''holderId'', ''leaseId'']
      @ [err_of (parseFencingEpochW (fld att ''fencingEpoch'')),
         err_of (parseFencingEpochW (fld l ''fencingEpoch'')),
         assertIsoTimestampW (fld l ''expiresAt''),
         ensure (js_seq (fld att ''kind'') (lit ''directory'') \<and>
                 js_seq (fld att ''mode'') (lit ''read-write'')) Invalid_stopped_writer_request,
         ensure (owned_root_path (fld att ''rootPath'')) Invalid_stopped_writer_request])"

definition assertTrustedCallback :: "jsval \<Rightarrow> jsval wresult" where
  "assertTrustedCallback v = guarded
     [ensure (is_function v \<and> \<not> is_proxy v \<and> (case v of JFun _ generator \<Rightarrow> \<not> generator | _ \<Rightarrow> True))
        Invalid_stopped_writer_request]
     (Inr v)"

definition validatedFlatSnapshot ::
    "jsval \<Rightarrow> string list \<Rightarrow> (jsval \<Rightarrow> jsval result) \<Rightarrow> jsval wresult" where
  "validatedFlatSnapshot v ks validator =
     rbind (assertExactOptions v ks) (\<lambda>snapshot. guarded
       [ensure (list_all (\<lambda>k. fld snapshot k = JNull \<or>
                  \<not> is_object (fld snapshot k) \<and> \<not> is_function (fld snapshot k)) ks)
          Invalid_stopped_writer_request]
       (rbind (rcatch (validator snapshot) Invalid_stopped_writer_request) (\<lambda>_. Inr snapshot)))"

definition FENCE_KEYS :: "string list" where
  "FENCE_KEYS = [''contractVersion'', ''fencingEpoch'', ''holderId'', ''leaseId'', ''sessionId'']"

definition normalizeBinding :: "jsval \<Rightarrow> jsval \<Rightarrow> (jsval \<times> jsval) wresult" where
  "normalizeBinding attachmentValue leaseValue =
     rbind (validatedFlatSnapshot attachmentValue attachment_keys assertSessionAttachment) (\<lambda>att.
     rbind (validatedFlatSnapshot leaseValue lease_keys assertLeaseGrant) (\<lambda>l.
     guarded
       [assertOwnedBinding att l,
        ensure (same_fields [''sessionId'', ''leaseId'', ''holderId'', ''fencingEpoch''] att l)
          Invalid_stopped_writer_request]
       (Inr (att, plain_obj (map (\<lambda>k. (k, fld l k)) FENCE_KEYS)))))"

text \<open>\<open>Object.keys\<close>: the enumerable own string keys.\<close>

definition object_keys :: "jsval \<Rightarrow> jskey list" where
  "object_keys v = filter (\<lambda>k. (case k of KStr _ \<Rightarrow> True | KSym _ \<Rightarrow> False) \<and>
     (case own_desc v k of Some (DataDesc e _) \<Rightarrow> e | Some (AccessorDesc e _) \<Rightarrow> e | None \<Rightarrow> False))
     (own_keys v)"

definition sameFlatRecord :: "jsval \<Rightarrow> jsval \<Rightarrow> bool" where
  "sameFlatRecord l r \<longleftrightarrow>
     length (object_keys l) = length (object_keys r) \<and>
     list_all (\<lambda>k. own_desc r k \<noteq> None \<and>
       (case (js_get l k, js_get r k) of (Some x, Some y) \<Rightarrow> js_seq x y | _ \<Rightarrow> False)) (object_keys l)"

definition sameFence :: "jsval \<Rightarrow> jsval \<Rightarrow> bool" where
  "sameFence l r = same_fields FENCE_KEYS l r"

section \<open>Values that may be awaited\<close>

text \<open>
  What a callback returns: an ordinary value, a generator object or a promise. The last two
  carry the object the prototype walks inspect. The built-in prototypes of arrays and functions
  and \<open>Object.prototype\<close> have no own \<open>then\<close>.
\<close>

datatype awaitable = Plain jsval | Generator_object jsval | Promise_object jsval

fun aw_view :: "awaitable \<Rightarrow> jsval" where
  "aw_view (Plain v) = v"
| "aw_view (Generator_object v) = v"
| "aw_view (Promise_object v) = v"

text \<open>The two prototype walks; \<open>PROMISE_CONSTRUCTOR\<close> is the identity of \<open>Promise\<close>.\<close>

fun then_walk :: "jsval \<Rightarrow> bool" where
  "then_walk (JObj p ps) = (case map_of ps (key ''then'') of
     Some (DataDesc _ v) \<Rightarrow> \<not> is_function v
   | Some (AccessorDesc _ _) \<Rightarrow> False
   | None \<Rightarrow> then_walk p)"
| "then_walk (JProxy _ _) = False"
| "then_walk _ = True"

definition PROMISE_CONSTRUCTOR :: jsval where
  "PROMISE_CONSTRUCTOR = JFun 0 False"

fun constructor_walk :: "jsval \<Rightarrow> bool" where
  "constructor_walk (JObj p ps) = (case map_of ps (key ''constructor'') of
     Some (DataDesc _ v) \<Rightarrow> js_seq v PROMISE_CONSTRUCTOR
   | Some (AccessorDesc _ _) \<Rightarrow> False
   | None \<Rightarrow> constructor_walk p)"
| "constructor_walk _ = False"

definition isSafeAsyncReturnValue :: "awaitable \<Rightarrow> bool" where
  "isSafeAsyncReturnValue a =
     (if \<not> is_object (aw_view a) \<and> \<not> is_function (aw_view a) then True else then_walk (aw_view a))"

definition isSafeCoordinatorAwaitValue :: "awaitable \<Rightarrow> bool" where
  "isSafeCoordinatorAwaitValue a =
     (if is_proxy (aw_view a) then False
      else case a of
        Generator_object _ \<Rightarrow> False
      | Promise_object v \<Rightarrow> constructor_walk v
      | Plain _ \<Rightarrow> isSafeAsyncReturnValue a)"

section \<open>What the checks accept\<close>

lemma exact_options_ok: "(\<exists>opts. assertExactOptions v ks = Inr opts) \<longleftrightarrow> exact_object v ks"
  by (simp add: assertExactOptions_def exact_options_iff)

lemma exact_options_result:
  assumes "assertExactOptions v ks = Inr opts" and "distinct ks"
  shows "exact_object opts ks" and "\<And>s. s \<in> set ks \<Longrightarrow> fld opts s = fld v s"
    and "own_keys opts = own_keys v"
  using assms own_copy_exact [of v ks] by (auto simp: assertExactOptions_def exact_options_iff own_copy_keys)

lemma opaqueW: "str_matches OPAQUE_ID_PATTERN v \<longleftrightarrow> isOpaqueId v"
  by (cases v) (simp_all add: str_matches_def isOpaqueId_def flip: isOpaqueId_pattern)

lemma uuidW: "str_matches UUID_PATTERN v \<longleftrightarrow> isCanonicalUuid v"
  by (cases v) (simp_all add: str_matches_def isCanonicalUuid_def flip: isCanonicalUuid_pattern)

lemma assertOpaqueIdW_iff [simp]: "assertOpaqueIdW v = Inr w \<longleftrightarrow> isOpaqueId v \<and> w = v"
  by (auto simp: assertOpaqueIdW_def opaqueW)

lemma assertUuidW_iff [simp]: "assertUuidW v = Inr w \<longleftrightarrow> isCanonicalUuid v \<and> w = v"
  by (auto simp: assertUuidW_def uuidW)

lemma parseFencingEpochW_iff: "parseFencingEpochW v = Inr n \<longleftrightarrow> parseFencingEpochForRecord v e = Inr n"
proof (cases v)
  case (JStr s)
  then show ?thesis
    by (simp add: parseFencingEpochW_def epoch_pattern [symmetric] parseFencingEpochForRecord_def)
qed (simp_all add: parseFencingEpochW_def parseFencingEpochForRecord_def)

lemma assertIsoTimestampW_iff: "assertIsoTimestampW v = None \<longleftrightarrow> (\<exists>t. assertIsoTimestamp v e = Inr t)"
  by (cases v) (auto simp: assertIsoTimestampW_def assertIsoTimestamp_def split: option.splits)

interpretation writer_epochs: epoch_order parseFencingEpochW compareFencingEpochsW
proof
  show "parseFencingEpochW v = Inr n \<longleftrightarrow> v = JStr (dec_of n) \<and> 1 \<le> n \<and> n \<le> UINT64_MAX" for v n
    unfolding parseFencingEpochW_iff [where e = Invalid_fence] by (rule parseFencingEpoch_dec_of)
qed (auto simp: compareFencingEpochsW_def)

lemma root_path_owned: "assertAttachmentRootPath v e = None \<Longrightarrow> owned_root_path v"
  by (cases v) (simp_all add: assertAttachmentRootPath_def owned_root_path_def containsNullCharacter_def)

text \<open>The module's own pass over a binding accepts whatever the contracts accepted.\<close>

lemma owned_binding_accepts:
  assumes "list_all (\<lambda>c. c = None) (attachment_checks (fld att))"
    and "list_all (\<lambda>c. c = None) (lease_checks (fld l))"
  shows "assertOwnedBinding att l = None"
proof -
  have "assertIsoTimestampW (fld l ''expiresAt'') = None"
    using assms(2) by (auto simp: assertIsoTimestampW_iff [where e = Invalid_fence] lease_checks_def)
  moreover have "owned_root_path (fld att ''rootPath'')"
    using assms(1) by (auto simp: attachment_checks_def intro: root_path_owned)
  ultimately show ?thesis
    using assms unfolding assertOwnedBinding_def
    by (simp add: attachment_checks_def lease_checks_def
        parseFencingEpochW_iff [where e = Invalid_fence] parseFencingEpoch_dec_of)
qed

lemma flat_snapshot:
  assumes "distinct ks"
    and accepts: "\<And>v. (\<exists>w. validate v = Inr w) \<longleftrightarrow> exact_object v ks \<and> list_all (\<lambda>c. c = None) (checks (fld v))"
    and prims: "\<And>f. list_all (\<lambda>c. c = None) (checks f) \<Longrightarrow> list_all (\<lambda>k. data_prim (f k)) ks"
    and reads: "\<And>f g. (\<And>k. k \<in> set ks \<Longrightarrow> f k = g k) \<Longrightarrow> checks f = checks g"
  shows "validatedFlatSnapshot v ks validate = Inr w \<longleftrightarrow>
    assertExactOptions v ks = Inr w \<and> (\<exists>x. validate v = Inr x)"
proof -
  have "(list_all (\<lambda>k. fld w k = JNull \<or> \<not> is_object (fld w k) \<and> \<not> is_function (fld w k)) ks \<and>
      (\<exists>x. validate w = Inr x)) \<longleftrightarrow> (\<exists>x. validate v = Inr x)"
    if o: "assertExactOptions v ks = Inr w"
  proof -
    note r = exact_options_result [OF o assms(1)]
    have c: "checks (fld w) = checks (fld v)" by (rule reads) (rule r(2))
    have v: "(\<exists>x. validate v = Inr x) \<longleftrightarrow> list_all (\<lambda>c. c = None) (checks (fld w))"
      using o exact_options_ok [of v ks] by (auto simp: accepts c)
    have w: "(\<exists>x. validate w = Inr x) \<longleftrightarrow> list_all (\<lambda>c. c = None) (checks (fld w))"
      using r(1) by (simp add: accepts)
    have "data_prim x \<Longrightarrow> \<not> is_object x \<and> \<not> is_function x" for x by (cases x) auto
    then show ?thesis using prims [of "fld w"] unfolding v w by (auto simp: list_all_iff)
  qed
  then show ?thesis by (auto simp: validatedFlatSnapshot_def)
qed

lemma attachment_snapshot:
  "validatedFlatSnapshot v attachment_keys assertSessionAttachment = Inr w \<longleftrightarrow>
     assertExactOptions v attachment_keys = Inr w \<and> (\<exists>x. assertSessionAttachment v = Inr x)"
  by (rule flat_snapshot [OF attachment.keys_distinct attachment.accepts_iff attachment.prims
      attachment.reads])

lemma lease_snapshot:
  "validatedFlatSnapshot v lease_keys assertLeaseGrant = Inr w \<longleftrightarrow>
     assertExactOptions v lease_keys = Inr w \<and> (\<exists>x. assertLeaseGrant v = Inr x)"
  by (rule flat_snapshot [OF lease.keys_distinct lease.accepts_iff lease.prims lease.reads])

lemma binding_snapshots:
  assumes "normalizeBinding a l = Inr (att, f)"
  obtains l' where "assertExactOptions a attachment_keys = Inr att" "assertExactOptions l lease_keys = Inr l'"
    "\<exists>x. assertSessionAttachment a = Inr x" "\<exists>x. assertLeaseGrant l = Inr x"
    "same_fields fence_fields att l'" "f = plain_obj (map (\<lambda>k. (k, fld l' k)) FENCE_KEYS)"
  using assms by (auto simp: normalizeBinding_def attachment_snapshot lease_snapshot)

lemma same_fields_cong:
  "(\<And>k. k \<in> set ks \<Longrightarrow> fld a k = fld a' k) \<Longrightarrow> (\<And>k. k \<in> set ks \<Longrightarrow> fld b k = fld b' k) \<Longrightarrow>
     same_fields ks a b = same_fields ks a' b'"
  by (simp add: same_fields_def list_all_iff)

lemma normalizeBinding_ok:
  "(\<exists>att f. normalizeBinding a l = Inr (att, f)) \<longleftrightarrow>
     (\<exists>x. assertSessionAttachment a = Inr x) \<and> (\<exists>y. assertLeaseGrant l = Inr y) \<and>
     same_fields fence_fields a l"
proof -
  have fields: "same_fields fence_fields att l' = same_fields fence_fields a l"
    if "assertExactOptions a attachment_keys = Inr att" "assertExactOptions l lease_keys = Inr l'"
    for att l'
    by (rule same_fields_cong; rule exact_options_result(2) [OF that(1) attachment.keys_distinct]
        exact_options_result(2) [OF that(2) lease.keys_distinct])
      (auto simp: attachment_keys_def lease_keys_def)
  have owned: "assertOwnedBinding att l' = None"
    if "assertExactOptions a attachment_keys = Inr att" "assertExactOptions l lease_keys = Inr l'"
      "\<exists>x. assertSessionAttachment a = Inr x" "\<exists>y. assertLeaseGrant l = Inr y" for att l'
  proof (rule owned_binding_accepts)
    have "attachment_checks (fld att) = attachment_checks (fld a)"
      by (rule attachment.reads) (rule exact_options_result(2) [OF that(1) attachment.keys_distinct])
    then show "list_all (\<lambda>c. c = None) (attachment_checks (fld att))"
      using that(3) by (simp add: attachment.accepts_iff)
    have "lease_checks (fld l') = lease_checks (fld l)"
      by (rule lease.reads) (rule exact_options_result(2) [OF that(2) lease.keys_distinct])
    then show "list_all (\<lambda>c. c = None) (lease_checks (fld l'))"
      using that(4) by (simp add: lease.accepts_iff)
  qed
  show ?thesis
  proof
    assume "\<exists>att f. normalizeBinding a l = Inr (att, f)"
    then show "(\<exists>x. assertSessionAttachment a = Inr x) \<and> (\<exists>y. assertLeaseGrant l = Inr y) \<and>
        same_fields fence_fields a l"
      by (auto elim!: binding_snapshots simp: fields)
  next
    assume ok: "(\<exists>x. assertSessionAttachment a = Inr x) \<and> (\<exists>y. assertLeaseGrant l = Inr y) \<and>
        same_fields fence_fields a l"
    then obtain att l' where "assertExactOptions a attachment_keys = Inr att"
        "assertExactOptions l lease_keys = Inr l'"
      using exact_options_ok by (metis attachment.accepts_iff lease.accepts_iff)
    with ok owned fields show "\<exists>att f. normalizeBinding a l = Inr (att, f)"
      by (auto simp: normalizeBinding_def attachment_snapshot lease_snapshot)
  qed
qed

text \<open>What the coordinator keeps of a binding.\<close>

lemma binding_fields:
  assumes "normalizeBinding a l = Inr (att, f)"
  shows "fld f ''fencingEpoch'' = fld att ''fencingEpoch''"
    and "\<exists>n. parseFencingEpochW (fld f ''fencingEpoch'') = Inr n"
proof -
  obtain l' where b: "assertExactOptions a attachment_keys = Inr att"
      "\<exists>x. assertSessionAttachment a = Inr x"
      "same_fields fence_fields att l'" "f = plain_obj (map (\<lambda>k. (k, fld l' k)) FENCE_KEYS)"
    by (rule binding_snapshots [OF assms])
  have e: "fld att ''fencingEpoch'' = fld a ''fencingEpoch''"
    by (rule exact_options_result(2) [OF b(1) attachment.keys_distinct]) (simp add: attachment_keys_def)
  have n: "\<exists>n. parseFencingEpochW (fld att ''fencingEpoch'') = Inr n"
    using b(2) unfolding e parseFencingEpochW_iff [where e = Invalid_storage_attachment]
    by (auto simp: attachment.accepts_iff attachment_checks_def)
  then have "is_string (fld att ''fencingEpoch'')"
    by (auto simp: writer_epochs.parse_iff)
  then show s: "fld f ''fencingEpoch'' = fld att ''fencingEpoch''"
    using b(3,4) by (simp add: same_fields_def fld_plain_obj FENCE_KEYS_def js_seq_strings)
  from n show "\<exists>n. parseFencingEpochW (fld f ''fencingEpoch'') = Inr n" by (simp add: s)
qed

end
