(* ===== verification/Contract_Properties.thy ===== *)
theory Contract_Properties
  imports Contract_Capture Writer_Binding
begin

text \<open>
  The guarantees of the storage contracts: what the identifier, epoch and path checks accept, that
  validators are canonical, and that results, admissions and reconciliations bind to the request
  they answer.
\<close>

section \<open>Fields of answers\<close>

text \<open>
  A result is checked by validating the request it repeats, picked from its fields. The clone that
  is returned carries exactly the fields of that request.
\<close>

context record_schema
begin

lemma picked:
  assumes "validate (pick ks v) = Inr a" and "exact_object v all" and "distinct all"
    and "set ks \<subseteq> set all" and "structured_clone v = Some w" and "k \<in> set ks"
  shows "fld w k = fld a k"
proof -
  have "structured_clone (fld v k) = Some (fld a k)"
    using result_field [OF assms(1,6)] assms(6) by (simp add: fld_pick)
  moreover have "structured_clone (fld v k) = Some (fld w k)"
    using exact_clone(2) [OF assms(2,3,5)] assms(4,6) by blast
  ultimately show ?thesis by simp
qed

end

section \<open>Identifiers, epochs and paths\<close>

text \<open>
  C39: The character loops of the contracts accept exactly the strings that the regular expressions
  of the other modules accept, for session identifiers and for opaque identifiers.
\<close>
theorem identifier_loops_match_patterns:
  "(isCanonicalUuid v \<longleftrightarrow> str_matches UUID_PATTERN v) \<and> (isOpaqueId v \<longleftrightarrow> str_matches OPAQUE_ID_PATTERN v)"
  by (simp add: uuidW opaqueW)

text \<open>
  C38: A fencing epoch is accepted exactly when it is the canonical decimal of a number from 1 to
  \<open>2^64 - 1\<close>, and parsing returns that number; the bound is the largest unsigned 64-bit value.
\<close>
theorem fencing_epoch_round_trip:
  "(parseFencingEpoch v = Inr n \<longleftrightarrow> v = JStr (dec_of n) \<and> 1 \<le> n \<and> n \<le> UINT64_MAX) \<and>
   UINT64_MAX = unat (- 1 :: 64 word)"
  unfolding contract_epochs.parse_iff by (simp add: UINT64_MAX_def unsigned_minus_1_eq_mask mask_eq_exp_minus_1)

text \<open>
  The two implementations of epoch comparison, a character loop in the contracts and regular
  expressions in the coordinator, agree on every pair of values: both reject or both return the
  same sign.
\<close>
theorem epoch_comparisons_agree:
  "map_sum (\<lambda>_. ()) id (compareFencingEpochs l r) = map_sum (\<lambda>_. ()) id (compareFencingEpochsW l r)"
proof -
  have ok: "parseFencingEpochW v = Inr n" if "parseFencingEpoch v = Inr n" for v n
    using that by (simp add: contract_epochs.parse_iff writer_epochs.parse_iff)
  have bad: "\<exists>e'. parseFencingEpochW v = Inl e'" if "parseFencingEpoch v = Inl e" for v e
  proof (cases "parseFencingEpochW v")
    case (Inr n)
    then have "parseFencingEpoch v = Inr n"
      by (simp add: contract_epochs.parse_iff writer_epochs.parse_iff)
    with that show ?thesis by simp
  qed simp
  show ?thesis
  proof (cases "parseFencingEpoch l")
    case (Inl e)
    with bad [OF Inl] show ?thesis by (auto simp: compareFencingEpochs_def compareFencingEpochsW_def)
  next
    case (Inr m)
    note l = Inr ok [OF Inr]
    show ?thesis
    proof (cases "parseFencingEpoch r")
      case (Inl e)
      with bad [OF Inl] l show ?thesis by (auto simp: compareFencingEpochs_def compareFencingEpochsW_def)
    next
      case (Inr n)
      with ok [OF Inr] l show ?thesis by (simp add: compareFencingEpochs_def compareFencingEpochsW_def)
    qed
  qed
qed

text \<open>
  C40: An attachment root is accepted exactly when it is a string in normal form below the root (one
  or more proper segments, none empty, dot or dot-dot), without NUL, well-formed as Unicode and at
  most 4095 bytes in UTF-8; the cheaper length test in front never excludes one.
\<close>
theorem root_path_accepted:
  "assertAttachmentRootPath v e = None \<longleftrightarrow>
     (\<exists>s. v = JStr s \<and> normal_path s \<and> 0 \<notin> set s \<and> utf8_roundtrip s = s \<and> utf8_length s \<le> 4095)"
proof (cases v)
  case (JStr s)
  have "length s \<le> 4095" if "utf8_length s \<le> 4095" using utf8_bounds [of s] that by simp
  then show ?thesis
    unfolding JStr assertAttachmentRootPath_def resolve_fixed_iff [symmetric]
    by (auto simp: containsNullCharacter_def list_ex_iff)
qed (simp_all add: assertAttachmentRootPath_def)

section \<open>Validators return canonical records\<close>

text \<open>
  Every record validator is canonical: what it returns is accepted again and returned unchanged,
  so a record that crossed one boundary of the runtime is never altered or refused by the next.
\<close>
theorem validators_are_idempotent:
  "(assertLeaseGrant v = Inr w \<longrightarrow> assertLeaseGrant w = Inr w) \<and>
   (assertSessionStorageRef v = Inr w \<longrightarrow> assertSessionStorageRef w = Inr w) \<and>
   (assertSessionProvisionRequest v = Inr w \<longrightarrow> assertSessionProvisionRequest w = Inr w) \<and>
   (assertSessionAttachment v = Inr w \<longrightarrow> assertSessionAttachment w = Inr w) \<and>
   (assertSessionManifest v = Inr w \<longrightarrow> assertSessionManifest w = Inr w) \<and>
   (assertStorageMutationRequest v = Inr w \<longrightarrow> assertStorageMutationRequest w = Inr w) \<and>
   (assertStorageForceFenceRequest v = Inr w \<longrightarrow> assertStorageForceFenceRequest w = Inr w) \<and>
   (assertBareCheckpointDescriptor v = Inr w \<longrightarrow> assertBareCheckpointDescriptor w = Inr w) \<and>
   (assertAtomicCrashCaptureArtifact v = Inr w \<longrightarrow> assertAtomicCrashCaptureArtifact w = Inr w)"
  by (intro conjI impI) (fact lease.idempotent storage_ref.idempotent provision.idempotent
      attachment.idempotent manifest.idempotent mutation.idempotent force_fence.idempotent
      checkpoint.idempotent artifact.idempotent | erule lease.idempotent storage_ref.idempotent
      provision.idempotent attachment.idempotent manifest.idempotent mutation.idempotent
      force_fence.idempotent checkpoint.idempotent artifact.idempotent)+

section \<open>Results answer their request\<close>

lemma mutation_field_data:
  assumes "assertStorageMutationRequest v = Inr w" and "k \<in> set mutation_keys" and "k \<noteq> ''target''"
  shows "data_prim (fld w k)"
  using mutation_flat_data [OF mutation.result_checks [OF assms(1)]] assms(2,3)
  by (auto simp: mutation_keys_def)

lemma mutation_target_data:
  assumes "assertStorageMutationRequest v = Inr w" and "k \<in> set (target_schema (fld w ''operation''))"
  shows "data_prim (fld (fld w ''target'') k)"
proof -
  have "assertStorageMutationTarget (fld w ''target'') (fld w ''operation'') (fld w ''storageId'') = None"
    using mutation.result_checks [OF assms(1)] by (simp add: mutation_checks_def)
  then show ?thesis using assms(2)
    by (auto simp: assertStorageMutationTarget_def target_schema_def target_ids_def intro: opaque_data
        split: if_splits)
qed

lemma mutation_operation:
  assumes "assertStorageMutationRequest v = Inr w"
  shows "fld w ''operation'' \<in> lit ` set mutation_operations"
  using mutation.result_checks [OF assms] by (auto simp: mutation_checks_def)

lemma targets_match_eq:
  assumes "assertStorageMutationRequest v = Inr e" and "targets_match e a"
    and "k \<in> set (target_schema (fld e ''operation''))"
  shows "fld (fld a ''target'') k = fld (fld e ''target'') k"
proof -
  have "js_seq (fld (fld e ''target'') k) (fld (fld a ''target'') k)"
    using assms(2,3) mutation_operation [OF assms(1)]
    by (auto simp: targets_match_def Let_def target_schema_def mutation_operations_def)
  then show ?thesis
    by (rule js_seqD [OF _ data_prim_prim [OF mutation_target_data [OF assms(1,3)]], symmetric])
qed

lemma mutation_result_facts:
  assumes "assertOptionsObject options [''request''] [''request''] Invalid_storage_mutation = Inr opts"
    and "assertStorageMutationResult v options = Inr w"
  shows "\<exists>q. assertStorageMutationRequest (fld opts ''request'') = Inr q \<and>
    (\<forall>k \<in> set mutation_keys - {''target''}. fld w k = fld q k) \<and>
    (\<forall>k \<in> set (target_schema (fld q ''operation'')). fld (fld w ''target'') k = fld (fld q ''target'') k) \<and>
    fld w ''status'' = operation_status (fld q ''operation'') \<and> isOpaqueId (fld w ''proofId'')"
proof -
  obtain q a where v: "exact_object v mutation_result_keys" "structured_clone v = Some w"
    and q: "assertStorageMutationRequest (fld opts ''request'') = Inr q"
    and a: "assertStorageMutationRequest (pick mutation_keys v) = Inr a"
    and proof_id: "isOpaqueId (fld v ''proofId'')"
    and status: "js_seq (operation_status (fld v ''operation'')) (fld v ''status'')"
    and same: "same_fields [''backendId'', ''contractVersion'', ''operation'', ''operationId'',
        ''sessionId'', ''storageId''] q a" "targets_match q a"
      "same_fields [''fencingEpoch'', ''holderId'', ''leaseId''] q a"
    using assms by (auto simp: assertStorageMutationResult_def defensiveClone_def split: option.splits)
  have w: "fld w k = fld a k" if "k \<in> set mutation_keys" for k
    by (rule mutation.picked [OF a v(1) _ _ v(2) that])
      (simp_all add: mutation_result_keys_def mutation_keys_def)
  have fields: "fld w k = fld q k" if "k \<in> set mutation_keys - {''target''}" for k
  proof -
    have d: "data_prim (fld q k)" and k: "k \<in> set mutation_keys"
      using that mutation_field_data [OF q] by simp_all
    from that have "k \<in> set [''backendId'', ''contractVersion'', ''operation'', ''operationId'',
        ''sessionId'', ''storageId''] \<or> k \<in> set [''fencingEpoch'', ''holderId'', ''leaseId'']"
      by (auto simp: mutation_keys_def)
    then have "fld a k = fld q k"
      using same_fields_eq [OF same(1) _ d] same_fields_eq [OF same(3) _ d] by blast
    with w [OF k] show ?thesis by simp
  qed
  have kept: "fld w k = fld v k" if "data_prim (fld v k)" "k \<in> set mutation_result_keys" for k
    using exact_clone_data [OF v(1) _ v(2) that(2,1)] by (simp add: mutation_result_keys_def)
  have op: "fld v ''operation'' \<in> lit ` set mutation_operations"
    using a by (auto simp: mutation.accepted mutation_checks_def fld_pick mutation_keys_def)
  then have "fld w ''operation'' = fld v ''operation''"
    by (intro kept) (auto simp: mutation_result_keys_def)
  moreover have "fld v ''status'' = operation_status (fld v ''operation'')"
    using op status by (auto simp: operation_status_def mutation_operations_def)
  moreover from this op have "fld w ''status'' = fld v ''status''"
    by (intro kept) (auto simp: mutation_result_keys_def operation_status_def mutation_operations_def)
  ultimately have "fld w ''status'' = operation_status (fld q ''operation'')"
    using fields [of "''operation''"] by (simp add: mutation_keys_def)
  moreover have "fld w ''proofId'' = fld v ''proofId''"
    using proof_id by (intro kept) (auto simp: mutation_result_keys_def intro: opaque_data)
  moreover have "fld w ''target'' = fld a ''target''" by (rule w) (simp add: mutation_keys_def)
  ultimately show ?thesis
    using q fields targets_match_eq [OF q same(2)] proof_id by (intro exI [of _ q]) simp
qed

text \<open>
  C20: An accepted mutation result answers the request it was checked against: it repeats every
  field of it, fence and target included, carries the status of that operation and a proof.
\<close>
theorem mutation_result_answers_request:
  assumes "assertOptionsObject options [''request''] [''request''] Invalid_storage_mutation = Inr opts"
    and "assertStorageMutationResult v options = Inr w"
  shows "\<exists>q. assertStorageMutationRequest (fld opts ''request'') = Inr q \<and>
    (\<forall>k \<in> set mutation_keys - {''target''}. fld w k = fld q k) \<and>
    (\<forall>k \<in> set (target_schema (fld q ''operation'')). fld (fld w ''target'') k = fld (fld q ''target'') k) \<and>
    fld w ''status'' = operation_status (fld q ''operation'') \<and> isOpaqueId (fld w ''proofId'')"
  using assms by (rule mutation_result_facts)

section \<open>Force fences\<close>

lemma force_fence_epochs:
  assumes "assertStorageForceFenceRequest v = Inr w"
  obtains new old where "fld w ''fencingEpoch'' = JStr (dec_of new)"
    "fld (fld w ''revokedFence'') ''fencingEpoch'' = JStr (dec_of old)" "1 \<le> old" "old < new"
    "new \<le> UINT64_MAX"
  using force_fence.result_checks [OF assms]
  by (auto simp: force_fence_checks_def assertStorageForceFenceRevokedFence_def parseFencingEpoch_dec_of)

lemma force_fence_sub_data:
  assumes "assertStorageForceFenceRequest v = Inr w"
  shows "k \<in> set revoked_fence_keys \<Longrightarrow> data_prim (fld (fld w ''revokedFence'') k)"
    and "k \<in> set fence_target_keys \<Longrightarrow> data_prim (fld (fld w ''target'') k)"
  using force_fence.result_checks [OF assms]
  by (auto simp: force_fence_checks_def assertStorageForceFenceRevokedFence_def
      assertStorageForceFenceTarget_def revoked_fence_keys_def fence_target_keys_def dest: field_data)

text \<open>
  An accepted force-fence result proves the fence that was asked for: it repeats the request,
  its revoked fence and its target field by field, says \<open>fenced\<close> with a proof, and the epoch it
  installs is strictly greater than the epoch it revokes.
\<close>
theorem force_fence_result_answers_request:
  assumes "assertOptionsObject options [''request''] [''request''] Invalid_storage_force_fence = Inr opts"
    and "assertStorageForceFenceResult v options = Inr w"
  shows "\<exists>q new old. assertStorageForceFenceRequest (fld opts ''request'') = Inr q \<and>
    (\<forall>k \<in> set force_fence_keys - {''revokedFence'', ''target''}. fld w k = fld q k) \<and>
    (\<forall>k \<in> set revoked_fence_keys. fld (fld w ''revokedFence'') k = fld (fld q ''revokedFence'') k) \<and>
    (\<forall>k \<in> set fence_target_keys. fld (fld w ''target'') k = fld (fld q ''target'') k) \<and>
    fld w ''status'' = lit ''fenced'' \<and> isOpaqueId (fld w ''proofId'') \<and>
    fld w ''fencingEpoch'' = JStr (dec_of new) \<and>
    fld (fld w ''revokedFence'') ''fencingEpoch'' = JStr (dec_of old) \<and> 1 \<le> old \<and> old < new"
proof -
  obtain q a where v: "exact_object v force_fence_result_keys" "structured_clone v = Some w"
    and q: "assertStorageForceFenceRequest (fld opts ''request'') = Inr q"
    and a: "assertStorageForceFenceRequest (pick force_fence_keys v) = Inr a"
    and ids: "isOpaqueId (fld v ''proofId'')" "fld v ''status'' = lit ''fenced''"
    and same: "same_fields [''backendId'', ''contractVersion'', ''fencingEpoch'', ''operationId'',
        ''sessionId'', ''storageId''] q a"
      "same_fields revoked_fence_keys (fld q ''revokedFence'') (fld a ''revokedFence'')"
      "same_fields fence_target_keys (fld q ''target'') (fld a ''target'')"
    using assms by (auto simp: assertStorageForceFenceResult_def force_fence_matches_def
        defensiveClone_def split: option.splits)
  have w: "fld w k = fld a k" if "k \<in> set force_fence_keys" for k
    by (rule force_fence.picked [OF a v(1) _ _ v(2) that])
      (simp_all add: force_fence_result_keys_def force_fence_keys_def)
  have fields: "fld w k = fld q k" if "k \<in> set force_fence_keys - {''revokedFence'', ''target''}" for k
  proof -
    from that have k: "k \<in> set [''backendId'', ''contractVersion'', ''fencingEpoch'', ''operationId'',
        ''sessionId'', ''storageId'']" by (auto simp: force_fence_keys_def)
    then have "data_prim (fld q k)"
      using force_fence_flat_data [OF force_fence.result_checks [OF q]] unfolding list_all_iff by blast
    with same_fields_eq [OF same(1) k] w [of k] that show ?thesis by simp
  qed
  have revoked: "fld (fld w ''revokedFence'') k = fld (fld q ''revokedFence'') k"
    if "k \<in> set revoked_fence_keys" for k
    using same_fields_eq [OF same(2) that force_fence_sub_data(1) [OF q that]]
      w [of "''revokedFence''"] by (simp add: force_fence_keys_def)
  have target: "fld (fld w ''target'') k = fld (fld q ''target'') k" if "k \<in> set fence_target_keys" for k
    using same_fields_eq [OF same(3) that force_fence_sub_data(2) [OF q that]]
      w [of "''target''"] by (simp add: force_fence_keys_def)
  have kept: "fld w k = fld v k" if "data_prim (fld v k)" "k \<in> set force_fence_result_keys" for k
    using exact_clone_data [OF v(1) _ v(2) that(2,1)] by (simp add: force_fence_result_keys_def)
  have "fld w ''status'' = lit ''fenced''" "fld w ''proofId'' = fld v ''proofId''"
    using ids by (auto simp: kept opaque_data force_fence_result_keys_def)
  moreover obtain new old where "fld q ''fencingEpoch'' = JStr (dec_of new)"
    "fld (fld q ''revokedFence'') ''fencingEpoch'' = JStr (dec_of old)" "1 \<le> old" "old < new"
    using force_fence_epochs [OF q] by metis
  moreover from this have "fld w ''fencingEpoch'' = JStr (dec_of new)"
    "fld (fld w ''revokedFence'') ''fencingEpoch'' = JStr (dec_of old)"
    using fields [of "''fencingEpoch''"] revoked [of "''fencingEpoch''"]
    by (simp_all add: force_fence_keys_def revoked_fence_keys_def)
  ultimately show ?thesis
    using q fields revoked target ids(1) by (intro exI [of _ q] exI [of _ new] exI [of _ old]) simp
qed

section \<open>Admission of restores and mutations\<close>

text \<open>
  C21: A restore is admitted only from a clean checkpoint of the same backend and session, onto the
  very artifact and checkpoint the request names, and only under a fencing epoch strictly newer
  than the one the checkpoint was taken under.
\<close>
theorem restore_admission_is_fenced:
  assumes "assertRestoreCheckpointAdmission v = Inr w"
  shows "\<exists>c q old new. w = plain_obj [(''checkpoint'', c), (''request'', q)] \<and>
    assertBareCheckpointDescriptor (fld v ''checkpoint'') = Inr c \<and>
    assertStorageMutationRequest (fld v ''request'') = Inr q \<and>
    fld c ''checkpointClass'' = lit ''clean'' \<and> fld q ''operation'' = lit ''restore'' \<and>
    fld c ''backendId'' = fld q ''backendId'' \<and> fld c ''sessionId'' = fld q ''sessionId'' \<and>
    fld c ''artifactId'' = fld (fld q ''target'') ''artifactId'' \<and>
    fld c ''checkpointId'' = fld (fld q ''target'') ''checkpointId'' \<and>
    fld c ''sourceFencingEpoch'' = JStr (dec_of old) \<and> fld q ''fencingEpoch'' = JStr (dec_of new) \<and>
    old < new"
proof -
  obtain c q old new where w: "w = plain_obj [(''checkpoint'', c), (''request'', q)]"
    and c: "assertBareCheckpointDescriptor (fld v ''checkpoint'') = Inr c"
    and q: "assertStorageMutationRequest (fld v ''request'') = Inr q"
    and eqs: "fld c ''checkpointClass'' = lit ''clean''" "fld q ''operation'' = lit ''restore''"
      "fld c ''sourceFencingEpoch'' = JStr (dec_of old)" "fld q ''fencingEpoch'' = JStr (dec_of new)"
      "old < new"
    and same: "same_fields [''backendId'', ''sessionId''] q c"
      "same_fields [''artifactId'', ''checkpointId''] (fld q ''target'') c"
    using assms by (auto simp: assertRestoreCheckpointAdmission_def parseFencingEpoch_dec_of)
  have "fld c k = fld q k" if "k \<in> {''backendId'', ''sessionId''}" for k
    by (rule same_fields_eq [OF same(1)], use that in simp, rule mutation_field_data [OF q])
      (use that in \<open>auto simp: mutation_keys_def\<close>)
  moreover have "fld c k = fld (fld q ''target'') k" if "k \<in> {''artifactId'', ''checkpointId''}" for k
    by (rule same_fields_eq [OF same(2)], use that in simp, rule mutation_target_data [OF q])
      (use that eqs(2) in \<open>auto simp: target_schema_def\<close>)
  ultimately show ?thesis using w c q eqs by simp
qed

lemma lease_snapshot_facts:
  assumes "assertOptionsObject options
      [''allowExpired'', ''canonicalLease'', ''now'', ''request'', ''storageRef'']
      [''canonicalLease'', ''now'', ''request'', ''storageRef''] Invalid_storage_mutation = Inr opts"
    and "assertStorageMutationMatchesLeaseSnapshot options = Inr w"
  shows "\<exists>l s. assertStorageMutationRequest (fld opts ''request'') = Inr w \<and>
    assertLeaseGrant (fld opts ''canonicalLease'') = Inr l \<and>
    assertSessionStorageRef (fld opts ''storageRef'') = Inr s \<and>
    (\<forall>k \<in> {''sessionId'', ''leaseId'', ''holderId'', ''fencingEpoch''}. fld w k = fld l k) \<and>
    (\<forall>k \<in> {''sessionId'', ''backendId'', ''storageId''}. fld w k = fld s k) \<and>
    (fld opts ''allowExpired'' = JBool True \<and> fld w ''operation'' = lit ''detach'' \<or>
     (\<exists>now. fld opts ''now'' = JNum (JFin now) \<and> now < of_int (l_expires (lease_view l))))"
proof -
  let ?allow = "if fld opts ''allowExpired'' = JUndefined then JBool False else fld opts ''allowExpired''"
  obtain l s where w: "assertStorageMutationRequest (fld opts ''request'') = Inr w"
    and l: "assertLeaseGrant (fld opts ''canonicalLease'') = Inr l"
    and s: "assertSessionStorageRef (fld opts ''storageRef'') = Inr s"
    and now: "is_finite_number (fld opts ''now'')"
    and same: "same_fields [''sessionId'', ''leaseId'', ''holderId'', ''fencingEpoch''] w l"
      "same_fields [''sessionId'', ''backendId'', ''storageId''] w s"
    and live: "(if ?allow = JBool True then ensure (js_seq (fld w ''operation'') (lit ''detach'')) Invalid_storage_mutation
      else ensure (num_less (num_of (fld opts ''now'')) (date_num (fld l ''expiresAt''))) Lease_expired) = None"
    using assms unfolding assertStorageMutationMatchesLeaseSnapshot_def
    by (simp add: Let_def) blast
  have "fld w k = fld l k" if "k \<in> {''sessionId'', ''leaseId'', ''holderId'', ''fencingEpoch''}" for k
    by (rule same_fields_eq [OF same(1), symmetric], use that in simp, rule mutation_field_data [OF w])
      (use that in \<open>auto simp: mutation_keys_def\<close>)
  moreover have "fld w k = fld s k" if "k \<in> {''sessionId'', ''backendId'', ''storageId''}" for k
    by (rule same_fields_eq [OF same(2), symmetric], use that in simp, rule mutation_field_data [OF w])
      (use that in \<open>auto simp: mutation_keys_def\<close>)
  moreover have "fld opts ''allowExpired'' = JBool True \<and> fld w ''operation'' = lit ''detach'' \<or>
     (\<exists>now. fld opts ''now'' = JNum (JFin now) \<and> now < of_int (l_expires (lease_view l)))"
  proof (cases "?allow = JBool True")
    case True
    with live show ?thesis by (simp split: if_splits)
  next
    case False
    obtain q where q: "fld opts ''now'' = JNum (JFin q)"
      using now by (auto simp: is_finite_number_def num_is_finite_def split: jsval.splits jsnum.splits)
    with live False lease_date_num [OF l] show ?thesis by (simp add: num_of_def)
  qed
  ultimately show ?thesis using w l s by blast
qed

text \<open>
  A mutation is admitted against a lease snapshot only when it carries the fence of the
  canonical lease (session, lease, holder, epoch) and names the storage of the reference; the lease
  has not expired, except that a detach may be explicitly allowed to outlive it. The admitted
  request is returned unchanged.
\<close>
theorem lease_snapshot_admits_only_the_holder:
  assumes "assertOptionsObject options
      [''allowExpired'', ''canonicalLease'', ''now'', ''request'', ''storageRef'']
      [''canonicalLease'', ''now'', ''request'', ''storageRef''] Invalid_storage_mutation = Inr opts"
    and "assertStorageMutationMatchesLeaseSnapshot options = Inr w"
  shows "\<exists>l s. assertStorageMutationRequest (fld opts ''request'') = Inr w \<and>
    assertLeaseGrant (fld opts ''canonicalLease'') = Inr l \<and>
    assertSessionStorageRef (fld opts ''storageRef'') = Inr s \<and>
    (\<forall>k \<in> {''sessionId'', ''leaseId'', ''holderId'', ''fencingEpoch''}. fld w k = fld l k) \<and>
    (\<forall>k \<in> {''sessionId'', ''backendId'', ''storageId''}. fld w k = fld s k) \<and>
    (fld opts ''allowExpired'' = JBool True \<and> fld w ''operation'' = lit ''detach'' \<or>
     (\<exists>now. fld opts ''now'' = JNum (JFin now) \<and> now < of_int (l_expires (lease_view l))))"
  using assms by (rule lease_snapshot_facts)

section \<open>Attachments and worker templates\<close>

lemma options_picked:
  assumes "assertOptionsObject (pick ks v) allowed required e = Inr opts" and "k \<in> set ks"
    and "distinct ks"
  shows "fld opts k = fld v k"
  using options_plain_field [OF assms(1) [unfolded pick_def]] assms(2,3)
  by (simp add: map_of_map_key comp_def)

lemma attachment_matches_fields:
  assumes "assertOptionsObject options [''attachment'', ''lease'', ''manifest'', ''storageRef'']
      [''attachment'', ''lease'', ''manifest'', ''storageRef''] Invalid_storage_attachment = Inr opts"
    and "assertSessionAttachmentMatches options = Inr matched"
  obtains a l m s where "matched = plain_obj [(''attachment'', a), (''lease'', l), (''manifest'', m),
      (''storageRef'', s)]"
    "assertSessionAttachment (fld opts ''attachment'') = Inr a" "assertLeaseGrant (fld opts ''lease'') = Inr l"
    "assertSessionManifest (fld opts ''manifest'') = Inr m" "assertSessionStorageRef (fld opts ''storageRef'') = Inr s"
    "\<forall>k \<in> {''sessionId'', ''leaseId'', ''holderId'', ''fencingEpoch''}. fld a k = fld l k"
    "\<forall>k \<in> {''sessionId'', ''backendId'', ''storageId''}. fld a k = fld s k"
    "fld a ''sessionId'' = fld m ''sessionId''"
proof -
  obtain a l m s where r: "matched = plain_obj [(''attachment'', a), (''lease'', l), (''manifest'', m),
      (''storageRef'', s)]"
    "assertSessionAttachment (fld opts ''attachment'') = Inr a" "assertLeaseGrant (fld opts ''lease'') = Inr l"
    "assertSessionManifest (fld opts ''manifest'') = Inr m" "assertSessionStorageRef (fld opts ''storageRef'') = Inr s"
    and ids: "js_seq (fld s ''sessionId'') (fld m ''sessionId'')"
      "js_seq (fld l ''sessionId'') (fld m ''sessionId'')" "js_seq (fld a ''sessionId'') (fld m ''sessionId'')"
    and same: "same_fields [''backendId'', ''storageId''] a s"
      "same_fields [''leaseId'', ''holderId'', ''fencingEpoch''] a l"
    using assms by (auto simp: assertSessionAttachmentMatches_def)
  have d: "data_prim (fld a k)" if "k \<in> set attachment_keys" for k
    by (rule attachment.field_prim [OF r(2) that])
  have "fld s k = fld a k" if "k \<in> {''backendId'', ''storageId''}" for k
    by (rule same_fields_eq [OF same(1)], use that in simp, rule d)
      (use that in \<open>auto simp: attachment_keys_def\<close>)
  moreover have "fld l k = fld a k" if "k \<in> {''leaseId'', ''holderId'', ''fencingEpoch''}" for k
    by (rule same_fields_eq [OF same(2)], use that in simp, rule d)
      (use that in \<open>auto simp: attachment_keys_def\<close>)
  moreover have "fld a ''sessionId'' = fld m ''sessionId''" "fld l ''sessionId'' = fld m ''sessionId''"
    "fld s ''sessionId'' = fld m ''sessionId''"
    using js_seqD [OF ids(1)] js_seqD [OF ids(2)] js_seqD [OF ids(3)] data_prim_prim
      d [of "''sessionId''"] lease.field_prim [OF r(3), of "''sessionId''"]
      storage_ref.field_prim [OF r(5), of "''sessionId''"]
    by (simp_all add: attachment_keys_def lease_keys_def storage_ref_keys_def)
  ultimately show thesis using that [OF r] by simp
qed

text \<open>
  A worker template mounts only an attachment that belongs to the session of the manifest,
  lies on the storage of the reference and was made under the fence of the lease; it is mounted
  writable at the session directory from the validated root path, and the worker never gets an
  \<open>auth.json\<close>.
\<close>
theorem worker_template_mounts_the_fenced_attachment:
  assumes "assertOptionsObject options [''attachment'', ''lease'', ''manifest'', ''storageRef'']
      [''attachment'', ''lease'', ''manifest'', ''storageRef''] Invalid_worker_template = Inr opts"
    and "createRootlessWorkerTemplate options = Inr t"
  shows "\<exists>a l m s. assertSessionAttachment (fld opts ''attachment'') = Inr a \<and>
    assertLeaseGrant (fld opts ''lease'') = Inr l \<and> assertSessionManifest (fld opts ''manifest'') = Inr m \<and>
    assertSessionStorageRef (fld opts ''storageRef'') = Inr s \<and>
    (\<forall>k \<in> {''sessionId'', ''leaseId'', ''holderId'', ''fencingEpoch''}. fld a k = fld l k) \<and>
    (\<forall>k \<in> {''sessionId'', ''backendId'', ''storageId''}. fld a k = fld s k) \<and>
    fld a ''sessionId'' = fld m ''sessionId'' \<and>
    fld (fld t ''mount'') ''source'' = fld a ''rootPath'' \<and>
    assertAttachmentRootPath (fld (fld t ''mount'') ''source'') Invalid_storage_attachment = None \<and>
    fld (fld t ''mount'') ''target'' = lit ''/session'' \<and> fld (fld t ''mount'') ''readOnly'' = JBool False \<and>
    fld (fld t ''auth'') ''authJsonPolicy'' = lit ''forbidden'' \<and> fld t ''rootless'' = JBool True"
proof -
  let ?ks = "[''attachment'', ''lease'', ''manifest'', ''storageRef'']"
  obtain matched where matched: "assertSessionAttachmentMatches (pick ?ks opts) = Inr matched"
    and t: "fld (fld t ''mount'') ''source'' = fld (fld matched ''attachment'') ''rootPath''"
      "fld (fld t ''mount'') ''target'' = lit ''/session''" "fld (fld t ''mount'') ''readOnly'' = JBool False"
      "fld (fld t ''auth'') ''authJsonPolicy'' = lit ''forbidden''" "fld t ''rootless'' = JBool True"
    using assms by (auto simp: createRootlessWorkerTemplate_def fld_plain_obj)
  then obtain opts' where o': "assertOptionsObject (pick ?ks opts) ?ks ?ks Invalid_storage_attachment = Inr opts'"
    by (auto simp: assertSessionAttachmentMatches_def)
  have f: "fld opts' k = fld opts k" if "k \<in> set ?ks" for k
    by (rule options_picked [OF o' that]) simp
  from attachment_matches_fields [OF o' matched] obtain a l m s where
    m: "matched = plain_obj [(''attachment'', a), (''lease'', l), (''manifest'', m), (''storageRef'', s)]"
    and r: "assertSessionAttachment (fld opts ''attachment'') = Inr a" "assertLeaseGrant (fld opts ''lease'') = Inr l"
      "assertSessionManifest (fld opts ''manifest'') = Inr m"
      "assertSessionStorageRef (fld opts ''storageRef'') = Inr s"
      "\<forall>k \<in> {''sessionId'', ''leaseId'', ''holderId'', ''fencingEpoch''}. fld a k = fld l k"
      "\<forall>k \<in> {''sessionId'', ''backendId'', ''storageId''}. fld a k = fld s k"
      "fld a ''sessionId'' = fld m ''sessionId''"
    using f by (metis list.set_intros)
  have "assertAttachmentRootPath (fld a ''rootPath'') Invalid_storage_attachment = None"
    using attachment.result_checks [OF r(1)] by (simp add: attachment_checks_def)
  with t r m show ?thesis
    by (intro exI [of _ a] exI [of _ l] exI [of _ m] exI [of _ s]) (simp add: fld_plain_obj)
qed

section \<open>Crash captures\<close>

lemma crash_request_idempotent:
  assumes "assertAtomicCrashCaptureRequest v = Inr w"
  shows "assertAtomicCrashCaptureRequest w = Inr w"
proof -
  obtain c m a s where w: "w = plain_obj [(''captureAttemptId'', fld v ''captureAttemptId''),
      (''checkpoint'', c), (''contractVersion'', fld v ''contractVersion''), (''mutationRequest'', m),
      (''sourceAttachment'', a), (''storageRef'', s)]"
    and ok: "fld v ''contractVersion'' = JInt 1" "isOpaqueId (fld v ''captureAttemptId'')"
      "crash_request_bound c m a s"
    and parts: "assertBareCheckpointDescriptor (fld v ''checkpoint'') = Inr c"
      "assertStorageMutationRequest (fld v ''mutationRequest'') = Inr m"
      "assertSessionAttachment (fld v ''sourceAttachment'') = Inr a"
      "assertSessionStorageRef (fld v ''storageRef'') = Inr s"
    using assms by (auto simp: assertAtomicCrashCaptureRequest_def)
  have ex: "exact_object w crash_request_keys"
    unfolding w by (rule exact_plain_obj) (simp_all add: crash_request_keys_def)
  have "assertBareCheckpointDescriptor c = Inr c" "assertStorageMutationRequest m = Inr m"
    "assertSessionAttachment a = Inr a" "assertSessionStorageRef s = Inr s"
    using checkpoint.idempotent [OF parts(1)] mutation.idempotent [OF parts(2)]
      attachment.idempotent [OF parts(3)] storage_ref.idempotent [OF parts(4)] by simp_all
  then show ?thesis
    using ok ex unfolding assertAtomicCrashCaptureRequest_def
    by (simp add: w fld_plain_obj)
qed

lemma crash_normalized_fields:
  assumes "crash_result_normalized v expected = Inr r"
  shows "k \<in> set crash_result_keys - {''artifact''} \<Longrightarrow> fld r k = fld v k \<and> data_prim (fld r k)"
    and "assertAtomicCrashCaptureArtifact (fld v ''artifact'') = Inr (fld r ''artifact'')"
proof -
  obtain a where a: "assertAtomicCrashCaptureArtifact (fld v ''artifact'') = Inr a"
    and r: "r = plain_obj ((''artifact'', a) # map (\<lambda>k. (k, fld v k)) (tl crash_result_keys))"
    and c: "fld v ''contractVersion'' = JInt 1" "list_all (\<lambda>k. isOpaqueId (fld v k)) crash_result_ids"
      "isCanonicalUuid (fld v ''sessionId'')" "fld v ''status'' = lit ''committed''"
      "\<exists>n. parseFencingEpochForRecord (fld v ''sourceFencingEpoch'') Invalid_atomic_crash_capture = Inr n"
    using assms by (auto simp: crash_result_normalized_def list_all_iff)
  show "assertAtomicCrashCaptureArtifact (fld v ''artifact'') = Inr (fld r ''artifact'')"
    by (simp add: a r fld_plain_obj)
  have f: "fld r k = fld v k" if "k \<in> set (tl crash_result_keys)" for k
    using that unfolding r by (auto simp: fld_plain_obj map_of_map_key crash_result_keys_def)
  assume "k \<in> set crash_result_keys - {''artifact''}"
  then have k: "k \<in> set (tl crash_result_keys)" by (auto simp: crash_result_keys_def)
  moreover have "data_prim (fld v k)"
    using k c by (auto simp: crash_result_keys_def crash_result_ids_def intro: opaque_data uuid_data epoch_data)
  ultimately show "fld r k = fld v k \<and> data_prim (fld r k)" by (simp add: f)
qed

lemma crash_result_facts:
  assumes "assertOptionsObject options [''previousResult'', ''request''] [''request'']
      Invalid_atomic_crash_capture = Inr opts"
    and "assertAtomicCrashCaptureResult v options = Inr w"
  shows "\<exists>q. assertAtomicCrashCaptureRequest (fld opts ''request'') = Inr q \<and>
    fld w ''artifactId'' = fld (fld q ''checkpoint'') ''artifactId'' \<and>
    fld w ''checkpointId'' = fld (fld q ''checkpoint'') ''checkpointId'' \<and>
    fld w ''sourceFencingEpoch'' = fld (fld q ''checkpoint'') ''sourceFencingEpoch'' \<and>
    (\<forall>k \<in> {''backendId'', ''storageId'', ''sessionId''}. fld w k = fld (fld q ''storageRef'') k) \<and>
    fld w ''operationId'' = fld (fld q ''mutationRequest'') ''operationId'' \<and>
    fld w ''captureAttemptId'' = fld q ''captureAttemptId'' \<and>
    (fld opts ''previousResult'' \<noteq> JUndefined \<longrightarrow>
      (\<exists>p. crash_result_normalized (fld opts ''previousResult'') q = Inr p \<and>
        (\<forall>k \<in> set crash_result_keys - {''artifact''}. fld w k = fld p k) \<and>
        (\<forall>k \<in> set artifact_keys. fld (fld w ''artifact'') k = fld (fld p ''artifact'') k)))"
proof -
  obtain q where q: "assertAtomicCrashCaptureRequest (fld opts ''request'') = Inr q"
    and n: "crash_result_normalized v q = Inr w"
    and replay: "fld opts ''previousResult'' \<noteq> JUndefined \<Longrightarrow>
      \<exists>q' p. assertAtomicCrashCaptureRequest q = Inr q' \<and>
        crash_result_normalized (fld opts ''previousResult'') q' = Inr p \<and>
        atomicCrashCaptureResultsMatch p w"
    using assms unfolding assertAtomicCrashCaptureResult_def crash_result_against_def
    by (auto split: if_splits)
  note fields = crash_normalized_fields [OF n]
  have "fld w ''artifactId'' = fld (fld q ''checkpoint'') ''artifactId'' \<and>
    fld w ''checkpointId'' = fld (fld q ''checkpoint'') ''checkpointId'' \<and>
    fld w ''sourceFencingEpoch'' = fld (fld q ''checkpoint'') ''sourceFencingEpoch'' \<and>
    (\<forall>k \<in> {''backendId'', ''storageId'', ''sessionId''}. fld w k = fld (fld q ''storageRef'') k) \<and>
    fld w ''operationId'' = fld (fld q ''mutationRequest'') ''operationId'' \<and>
    fld w ''captureAttemptId'' = fld q ''captureAttemptId''"
  proof -
    have e: "fld w k = x" if "js_seq (fld v k) x" "k \<in> set crash_result_keys - {''artifact''}" for k x
      using fields(1) [OF that(2)] that(1) js_seqD data_prim_prim by metis
    have "js_seq (fld v ''artifactId'') (fld (fld q ''checkpoint'') ''artifactId'')"
      "js_seq (fld v ''checkpointId'') (fld (fld q ''checkpoint'') ''checkpointId'')"
      "js_seq (fld v ''sourceFencingEpoch'') (fld (fld q ''checkpoint'') ''sourceFencingEpoch'')"
      "js_seq (fld v ''backendId'') (fld (fld q ''storageRef'') ''backendId'')"
      "js_seq (fld v ''storageId'') (fld (fld q ''storageRef'') ''storageId'')"
      "js_seq (fld v ''sessionId'') (fld (fld q ''storageRef'') ''sessionId'')"
      "js_seq (fld v ''operationId'') (fld (fld q ''mutationRequest'') ''operationId'')"
      "js_seq (fld v ''captureAttemptId'') (fld q ''captureAttemptId'')"
      using n unfolding crash_result_normalized_def by auto
    then show ?thesis by (simp add: e crash_result_keys_def)
  qed
  moreover have "\<exists>p. crash_result_normalized (fld opts ''previousResult'') q = Inr p \<and>
        (\<forall>k \<in> set crash_result_keys - {''artifact''}. fld w k = fld p k) \<and>
        (\<forall>k \<in> set artifact_keys. fld (fld w ''artifact'') k = fld (fld p ''artifact'') k)"
    if given: "fld opts ''previousResult'' \<noteq> JUndefined"
  proof -
    obtain p where p: "crash_result_normalized (fld opts ''previousResult'') q = Inr p"
      and m: "atomicCrashCaptureResultsMatch p w"
      using replay [OF given] crash_request_idempotent [OF q] by auto
    note pf = crash_normalized_fields [OF p]
    have "fld w k = fld p k" if "k \<in> set crash_result_keys - {''artifact''}" for k
    proof (rule same_fields_eq)
      show "same_fields (tl crash_result_keys) p w"
        using m by (auto simp: atomicCrashCaptureResultsMatch_def crash_result_keys_def same_fields_def)
    qed (use that pf(1) [OF that] in \<open>auto simp: crash_result_keys_def\<close>)
    moreover have "fld (fld w ''artifact'') k = fld (fld p ''artifact'') k" if "k \<in> set artifact_keys" for k
      by (rule same_fields_eq [OF _ that artifact.field_prim [OF pf(2) that]])
        (use m in \<open>simp add: atomicCrashCaptureResultsMatch_def\<close>)
    ultimately show ?thesis using p by blast
  qed
  ultimately show ?thesis using q by blast
qed

text \<open>
  C22: An accepted crash-capture result is bound to its request: artifact and checkpoint of the
  checkpoint it asked for, backend, storage and session of the storage reference, the operation of
  the mutation, and the epoch the source was fenced at. A replay that names an earlier result is
  accepted only if both agree in every field, the captured bytes included.
\<close>
theorem crash_capture_result_is_bound:
  assumes "assertOptionsObject options [''previousResult'', ''request''] [''request'']
      Invalid_atomic_crash_capture = Inr opts"
    and "assertAtomicCrashCaptureResult v options = Inr w"
  shows "\<exists>q. assertAtomicCrashCaptureRequest (fld opts ''request'') = Inr q \<and>
    fld w ''artifactId'' = fld (fld q ''checkpoint'') ''artifactId'' \<and>
    fld w ''checkpointId'' = fld (fld q ''checkpoint'') ''checkpointId'' \<and>
    fld w ''sourceFencingEpoch'' = fld (fld q ''checkpoint'') ''sourceFencingEpoch'' \<and>
    (\<forall>k \<in> {''backendId'', ''storageId'', ''sessionId''}. fld w k = fld (fld q ''storageRef'') k) \<and>
    fld w ''operationId'' = fld (fld q ''mutationRequest'') ''operationId'' \<and>
    fld w ''captureAttemptId'' = fld q ''captureAttemptId'' \<and>
    (fld opts ''previousResult'' \<noteq> JUndefined \<longrightarrow>
      (\<exists>p. crash_result_normalized (fld opts ''previousResult'') q = Inr p \<and>
        (\<forall>k \<in> set crash_result_keys - {''artifact''}. fld w k = fld p k) \<and>
        (\<forall>k \<in> set artifact_keys. fld (fld w ''artifact'') k = fld (fld p ''artifact'') k)))"
  using assms by (rule crash_result_facts)

section \<open>Restore activation and reconciliation\<close>

lemma activation_request_parts:
  assumes "assertRestoreAttachmentActivationRequest v = Inr q"
  shows "assertLeaseGrant (fld v ''lease'') = Inr (fld q ''lease'')"
    and "assertSessionStorageRef (fld v ''storageRef'') = Inr (fld q ''storageRef'')"
  using assms by (auto simp: assertRestoreAttachmentActivationRequest_def fld_plain_obj)

text \<open>
  C23: An accepted activation of a restored attachment gives the writer what was published and
  nothing else: the attachment carries the fence of the lease and the storage of the reference in
  the request, is the one the attach mutation targeted and proved, and its root path is the root
  path of the requested publication.
\<close>
theorem activation_attaches_the_publication:
  assumes "assertOptionsObject options [''request''] [''request'']
      Invalid_restore_attachment_activation = Inr opts"
    and "assertRestoreAttachmentActivationResult v options = Inr w"
  shows "\<exists>q a. assertRestoreAttachmentActivationRequest (fld opts ''request'') = Inr q \<and>
    fld w ''attachment'' = a \<and> assertSessionAttachment (fld v ''attachment'') = Inr a \<and>
    (\<forall>k \<in> {''sessionId'', ''leaseId'', ''holderId'', ''fencingEpoch''}. fld a k = fld (fld q ''lease'') k) \<and>
    (\<forall>k \<in> {''sessionId'', ''backendId'', ''storageId''}. fld a k = fld (fld q ''storageRef'') k) \<and>
    fld a ''attachmentId'' = fld (fld (fld q ''mutationRequest'') ''target'') ''attachmentId'' \<and>
    fld a ''operationId'' = fld (fld q ''mutationRequest'') ''operationId'' \<and>
    fld a ''proofId'' = fld (fld w ''mutationResult'') ''proofId'' \<and>
    js_seq (fld (fld (fld q ''publication'') ''root'') ''rootPath'') (fld a ''rootPath'')"
proof -
  obtain q p r matched where q: "assertRestoreAttachmentActivationRequest (fld opts ''request'') = Inr q"
    and pub: "restoreAttachmentPublicationsMatch (fld q ''publication'') p"
    and matched: "assertSessionAttachmentMatches (plain_obj [(''attachment'', fld v ''attachment''),
        (''lease'', fld q ''lease''), (''manifest'', fld q ''manifest''),
        (''storageRef'', fld q ''storageRef'')]) = Inr matched" (is "assertSessionAttachmentMatches ?opts = _")
    and w: "w = plain_obj [(''attachment'', fld matched ''attachment''), (''contractVersion'', JInt 1),
        (''mutationResult'', r), (''publication'', p)]"
    and ids: "js_seq (fld (fld matched ''attachment'') ''operationId'') (fld (fld q ''mutationRequest'') ''operationId'')"
      "js_seq (fld (fld matched ''attachment'') ''attachmentId'')
        (fld (fld (fld q ''mutationRequest'') ''target'') ''attachmentId'')"
      "js_seq (fld (fld matched ''attachment'') ''proofId'') (fld r ''proofId'')"
      "js_seq (fld (fld matched ''attachment'') ''rootPath'') (fld (fld p ''root'') ''rootPath'')"
    using assms unfolding assertRestoreAttachmentActivationResult_def by (auto simp: Let_def)
  obtain o' where o': "assertOptionsObject ?opts [''attachment'', ''lease'', ''manifest'', ''storageRef'']
      [''attachment'', ''lease'', ''manifest'', ''storageRef''] Invalid_storage_attachment = Inr o'"
    using matched by (auto simp: assertSessionAttachmentMatches_def)
  have of: "fld o' ''attachment'' = fld v ''attachment''" "fld o' ''lease'' = fld q ''lease''"
    "fld o' ''storageRef'' = fld q ''storageRef''"
    using options_plain_field [OF o'] by simp_all
  from attachment_matches_fields [OF o' matched] obtain a l m s where
    mt: "matched = plain_obj [(''attachment'', a), (''lease'', l), (''manifest'', m), (''storageRef'', s)]"
    and a: "assertSessionAttachment (fld v ''attachment'') = Inr a" "assertLeaseGrant (fld q ''lease'') = Inr l"
      "assertSessionStorageRef (fld q ''storageRef'') = Inr s"
    and al: "\<forall>k \<in> {''sessionId'', ''leaseId'', ''holderId'', ''fencingEpoch''}. fld a k = fld l k"
    and as: "\<forall>k \<in> {''sessionId'', ''backendId'', ''storageId''}. fld a k = fld s k"
    using of by metis
  have fa: "fld matched ''attachment'' = a" by (simp add: mt fld_plain_obj)
  have "l = fld q ''lease''" "s = fld q ''storageRef''"
    using a(2,3) lease.idempotent [OF activation_request_parts(1) [OF q]]
      storage_ref.idempotent [OF activation_request_parts(2) [OF q]] by simp_all
  moreover have d: "fld a k = x" if "js_seq (fld a k) x" "k \<in> set attachment_keys" for k x
    using that attachment.field_prim [OF a(1)] js_seqD data_prim_prim by metis
  have "fld a ''attachmentId'' = fld (fld (fld q ''mutationRequest'') ''target'') ''attachmentId''"
    "fld a ''operationId'' = fld (fld q ''mutationRequest'') ''operationId''"
    "fld a ''proofId'' = fld r ''proofId''" "fld a ''rootPath'' = fld (fld p ''root'') ''rootPath''"
    using ids unfolding fa by (auto intro!: d simp: attachment_keys_def)
  moreover have "js_seq (fld (fld (fld q ''publication'') ''root'') ''rootPath'') (fld (fld p ''root'') ''rootPath'')"
    using pub by (simp add: restoreAttachmentPublicationsMatch_def same_fields_def publication_root_keys_def)
  ultimately show ?thesis
    using q al as a(1) fa by (intro exI [of _ q] exI [of _ a]) (simp add: w fld_plain_obj)
qed

text \<open>
  A reconciliation never invents an outcome: what it returns either says unknown (or, for an
  attachment, absent and quiescent) and carries no result, or carries a result that passes the very
  check a direct answer to the request has to pass.
\<close>
theorem reconciliation_proves_or_stays_unknown:
  "(assertStorageForceFenceReconciliationResult v options = Inr w \<longrightarrow>
     (\<exists>q r. w = plain_obj [(''contractVersion'', JInt 1), (''outcome'', lit ''committed''), (''result'', r)] \<and>
        assertStorageForceFenceResult (fld v ''result'') (plain_obj [(''request'', q)]) = Inr r) \<or>
     w = plain_obj [(''contractVersion'', JInt 1), (''outcome'', lit ''unknown''), (''result'', JNull)]) \<and>
   (assertAtomicCrashCaptureVerificationResult v options = Inr w \<longrightarrow>
     (\<exists>q r. w = plain_obj [(''contractVersion'', JInt 1), (''outcome'', lit ''committed''), (''result'', r)] \<and>
        assertAtomicCrashCaptureResult (fld v ''result'') (plain_obj [(''request'', q)]) = Inr r) \<or>
     w = plain_obj [(''contractVersion'', JInt 1), (''outcome'', lit ''unknown''), (''result'', JNull)]) \<and>
   (assertRestoreAttachmentReconciliationResult v options = Inr w \<longrightarrow>
     (\<exists>q r. w = plain_obj [(''contractVersion'', JInt 1), (''outcome'', lit ''applied''), (''result'', r)] \<and>
        assertRestoreAttachmentActivationResult (fld v ''result'') (plain_obj [(''request'', q)]) = Inr r) \<or>
     (\<exists>o' \<in> {''absent-and-quiescent'', ''unknown''}.
        w = plain_obj [(''contractVersion'', JInt 1), (''outcome'', lit o')]))"
proof (intro conjI impI)
  assume "assertStorageForceFenceReconciliationResult v options = Inr w"
  then show "(\<exists>q r. w = plain_obj [(''contractVersion'', JInt 1), (''outcome'', lit ''committed''), (''result'', r)] \<and>
        assertStorageForceFenceResult (fld v ''result'') (plain_obj [(''request'', q)]) = Inr r) \<or>
     w = plain_obj [(''contractVersion'', JInt 1), (''outcome'', lit ''unknown''), (''result'', JNull)]"
    unfolding assertStorageForceFenceReconciliationResult_def by (auto split: if_splits)
next
  assume "assertAtomicCrashCaptureVerificationResult v options = Inr w"
  then show "(\<exists>q r. w = plain_obj [(''contractVersion'', JInt 1), (''outcome'', lit ''committed''), (''result'', r)] \<and>
        assertAtomicCrashCaptureResult (fld v ''result'') (plain_obj [(''request'', q)]) = Inr r) \<or>
     w = plain_obj [(''contractVersion'', JInt 1), (''outcome'', lit ''unknown''), (''result'', JNull)]"
    unfolding assertAtomicCrashCaptureVerificationResult_def by (auto split: if_splits)
next
  assume "assertRestoreAttachmentReconciliationResult v options = Inr w"
  then show "(\<exists>q r. w = plain_obj [(''contractVersion'', JInt 1), (''outcome'', lit ''applied''), (''result'', r)] \<and>
        assertRestoreAttachmentActivationResult (fld v ''result'') (plain_obj [(''request'', q)]) = Inr r) \<or>
     (\<exists>o' \<in> {''absent-and-quiescent'', ''unknown''}.
        w = plain_obj [(''contractVersion'', JInt 1), (''outcome'', lit o')])"
    unfolding assertRestoreAttachmentReconciliationResult_def by (auto split: if_splits)
qed

end
