(* ===== verification/Js_Json.thy ===== *)
theory Js_Json
  imports Js_Value Js_Text "HOL-Library.Monad_Syntax" "HOL-Library.AList"
begin

text \<open>
  \<open>JSON.parse\<close> and \<open>JSON.stringify\<close> on strings of UTF-16 units. A text is parsed to a tree of
  the JSON grammar, numbers rounded to the nearest double; objects keep their members in order,
  and become JavaScript objects in which the last of several equal keys wins. Printing covers the
  values the sources print: integers below \<open>10^21\<close>, booleans, null, strings, arrays and objects.
  The parser takes a bound on its depth of recursion; any bound above twice the length of the text gives
  the same result. Printing followed by parsing is the identity.
\<close>

datatype json =
    JsNull
  | JsBool bool
  | JsNum jsnum
  | JsStr jsstr
  | JsArr "json list"
  | JsObj "(jsstr \<times> json) list"

section \<open>Doubles\<close>

text \<open>The double nearest to a rational, ties to even: significand of 53 bits, exponent at least -1074.\<close>

fun bit_len :: "nat \<Rightarrow> nat" where
  "bit_len n = (if n = 0 then 0 else Suc (bit_len (n div 2)))"

declare bit_len.simps [simp del]

definition log2_floor :: "rat \<Rightarrow> int" where
  "log2_floor q = (case quotient_of q of (a, b) \<Rightarrow>
     let l = int (bit_len (nat a)) - int (bit_len (nat b)) in
     if 2 powi l \<le> q then l else l - 1)"

definition round_half_even :: "rat \<Rightarrow> int" where
  "round_half_even x = (let f = \<lfloor>x\<rfloor>; d = x - of_int f in
     if d < 1 / 2 then f else if d > 1 / 2 then f + 1 else if even f then f else f + 1)"

definition to_double :: "rat \<Rightarrow> jsnum" where
  "to_double q =
     (if q = 0 then JFin 0
      else let u = 2 powi (max (- 1074) (log2_floor \<bar>q\<bar> - 52));
               r = of_int (round_half_even (\<bar>q\<bar> / u)) * u in
        if r < 2 ^ 1024 then JFin (sgn q * r) else if q < 0 then JNegInf else JPosInf)"

lemma bit_len_le: "n < 2 ^ k \<Longrightarrow> bit_len n \<le> k"
proof (induction k arbitrary: n)
  case (Suc k)
  then have "bit_len (n div 2) \<le> k" by (intro Suc.IH) simp
  then show ?case by (subst bit_len.simps) simp
qed (simp add: bit_len.simps [of 0])

lemma bit_len_one: "bit_len (Suc 0) = 1"
  by (subst bit_len.simps, simp, subst bit_len.simps, simp)

lemma round_of_int [simp]: "round_half_even (of_int i) = i"
  by (simp add: round_half_even_def)

lemma powi_neg_int: "e \<le> 0 \<Longrightarrow> (2 :: rat) powi e = 1 / 2 ^ nat (- e)"
  by (simp add: power_int_def power_one_over)

lemma to_double_int:
  assumes "\<bar>i\<bar> < 2 ^ 53"
  shows "to_double (of_int i) = JFin (of_int i)"
proof (cases "i = 0")
  case False
  define e where "e = max (- 1074) (log2_floor \<bar>of_int i\<bar> - 52)"
  have "bit_len (nat \<bar>i\<bar>) \<le> 53"
    using assms by (intro bit_len_le) (simp add: nat_less_iff)
  moreover have "quotient_of \<bar>of_int i\<bar> = (\<bar>i\<bar>, 1)"
    using quotient_of_int [of "\<bar>i\<bar>"] by (simp add: Rat.of_int_def)
  ultimately have "log2_floor \<bar>of_int i\<bar> \<le> 52"
    by (simp add: log2_floor_def Let_def bit_len_one)
  then have u: "(2 :: rat) powi e = 1 / 2 ^ nat (- e)" by (intro powi_neg_int) (simp add: e_def)
  have "\<bar>of_int i\<bar> / (2 :: rat) powi e = of_int (\<bar>i\<bar> * 2 ^ nat (- e))" by (simp add: u)
  then have r: "of_int (round_half_even (\<bar>of_int i\<bar> / 2 powi e)) * (2 :: rat) powi e = \<bar>of_int i\<bar>"
    by (simp only: round_of_int) (simp add: u)
  have "\<bar>of_int i\<bar> < (2 :: rat) ^ 53"
    using assms by (metis of_int_abs of_int_less_iff of_int_numeral of_int_power)
  also have "\<dots> \<le> 2 ^ 1024" by (rule power_increasing) simp_all
  finally have "\<bar>of_int i\<bar> < (2 :: rat) ^ 1024" .
  with False r show ?thesis
    unfolding to_double_def Let_def e_def [symmetric] by (simp add: sgn_mult_abs)
qed (simp add: to_double_def)

section \<open>Printing\<close>

definition hex_digit :: "nat \<Rightarrow> unit16" where
  "hex_digit n = (if n < 10 then of_nat (48 + n) else of_nat (87 + n))"

definition unicode_escape :: "unit16 \<Rightarrow> jsstr" where
  "unicode_escape c = [92, 117, hex_digit (unat c div 4096), hex_digit (unat c div 256 mod 16),
     hex_digit (unat c div 16 mod 16), hex_digit (unat c mod 16)]"

text \<open>The escape of a unit that is not kept: two characters for the common controls.\<close>

definition escape_unit :: "unit16 \<Rightarrow> jsstr" where
  "escape_unit c =
     (if c = 8 then [92, 98] else if c = 9 then [92, 116] else if c = 10 then [92, 110]
      else if c = 12 then [92, 102] else if c = 13 then [92, 114]
      else if c = 34 then [92, 34] else if c = 92 then [92, 92] else unicode_escape c)"

fun quote_units :: "jsstr \<Rightarrow> jsstr" where
  "quote_units [] = []"
| "quote_units (c # s) =
     (if c < 32 \<or> c = 34 \<or> c = 92 then escape_unit c @ quote_units s
      else if hi_surrogate c then
        (case s of l # s' \<Rightarrow> if lo_surrogate l then c # l # quote_units s' else escape_unit c @ quote_units s
         | [] \<Rightarrow> escape_unit c)
      else if lo_surrogate c then escape_unit c @ quote_units s
      else c # quote_units s)"

definition json_quote :: "jsstr \<Rightarrow> jsstr" where
  "json_quote s = 34 # quote_units s @ [34]"

definition int_text :: "int \<Rightarrow> jsstr" where
  "int_text i = (if i < 0 then 45 # dec_of (nat (- i)) else dec_of (nat i))"

fun num_text :: "jsnum \<Rightarrow> jsstr" where
  "num_text (JFin q) = int_text \<lfloor>q\<rfloor>"
| "num_text _ = js ''null''"

text \<open>A line break and the indentation of level \<open>l\<close>, when a gap of \<open>g\<close> spaces is asked for.\<close>

definition json_break :: "nat \<Rightarrow> nat \<Rightarrow> jsstr" where
  "json_break g l = (if g = 0 then [] else 10 # replicate (g * l) 32)"

fun join_with :: "jsstr \<Rightarrow> jsstr list \<Rightarrow> jsstr" where
  "join_with sep [] = []"
| "join_with sep [x] = x"
| "join_with sep (x # y # zs) = x @ sep @ join_with sep (y # zs)"

fun json_print :: "nat \<Rightarrow> nat \<Rightarrow> json \<Rightarrow> jsstr" where
  "json_print g l JsNull = js ''null''"
| "json_print g l (JsBool b) = (if b then js ''true'' else js ''false'')"
| "json_print g l (JsNum n) = num_text n"
| "json_print g l (JsStr s) = json_quote s"
| "json_print g l (JsArr vs) =
     (if vs = [] then js ''[]''
      else 91 # json_break g (l + 1) @
        join_with (44 # json_break g (l + 1)) (map (json_print g (l + 1)) vs) @ json_break g l @ [93])"
| "json_print g l (JsObj kvs) =
     (if kvs = [] then js ''{}''
      else 123 # json_break g (l + 1) @
        join_with (44 # json_break g (l + 1))
          (map (\<lambda>(k, v). json_quote k @ [58] @ (if g = 0 then [] else [32]) @ json_print g (l + 1) v) kvs) @
        json_break g l @ [125])"

text \<open>The values whose printed form is covered: numbers that are safe integers.\<close>

fun printable :: "json \<Rightarrow> bool" where
  "printable (JsNum n) = num_is_safe_integer n"
| "printable (JsArr vs) = (\<forall>v \<in> set vs. printable v)"
| "printable (JsObj kvs) = (\<forall>kv \<in> set kvs. printable (snd kv))"
| "printable _ = True"

section \<open>Parsing\<close>

definition json_ws :: "unit16 \<Rightarrow> bool" where
  "json_ws c \<longleftrightarrow> c = 32 \<or> c = 9 \<or> c = 10 \<or> c = 13"

definition skip_ws :: "jsstr \<Rightarrow> jsstr" where
  "skip_ws = dropWhile json_ws"

definition hex_val :: "unit16 \<Rightarrow> nat option" where
  "hex_val c = (if is_digit c then Some (unat c - 48)
     else if 97 \<le> c \<and> c \<le> 102 then Some (unat c - 87)
     else if 65 \<le> c \<and> c \<le> 70 then Some (unat c - 55) else None)"

definition simple_escape :: "unit16 \<Rightarrow> unit16 option" where
  "simple_escape c =
     (if c = 34 \<or> c = 92 \<or> c = 47 then Some c else if c = 98 then Some 8 else if c = 102 then Some 12
      else if c = 110 then Some 10 else if c = 114 then Some 13 else if c = 116 then Some 9 else None)"

text \<open>The units of a string up to the closing quote, and the text after it.\<close>

fun jp_units :: "jsstr \<Rightarrow> (jsstr \<times> jsstr) option" where
  "jp_units [] = None"
| "jp_units (c # s) =
     (if c = 34 then Some ([], s)
      else if c < 32 then None
      else if c \<noteq> 92 then do { (u, r) \<leftarrow> jp_units s; Some (c # u, r) }
      else (case s of
         a # b # d # e # f # s' \<Rightarrow>
           if a = 117 then do { w \<leftarrow> hex_val b; x \<leftarrow> hex_val d; y \<leftarrow> hex_val e; z \<leftarrow> hex_val f;
             (u, r) \<leftarrow> jp_units s'; Some (of_nat (4096 * w + 256 * x + 16 * y + z) # u, r) }
           else do { x \<leftarrow> simple_escape a; (u, r) \<leftarrow> jp_units (b # d # e # f # s'); Some (x # u, r) }
       | a # s' \<Rightarrow> do { x \<leftarrow> simple_escape a; (u, r) \<leftarrow> jp_units s'; Some (x # u, r) }
       | [] \<Rightarrow> None))"

definition jp_string :: "jsstr \<Rightarrow> (jsstr \<times> jsstr) option" where
  "jp_string s = (case s of c # r \<Rightarrow> if c = 34 then jp_units r else None | [] \<Rightarrow> None)"

definition digits_of :: "jsstr \<Rightarrow> jsstr \<times> jsstr" where
  "digits_of s = (takeWhile is_digit s, dropWhile is_digit s)"

definition jp_int :: "jsstr \<Rightarrow> (nat \<times> jsstr) option" where
  "jp_int s = (case s of
     c # r \<Rightarrow> if c = 48 then Some (0, r)
       else if is_digit c then Some (dec_val (fst (digits_of s)), snd (digits_of s)) else None
   | [] \<Rightarrow> None)"

definition jp_frac :: "jsstr \<Rightarrow> (rat \<times> jsstr) option" where
  "jp_frac s = (case s of
     c # r \<Rightarrow> if c = 46 then (case digits_of r of (ds, r') \<Rightarrow>
         if ds = [] then None else Some (of_nat (dec_val ds) / 10 ^ length ds, r'))
       else Some (0, s)
   | [] \<Rightarrow> Some (0, s))"

definition jp_exp :: "jsstr \<Rightarrow> (int \<times> jsstr) option" where
  "jp_exp s = (case s of
     c # r \<Rightarrow> if c = 101 \<or> c = 69 then
         (let neg = (r \<noteq> [] \<and> hd r = 45); r' = (if r \<noteq> [] \<and> (hd r = 45 \<or> hd r = 43) then tl r else r) in
          case digits_of r' of (ds, r'') \<Rightarrow>
            if ds = [] then None else Some ((if neg then - 1 else 1) * int (dec_val ds), r''))
       else Some (0, s)
   | [] \<Rightarrow> Some (0, s))"

definition jp_number :: "jsstr \<Rightarrow> (jsnum \<times> jsstr) option" where
  "jp_number s =
     (let neg = (s \<noteq> [] \<and> hd s = 45) in
      do { (i, r) \<leftarrow> jp_int (if neg then tl s else s);
           (f, r') \<leftarrow> jp_frac r;
           (e, r'') \<leftarrow> jp_exp r';
           Some (to_double ((if neg then - 1 else 1) * (of_nat i + f) * 10 powi e), r'') })"

definition strip_prefix :: "jsstr \<Rightarrow> jsstr \<Rightarrow> jsstr option" where
  "strip_prefix p s = (if take (length p) s = p then Some (drop (length p) s) else None)"

definition jp_atom :: "jsstr \<Rightarrow> (json \<times> jsstr) option" where
  "jp_atom s =
     (case strip_prefix (js ''true'') s of Some r \<Rightarrow> Some (JsBool True, r) | None \<Rightarrow>
     (case strip_prefix (js ''false'') s of Some r \<Rightarrow> Some (JsBool False, r) | None \<Rightarrow>
     (case strip_prefix (js ''null'') s of Some r \<Rightarrow> Some (JsNull, r) | None \<Rightarrow>
      do { (n, r) \<leftarrow> jp_number s; Some (JsNum n, r) })))"

fun jp_value :: "nat \<Rightarrow> jsstr \<Rightarrow> (json \<times> jsstr) option"
  and jp_members :: "nat \<Rightarrow> jsstr \<Rightarrow> ((jsstr \<times> json) list \<times> jsstr) option"
  and jp_elements :: "nat \<Rightarrow> jsstr \<Rightarrow> (json list \<times> jsstr) option" where
  "jp_value 0 _ = None"
| "jp_value (Suc n) s = (case skip_ws s of
     [] \<Rightarrow> None
   | c # r \<Rightarrow>
     if c = 123 then (case skip_ws r of
         [] \<Rightarrow> None
       | d # r' \<Rightarrow> if d = 125 then Some (JsObj [], r')
           else do { (kvs, r'') \<leftarrow> jp_members n r; Some (JsObj kvs, r'') })
     else if c = 91 then (case skip_ws r of
         [] \<Rightarrow> None
       | d # r' \<Rightarrow> if d = 93 then Some (JsArr [], r')
           else do { (vs, r'') \<leftarrow> jp_elements n r; Some (JsArr vs, r'') })
     else if c = 34 then do { (u, r') \<leftarrow> jp_units r; Some (JsStr u, r') }
     else jp_atom (c # r))"
| "jp_members 0 _ = None"
| "jp_members (Suc n) s =
     do { (k, r) \<leftarrow> jp_string (skip_ws s);
          (case skip_ws r of
             [] \<Rightarrow> None
           | c # r1 \<Rightarrow> if c \<noteq> 58 then None else
               do { (v, r2) \<leftarrow> jp_value n r1;
                    (case skip_ws r2 of
                       [] \<Rightarrow> None
                     | d # r3 \<Rightarrow>
                         if d = 125 then Some ([(k, v)], r3)
                         else if d = 44 then do { (kvs, r4) \<leftarrow> jp_members n r3; Some ((k, v) # kvs, r4) }
                         else None) }) }"
| "jp_elements 0 _ = None"
| "jp_elements (Suc n) s =
     do { (v, r) \<leftarrow> jp_value n s;
          (case skip_ws r of
             [] \<Rightarrow> None
           | c # r1 \<Rightarrow>
               if c = 93 then Some ([v], r1)
               else if c = 44 then do { (vs, r2) \<leftarrow> jp_elements n r1; Some (v # vs, r2) }
               else None) }"

definition json_parse :: "jsstr \<Rightarrow> json option" where
  "json_parse s = (case jp_value (Suc (2 * length s)) s of
     Some (j, r) \<Rightarrow> if skip_ws r = [] then Some j else None | None \<Rightarrow> None)"

section \<open>Trees and JavaScript values\<close>

fun of_json :: "json \<Rightarrow> jsval" where
  "of_json JsNull = JNull"
| "of_json (JsBool b) = JBool b"
| "of_json (JsNum n) = JNum n"
| "of_json (JsStr s) = JStr s"
| "of_json (JsArr vs) = JArray (map of_json vs)"
| "of_json (JsObj kvs) = JObj JObjectPrototype
     (fold (\<lambda>(k, d). AList.update k d) (map (\<lambda>(k, v). (KStr k, DataDesc True (of_json v))) kvs) [])"

definition JSON_parse :: "jsstr \<Rightarrow> jsval option" where
  "JSON_parse s = map_option of_json (json_parse s)"

text \<open>
  What \<open>JSON.stringify\<close> prints of a value: \<open>None\<close> when it throws or meets a number that is not
  an integer. Members without a JSON form are left out, such elements are null.
\<close>

fun json_absent :: "jsval \<Rightarrow> bool" where
  "json_absent JUndefined = True"
| "json_absent (JFun _ _) = True"
| "json_absent (JSymbol _) = True"
| "json_absent _ = False"

fun to_json :: "jsval \<Rightarrow> json option"
  and to_members :: "(jskey \<times> jsdesc) list \<Rightarrow> (jsstr \<times> json) list option"
  and to_elements :: "jsval list \<Rightarrow> json list option" where
  "to_json JNull = Some JsNull"
| "to_json (JBool b) = Some (JsBool b)"
| "to_json (JNum n) = Some (if num_is_finite n then JsNum n else JsNull)"
| "to_json (JStr s) = Some (JsStr s)"
| "to_json (JOpaque _) = Some (JsObj [])"
| "to_json (JArray vs) = map_option JsArr (to_elements vs)"
| "to_json (JObj _ ps) = map_option JsObj (to_members ps)"
| "to_json _ = None"
| "to_members [] = Some []"
| "to_members ((KStr k, DataDesc True v) # ps) =
     (if json_absent v then to_members ps
      else do { j \<leftarrow> to_json v; kvs \<leftarrow> to_members ps; Some ((k, j) # kvs) })"
| "to_members ((KSym _, _) # ps) = to_members ps"
| "to_members ((_, DataDesc False _) # ps) = to_members ps"
| "to_members ((_, AccessorDesc _ _) # ps) = None"
| "to_elements [] = Some []"
| "to_elements (v # vs) = do { j \<leftarrow> (if json_absent v then Some JsNull else to_json v);
     js' \<leftarrow> to_elements vs; Some (j # js') }"

definition JSON_stringify :: "nat \<Rightarrow> jsval \<Rightarrow> jsstr option" where
  "JSON_stringify gap v = (case to_json v of
     Some j \<Rightarrow> if printable j then Some (json_print gap 0 j) else None | None \<Rightarrow> None)"

section \<open>Quoted strings are read back\<close>

lemma hex_round: "n < 16 \<Longrightarrow> hex_val (hex_digit n) = Some n"
proof -
  have "\<forall>n \<in> set [0..<16]. hex_val (hex_digit n) = Some n" by code_simp
  then show "n < 16 \<Longrightarrow> ?thesis" by simp
qed

lemma hex_digits:
  fixes u :: nat
  shows "4096 * (u div 4096) + 256 * (u div 256 mod 16) + 16 * (u div 16 mod 16) + u mod 16 = u"
proof -
  have "u div 256 = 16 * (u div 4096) + u div 256 mod 16"
    using mult_div_mod_eq [of 16 "u div 256"] div_mult2_eq [of u 256 16] by simp
  moreover have "u div 16 = 16 * (u div 256) + u div 16 mod 16"
    using mult_div_mod_eq [of 16 "u div 16"] div_mult2_eq [of u 16 16] by simp
  moreover have "u = 16 * (u div 16) + u mod 16" by simp
  ultimately show ?thesis by linarith
qed

lemma jp_units_unicode:
  "jp_units (unicode_escape c @ t) = do { (u, r) \<leftarrow> jp_units t; Some (c # u, r) }"
proof -
  have "unat c < 65536" using unsigned_less [of c] by simp
  then have "unat c div 4096 < 16" by (simp add: div_less_iff_less_mult)
  moreover have "(of_nat (4096 * (unat c div 4096) + 256 * (unat c div 256 mod 16) + 16 * (unat c div 16 mod 16)
      + unat c mod 16) :: unit16) = c" unfolding hex_digits by simp
  ultimately show ?thesis
    by (simp add: unicode_escape_def hex_round del: of_nat_add of_nat_mult)
qed

lemma jp_units_simple:
  assumes "a \<noteq> 117"
  shows "jp_units (92 # a # t) = do { x \<leftarrow> simple_escape a; (u, r) \<leftarrow> jp_units t; Some (x # u, r) }"
  using assms
  by (cases t; cases "tl t"; cases "tl (tl t)"; cases "tl (tl (tl t))") (simp_all split: list.splits)

lemma jp_units_escape:
  "jp_units (escape_unit c @ t) = do { (u, r) \<leftarrow> jp_units t; Some (c # u, r) }"
  by (simp add: escape_unit_def jp_units_unicode jp_units_simple simple_escape_def del: jp_units.simps)

lemma jp_units_keep:
  "\<not> c < 32 \<Longrightarrow> c \<noteq> 34 \<Longrightarrow> c \<noteq> 92 \<Longrightarrow> jp_units (c # t) = do { (u, r) \<leftarrow> jp_units t; Some (c # u, r) }"
  by simp

lemma jp_units_close: "jp_units (34 # r) = Some ([], r)"
  by simp

lemma surrogate_kept:
  assumes "hi_surrogate c \<or> lo_surrogate c"
  shows "\<not> c < 32 \<and> c \<noteq> 34 \<and> c \<noteq> 92"
  using assms by (auto simp: hi_surrogate_def lo_surrogate_def word_le_nat_alt word_less_nat_alt)

lemma jp_units_quote: "jp_units (quote_units s @ 34 # r) = Some (s, r)"
proof (induction s rule: quote_units.induct)
  case (2 c s)
  note step = jp_units_escape jp_units_keep jp_units_close surrogate_kept
  show ?case
  proof (cases "c < 32 \<or> c = 34 \<or> c = 92")
    case True
    with 2(1) show ?thesis by (simp add: step del: jp_units.simps)
  next
    case kept: False
    show ?thesis
    proof (cases "hi_surrogate c \<and> s \<noteq> [] \<and> lo_surrogate (hd s)")
      case True
      then obtain l s' where s: "s = l # s'" by (cases s) auto
      with True kept 2(2) show ?thesis by (simp add: step del: jp_units.simps)
    next
      case False
      with kept 2(3-) show ?thesis
        by (cases s) (auto simp: step simp del: jp_units.simps)
    qed
  qed
qed simp

lemma jp_string_quote: "jp_string (json_quote s @ r) = Some (s, r)"
  by (simp add: jp_string_def json_quote_def jp_units_quote)

section \<open>Numbers are read back\<close>

definition num_stop :: "jsstr \<Rightarrow> bool" where
  "num_stop r = (case r of [] \<Rightarrow> True | c # _ \<Rightarrow> \<not> is_digit c \<and> c \<noteq> 46 \<and> c \<noteq> 101 \<and> c \<noteq> 69)"

lemma digits_of_dec: "num_stop r \<Longrightarrow> digits_of (dec_of n @ r) = (dec_of n, r)"
  using dec_of_digits [of n]
  by (cases r) (simp_all add: digits_of_def num_stop_def list_all_iff takeWhile_append2 dropWhile_append2)

lemma dec_of_head: obtains c t where "dec_of n = c # t" "is_digit c" "c = 48 \<longleftrightarrow> n = 0" "n = 0 \<longrightarrow> t = []"
proof (cases "n = 0")
  case True
  then show thesis using that [of 48 "[]"] by (simp add: is_digit_def dec_of.simps)
next
  case False
  then have "canonical_pos_dec (dec_of n)" by (simp add: dec_of_canonical)
  then obtain c t where "dec_of n = c # t" "is_digit c" "c \<noteq> 48"
    by (cases "dec_of n") (auto simp: canonical_pos_dec_def)
  with False show thesis using that by simp
qed

lemma jp_int_dec: "num_stop r \<Longrightarrow> jp_int (dec_of n @ r) = Some (n, r)"
proof -
  assume r: "num_stop r"
  obtain c t where h: "dec_of n = c # t" "is_digit c" "c = 48 \<longleftrightarrow> n = 0" "n = 0 \<longrightarrow> t = []"
    by (rule dec_of_head)
  then show ?thesis
    using digits_of_dec [OF r, of n] dec_val_of [of n] by (simp add: jp_int_def)
qed

lemma jp_tail_stop: "num_stop r \<Longrightarrow> jp_frac r = Some (0, r) \<and> jp_exp r = Some (0, r)"
  by (cases r) (simp_all add: num_stop_def jp_frac_def jp_exp_def)

lemma digit_not_sign: "is_digit c \<Longrightarrow> c \<noteq> 45"
  by (auto simp: is_digit_def)

lemma jp_number_int:
  assumes "num_stop r" and "\<bar>i\<bar> < 2 ^ 53"
  shows "jp_number (int_text i @ r) = Some (JFin (of_int i), r)"
proof (cases "i < 0")
  case True
  then have "- of_nat (nat (- i)) = (of_int i :: rat)" by simp
  with True show ?thesis
    using to_double_int [OF assms(2)] jp_tail_stop [OF assms(1)] jp_int_dec [OF assms(1), of "nat (- i)"]
    by (simp add: jp_number_def int_text_def Let_def)
next
  case False
  obtain c t where "dec_of (nat i) = c # t" "is_digit c" by (rule dec_of_head)
  moreover from this have "c \<noteq> 45" by (simp add: digit_not_sign)
  moreover have "of_nat (nat i) = (of_int i :: rat)" using False by simp
  ultimately show ?thesis
    using False to_double_int [OF assms(2)] jp_tail_stop [OF assms(1)] jp_int_dec [OF assms(1), of "nat i"]
    by (simp add: jp_number_def int_text_def Let_def)
qed

section \<open>Printing followed by parsing\<close>

lemma skip_ws_append: "list_all json_ws w \<Longrightarrow> skip_ws (w @ s) = skip_ws s"
  by (simp add: skip_ws_def list_all_iff dropWhile_append2)

lemma skip_ws_keep: "\<not> json_ws c \<Longrightarrow> skip_ws (c # s) = c # s"
  by (simp add: skip_ws_def)

lemma skip_ws_to: "list_all json_ws w \<Longrightarrow> \<not> json_ws c \<Longrightarrow> skip_ws (w @ c # s) = c # s"
  by (simp add: skip_ws_append skip_ws_keep)

lemma break_ws [simp]: "list_all json_ws (json_break g l)"
  by (simp add: json_break_def json_ws_def list_all_iff)

lemma ws_stop: "list_all json_ws w \<Longrightarrow> num_stop (w @ c # r) \<longleftrightarrow> w \<noteq> [] \<or> num_stop (c # r)"
  by (cases w) (auto simp: num_stop_def json_ws_def is_digit_def)

lemma jp_value_ws: "list_all json_ws w \<Longrightarrow> jp_value n (w @ s) = jp_value n s"
  by (cases n) (simp_all add: skip_ws_append)

lemma structural [simp]:
  "\<not> json_ws 123" "\<not> json_ws 125" "\<not> json_ws 91" "\<not> json_ws 93" "\<not> json_ws 34" "\<not> json_ws 44" "\<not> json_ws 58"
  "num_stop (125 # r)" "num_stop (93 # r)" "num_stop (44 # r)"
  by (simp_all add: json_ws_def num_stop_def is_digit_def)

definition reads_back :: "nat \<Rightarrow> nat \<Rightarrow> json \<Rightarrow> bool" where
  "reads_back g l v \<longleftrightarrow> (\<forall>r n. num_stop r \<longrightarrow> 2 * length (json_print g l v @ r) < n \<longrightarrow>
     jp_value n (json_print g l v @ r) = Some (v, r))"

lemma reads_backD:
  "reads_back g l v \<Longrightarrow> num_stop r \<Longrightarrow> 2 * length (json_print g l v @ r) < n \<Longrightarrow>
     jp_value n (json_print g l v @ r) = Some (v, r)"
  by (simp add: reads_back_def)

lemma jp_elements_print:
  assumes "vs \<noteq> []" and "\<And>v. v \<in> set vs \<Longrightarrow> reads_back g l v"
    and ws: "list_all json_ws w" "list_all json_ws w1" "list_all json_ws w2"
    and "2 * length (w @ join_with (44 # w1) (map (json_print g l) vs) @ w2 @ 93 # r) + 1 < n"
  shows "jp_elements n (w @ join_with (44 # w1) (map (json_print g l) vs) @ w2 @ 93 # r) = Some (vs, r)"
  using assms(1,2,6) ws(1)
proof (induction vs arbitrary: n w)
  case (Cons v vs)
  then obtain m where n: "n = Suc m" by (cases n) auto
  show ?case
  proof (cases vs)
    case Nil
    have "jp_value m (w @ json_print g l v @ w2 @ 93 # r) = Some (v, w2 @ 93 # r)"
      unfolding jp_value_ws [OF Cons.prems(4)]
      by (rule reads_backD) (use Cons.prems Nil ws n in \<open>simp_all add: ws_stop\<close>)
    with ws show ?thesis by (simp add: Nil n skip_ws_to)
  next
    case (Cons v' vs')
    let ?rest = "w1 @ join_with (44 # w1) (map (json_print g l) vs) @ w2 @ 93 # r"
    have "jp_value m (w @ json_print g l v @ 44 # ?rest) = Some (v, 44 # ?rest)"
      unfolding jp_value_ws [OF Cons.prems(4)]
      by (rule reads_backD) (use Cons.prems n Cons in \<open>simp_all\<close>)
    moreover have "jp_elements m ?rest = Some (vs, r)"
      by (rule Cons.IH) (use Cons.prems n Cons ws in \<open>simp_all\<close>)
    ultimately show ?thesis using Cons by (simp add: n skip_ws_keep)
  qed
qed simp

abbreviation member_text :: "nat \<Rightarrow> nat \<Rightarrow> jsstr \<times> json \<Rightarrow> jsstr" where
  "member_text g l \<equiv> \<lambda>(k, v). json_quote k @ [58] @ (if g = 0 then [] else [32]) @ json_print g l v"

lemma quote_skip: "list_all json_ws w \<Longrightarrow> skip_ws (w @ json_quote k @ s) = json_quote k @ s"
  by (simp add: json_quote_def skip_ws_to)

lemma member_gap_ws: "list_all json_ws (if g = 0 then [] else [32])"
  by (simp add: json_ws_def)

lemma jp_members_print:
  assumes "kvs \<noteq> []" and "\<And>kv. kv \<in> set kvs \<Longrightarrow> reads_back g l (snd kv)"
    and ws: "list_all json_ws w" "list_all json_ws w1" "list_all json_ws w2"
    and "2 * length (w @ join_with (44 # w1) (map (member_text g l) kvs) @ w2 @ 125 # r) + 1 < n"
  shows "jp_members n (w @ join_with (44 # w1) (map (member_text g l) kvs) @ w2 @ 125 # r) = Some (kvs, r)"
  using assms(1,2,6) ws(1)
proof (induction kvs arbitrary: n w)
  case (Cons kv kvs)
  obtain k v where kv: "kv = (k, v)" by (cases kv)
  obtain m where n: "n = Suc m" using Cons.prems(3) by (cases n) auto
  have rb: "reads_back g l v" using Cons.prems(2) [of kv] by (simp add: kv)
  let ?gap = "if g = 0 then [] else [32]"
  show ?case
  proof (cases kvs)
    case Nil
    have "jp_value m (?gap @ json_print g l v @ w2 @ 125 # r) = Some (v, w2 @ 125 # r)"
      unfolding jp_value_ws [OF member_gap_ws]
      by (rule reads_backD) (use Cons.prems Nil ws n kv in \<open>simp_all add: ws_stop\<close>)
    with ws Cons.prems(4) show ?thesis
      by (simp add: Nil n kv quote_skip jp_string_quote skip_ws_to skip_ws_keep)
  next
    case (Cons kv' kvs')
    let ?rest = "w1 @ join_with (44 # w1) (map (member_text g l) kvs) @ w2 @ 125 # r"
    have "jp_value m (?gap @ json_print g l v @ 44 # ?rest) = Some (v, 44 # ?rest)"
      unfolding jp_value_ws [OF member_gap_ws]
      by (rule reads_backD [OF rb]) (use Cons.prems(3) n Cons kv in \<open>simp_all\<close>)
    moreover have "jp_members m ?rest = Some (kvs, r)"
      by (rule Cons.IH) (use Cons.prems n Cons ws in \<open>simp_all\<close>)
    ultimately show ?thesis
      using Cons Cons.prems(4) by (simp add: n kv quote_skip jp_string_quote skip_ws_keep)
  qed
qed simp

lemma safe_integer_cases:
  assumes "num_is_safe_integer n"
  obtains i where "n = JFin (of_int i)" "\<bar>i\<bar> < 2 ^ 53"
proof -
  from assms obtain q where q: "n = JFin q" "of_int \<lfloor>q\<rfloor> = q" "\<bar>q\<bar> \<le> 9007199254740991"
    by (auto simp: num_is_safe_integer_def split: jsnum.splits)
  define i where "i = \<lfloor>q\<rfloor>"
  have i: "q = of_int i" using q(2) unfolding i_def by (rule sym)
  have "\<bar>of_int i :: rat\<bar> \<le> of_int 9007199254740991" using q(3) unfolding i by simp
  then have "\<bar>i\<bar> \<le> 9007199254740991" unfolding of_int_abs [symmetric] of_int_le_iff .
  with q(1) i that [of i] show thesis by simp
qed

lemma atom_head:
  assumes "c = 45 \<or> is_digit c"
  shows "strip_prefix (js ''true'') (c # s) = None" "strip_prefix (js ''false'') (c # s) = None"
    "strip_prefix (js ''null'') (c # s) = None" "\<not> json_ws c" "c \<noteq> 123" "c \<noteq> 91" "c \<noteq> 34"
  using assms by (auto simp: strip_prefix_def js_def is_digit_def json_ws_def word_le_nat_alt)

lemma int_text_head: obtains c t where "int_text i = c # t" "c = 45 \<or> is_digit c"
proof (cases "i < 0")
  case False
  obtain c t where "dec_of (nat i) = c # t" "is_digit c" by (rule dec_of_head)
  with False that show thesis by (simp add: int_text_def)
qed (simp add: that int_text_def)

lemma reads_back_num:
  assumes "num_is_safe_integer n"
  shows "reads_back g l (JsNum n)"
  unfolding reads_back_def
proof (intro allI impI)
  fix r m
  assume r: "num_stop r" and m: "2 * length (json_print g l (JsNum n) @ r) < m"
  obtain i where n: "n = JFin (of_int i)" "\<bar>i\<bar> < 2 ^ 53" using assms by (rule safe_integer_cases)
  obtain c t where h: "int_text i = c # t" "c = 45 \<or> is_digit c" by (rule int_text_head)
  obtain m' where m': "m = Suc m'" using m by (cases m) auto
  have "jp_atom (int_text i @ r) = Some (JsNum (JFin (of_int i)), r)"
    using jp_number_int [OF r n(2)] atom_head(1-3) [OF h(2)] by (simp add: jp_atom_def h(1))
  then show "jp_value m (json_print g l (JsNum n) @ r) = Some (JsNum n, r)"
    using atom_head(4-7) [OF h(2)] by (simp add: n m' h(1) skip_ws_keep)
qed

lemma reads_back_atoms: "reads_back g l JsNull" "reads_back g l (JsBool b)" "reads_back g l (JsStr s)"
proof -
  have w: "\<not> json_ws 110" "\<not> json_ws 116" "\<not> json_ws 102" by (simp_all add: json_ws_def)
  have *: "jp_value m (c # s) = jp_atom (c # s)" if "0 < m" "c \<in> {110, 116, 102}" for m c s
    using that w by (cases m) (auto simp: skip_ws_keep)
  show "reads_back g l JsNull" "reads_back g l (JsBool b)"
    by (auto simp: reads_back_def js_def * jp_atom_def strip_prefix_def)
  show "reads_back g l (JsStr s)"
    unfolding reads_back_def
    by (intro allI impI, case_tac n) (auto simp: json_quote_def skip_ws_keep jp_units_quote)
qed

lemma jp_elements_head:
  assumes "jp_elements n s = Some x"
  obtains d t where "skip_ws s = d # t" "d \<noteq> 93"
proof -
  have "jp_atom (93 # t) = None" for t
    by (simp add: jp_atom_def strip_prefix_def js_def jp_number_def Let_def jp_int_def is_digit_def)
  moreover obtain m y where "jp_value (Suc m) s = Some y"
    using assms by (cases n; cases "n - 1") (auto split: Option.bind_splits)
  ultimately have "skip_ws s \<noteq> []" "hd (skip_ws s) \<noteq> 93"
    by (auto split: list.splits)
  then show thesis using that by (cases "skip_ws s") simp_all
qed

lemma jp_members_head:
  assumes "jp_members n s = Some x"
  obtains t where "skip_ws s = 34 # t"
  using assms that by (cases n) (auto simp: jp_string_def split: Option.bind_splits list.splits if_splits)

lemma print_reads_back: "printable j \<Longrightarrow> reads_back g l j"
proof (induction j arbitrary: l)
  case (JsArr vs)
  show ?case unfolding reads_back_def
  proof (intro allI impI)
    fix r n
    assume r: "num_stop r" and n: "2 * length (json_print g l (JsArr vs) @ r) < n"
    obtain m where m: "n = Suc m" using n by (cases n) auto
    show "jp_value n (json_print g l (JsArr vs) @ r) = Some (JsArr vs, r)"
    proof (cases "vs = []")
      case True
      then show ?thesis by (simp add: m js_def skip_ws_keep)
    next
      case False
      let ?body = "json_break g (l + 1) @ join_with (44 # json_break g (l + 1)) (map (json_print g (l + 1)) vs)
        @ json_break g l @ 93 # r"
      have e: "jp_elements m ?body = Some (vs, r)"
        by (rule jp_elements_print) (use False JsArr n m in \<open>simp_all\<close>)
      then obtain d t where "skip_ws ?body = d # t" "d \<noteq> 93" by (rule jp_elements_head)
      with e False show ?thesis by (simp add: m skip_ws_keep)
    qed
  qed
next
  case (JsObj kvs)
  show ?case unfolding reads_back_def
  proof (intro allI impI)
    fix r n
    assume r: "num_stop r" and n: "2 * length (json_print g l (JsObj kvs) @ r) < n"
    obtain m where m: "n = Suc m" using n by (cases n) auto
    show "jp_value n (json_print g l (JsObj kvs) @ r) = Some (JsObj kvs, r)"
    proof (cases "kvs = []")
      case True
      then show ?thesis by (simp add: m js_def skip_ws_keep)
    next
      case False
      let ?body = "json_break g (l + 1) @ join_with (44 # json_break g (l + 1)) (map (member_text g (l + 1)) kvs)
        @ json_break g l @ 125 # r"
      have "reads_back g (l + 1) (snd kv)" if "kv \<in> set kvs" for kv
        by (rule JsObj.IH [OF that]) (use JsObj.prems that in \<open>auto simp: snds.simps\<close>)
      then have e: "jp_members m ?body = Some (kvs, r)"
        by (intro jp_members_print) (use False n m in \<open>simp_all\<close>)
      then obtain t where "skip_ws ?body = 34 # t" by (rule jp_members_head)
      with e False show ?thesis by (simp add: m skip_ws_keep)
    qed
  qed
qed (simp_all add: reads_back_atoms reads_back_num)

lemma json_round_trip: "printable j \<Longrightarrow> json_parse (json_print g 0 j) = Some j"
  using reads_backD [OF print_reads_back [of j g 0], of "[]" "Suc (2 * length (json_print g 0 j))"]
  by (simp add: json_parse_def num_stop_def skip_ws_def del: jp_value.simps)

section \<open>The bound on the recursion is immaterial\<close>

lemma skip_ws_length: "length (skip_ws s) \<le> length s"
  by (simp add: skip_ws_def length_dropWhile_le)

lemma skip_ws_Cons: "skip_ws s = c # r \<Longrightarrow> length r < length s"
  using skip_ws_length [of s] by simp

lemma jp_units_unicode_cases:
  assumes "jp_units (92 # 117 # t) = Some (u, r)"
  obtains b d e f t' u' where "t = b # d # e # f # t'" "jp_units t' = Some (u', r)"
  using assms that
  by (cases t; cases "tl t"; cases "tl (tl t)"; cases "tl (tl (tl t))")
    (auto simp: simple_escape_def split: Option.bind_splits)

lemma jp_units_shorter: "jp_units s = Some (u, r) \<Longrightarrow> length r < length s"
proof (induction s arbitrary: u rule: length_induct)
  case (1 s)
  have ih: "length r < length t" if "jp_units t = Some (u', r)" "length t < length s" for t u'
    using 1 that by blast
  obtain c t where s: "s = c # t" using 1(2) by (cases s) simp_all
  show ?case
  proof (cases "c = 92")
    case False
    then show ?thesis
      using 1(2) ih [of t] unfolding s by (fastforce split: if_splits Option.bind_splits)
  next
    case c: True
    with 1(2) obtain a t' where t: "t = a # t'" unfolding s by (cases t) simp_all
    show ?thesis
    proof (cases "a = 117")
      case True
      obtain b d e f t'' u' where "t' = b # d # e # f # t''" "jp_units t'' = Some (u', r)"
        using 1(2) [unfolded s t c True] by (rule jp_units_unicode_cases)
      with ih [of t''] show ?thesis by (simp add: s t)
    next
      case False
      with 1(2) have "\<exists>u'. jp_units t' = Some (u', r)"
        unfolding s t c jp_units_simple [OF False] by (auto split: Option.bind_splits)
      with ih [of t'] show ?thesis by (auto simp: s t)
    qed
  qed
qed

lemma jp_string_shorter: "jp_string s = Some (u, r) \<Longrightarrow> length r < length s"
  using jp_units_shorter by (fastforce simp: jp_string_def split: list.splits if_splits)

lemma strip_prefix_shorter: "strip_prefix p s = Some r \<Longrightarrow> p \<noteq> [] \<Longrightarrow> length r < length s"
  by (cases s) (auto simp: strip_prefix_def split: if_splits)

lemma digits_of_length: "digits_of s = (ds, r) \<Longrightarrow> length r \<le> length s"
  by (auto simp: digits_of_def length_dropWhile_le)

lemma jp_int_shorter: "jp_int s = Some (i, r) \<Longrightarrow> length r < length s"
  by (auto simp: jp_int_def digits_of_def less_Suc_eq_le length_dropWhile_le split: list.splits if_splits)

lemma jp_frac_shorter: "jp_frac s = Some (f, r) \<Longrightarrow> length r \<le> length s"
  by (auto simp: jp_frac_def dest!: digits_of_length split: list.splits if_splits prod.splits)

lemma jp_exp_shorter: "jp_exp s = Some (e, r) \<Longrightarrow> length r \<le> length s"
  by (auto simp: jp_exp_def Let_def dest!: digits_of_length split: list.splits if_splits prod.splits)

lemma jp_number_shorter: "jp_number s = Some (x, r) \<Longrightarrow> length r < length s"
  using jp_int_shorter [of "if s \<noteq> [] \<and> hd s = 45 then tl s else s"]
  by (fastforce simp: jp_number_def Let_def dest: jp_frac_shorter jp_exp_shorter split: Option.bind_splits if_splits)

lemma jp_atom_shorter: "jp_atom s = Some (j, r) \<Longrightarrow> length r < length s"
  by (auto simp: jp_atom_def js_Cons dest!: jp_number_shorter strip_prefix_shorter
      split: option.splits Option.bind_splits)

lemma jp_members_SucE:
  assumes "jp_members (Suc n) s = Some (kvs, r)"
  obtains k r0 r1 v r2 d r3 where "jp_string (skip_ws s) = Some (k, r0)" "skip_ws r0 = 58 # r1"
    "jp_value n r1 = Some (v, r2)" "skip_ws r2 = d # r3"
    "d = 125 \<and> r = r3 \<and> kvs = [(k, v)] \<or>
     d = 44 \<and> (\<exists>kvs'. jp_members n r3 = Some (kvs', r) \<and> kvs = (k, v) # kvs')"
  using assms that by (auto split: Option.bind_splits list.splits if_splits)

lemma jp_elements_SucE:
  assumes "jp_elements (Suc n) s = Some (vs, r)"
  obtains v r1 c r2 where "jp_value n s = Some (v, r1)" "skip_ws r1 = c # r2"
    "c = 93 \<and> r = r2 \<and> vs = [v] \<or> c = 44 \<and> (\<exists>vs'. jp_elements n r2 = Some (vs', r) \<and> vs = v # vs')"
  using assms that by (auto split: Option.bind_splits list.splits if_splits)

lemma jp_shorter:
  "jp_value n s = Some (j, r) \<Longrightarrow> length r < length s"
  "jp_members n s = Some (kvs, r) \<Longrightarrow> length r < length s"
  "jp_elements n s = Some (vs, r) \<Longrightarrow> length r < length s"
proof (induction n s and n s and n s arbitrary: j r and kvs r and vs r rule: jp_value_jp_members_jp_elements.induct)
  case (2 n s)
  then show ?case
    by (fastforce dest: skip_ws_Cons jp_units_shorter jp_atom_shorter split: list.splits if_splits Option.bind_splits)
next
  case (4 n s)
  obtain k r0 r1 v r2 d r3 where "jp_string (skip_ws s) = Some (k, r0)" "skip_ws r0 = 58 # r1"
    "jp_value n r1 = Some (v, r2)" "skip_ws r2 = d # r3"
    "d = 125 \<and> r = r3 \<and> kvs = [(k, v)] \<or>
     d = 44 \<and> (\<exists>kvs'. jp_members n r3 = Some (kvs', r) \<and> kvs = (k, v) # kvs')"
    using 4(3) by (rule jp_members_SucE)
  moreover from this have "length r0 < length s" "length r1 < length r0" "length r3 < length r2" "length r2 < length r1"
    using jp_string_shorter skip_ws_length [of s] 4(1) by (fastforce dest: skip_ws_Cons)+
  ultimately show ?case using 4(2) by fastforce
next
  case (6 n s)
  then show ?case
    by (fastforce dest: skip_ws_Cons split: list.splits if_splits Option.bind_splits)
qed simp_all

lemma jp_fuel:
  "2 * length s < n \<Longrightarrow> jp_value (Suc n) s = jp_value n s"
  "2 * length s + 1 < n \<Longrightarrow> jp_members (Suc n) s = jp_members n s"
  "2 * length s + 1 < n \<Longrightarrow> jp_elements (Suc n) s = jp_elements n s"
proof (induction n s and n s and n s rule: jp_value_jp_members_jp_elements.induct)
  case (2 n s)
  have rest: "2 * length r + 1 < n" if "skip_ws s = c # r" for c r
    using 2(3) skip_ws_Cons [OF that] by simp
  show ?case
    unfolding jp_value.simps(2) [of "Suc n" s] jp_value.simps(2) [of n s]
    using 2(1,2) rest by (auto split: list.split simp del: jp_members.simps jp_elements.simps)
next
  case (4 n s)
  have v: "jp_value (Suc n) r1 = jp_value n r1"
    if "jp_string (skip_ws s) = Some (k, r0)" "skip_ws r0 = 58 # r1" for k r0 r1
    using 4(1,3) that jp_string_shorter [OF that(1)] skip_ws_length [of s] skip_ws_Cons [OF that(2)] by simp
  have m: "jp_members (Suc n) r3 = jp_members n r3"
    if "jp_string (skip_ws s) = Some (k, r0)" "skip_ws r0 = 58 # r1" "jp_value n r1 = Some (v, r2)"
      "skip_ws r2 = 44 # r3" for k r0 r1 v r2 r3
    using 4(2) [OF that(1) refl that(2) _ that(3) refl that(4)] 4(3) jp_string_shorter [OF that(1)] skip_ws_length [of s]
      skip_ws_Cons [OF that(2)] jp_shorter(1) [OF that(3)] skip_ws_Cons [OF that(4)] by simp
  show ?case
    unfolding jp_members.simps(2) [of "Suc n" s] jp_members.simps(2) [of n s]
    by (auto split: list.split Option.bind_split simp: v m simp del: jp_value.simps jp_members.simps)
next
  case (6 n s)
  have v: "jp_value (Suc n) s = jp_value n s" using 6(1,3) by simp
  have e: "jp_elements (Suc n) r1 = jp_elements n r1"
    if "jp_value n s = Some (v, r)" "skip_ws r = 44 # r1" for v r r1
    using 6(2) [OF that(1) refl that(2)] 6(3) jp_shorter(1) [OF that(1)] skip_ws_Cons [OF that(2)] by simp
  show ?case
    unfolding jp_elements.simps(2) [of "Suc n" s] jp_elements.simps(2) [of n s] v
    by (auto split: list.split Option.bind_split simp: e simp del: jp_value.simps jp_elements.simps)
qed simp_all

lemma json_parse_fuel:
  assumes "2 * length s < n"
  shows "json_parse s = (case jp_value n s of
     Some (j, r) \<Rightarrow> if skip_ws r = [] then Some j else None | None \<Rightarrow> None)"
proof -
  have "jp_value (2 * length s + 1 + k) s = jp_value (Suc (2 * length s)) s" for k
    by (induction k) (simp_all add: jp_fuel(1) del: jp_value.simps)
  from this [of "n - (2 * length s + 1)"] assms show ?thesis
    by (simp add: json_parse_def del: jp_value.simps)
qed

section \<open>Records of primitives\<close>

fun prim_json :: "jsval \<Rightarrow> json option" where
  "prim_json (JBool b) = Some (JsBool b)"
| "prim_json (JNum n) = (if num_is_safe_integer n then Some (JsNum n) else None)"
| "prim_json (JStr s) = Some (JsStr s)"
| "prim_json _ = None"

lemma prim_json_Some:
  assumes "prim_json v = Some j"
  shows "to_json v = Some j" and "printable j" and "of_json j = v" and "\<not> json_absent v"
  using assms by (cases v; auto simp: num_is_safe_integer_def num_is_finite_def split: if_splits jsnum.splits)+

lemma update_new: "k \<notin> fst ` set al \<Longrightarrow> AList.update k d al = al @ [(k, d)]"
  by (induction al) auto

lemma of_json_obj:
  assumes "distinct (map fst kvs)"
  shows "of_json (JsObj kvs) = JObj JObjectPrototype (map (\<lambda>(k, v). (KStr k, DataDesc True (of_json v))) kvs)"
proof -
  have "fold (\<lambda>(k, d). AList.update k d) xs acc = acc @ xs"
    if "distinct (map fst xs)" "fst ` set xs \<inter> fst ` set acc = {}" for xs acc :: "(jskey \<times> jsdesc) list"
    using that
  proof (induction xs arbitrary: acc)
    case (Cons x xs)
    obtain k d where x: "x = (k, d)" by (cases x)
    have "AList.update k d acc = acc @ [(k, d)]"
      using Cons.prems(2) by (intro update_new) (auto simp: x)
    then show ?case using Cons by (auto simp: x)
  qed simp
  note step = this [of "map (\<lambda>(k, v). (KStr k, DataDesc True (of_json v))) kvs" "[]"]
  have "distinct (map fst (map (\<lambda>(k, v). (KStr k, DataDesc True (of_json v))) kvs))"
    using assms by (simp add: distinct_map inj_on_def split_beta comp_def)
  with step show ?thesis by simp
qed

end
