(* ===== verification/Contract_Json.thy ===== *)
theory Contract_Json
  imports Contract_Manifest Js_Json
begin

text \<open>
  Manifests as JSON text: the scanner of \<open>session-storage-contracts.mjs\<close> that rejects duplicate
  object keys and deep nesting before \<open>JSON.parse\<close>, and parsing and serialization of a manifest.
  On every text that \<open>JSON.parse\<close> accepts, the scanner accepts exactly the trees without
  duplicate keys nested at most 16 deep.
\<close>

definition MAX_JSON_NESTING_DEPTH :: nat where
  "MAX_JSON_NESTING_DEPTH = 16"

section \<open>The scanner\<close>

text \<open>The class \<open>\s\<close>, and \<open>skipWhitespace\<close>.\<close>

definition js_space :: "unit16 \<Rightarrow> bool" where
  "js_space c \<longleftrightarrow> (9 \<le> c \<and> c \<le> 13) \<or> c = 32 \<or> c = 160 \<or> c = 5760 \<or> (8192 \<le> c \<and> c \<le> 8202) \<or>
     c = 8232 \<or> c = 8233 \<or> c = 8239 \<or> c = 8287 \<or> c = 12288 \<or> c = 65279"

definition skipWhitespace :: "jsstr \<Rightarrow> jsstr" where
  "skipWhitespace = dropWhile js_space"

text \<open>
  \<open>JSON_STRING_AT_PATTERN\<close> matches one JSON string, whose parsed value is the key; the rest is
  what follows the match.
\<close>

definition scan_string :: "jsstr \<Rightarrow> (jsstr \<times> jsstr) option" where
  "scan_string = jp_string"

text \<open>\<open>JSON_PRIMITIVE_AT_PATTERN\<close>: what follows the match.\<close>

definition scan_frac :: "jsstr \<Rightarrow> jsstr" where
  "scan_frac s = (case s of
     c # r \<Rightarrow> if c = 46 \<and> fst (digits_of r) \<noteq> [] then snd (digits_of r) else s
   | [] \<Rightarrow> s)"

definition scan_exp :: "jsstr \<Rightarrow> jsstr" where
  "scan_exp s = (case s of
     c # r \<Rightarrow>
       (let r' = (if r \<noteq> [] \<and> (hd r = 45 \<or> hd r = 43) then tl r else r) in
        if (c = 101 \<or> c = 69) \<and> fst (digits_of r') \<noteq> [] then snd (digits_of r') else s)
   | [] \<Rightarrow> s)"

definition scan_number :: "jsstr \<Rightarrow> jsstr option" where
  "scan_number s = (case jp_int (if s \<noteq> [] \<and> hd s = 45 then tl s else s) of
     Some (_, r) \<Rightarrow> Some (scan_exp (scan_frac r)) | None \<Rightarrow> None)"

definition scan_primitive :: "jsstr \<Rightarrow> jsstr option" where
  "scan_primitive s = (case scan_number s of Some r \<Rightarrow> Some r | None \<Rightarrow>
     (case strip_prefix (js ''true'') s of Some r \<Rightarrow> Some r | None \<Rightarrow>
     (case strip_prefix (js ''false'') s of Some r \<Rightarrow> Some r | None \<Rightarrow> strip_prefix (js ''null'') s)))"

text \<open>
  \<open>parseValue(depth)\<close> and its two loops, returning the text after the value; \<open>None\<close> stands for
  the error. The first argument bounds the recursion.
\<close>

fun scan_value :: "nat \<Rightarrow> nat \<Rightarrow> jsstr \<Rightarrow> jsstr option"
  and scan_members :: "nat \<Rightarrow> nat \<Rightarrow> jsstr list \<Rightarrow> jsstr \<Rightarrow> jsstr option"
  and scan_elements :: "nat \<Rightarrow> nat \<Rightarrow> jsstr \<Rightarrow> jsstr option" where
  "scan_value 0 _ _ = None"
| "scan_value (Suc n) depth s = (case skipWhitespace s of
     [] \<Rightarrow> scan_primitive []
   | c # r \<Rightarrow>
     if c = 123 then
       (if \<not> depth < MAX_JSON_NESTING_DEPTH then None
        else case skipWhitespace r of
          [] \<Rightarrow> None
        | d # r' \<Rightarrow> if d = 125 then Some r' else scan_members n depth [] (d # r'))
     else if c = 91 then
       (if \<not> depth < MAX_JSON_NESTING_DEPTH then None
        else case skipWhitespace r of
          [] \<Rightarrow> None
        | d # r' \<Rightarrow> if d = 93 then Some r' else scan_elements n depth (d # r'))
     else if c = 34 then map_option snd (scan_string (c # r))
     else scan_primitive (c # r))"
| "scan_members 0 _ _ _ = None"
| "scan_members (Suc n) depth keys s =
     do { (key, r) \<leftarrow> scan_string (skipWhitespace s);
          (if key \<in> set keys then None else case skipWhitespace r of
             [] \<Rightarrow> None
           | c # r1 \<Rightarrow> if c \<noteq> 58 then None else
               do { r2 \<leftarrow> scan_value n (depth + 1) r1;
                    (case skipWhitespace r2 of
                       [] \<Rightarrow> None
                     | d # r3 \<Rightarrow>
                         if d = 125 then Some r3
                         else if d = 44 then scan_members n depth (key # keys) r3 else None) }) }"
| "scan_elements 0 _ _ = None"
| "scan_elements (Suc n) depth s =
     do { r \<leftarrow> scan_value n (depth + 1) s;
          (case skipWhitespace r of
             [] \<Rightarrow> None
           | c # r1 \<Rightarrow> if c = 93 then Some r1
               else if c = 44 then scan_elements n depth r1 else None) }"

definition assertNoDuplicateJsonObjectKeys :: "jsstr \<Rightarrow> check" where
  "assertNoDuplicateJsonObjectKeys serialized =
     (case scan_value (Suc (2 * length serialized)) 0 serialized of
        Some r \<Rightarrow> ensure (skipWhitespace r = []) Invalid_session_manifest
      | None \<Rightarrow> Some Invalid_session_manifest)"

section \<open>Parsing and serializing manifests\<close>

definition parseSessionManifest :: "jsval \<Rightarrow> jsval result" where
  "parseSessionManifest v = (case v of
     JStr serialized \<Rightarrow> guarded
       [ensure (utf8_length serialized \<le> 64 * 1024) Invalid_session_manifest,
        assertNoDuplicateJsonObjectKeys serialized]
       (case JSON_parse serialized of
          Some parsed \<Rightarrow> assertSessionManifest parsed
        | None \<Rightarrow> Inl Invalid_session_manifest)
   | _ \<Rightarrow> Inl Invalid_session_manifest)"

definition canonical_manifest :: "jsval \<Rightarrow> jsval" where
  "canonical_manifest value = plain_obj
     [(''schemaVersion'', fld value ''schemaVersion''),
      (''sessionId'', fld value ''sessionId''),
      (''codex'', pick [''rootThreadId'', ''sessionId'', ''ephemeral'', ''historyMode''] (fld value ''codex'')),
      (''runtime'', pick [''imageDigest'', ''imageMediaType'', ''platform'', ''codexVersion'', ''codexSandbox'']
         (fld value ''runtime'')),
      (''layoutVersion'', fld value ''layoutVersion''),
      (''authMode'', fld value ''authMode''),
      (''agents'', pick [''defaultMaxSubagents'', ''maxSubagents'', ''maxDepth''] (fld value ''agents''))]"

text \<open>The validated manifest always has a JSON form; the last branch is never taken.\<close>

definition serializeSessionManifest :: "jsval \<Rightarrow> jsval result" where
  "serializeSessionManifest manifest =
     rbind (assertSessionManifest manifest) (\<lambda>value.
       case JSON_stringify 2 (canonical_manifest value) of
         Some text \<Rightarrow> Inr (JStr (text @ [10]))
       | None \<Rightarrow> Inl Invalid_session_manifest)"

section \<open>The scanner on accepted texts\<close>

fun unique_keys :: "nat \<Rightarrow> json \<Rightarrow> bool" where
  "unique_keys depth (JsArr vs) \<longleftrightarrow> depth < MAX_JSON_NESTING_DEPTH \<and> (\<forall>v \<in> set vs. unique_keys (depth + 1) v)"
| "unique_keys depth (JsObj kvs) \<longleftrightarrow> depth < MAX_JSON_NESTING_DEPTH \<and> distinct (map fst kvs) \<and>
     (\<forall>kv \<in> set kvs. unique_keys (depth + 1) (snd kv))"
| "unique_keys depth _ \<longleftrightarrow> True"

lemma json_ws_space: "json_ws c \<Longrightarrow> js_space c"
  by (auto simp: json_ws_def js_space_def)

lemma skip_agrees:
  assumes "skip_ws s = c # r" and "\<not> js_space c"
  shows "skipWhitespace s = c # r"
proof -
  have "skipWhitespace s = skipWhitespace (skip_ws s)"
    unfolding skipWhitespace_def skip_ws_def
    by (induction s) (auto simp: json_ws_space)
  with assms show ?thesis by (simp add: skipWhitespace_def)
qed

lemma skip_end: "skip_ws s = [] \<Longrightarrow> skipWhitespace s = []"
  by (auto simp: skip_ws_def skipWhitespace_def dropWhile_eq_Nil_conv json_ws_space)

lemma structural_space [simp]:
  "\<not> js_space 123" "\<not> js_space 125" "\<not> js_space 91" "\<not> js_space 93" "\<not> js_space 34" "\<not> js_space 44" "\<not> js_space 58"
  by (simp_all add: js_space_def)

lemma jp_int_head: "jp_int s = Some x \<Longrightarrow> \<exists>c r. s = c # r \<and> is_digit c"
  by (auto simp: jp_int_def is_digit_def split: list.splits if_splits)

lemma scan_number_agrees:
  assumes "jp_number s = Some (x, r)"
  shows "scan_number s = Some r"
proof -
  let ?t = "if s \<noteq> [] \<and> hd s = 45 then tl s else s"
  obtain i r0 f r1 e where p: "jp_int ?t = Some (i, r0)" "jp_frac r0 = Some (f, r1)" "jp_exp r1 = Some (e, r)"
    using assms by (auto simp: jp_number_def Let_def split: Option.bind_splits)
  from p(2) have "scan_frac r0 = r1"
    by (auto simp: jp_frac_def scan_frac_def split: list.splits if_splits prod.splits)
  moreover from p(3) have "scan_exp r1 = r"
    by (auto simp: jp_exp_def scan_exp_def Let_def split: list.splits if_splits prod.splits)
  ultimately show ?thesis using p(1) by (simp add: scan_number_def)
qed

lemma literal_head:
  assumes "strip_prefix (js p) s = Some r" and "p \<in> {''true'', ''false'', ''null''}"
  shows "scan_number s = None" and "\<exists>c t. s = c # t \<and> \<not> js_space c"
    and "q \<in> {''true'', ''false'', ''null''} \<Longrightarrow> q \<noteq> p \<Longrightarrow> strip_prefix (js q) s = None"
  using assms
  by (cases s; auto simp: strip_prefix_def js_def scan_number_def jp_int_def is_digit_def js_space_def
      split: if_splits)+

lemma scan_primitive_agrees:
  assumes "jp_atom s = Some (j, r)"
  shows "scan_primitive s = Some r" and "unique_keys d j" and "\<exists>c t. s = c # t \<and> \<not> js_space c"
proof -
  consider (literal) p where "p \<in> {''true'', ''false'', ''null''}" "strip_prefix (js p) s = Some r"
      "j \<in> {JsNull, JsBool True, JsBool False}"
    | (number) x where "jp_number s = Some (x, r)" "j = JsNum x"
    using assms by (auto simp: jp_atom_def split: option.splits Option.bind_splits)
  then have "scan_primitive s = Some r \<and> unique_keys d j \<and> (\<exists>c t. s = c # t \<and> \<not> js_space c)"
  proof cases
    case literal
    have "scan_primitive s = Some r"
      using literal(1,2) literal_head(1) [OF literal(2,1)] literal_head(3) [OF literal(2,1), of "''true''"]
        literal_head(3) [OF literal(2,1), of "''false''"] literal_head(3) [OF literal(2,1), of "''null''"]
      by (elim insertE emptyE) (simp_all add: scan_primitive_def)
    with literal literal_head(2) [OF literal(2,1)] show ?thesis by auto
  next
    case number
    obtain i r0 where "jp_int (if s \<noteq> [] \<and> hd s = 45 then tl s else s) = Some (i, r0)"
      using number(1) by (auto simp: jp_number_def Let_def split: Option.bind_splits)
    then have "\<exists>c t. s = c # t \<and> \<not> js_space c"
      by (cases s) (auto dest!: jp_int_head simp: js_space_def is_digit_def word_le_nat_alt split: if_splits)
    with number scan_number_agrees [OF number(1)] show ?thesis by (simp add: scan_primitive_def)
  qed
  then show "scan_primitive s = Some r" "unique_keys d j" "\<exists>c t. s = c # t \<and> \<not> js_space c" by blast+
qed

lemma jp_string_head: "jp_string s = Some x \<Longrightarrow> \<exists>t. s = 34 # t"
  by (auto simp: jp_string_def split: list.splits if_splits)

lemma scan_string_agrees:
  assumes "jp_string (skip_ws s) = Some x"
  shows "scan_string (skipWhitespace s) = Some x"
proof -
  obtain t where "skip_ws s = 34 # t" using jp_string_head [OF assms] by blast
  with skip_agrees [OF this] assms show ?thesis by (simp add: scan_string_def)
qed

lemma jp_value_head:
  assumes "jp_value n s = Some x"
  obtains c t where "skip_ws s = c # t" "\<not> js_space c" "c \<noteq> 93" "skipWhitespace s = c # t"
proof -
  obtain m c t where n: "n = Suc m" and s: "skip_ws s = c # t"
    using assms by (cases n) (auto split: list.splits)
  have bad: "jp_atom (93 # t) = None"
    by (simp add: jp_atom_def strip_prefix_def js_def jp_number_def Let_def jp_int_def is_digit_def)
  have "c = 123 \<or> c = 91 \<or> c = 34 \<or> (\<exists>j r. jp_atom (c # t) = Some (j, r))"
    using assms by (auto simp: n s split: if_splits)
  then have "\<not> js_space c" "c \<noteq> 93"
    using scan_primitive_agrees(3) [of "c # t"] bad by auto
  with s that show thesis using skip_agrees by blast
qed

lemma jp_elements_value:
  "jp_elements n s = Some x \<Longrightarrow> \<exists>m y. jp_value m s = Some y"
  by (cases n) (auto split: Option.bind_splits)

lemma skip_idem [simp]: "skipWhitespace (skipWhitespace s) = skipWhitespace s"
  by (simp add: skipWhitespace_def)

lemma scan_skip:
  "scan_value n d (skipWhitespace s) = scan_value n d s"
  "scan_members n d ks (skipWhitespace s) = scan_members n d ks s"
  "scan_elements n d (skipWhitespace s) = scan_elements n d s"
proof -
  show v: "scan_value n d (skipWhitespace s) = scan_value n d s" for n d s
    by (cases n) simp_all
  show "scan_members n d ks (skipWhitespace s) = scan_members n d ks s" by (cases n) simp_all
  show "scan_elements n d (skipWhitespace s) = scan_elements n d s"
    by (cases n) (simp_all add: v)
qed

lemma scan_agrees:
  "jp_value n s = Some (j, r) \<Longrightarrow> scan_value n d s = (if unique_keys d j then Some r else None)"
  "jp_members n s = Some (kvs, r) \<Longrightarrow> scan_members n d keys s =
     (if distinct (map fst kvs) \<and> set (map fst kvs) \<inter> set keys = {} \<and>
        (\<forall>kv \<in> set kvs. unique_keys (d + 1) (snd kv)) then Some r else None)"
  "jp_elements n s = Some (vs, r) \<Longrightarrow>
     scan_elements n d s = (if \<forall>v \<in> set vs. unique_keys (d + 1) v then Some r else None)"
proof (induction n s and n s and n s arbitrary: j r d and kvs r d keys and vs r d
    rule: jp_value_jp_members_jp_elements.induct)
  case (2 n s)
  obtain c t where s: "skip_ws s = c # t" "skipWhitespace s = c # t"
    using 2(3) by (rule jp_value_head)
  consider (object) "c = 123" | (array) "c = 91" | (str) "c = 34" | (atom) "c \<noteq> 123" "c \<noteq> 91" "c \<noteq> 34" by blast
  then show ?case
  proof cases
    case object
    with 2(3) s obtain e t' where t: "skip_ws t = e # t'" by (auto split: list.splits)
    show ?thesis
    proof (cases "e = 125")
      case True
      with 2(3) s t object skip_agrees [OF t] show ?thesis by auto
    next
      case False
      with 2(3) s t object obtain kvs where k: "jp_members n t = Some (kvs, r)" "j = JsObj kvs"
        by (auto split: Option.bind_splits)
      from k(1) have e: "e = 34" using t by (auto elim: jp_members_head)
      have "scan_members n d [] (skipWhitespace t) =
          (if distinct (map fst kvs) \<and> (\<forall>kv \<in> set kvs. unique_keys (d + 1) (snd kv)) then Some r else None)"
        unfolding scan_skip using 2(1) [OF s(1) object t False k(1), of d "[]"] by simp
      with s object skip_agrees [OF t] e k(2) show ?thesis by simp
    qed
  next
    case array
    with 2(3) s obtain e t' where t: "skip_ws t = e # t'" by (auto split: list.splits)
    show ?thesis
    proof (cases "e = 93")
      case True
      with 2(3) s t array skip_agrees [OF t] show ?thesis by auto
    next
      case False
      with 2(3) s t array obtain vs where k: "jp_elements n t = Some (vs, r)" "j = JsArr vs"
        by (auto split: Option.bind_splits)
      obtain m y where "jp_value m t = Some y" using jp_elements_value [OF k(1)] by blast
      then have sk: "skipWhitespace t = e # t'" using t by (auto elim: jp_value_head)
      have "scan_elements n d (skipWhitespace t) = (if \<forall>v \<in> set vs. unique_keys (d + 1) v then Some r else None)"
        unfolding scan_skip using 2(2) [OF s(1) _ array t False k(1), of d] array by simp
      with s array sk False k(2) show ?thesis by simp
    qed
  next
    case str
    with 2(3) s show ?thesis by (auto simp: scan_string_def jp_string_def split: Option.bind_splits)
  next
    case atom
    with 2(3) s have "jp_atom (c # t) = Some (j, r)" by simp
    from scan_primitive_agrees(1,2) [OF this] atom s show ?thesis by simp
  qed
next
  case (4 n s)
  obtain k r0 r1 v r2 c r3 where m: "jp_string (skip_ws s) = Some (k, r0)" "skip_ws r0 = 58 # r1"
    "jp_value n r1 = Some (v, r2)" "skip_ws r2 = c # r3"
    and c: "c = 125 \<and> r = r3 \<and> kvs = [(k, v)] \<or>
     c = 44 \<and> (\<exists>kvs'. jp_members n r3 = Some (kvs', r) \<and> kvs = (k, v) # kvs')"
    using 4(3) by (rule jp_members_SucE)
  have v: "scan_value n (d + 1) r1 = (if unique_keys (d + 1) v then Some r2 else None)"
    by (rule 4(1) [OF m(1) refl m(2) _ m(3)]) simp
  have sp: "\<not> js_space c" using c by auto
  note steps = scan_string_agrees [OF m(1)] skip_agrees [OF m(2)] v skip_agrees [OF m(4) sp]
  show ?case
  proof (cases "c = 125")
    case True
    with c have "r = r3" "kvs = [(k, v)]" by auto
    with True steps show ?thesis by auto
  next
    case False
    with c obtain kvs' where c': "c = 44" and k: "jp_members n r3 = Some (kvs', r)" "kvs = (k, v) # kvs'" by auto
    have "scan_members n d (k # keys) r3 =
        (if distinct (map fst kvs') \<and> set (map fst kvs') \<inter> set (k # keys) = {} \<and>
           (\<forall>kv \<in> set kvs'. unique_keys (d + 1) (snd kv)) then Some r else None)"
      by (rule 4(2) [OF m(1) refl m(2) _ m(3) refl m(4) False c' k(1)]) simp
    with c' steps k(2) show ?thesis by auto
  qed
next
  case (6 n s)
  obtain v r1 c r2 where m: "jp_value n s = Some (v, r1)" "skip_ws r1 = c # r2"
    and c: "c = 93 \<and> r = r2 \<and> vs = [v] \<or> c = 44 \<and> (\<exists>vs'. jp_elements n r2 = Some (vs', r) \<and> vs = v # vs')"
    using 6(3) by (rule jp_elements_SucE)
  have sp: "\<not> js_space c" using c by auto
  note steps = 6(1) [OF m(1), of "d + 1"] skip_agrees [OF m(2) sp]
  show ?case
  proof (cases "c = 93")
    case True
    with c steps show ?thesis by auto
  next
    case False
    with c obtain vs' where c': "c = 44" and k: "jp_elements n r2 = Some (vs', r)" "vs = v # vs'" by auto
    have "scan_elements n d r2 = (if \<forall>v \<in> set vs'. unique_keys (d + 1) v then Some r else None)"
      by (rule 6(2) [OF m(1) refl m(2) False c' k(1)])
    with c' steps k(2) show ?thesis by auto
  qed
qed simp_all

lemma scanner_accepts:
  assumes "json_parse s = Some j"
  shows "assertNoDuplicateJsonObjectKeys s = None \<longleftrightarrow> unique_keys 0 j"
proof -
  obtain r where r: "jp_value (Suc (2 * length s)) s = Some (j, r)" "skip_ws r = []"
    using assms by (auto simp: json_parse_def split: option.splits if_splits simp del: jp_value.simps)
  from scan_agrees(1) [OF r(1), of 0] skip_end [OF r(2)] show ?thesis
    by (simp add: assertNoDuplicateJsonObjectKeys_def del: scan_value.simps)
qed

text \<open>
  C25: A text that \<open>JSON.parse\<close> accepts is taken as a manifest exactly when it has at most 64 KiB
  in UTF-8, no object of the parsed tree has two members with the same key, no object or array is
  nested more than 16 deep, and the parsed value is a valid manifest. So a manifest never hides a
  second value of a field that \<open>JSON.parse\<close> would drop silently.
\<close>
theorem scanner_rejects_exactly_duplicate_keys:
  assumes "json_parse s = Some j"
  shows "(\<exists>m. parseSessionManifest (JStr s) = Inr m) \<longleftrightarrow>
    utf8_length s \<le> 65536 \<and> unique_keys 0 j \<and> (\<exists>m. assertSessionManifest (of_json j) = Inr m)"
  using assms scanner_accepts [OF assms] by (simp add: parseSessionManifest_def JSON_parse_def)

section \<open>Serialized manifests\<close>

text \<open>The JSON tree of a manifest, from the trees of its fields.\<close>

definition json_fields :: "string list \<Rightarrow> jsval \<Rightarrow> (jsstr \<times> json) list" where
  "json_fields ks v = map (\<lambda>k. (js k, case prim_json (fld v k) of Some j \<Rightarrow> j | None \<Rightarrow> JsNull)) ks"

lemma to_members_plain:
  assumes "\<forall>(k, v) \<in> set kvs. \<not> json_absent v \<and> to_json v = Some (f k)"
  shows "to_json (plain_obj kvs) = Some (JsObj (map (\<lambda>(k, v). (js k, f k)) kvs))"
proof -
  have "to_members (map (\<lambda>(k, v). (key k, DataDesc True v)) kvs) = Some (map (\<lambda>(k, v). (js k, f k)) kvs)"
    using assms by (induction kvs) auto
  then show ?thesis by (simp add: plain_obj_def)
qed

lemma pick_json:
  assumes "\<forall>k \<in> set ks. prim_json (fld v k) \<noteq> None"
  shows "to_json (pick ks v) = Some (JsObj (json_fields ks v))" and "printable (JsObj (json_fields ks v))"
proof -
  let ?f = "\<lambda>k. case prim_json (fld v k) of Some j \<Rightarrow> j | None \<Rightarrow> JsNull"
  have "to_json (pick ks v) = Some (JsObj (map (\<lambda>(k, v). (js k, ?f k)) (map (\<lambda>k. (k, fld v k)) ks)))"
    unfolding pick_def by (rule to_members_plain) (use assms prim_json_Some(1,4) in fastforce)
  then show "to_json (pick ks v) = Some (JsObj (json_fields ks v))" by (simp add: json_fields_def comp_def)
  show "printable (JsObj (json_fields ks v))"
    using assms prim_json_Some(2) by (fastforce simp: json_fields_def)
qed

lemma of_json_fields:
  assumes "\<forall>k \<in> set ks. prim_json (fld v k) \<noteq> None" and "distinct ks"
  shows "of_json (JsObj (json_fields ks v)) = pick ks v"
proof -
  have "distinct (map fst (json_fields ks v))"
    using assms(2) by (simp add: json_fields_def comp_def distinct_map inj_on_def)
  then have "of_json (JsObj (json_fields ks v)) =
      JObj JObjectPrototype (map (\<lambda>(k, v). (KStr k, DataDesc True (of_json v))) (json_fields ks v))"
    by (rule of_json_obj)
  also have "\<dots> = pick ks v"
    using assms(1) prim_json_Some(3) by (fastforce simp: json_fields_def pick_def plain_obj_def)
  finally show ?thesis .
qed

abbreviation codex_order :: "string list" where
  "codex_order \<equiv> [''rootThreadId'', ''sessionId'', ''ephemeral'', ''historyMode'']"

abbreviation runtime_order :: "string list" where
  "runtime_order \<equiv> [''imageDigest'', ''imageMediaType'', ''platform'', ''codexVersion'', ''codexSandbox'']"

abbreviation agents_order :: "string list" where
  "agents_order \<equiv> [''defaultMaxSubagents'', ''maxSubagents'', ''maxDepth'']"

text \<open>What the validator says of the fields, in the form serialization needs.\<close>

lemma string_prim_json: "is_string v \<Longrightarrow> prim_json v = Some (JsStr (str_of v))"
  by (cases v) (simp_all add: str_of_def)

lemma manifest_strings:
  assumes "list_all (\<lambda>c. c = None) (manifest_checks f)"
  shows "is_string (f ''sessionId'')"
    and "is_string (fld (f ''codex'') ''rootThreadId'')" "is_string (fld (f ''codex'') ''sessionId'')"
      "is_string (fld (f ''codex'') ''historyMode'')"
    and "k \<in> set runtime_order \<Longrightarrow> is_string (fld (f ''runtime'') k)"
proof -
  have u: "isCanonicalUuid v \<Longrightarrow> is_string v" "pattern_ok p v \<Longrightarrow> is_string v" "codex_version_ok v \<Longrightarrow> is_string v" for v p
    by (cases v; simp add: isCanonicalUuid_def pattern_ok_def codex_version_ok_def)+
  show "is_string (f ''sessionId'')"
    "is_string (fld (f ''codex'') ''rootThreadId'')" "is_string (fld (f ''codex'') ''sessionId'')"
    "is_string (fld (f ''codex'') ''historyMode'')" "k \<in> set runtime_order \<Longrightarrow> is_string (fld (f ''runtime'') k)"
    using assms by (auto simp: manifest_checks_def intro: u)
qed

lemma agents_numbers:
  assumes "assertAgentPolicy v = None" and "k \<in> set agents_order"
  shows "prim_json (fld v k) \<noteq> None"
proof -
  have "is_safe_integer (fld v k)" using assms by (auto simp: assertAgentPolicy_def)
  then show ?thesis by (auto simp: is_safe_integer_def split: jsval.splits)
qed

definition manifest_json :: "jsval \<Rightarrow> json" where
  "manifest_json v = JsObj
     [(js ''schemaVersion'', JsNum (JFin 1)), (js ''sessionId'', JsStr (str_of (fld v ''sessionId''))),
      (js ''codex'', JsObj (json_fields codex_order (fld v ''codex''))),
      (js ''runtime'', JsObj (json_fields runtime_order (fld v ''runtime''))),
      (js ''layoutVersion'', JsNum (JFin 1)), (js ''authMode'', JsStr (js SESSION_AUTH_MODE)),
      (js ''agents'', JsObj (json_fields agents_order (fld v ''agents'')))]"

lemma manifest_prims:
  assumes "assertSessionManifest m = Inr v"
  shows "\<forall>k \<in> set codex_order. prim_json (fld (fld v ''codex'') k) \<noteq> None"
    and "\<forall>k \<in> set runtime_order. prim_json (fld (fld v ''runtime'') k) \<noteq> None"
    and "\<forall>k \<in> set agents_order. prim_json (fld (fld v ''agents'') k) \<noteq> None"
    and "fld v ''schemaVersion'' = JInt 1" "fld v ''layoutVersion'' = JInt 1"
      "fld v ''authMode'' = lit SESSION_AUTH_MODE" "fld v ''sessionId'' = JStr (str_of (fld v ''sessionId''))"
proof -
  note ok = manifest.result_checks [OF assms]
  have e: "fld (fld v ''codex'') ''ephemeral'' = JBool False" and a: "assertAgentPolicy (fld v ''agents'') = None"
    using ok by (simp_all add: manifest_checks_def)
  show "\<forall>k \<in> set codex_order. prim_json (fld (fld v ''codex'') k) \<noteq> None"
    using manifest_strings(2-4) [OF ok] e by (simp add: string_prim_json)
  show "\<forall>k \<in> set runtime_order. prim_json (fld (fld v ''runtime'') k) \<noteq> None"
    using manifest_strings(5) [OF ok] by (simp add: string_prim_json)
  show "\<forall>k \<in> set agents_order. prim_json (fld (fld v ''agents'') k) \<noteq> None"
    using agents_numbers [OF a] by blast
  show "fld v ''schemaVersion'' = JInt 1" "fld v ''layoutVersion'' = JInt 1"
      "fld v ''authMode'' = lit SESSION_AUTH_MODE"
    using ok by (simp_all add: manifest_checks_def SESSION_MANIFEST_SCHEMA_VERSION_def SESSION_LAYOUT_VERSION_def)
  show "fld v ''sessionId'' = JStr (str_of (fld v ''sessionId''))"
    using manifest_strings(1) [OF ok] by (cases "fld v ''sessionId''") (simp_all add: str_of_def)
qed

lemma manifest_to_json:
  assumes "assertSessionManifest m = Inr v"
  shows "to_json (canonical_manifest v) = Some (manifest_json v)" and "printable (manifest_json v)"
    and "of_json (manifest_json v) = canonical_manifest v" and "unique_keys 0 (manifest_json v)"
proof -
  note p = manifest_prims [OF assms]
  have one: "num_is_safe_integer (JFin 1)" "num_is_finite (JFin 1)"
    by (simp_all add: num_is_safe_integer_def num_is_finite_def)
  obtain t where t: "fld v ''sessionId'' = JStr t" using p(7) by blast
  have sid: "\<not> json_absent (fld v ''sessionId'')" "to_json (fld v ''sessionId'') = Some (JsStr (str_of (fld v ''sessionId'')))"
    by (simp_all add: t str_of_def)
  have absent: "\<not> json_absent (pick ks x)" for ks x by (simp add: pick_def plain_obj_def)
  show "to_json (canonical_manifest v) = Some (manifest_json v)"
    unfolding canonical_manifest_def manifest_json_def plain_obj_def
    by (simp add: p(4-6) sid one absent pick_json(1) [OF p(1)] pick_json(1) [OF p(2)] pick_json(1) [OF p(3)])
  show "printable (manifest_json v)"
    using pick_json(2) [OF p(1)] pick_json(2) [OF p(2)] pick_json(2) [OF p(3)] one
    by (simp add: manifest_json_def)
  have "of_json (manifest_json v) = plain_obj
     [(''schemaVersion'', JInt 1), (''sessionId'', JStr (str_of (fld v ''sessionId''))),
      (''codex'', of_json (JsObj (json_fields codex_order (fld v ''codex'')))),
      (''runtime'', of_json (JsObj (json_fields runtime_order (fld v ''runtime'')))),
      (''layoutVersion'', JInt 1), (''authMode'', lit SESSION_AUTH_MODE),
      (''agents'', of_json (JsObj (json_fields agents_order (fld v ''agents''))))]"
    unfolding manifest_json_def plain_obj_def by (subst of_json_obj) simp_all
  also have "\<dots> = canonical_manifest v"
    using of_json_fields [OF p(1)] of_json_fields [OF p(2)] of_json_fields [OF p(3)]
    by (simp add: p(4-6) canonical_manifest_def p(7) [symmetric] del: of_json.simps)
  finally show "of_json (manifest_json v) = canonical_manifest v" .
  have leaf: "unique_keys d (case prim_json x of Some j \<Rightarrow> j | None \<Rightarrow> JsNull)" for d x
    by (cases x) (simp_all split: option.splits)
  show "unique_keys 0 (manifest_json v)"
    by (simp add: manifest_json_def MAX_JSON_NESTING_DEPTH_def json_fields_def leaf)
qed

lemma pick_clone:
  assumes "\<forall>k \<in> set ks. data_prim (fld v k)" and "distinct ks"
  shows "structured_clone (pick ks v) = Some (pick ks v)"
  unfolding pick_def by (rule clone_plain_obj) (use assms in \<open>auto simp: comp_def clone_data_prim\<close>)

lemma pick_exact: "distinct ks \<Longrightarrow> length ks' = length ks \<Longrightarrow> set ks \<subseteq> set ks' \<Longrightarrow> exact_object (pick ks v) ks'"
  unfolding pick_def by (rule exact_plain_obj) (simp_all add: comp_def image_image)

lemma prim_json_data: "prim_json v \<noteq> None \<Longrightarrow> data_prim v"
  by (cases v) simp_all

lemma canonical_accepted:
  assumes "assertSessionManifest m = Inr v"
  shows "assertSessionManifest (canonical_manifest v) = Inr (canonical_manifest v)"
proof -
  note p = manifest_prims [OF assms] and ok = manifest.result_checks [OF assms]
  have sub: "exact_object (pick codex_order (fld v ''codex'')) codex_keys"
    "exact_object (pick runtime_order (fld v ''runtime'')) runtime_keys"
    "exact_object (pick agents_order (fld v ''agents'')) agent_policy_keys"
    by (intro pick_exact; simp add: codex_keys_def runtime_keys_def agent_policy_keys_def)+
  have c: "structured_clone (pick codex_order (fld v ''codex'')) = Some (pick codex_order (fld v ''codex''))"
    "structured_clone (pick runtime_order (fld v ''runtime'')) = Some (pick runtime_order (fld v ''runtime''))"
    "structured_clone (pick agents_order (fld v ''agents'')) = Some (pick agents_order (fld v ''agents''))"
    using p(1-3) prim_json_data by (auto intro!: pick_clone)
  have a: "assertAgentPolicy (pick agents_order (fld v ''agents'')) = None"
    using ok sub(3) by (auto simp: manifest_checks_def assertAgentPolicy_def fld_pick)
  have "exact_object (canonical_manifest v) manifest_keys"
    unfolding canonical_manifest_def by (rule exact_plain_obj) (simp_all add: manifest_keys_def)
  moreover have "structured_clone (canonical_manifest v) = Some (canonical_manifest v)"
    unfolding canonical_manifest_def
    by (rule clone_plain_obj) (simp_all add: c p(4-6), subst p(7), subst p(7), simp)
  moreover have "list_all (\<lambda>c. c = None) (manifest_checks (fld (canonical_manifest v)))"
    using ok sub a unfolding canonical_manifest_def
    by (simp add: manifest_checks_def fld_plain_obj fld_pick)
  ultimately show ?thesis by (simp add: manifest.accepted)
qed

lemma canonical_again: "canonical_manifest (canonical_manifest v) = canonical_manifest v"
  by (simp add: canonical_manifest_def fld_plain_obj pick_def)

section \<open>The text stays within its bound\<close>

lemma quote_step:
  obtains (pair) l u where "s = l # u" "quote_units (c # s) = c # l # quote_units u"
  | (unit) e where "length e \<le> 6" "quote_units (c # s) = e @ quote_units s"
proof (cases "\<not> (c < 32 \<or> c = 34 \<or> c = 92) \<and> hi_surrogate c \<and> s \<noteq> [] \<and> lo_surrogate (hd s)")
  case True
  then obtain l u where "s = l # u" by (cases s) auto
  with True pair show thesis by simp
next
  case False
  let ?e = "if c < 32 \<or> c = 34 \<or> c = 92 \<or> hi_surrogate c \<or> lo_surrogate c then escape_unit c else [c]"
  have "quote_units (c # s) = ?e @ quote_units s"
    unfolding quote_units.simps(2) [of c s] using False by (cases s) (auto simp del: quote_units.simps(2))
  moreover have "length ?e \<le> 6" by (simp add: escape_unit_def unicode_escape_def)
  ultimately show thesis by (rule unit [rotated])
qed

lemma quote_length: "length (json_quote s) \<le> 6 * length s + 2"
proof -
  have "length (quote_units s) \<le> 6 * length s"
  proof (induction s rule: length_induct)
    case (1 s)
    show ?case
    proof (cases s)
      case (Cons c t)
      show ?thesis
      proof (cases t c rule: quote_step)
        case (pair l u)
        with 1 Cons have "length (quote_units u) \<le> 6 * length u" by simp
        with pair show ?thesis by (simp add: Cons del: quote_units.simps)
      next
        case (unit e)
        from 1 Cons have "length (quote_units t) \<le> 6 * length t" by simp
        with unit show ?thesis by (simp add: Cons del: quote_units.simps)
      qed
    qed simp
  qed
  then show ?thesis by (simp add: json_quote_def)
qed

lemma dec_of_length: "n < 10 ^ k \<Longrightarrow> length (dec_of n) \<le> Suc k"
proof (induction k arbitrary: n)
  case (Suc k)
  then have "n div 10 < 10 ^ k" by simp
  with Suc.IH show ?case by (subst dec_of.simps) simp
qed (simp add: dec_of.simps)

definition short_value :: "jsval \<Rightarrow> bool" where
  "short_value v \<longleftrightarrow> prim_json v \<noteq> None \<and> (case v of JStr s \<Rightarrow> length s \<le> 128 | _ \<Rightarrow> True)"

lemma leaf_length:
  assumes "short_value v"
  shows "length (json_print g l (case prim_json v of Some j \<Rightarrow> j | None \<Rightarrow> JsNull)) \<le> 770"
proof (cases v)
  case (JNum n)
  with assms have "num_is_safe_integer n" by (simp add: short_value_def split: if_splits)
  then obtain i where i: "n = JFin (of_int i)" "\<bar>i\<bar> < 2 ^ 53" by (rule safe_integer_cases)
  then have "nat i < 10 ^ 16" "nat (- i) < 10 ^ 16" by auto
  from this [THEN dec_of_length] show ?thesis
    using assms by (simp add: JNum i int_text_def)
next
  case (JStr s)
  with assms quote_length [of s] show ?thesis by (simp add: short_value_def)
qed (use assms in \<open>auto simp: short_value_def\<close>)

lemma oci_length: "pattern_ok OCI_DIGEST_PATTERN (JStr s) \<Longrightarrow> length s = 71"
proof -
  have "fixed OCI_DIGEST_PATTERN (map (\<lambda>c u. u = c) (js ''sha256:'') @ replicate 64 hex_cls @ [])"
    unfolding OCI_DIGEST_PATTERN_def by (intro fixed_intros)
  then show "pattern_ok OCI_DIGEST_PATTERN (JStr s) \<Longrightarrow> ?thesis"
    by (auto simp: pattern_ok_def fixed_match dest: list_all2_lengthD)
qed

lemma manifest_short:
  assumes "assertSessionManifest m = Inr v"
  shows "k \<in> set codex_order \<Longrightarrow> short_value (fld (fld v ''codex'') k)"
    and "k \<in> set runtime_order \<Longrightarrow> short_value (fld (fld v ''runtime'') k)"
    and "k \<in> set agents_order \<Longrightarrow> short_value (fld (fld v ''agents'') k)"
    and "length (str_of (fld v ''sessionId'')) = 36"
proof -
  note p = manifest_prims [OF assms] and ok = manifest.result_checks [OF assms]
  have u: "length s = 36" if "isCanonicalUuid (JStr s)" for s using that by (simp add: isCanonicalUuid_def)
  have cu: "short_value x" if "isCanonicalUuid x" for x
    using that by (cases x) (simp_all add: short_value_def isCanonicalUuid_def)
  have ci: "short_value x" if "pattern_ok OCI_DIGEST_PATTERN x" for x
    using that oci_length by (cases x) (auto simp: short_value_def pattern_ok_def)
  have cv: "short_value x" if "codex_version_ok x" for x
    using that by (cases x) (auto simp: short_value_def codex_version_ok_def)
  have cl: "short_value (lit t)" if "length t \<le> 128" for t using that by (simp add: short_value_def)
  show "k \<in> set codex_order \<Longrightarrow> short_value (fld (fld v ''codex'') k)"
    using ok cu by (auto simp: manifest_checks_def cl short_value_def)
  show "k \<in> set runtime_order \<Longrightarrow> short_value (fld (fld v ''runtime'') k)"
    using ok ci cv by (auto simp: manifest_checks_def PLATFORM_IMAGE_MEDIA_TYPES_def intro!: cl)
  have "is_safe_integer x \<Longrightarrow> short_value x" for x
    by (cases x) (auto simp: is_safe_integer_def short_value_def)
  then show "k \<in> set agents_order \<Longrightarrow> short_value (fld (fld v ''agents'') k)"
    using ok by (auto simp: manifest_checks_def assertAgentPolicy_def)
  have "isCanonicalUuid (JStr (str_of (fld v ''sessionId'')))"
    using ok p(7) by (simp add: manifest_checks_def)
  then show "length (str_of (fld v ''sessionId'')) = 36" by (rule u)
qed

lemma join_length:
  "length (join_with sep xs) \<le> sum_list (map length xs) + length xs * length sep"
  by (induction sep xs rule: join_with.induct) simp_all

lemma object_length:
  assumes "\<forall>(k, v) \<in> set kvs. length k \<le> 20"
  shows "length (json_print 2 l (JsObj kvs)) \<le>
    sum_list (map (\<lambda>(k, v). length (json_print 2 (l + 1) v)) kvs) + length kvs * (2 * l + 128) + 4 * l + 8"
proof -
  let ?texts = "map (member_text 2 (l + 1)) kvs"
  have "sum_list (map length ?texts) \<le>
      sum_list (map (\<lambda>(k, v). length (json_print 2 (l + 1) v)) kvs) + length kvs * 124"
    using assms
  proof (induction kvs)
    case (Cons kv kvs)
    with quote_length [of "fst kv"] show ?case by (cases kv) auto
  qed simp
  with join_length [of "44 # json_break 2 (l + 1)" ?texts] show ?thesis
    by (simp add: json_break_def algebra_simps)
qed

lemma json_fields_length:
  assumes "\<forall>k \<in> set ks. short_value (fld v k) \<and> length k \<le> 20"
  shows "length (json_print 2 1 (JsObj (json_fields ks v))) \<le> length ks * 900 + 12"
proof -
  have "\<forall>(k, j) \<in> set (json_fields ks v). length k \<le> 20" using assms by (auto simp: json_fields_def)
  moreover have "sum_list (map (\<lambda>(k, j). length (json_print 2 (1 + 1) j)) (json_fields ks v)) \<le> length ks * 770"
    using assms leaf_length unfolding json_fields_def by (induction ks) (auto intro: add_mono)
  ultimately show ?thesis
    using object_length [of "json_fields ks v" 1] by (simp add: json_fields_def)
qed

lemma manifest_text_length:
  assumes "assertSessionManifest m = Inr v"
  shows "length (json_print 2 0 (manifest_json v)) \<le> 13000"
proof -
  note sh = manifest_short [OF assms]
  have l: "length (json_print 2 1 (JsObj (json_fields codex_order (fld v ''codex'')))) \<le> 3612"
    "length (json_print 2 1 (JsObj (json_fields runtime_order (fld v ''runtime'')))) \<le> 4512"
    "length (json_print 2 1 (JsObj (json_fields agents_order (fld v ''agents'')))) \<le> 2712"
    using json_fields_length [of codex_order "fld v ''codex''"] sh(1)
      json_fields_length [of runtime_order "fld v ''runtime''"] sh(2)
      json_fields_length [of agents_order "fld v ''agents''"] sh(3) by simp_all
  have s: "length (json_quote (str_of (fld v ''sessionId''))) \<le> 218" "length (json_quote (js SESSION_AUTH_MODE)) \<le> 176"
    "length (num_text (JFin 1)) = 1"
    using sh(4) quote_length [of "str_of (fld v ''sessionId'')"] quote_length [of "js SESSION_AUTH_MODE"]
    by (simp_all add: SESSION_AUTH_MODE_def int_text_def dec_of.simps)
  show ?thesis
    unfolding manifest_json_def
    by (rule order_trans [OF object_length]) (use l s in \<open>simp_all del: json_print.simps(6)\<close>)
qed

text \<open>
  C24: Serializing an accepted manifest always succeeds, and parsing the text gives the manifest
  back: the same fields in canonical order, which serialize to the same text again.
\<close>
theorem manifest_round_trip:
  assumes "assertSessionManifest m = Inr v"
  shows "\<exists>t. serializeSessionManifest m = Inr t \<and> parseSessionManifest t = Inr (canonical_manifest v) \<and>
    serializeSessionManifest (canonical_manifest v) = Inr t"
proof -
  let ?text = "json_print 2 0 (manifest_json v)"
  note j = manifest_to_json [OF assms] and c = canonical_accepted [OF assms]
  have s: "JSON_stringify 2 (canonical_manifest v) = Some ?text" using j by (simp add: JSON_stringify_def)
  have "json_parse (?text @ [10]) = Some (manifest_json v)"
    using reads_backD [OF print_reads_back [OF j(2)], of "[10]" 2 0 "Suc (2 * length (?text @ [10]))"]
    by (simp add: json_parse_def num_stop_def is_digit_def skip_ws_def json_ws_def del: jp_value.simps json_print.simps)
  moreover from this have "assertNoDuplicateJsonObjectKeys (?text @ [10]) = None"
    using j(4) by (simp add: scanner_accepts)
  moreover have "utf8_length (?text @ [10]) \<le> 64 * 1024"
    using utf8_bounds [of "?text @ [10]"] manifest_text_length [OF assms] by simp
  ultimately have "parseSessionManifest (JStr (?text @ [10])) = Inr (canonical_manifest v)"
    using c j(3) by (simp add: parseSessionManifest_def JSON_parse_def)
  moreover have "serializeSessionManifest m = Inr (JStr (?text @ [10]))"
    using assms s by (simp add: serializeSessionManifest_def)
  moreover have "serializeSessionManifest (canonical_manifest v) = Inr (JStr (?text @ [10]))"
    using c s by (simp add: serializeSessionManifest_def canonical_again)
  ultimately show ?thesis by blast
qed

end
