(* ===== verification/Contract_Examples.thy ===== *)
theory Contract_Examples
  imports Contract_Properties Contract_Json
begin

text \<open>
  Concrete contract records of one session: a lease, a storage reference, an attachment, a
  manifest, mutation and force-fence requests with their results, a checkpoint and a restore. The
  guarantees of \<open>Contract_Properties\<close> are applied to them.
\<close>

section \<open>Records\<close>

abbreviation ex_attachment_fields :: "(string \<times> jsval) list" where
  "ex_attachment_fields \<equiv> [(''attachmentId'', lit ''attachment-1''), (''backendId'', lit ''backend-1''),
     (''contractVersion'', JInt 1), (''fencingEpoch'', lit ''7''), (''holderId'', lit ''holder-1''),
     (''kind'', lit ''directory''), (''leaseId'', lit ''lease-1''), (''mode'', lit ''read-write''),
     (''operationId'', lit ''operation-1''), (''proofId'', lit ''proof-1''), (''rootPath'', lit ''/srv/s1''),
     (''sessionId'', ex_session), (''storageId'', lit ''storage-1'')]"

definition ex_attachment :: jsval where
  "ex_attachment = plain_obj ex_attachment_fields"

abbreviation ex_canonical :: jsval where
  "ex_canonical \<equiv> ex_lease ''2026-08-01T12:00:00.000Z''"

lemma ex_opaque [simp]:
  "isOpaqueId (lit ''attachment-1'')" "isOpaqueId (lit ''backend-1'')" "isOpaqueId (lit ''operation-1'')"
  "isOpaqueId (lit ''proof-1'')" "isOpaqueId (lit ''storage-1'')" "isOpaqueId (lit ''process-1'')"
  "isOpaqueId (lit ''writer-1'')" "isOpaqueId (lit ''stop-1'')"
  by (simp_all add: isOpaqueId_def isAsciiAlphaNumeric_def js_def)

lemma ex_root [simp]: "assertAttachmentRootPath (lit ''/srv/s1'') e = None"
proof -
  have a: "list_all (\<lambda>c. c < 128) (js ''/srv/s1'')" by (simp add: js_def)
  have "normal_path (js ''/srv/s1'')"
    unfolding normal_path_def
    by (rule exI [of _ "[js ''srv'', js ''s1'']"]) (simp add: proper_seg_def js_def)
  then show ?thesis
    using utf8_ascii [OF a] resolve_fixed_iff [of "js ''/srv/s1''"]
    by (simp add: assertAttachmentRootPath_def containsNullCharacter_def) (simp add: js_def)
qed

lemma ex_attachment_ok: "assertSessionAttachment ex_attachment = Inr ex_attachment"
  unfolding assertSessionAttachment_def
  by (simp add: ex_attachment_def attachment_keys_def attachment_checks_def exact_plain_obj clone_plain_obj
      fld_plain_obj defensiveClone_def STORAGE_CONTRACT_VERSION_def guarded_ok)

lemma ex_canonical_ok: "assertLeaseGrant ex_canonical = Inr ex_canonical"
  by (rule ex_lease_ok [OF ex_ts_ok(1)])

text \<open>The lease of the next epoch.\<close>

definition ex_lease8 :: jsval where
  "ex_lease8 = plain_obj [(''contractVersion'', JInt 1), (''expiresAt'', lit ''2026-08-01T12:00:00.000Z''),
     (''fencingEpoch'', lit ''8''), (''holderId'', lit ''holder-1''), (''leaseId'', lit ''lease-1''),
     (''sessionId'', ex_session)]"

lemma ex_lease8_ok: "assertLeaseGrant ex_lease8 = Inr ex_lease8"
  unfolding assertLeaseGrant_def
  by (simp add: ex_lease8_def lease_keys_def lease_checks_def exact_plain_obj clone_plain_obj fld_plain_obj
      defensiveClone_def STORAGE_CONTRACT_VERSION_def)

lemma ex_same_fence: "same_fields fence_fields ex_attachment ex_canonical"
  by (simp add: same_fields_def ex_attachment_def ex_lease_def fld_plain_obj)

text \<open>The simplifier's view of a literal record under a validator.\<close>

lemmas ex_simps = exact_plain_obj clone_plain_obj fld_plain_obj defensiveClone_def
  STORAGE_CONTRACT_VERSION_def guarded_ok

definition ex_storage_ref :: jsval where
  "ex_storage_ref = plain_obj [(''backendId'', lit ''backend-1''), (''contractVersion'', JInt 1),
     (''sessionId'', ex_session), (''storageId'', lit ''storage-1'')]"

lemma ex_storage_ref_ok: "assertSessionStorageRef ex_storage_ref = Inr ex_storage_ref"
  unfolding assertSessionStorageRef_def
  by (simp add: ex_storage_ref_def storage_ref_keys_def storage_ref_checks_def ex_simps)

definition ex_attach_fields :: "(string \<times> jsval) list" where
  "ex_attach_fields = [(''backendId'', lit ''backend-1''), (''contractVersion'', JInt 1),
     (''fencingEpoch'', lit ''7''), (''holderId'', lit ''holder-1''), (''leaseId'', lit ''lease-1''),
     (''operation'', lit ''attach''), (''operationId'', lit ''operation-1''), (''sessionId'', ex_session),
     (''storageId'', lit ''storage-1''),
     (''target'', plain_obj [(''attachmentId'', lit ''attachment-1''), (''kind'', lit ''attachment'')])]"

definition ex_attach :: jsval where
  "ex_attach = plain_obj ex_attach_fields"

definition ex_attach_result :: jsval where
  "ex_attach_result = plain_obj (ex_attach_fields @ [(''proofId'', lit ''proof-1''), (''status'', lit ''attached'')])"

lemma ex_target_ok: "assertStorageMutationTarget (plain_obj [(''attachmentId'', lit ''attachment-1''),
    (''kind'', lit ''attachment'')]) (lit ''attach'') s = None"
  by (simp add: assertStorageMutationTarget_def target_schema_def target_kind_def target_ids_def ex_simps)

lemma ex_target_clone: "structured_clone (plain_obj [(''attachmentId'', lit ''attachment-1''),
    (''kind'', lit ''attachment'')]) = Some (plain_obj [(''attachmentId'', lit ''attachment-1''),
    (''kind'', lit ''attachment'')])"
  by (simp add: ex_simps)

lemma ex_attach_ok: "assertStorageMutationRequest ex_attach = Inr ex_attach"
  unfolding assertStorageMutationRequest_def
  by (simp add: ex_attach_def ex_attach_fields_def mutation_keys_def mutation_checks_def
      mutation_operations_def ex_target_ok ex_target_clone ex_simps)

lemma ex_attach_pick: "pick mutation_keys ex_attach_result = ex_attach"
  by (simp add: pick_def mutation_keys_def ex_attach_result_def ex_attach_def ex_attach_fields_def
      fld_plain_obj)

lemma ex_attach_result_ok:
  assumes "assertOptionsObject options [''request''] [''request''] Invalid_storage_mutation = Inr opts"
    and "fld opts ''request'' = ex_attach"
  shows "assertStorageMutationResult ex_attach_result options = Inr ex_attach_result"
proof -
  have "exact_object ex_attach_result mutation_result_keys" "structured_clone ex_attach_result = Some ex_attach_result"
    by (simp_all add: ex_attach_result_def ex_attach_fields_def mutation_result_keys_def ex_target_clone ex_simps)
  moreover have "fld ex_attach_result ''proofId'' = lit ''proof-1''" "fld ex_attach_result ''status'' = lit ''attached''"
    "fld ex_attach_result ''operation'' = lit ''attach''"
    by (simp_all add: ex_attach_result_def ex_attach_fields_def fld_plain_obj)
  moreover have "targets_match ex_attach ex_attach"
    "same_fields [''backendId'', ''contractVersion'', ''operation'', ''operationId'', ''sessionId'', ''storageId'']
      ex_attach ex_attach" "same_fields [''fencingEpoch'', ''holderId'', ''leaseId''] ex_attach ex_attach"
    by (simp_all add: targets_match_def same_fields_def ex_attach_def ex_attach_fields_def fld_plain_obj)
  ultimately show ?thesis
    using assms ex_attach_ok
    by (simp add: assertStorageMutationResult_def ex_attach_pick operation_status_def defensiveClone_def)
qed

text \<open>Options objects written as literals.\<close>

abbreviation literal_opts :: "(string \<times> jsval) list \<Rightarrow> jsval" where
  "literal_opts \<equiv> exactFrozenRecord"

lemmas fld_literal_opts = fld_frozen

lemma literal_options:
  assumes "distinct (map fst kvs)" and "set (map fst kvs) \<subseteq> set allowed" and "set required \<subseteq> set (map fst kvs)"
  shows "assertOptionsObject (plain_obj kvs) allowed required e = Inr (literal_opts kvs)"
proof -
  obtain opts where o: "assertOptionsObject (plain_obj kvs) allowed required e = Inr opts"
    using options_plain_obj [OF assms] by blast
  have "plainDataDescriptor (plain_obj kvs) (key k) e = Inr v" if "(k, v) \<in> set kvs" for k v
  proof -
    have "map_of kvs k = Some v" using assms(1) that by simp
    then have "own_desc (plain_obj kvs) (key k) = Some (DataDesc True v)"
      by (simp add: plain_obj_def, induction kvs) auto
    then show ?thesis by (simp add: plainDataDescriptor_Inr)
  qed
  then have "opts = literal_opts kvs"
    unfolding options_own(3) [OF o] own_keys_plain_obj [OF assms(1)] exactFrozenRecord_def by auto
  with o show ?thesis by simp
qed

lemmas ex_options = literal_options fld_literal_opts

definition ex_fence_fields :: "(string \<times> jsval) list" where
  "ex_fence_fields = [(''backendId'', lit ''backend-1''), (''contractVersion'', JInt 1),
     (''fencingEpoch'', lit ''8''), (''operationId'', lit ''operation-1''),
     (''revokedFence'', plain_obj [(''fencingEpoch'', lit ''7''), (''holderId'', lit ''holder-1''),
        (''leaseId'', lit ''lease-1'')]),
     (''sessionId'', ex_session), (''storageId'', lit ''storage-1''),
     (''target'', plain_obj [(''attachmentId'', lit ''attachment-1''), (''kind'', lit ''attachment'')])]"

definition ex_fence :: jsval where
  "ex_fence = plain_obj ex_fence_fields"

definition ex_fence_result :: jsval where
  "ex_fence_result = plain_obj (ex_fence_fields @ [(''proofId'', lit ''proof-1''), (''status'', lit ''fenced'')])"

lemma ex_revoked_ok: "assertStorageForceFenceRevokedFence (plain_obj [(''fencingEpoch'', lit ''7''),
    (''holderId'', lit ''holder-1''), (''leaseId'', lit ''lease-1'')]) = Inr 7"
  by (simp add: assertStorageForceFenceRevokedFence_def revoked_fence_keys_def ex_simps)

lemma ex_revoked_clone: "structured_clone (plain_obj [(''fencingEpoch'', lit ''7''), (''holderId'', lit ''holder-1''),
    (''leaseId'', lit ''lease-1'')]) = Some (plain_obj [(''fencingEpoch'', lit ''7''),
    (''holderId'', lit ''holder-1''), (''leaseId'', lit ''lease-1'')])"
  by (simp add: ex_simps)

lemma ex_fence_target: "assertStorageForceFenceTarget (plain_obj [(''attachmentId'', lit ''attachment-1''),
    (''kind'', lit ''attachment'')]) = None"
  by (simp add: assertStorageForceFenceTarget_def fence_target_keys_def ex_simps)

lemma ex_fence_ok: "assertStorageForceFenceRequest ex_fence = Inr ex_fence"
  unfolding assertStorageForceFenceRequest_def
  by (simp add: ex_fence_def ex_fence_fields_def force_fence_keys_def force_fence_checks_def ex_revoked_ok
      ex_revoked_clone ex_fence_target ex_target_clone ex_simps)

lemma ex_fence_pick: "pick force_fence_keys ex_fence_result = ex_fence"
  by (simp add: pick_def force_fence_keys_def ex_fence_result_def ex_fence_def ex_fence_fields_def fld_plain_obj)

lemma ex_fence_result_ok:
  assumes "assertOptionsObject options [''request''] [''request''] Invalid_storage_force_fence = Inr opts"
    and "fld opts ''request'' = ex_fence"
  shows "assertStorageForceFenceResult ex_fence_result options = Inr ex_fence_result"
proof -
  have "exact_object ex_fence_result force_fence_result_keys" "structured_clone ex_fence_result = Some ex_fence_result"
    by (simp_all add: ex_fence_result_def ex_fence_fields_def force_fence_result_keys_def ex_target_clone
        ex_revoked_clone ex_simps)
  moreover have "fld ex_fence_result ''proofId'' = lit ''proof-1''" "fld ex_fence_result ''status'' = lit ''fenced''"
    by (simp_all add: ex_fence_result_def ex_fence_fields_def fld_plain_obj)
  moreover have "force_fence_matches ex_fence ex_fence"
    by (simp add: force_fence_matches_def same_fields_def ex_fence_def ex_fence_fields_def fld_plain_obj
        revoked_fence_keys_def fence_target_keys_def)
  ultimately show ?thesis
    using assms ex_fence_ok by (simp add: assertStorageForceFenceResult_def ex_fence_pick defensiveClone_def)
qed

text \<open>A manifest, a clean and a crash-prefix checkpoint, and a publication.\<close>

abbreviation ex_digest :: string where
  "ex_digest \<equiv> ''sha256:0123456789abcdef0123456789abcdef0123456789abcdef0123456789abcdef''"

abbreviation ex_sha :: string where
  "ex_sha \<equiv> ''0123456789abcdef0123456789abcdef0123456789abcdef0123456789abcdef''"

lemma ex_patterns [simp]:
  "pattern_ok OCI_DIGEST_PATTERN (lit ex_digest)" "codex_version_ok (lit ''codex-cli 0.100.0'')"
  by code_simp+

lemma ex_sha_ok [simp]: "isSha256Hex (lit ex_sha)"
  by code_simp

definition ex_codex :: jsval where
  "ex_codex = plain_obj [(''ephemeral'', JBool False), (''historyMode'', lit ''legacy''),
     (''rootThreadId'', ex_session), (''sessionId'', ex_session)]"

definition ex_runtime :: jsval where
  "ex_runtime = plain_obj [(''codexSandbox'', lit ''danger-full-access''), (''codexVersion'', lit ''codex-cli 0.100.0''),
     (''imageDigest'', lit ex_digest), (''imageMediaType'', lit ''application/vnd.oci.image.manifest.v1+json''),
     (''platform'', lit ''linux/amd64'')]"

definition ex_manifest :: jsval where
  "ex_manifest = plain_obj [(''agents'', DEFAULT_AGENT_POLICY), (''authMode'', lit SESSION_AUTH_MODE),
     (''codex'', ex_codex), (''layoutVersion'', JInt 1), (''runtime'', ex_runtime), (''schemaVersion'', JInt 1),
     (''sessionId'', ex_session)]"

lemma ex_parts_clone:
  "structured_clone ex_codex = Some ex_codex" "structured_clone ex_runtime = Some ex_runtime"
  "structured_clone DEFAULT_AGENT_POLICY = Some DEFAULT_AGENT_POLICY"
  by (simp_all add: ex_codex_def ex_runtime_def DEFAULT_AGENT_POLICY_def ex_simps)

lemma ex_manifest_ok: "assertSessionManifest ex_manifest = Inr ex_manifest"
proof -
  have "exact_object ex_manifest manifest_keys" "structured_clone ex_manifest = Some ex_manifest"
    by (simp_all add: ex_manifest_def manifest_keys_def ex_parts_clone ex_simps)
  moreover have "exact_object ex_codex codex_keys" "exact_object ex_runtime runtime_keys"
    "exact_object DEFAULT_AGENT_POLICY agent_policy_keys"
    by (simp_all add: ex_codex_def codex_keys_def ex_runtime_def runtime_keys_def DEFAULT_AGENT_POLICY_def
        agent_policy_keys_def ex_simps)
  moreover have "fld ex_codex ''ephemeral'' = JBool False" "fld ex_codex ''historyMode'' = lit ''legacy''"
    "fld ex_codex ''rootThreadId'' = ex_session" "fld ex_codex ''sessionId'' = ex_session"
    "fld ex_runtime ''codexSandbox'' = lit ''danger-full-access''"
    "fld ex_runtime ''codexVersion'' = lit ''codex-cli 0.100.0''" "fld ex_runtime ''imageDigest'' = lit ex_digest"
    "fld ex_runtime ''imageMediaType'' = lit ''application/vnd.oci.image.manifest.v1+json''"
    "fld ex_runtime ''platform'' = lit ''linux/amd64''"
    by (simp_all add: ex_codex_def ex_runtime_def fld_plain_obj)
  moreover have "assertAgentPolicy DEFAULT_AGENT_POLICY = None"
    using \<open>exact_object DEFAULT_AGENT_POLICY agent_policy_keys\<close>
    by (simp add: assertAgentPolicy_def DEFAULT_AGENT_POLICY_def fld_plain_obj MAX_SUBAGENTS_def MAX_AGENT_DEPTH_def
        is_safe_integer_def num_is_safe_integer_def js_le_def num_of_def)
  ultimately show ?thesis
    by (simp add: manifest.accepted manifest_checks_def) (simp add: ex_manifest_def fld_plain_obj
        SESSION_MANIFEST_SCHEMA_VERSION_def SESSION_LAYOUT_VERSION_def PLATFORM_IMAGE_MEDIA_TYPES_def)
qed

definition ex_checkpoint :: "string \<Rightarrow> jsval" where
  "ex_checkpoint c = plain_obj [(''artifactId'', lit ''artifact-1''), (''backendId'', lit ''backend-1''),
     (''checkpointClass'', lit c), (''checkpointId'', lit ''checkpoint-1''), (''codexSessionId'', ex_session),
     (''codexThreadId'', ex_session), (''contractVersion'', JInt 1),
     (''createdAt'', lit ''2026-08-01T12:00:00.000Z''), (''imageDigest'', lit ex_digest), (''sessionId'', ex_session),
     (''sourceFencingEpoch'', lit ''7''), (''storageId'', lit ''storage-1'')]"

lemma ex_capture_ids [simp]: "isOpaqueId (lit ''artifact-1'')" "isOpaqueId (lit ''checkpoint-1'')"
  "isOpaqueId (lit ''attempt-1'')" "isOpaqueId (lit ''scheme-1'')"
  by (simp_all add: isOpaqueId_def isAsciiAlphaNumeric_def js_def)

lemma ex_checkpoint_ok:
  assumes "c \<in> {''clean'', ''crash-prefix''}"
  shows "assertBareCheckpointDescriptor (ex_checkpoint c) = Inr (ex_checkpoint c)"
proof -
  have "list_all (\<lambda>c. c = None) (checkpoint_checks (fld (ex_checkpoint c)))"
    using assms by (auto simp: checkpoint_checks_def ex_checkpoint_def fld_plain_obj STORAGE_CONTRACT_VERSION_def
        checkpoint_class_iff)
  then show ?thesis
    by (simp add: checkpoint.accepted) (simp add: ex_checkpoint_def checkpoint_keys_def ex_simps)
qed

definition ex_checkpoint_target :: jsval where
  "ex_checkpoint_target = plain_obj [(''artifactId'', lit ''artifact-1''), (''checkpointId'', lit ''checkpoint-1''),
     (''kind'', lit ''checkpoint'')]"

definition ex_checkpoint_mutation :: "string \<Rightarrow> string \<Rightarrow> jsval" where
  "ex_checkpoint_mutation operation epoch = plain_obj [(''backendId'', lit ''backend-1''), (''contractVersion'', JInt 1),
     (''fencingEpoch'', lit epoch), (''holderId'', lit ''holder-1''), (''leaseId'', lit ''lease-1''),
     (''operation'', lit operation), (''operationId'', lit ''operation-1''), (''sessionId'', ex_session),
     (''storageId'', lit ''storage-1''), (''target'', ex_checkpoint_target)]"

lemma ex_checkpoint_mutation_ok:
  assumes "operation \<in> {''checkpoint'', ''restore''}" and "epoch \<in> {''7'', ''8''}"
  shows "assertStorageMutationRequest (ex_checkpoint_mutation operation epoch) =
    Inr (ex_checkpoint_mutation operation epoch)"
proof -
  have cl: "structured_clone ex_checkpoint_target = Some ex_checkpoint_target"
    by (simp add: ex_checkpoint_target_def ex_simps)
  have "assertStorageMutationTarget ex_checkpoint_target (lit operation) x = None" for x
    using assms(1) by (auto simp: assertStorageMutationTarget_def target_schema_def target_kind_def target_ids_def
        ex_checkpoint_target_def ex_simps)
  then have "list_all (\<lambda>c. c = None) (mutation_checks (fld (ex_checkpoint_mutation operation epoch)))"
    using assms by (auto simp: mutation_checks_def ex_checkpoint_mutation_def fld_plain_obj
        STORAGE_CONTRACT_VERSION_def mutation_operations_def)
  then show ?thesis
    using cl by (simp add: mutation.accepted) (simp add: ex_checkpoint_mutation_def mutation_keys_def ex_simps)
qed

section \<open>The guarantees at these records\<close>

theorem mutation_result_answers_request_witness:
  "\<exists>options w. assertStorageMutationResult ex_attach_result options = Inr w \<and> fld w ''fencingEpoch'' = lit ''7''"
proof -
  have o: "assertOptionsObject (plain_obj [(''request'', ex_attach)]) [''request''] [''request'']
      Invalid_storage_mutation = Inr (literal_opts [(''request'', ex_attach)])"
    by (simp add: literal_options)
  have r: "fld (literal_opts [(''request'', ex_attach)]) ''request'' = ex_attach" by (simp add: fld_literal_opts)
  note ok = ex_attach_result_ok [OF o r]
  obtain q where "assertStorageMutationRequest ex_attach = Inr q"
    "\<forall>k \<in> set mutation_keys - {''target''}. fld ex_attach_result k = fld q k"
    using mutation_result_answers_request [OF o ok] r by auto
  then have "fld ex_attach_result ''fencingEpoch'' = fld ex_attach ''fencingEpoch''"
    using ex_attach_ok by (simp add: mutation_keys_def)
  with ok show ?thesis by (auto simp: ex_attach_def ex_attach_fields_def fld_plain_obj)
qed

theorem force_fence_result_answers_request_witness:
  "\<exists>options w old new. assertStorageForceFenceResult ex_fence_result options = Inr w \<and>
     fld w ''fencingEpoch'' = JStr (dec_of new) \<and>
     fld (fld w ''revokedFence'') ''fencingEpoch'' = JStr (dec_of old) \<and> old < new"
proof -
  have o: "assertOptionsObject (plain_obj [(''request'', ex_fence)]) [''request''] [''request'']
      Invalid_storage_force_fence = Inr (literal_opts [(''request'', ex_fence)])"
    by (simp add: literal_options)
  have r: "fld (literal_opts [(''request'', ex_fence)]) ''request'' = ex_fence" by (simp add: fld_literal_opts)
  note ok = ex_fence_result_ok [OF o r]
  show ?thesis using force_fence_result_answers_request [OF o ok] ok by blast
qed

theorem validators_are_idempotent_witness:
  "assertLeaseGrant ex_canonical = Inr ex_canonical \<and> assertSessionAttachment ex_attachment = Inr ex_attachment \<and>
   assertStorageMutationRequest ex_attach = Inr ex_attach"
  using validators_are_idempotent [of ex_canonical ex_canonical] validators_are_idempotent [of ex_attachment ex_attachment]
    validators_are_idempotent [of ex_attach ex_attach] ex_canonical_ok ex_attachment_ok ex_attach_ok by blast

theorem lease_snapshot_admits_only_the_holder_witness:
  "\<exists>options. assertStorageMutationMatchesLeaseSnapshot options = Inr ex_attach \<and>
     fld ex_attach ''fencingEpoch'' = fld ex_canonical ''fencingEpoch''"
proof -
  let ?kvs = "[(''canonicalLease'', ex_canonical), (''now'', JInt 1785585599999), (''request'', ex_attach),
     (''storageRef'', ex_storage_ref)]"
  have o: "assertOptionsObject (plain_obj ?kvs)
      [''allowExpired'', ''canonicalLease'', ''now'', ''request'', ''storageRef'']
      [''canonicalLease'', ''now'', ''request'', ''storageRef''] Invalid_storage_mutation = Inr (literal_opts ?kvs)"
    by (rule literal_options) simp_all
  have same: "same_fields [''sessionId'', ''leaseId'', ''holderId'', ''fencingEpoch''] ex_attach ex_canonical"
    "same_fields [''sessionId'', ''backendId'', ''storageId''] ex_attach ex_storage_ref"
    by (simp_all add: same_fields_def ex_attach_def ex_attach_fields_def ex_lease_def ex_storage_ref_def fld_plain_obj)
  have date: "date_num (fld ex_canonical ''expiresAt'') = JFin 1785585600000"
    by (simp add: date_num_def ex_lease_def fld_plain_obj)
  have ok: "assertStorageMutationMatchesLeaseSnapshot (plain_obj ?kvs) = Inr ex_attach"
    using o same date
    by (simp add: assertStorageMutationMatchesLeaseSnapshot_def fld_literal_opts Let_def ex_attach_ok ex_canonical_ok
        ex_storage_ref_ok is_finite_number_def num_is_finite_def num_of_def)
  obtain l where "assertLeaseGrant (fld (literal_opts ?kvs) ''canonicalLease'') = Inr l" "fld ex_attach ''fencingEpoch'' = fld l ''fencingEpoch''"
    using lease_snapshot_admits_only_the_holder [OF o ok] by blast
  then have "fld ex_attach ''fencingEpoch'' = fld ex_canonical ''fencingEpoch''"
    by (simp add: fld_literal_opts ex_canonical_ok)
  with ok show ?thesis by blast
qed

theorem restore_admission_is_fenced_witness:
  "\<exists>v w old new. assertRestoreCheckpointAdmission v = Inr w \<and>
     fld (fld w ''checkpoint'') ''sourceFencingEpoch'' = JStr (dec_of old) \<and>
     fld (fld w ''request'') ''fencingEpoch'' = JStr (dec_of new) \<and> old < new"
proof -
  let ?v = "plain_obj [(''checkpoint'', ex_checkpoint ''clean''), (''request'', ex_checkpoint_mutation ''restore'' ''8'')]"
  have same: "same_fields [''backendId'', ''sessionId''] (ex_checkpoint_mutation ''restore'' ''8'') (ex_checkpoint ''clean'')"
    "same_fields [''artifactId'', ''checkpointId''] (fld (ex_checkpoint_mutation ''restore'' ''8'') ''target'')
       (ex_checkpoint ''clean'')"
    by (simp_all add: same_fields_def ex_checkpoint_mutation_def ex_checkpoint_def ex_checkpoint_target_def fld_plain_obj)
  have f: "fld (ex_checkpoint ''clean'') ''checkpointClass'' = lit ''clean''"
    "fld (ex_checkpoint ''clean'') ''sourceFencingEpoch'' = lit ''7''"
    "fld (ex_checkpoint_mutation ''restore'' ''8'') ''operation'' = lit ''restore''"
    "fld (ex_checkpoint_mutation ''restore'' ''8'') ''fencingEpoch'' = lit ''8''"
    "fld (fld (ex_checkpoint_mutation ''restore'' ''8'') ''target'') ''kind'' = lit ''checkpoint''"
    by (simp_all add: ex_checkpoint_mutation_def ex_checkpoint_def ex_checkpoint_target_def fld_plain_obj)
  have "assertRestoreCheckpointAdmission ?v = Inr ?v"
    by (simp add: assertRestoreCheckpointAdmission_def exact_plain_obj fld_plain_obj ex_checkpoint_ok
        ex_checkpoint_mutation_ok same f rcatch_def)
  from restore_admission_is_fenced [OF this] this show ?thesis by (fastforce simp: fld_plain_obj)
qed

theorem worker_template_mounts_the_fenced_attachment_witness:
  "\<exists>options t. createRootlessWorkerTemplate options = Inr t \<and>
     fld (fld t ''mount'') ''source'' = lit ''/srv/s1'' \<and> fld (fld t ''auth'') ''authJsonPolicy'' = lit ''forbidden''"
proof -
  let ?ks = "[''attachment'', ''lease'', ''manifest'', ''storageRef'']"
  let ?kvs = "[(''attachment'', ex_attachment), (''lease'', ex_canonical), (''manifest'', ex_manifest),
     (''storageRef'', ex_storage_ref)]"
  have o: "assertOptionsObject (plain_obj ?kvs) ?ks ?ks e = Inr (literal_opts ?kvs)" for e
    by (rule literal_options) simp_all
  have p: "pick ?ks (literal_opts ?kvs) = plain_obj ?kvs"
    by (simp add: pick_def fld_literal_opts)
  have same: "same_fields [''backendId'', ''storageId''] ex_attachment ex_storage_ref"
    "same_fields [''leaseId'', ''holderId'', ''fencingEpoch''] ex_attachment ex_canonical"
    by (simp_all add: same_fields_def ex_attachment_def ex_lease_def ex_storage_ref_def fld_plain_obj)
  have f: "fld ex_storage_ref ''sessionId'' = ex_session" "fld ex_attachment ''sessionId'' = ex_session"
    "fld ex_canonical ''sessionId'' = ex_session" "fld ex_manifest ''sessionId'' = ex_session"
    "fld ex_attachment ''rootPath'' = lit ''/srv/s1''"
    by (simp_all add: ex_attachment_def ex_lease_def ex_storage_ref_def ex_manifest_def fld_plain_obj)
  obtain t where t: "createRootlessWorkerTemplate (plain_obj ?kvs) = Inr t"
    by (simp add: createRootlessWorkerTemplate_def assertSessionAttachmentMatches_def o p fld_literal_opts
        ex_manifest_ok ex_attachment_ok ex_canonical_ok ex_storage_ref_ok same f)
  from worker_template_mounts_the_fenced_attachment [OF o t]
  have "fld (fld t ''mount'') ''source'' = lit ''/srv/s1''" "fld (fld t ''auth'') ''authJsonPolicy'' = lit ''forbidden''"
    by (auto simp: fld_literal_opts ex_attachment_ok f)
  with t show ?thesis by blast
qed

section \<open>A crash capture and its replay\<close>

definition ex_crash_request :: jsval where
  "ex_crash_request = plain_obj [(''captureAttemptId'', lit ''attempt-1''), (''checkpoint'', ex_checkpoint ''crash-prefix''),
     (''contractVersion'', JInt 1), (''mutationRequest'', ex_checkpoint_mutation ''checkpoint'' ''7''),
     (''sourceAttachment'', ex_attachment), (''storageRef'', ex_storage_ref)]"

definition ex_artifact :: jsval where
  "ex_artifact = plain_obj [(''byteLength'', lit ''8''), (''contentSha256'', lit ex_sha), (''objectId'', lit ''object-1''),
     (''objectIdentityScheme'', lit ''scheme-1''), (''readOnly'', JBool True)]"

definition ex_crash_result :: jsval where
  "ex_crash_result = plain_obj [(''artifact'', ex_artifact), (''artifactId'', lit ''artifact-1''),
     (''backendId'', lit ''backend-1''), (''captureAttemptId'', lit ''attempt-1''), (''checkpointId'', lit ''checkpoint-1''),
     (''contractVersion'', JInt 1), (''operationId'', lit ''operation-1''), (''proofId'', lit ''proof-1''),
     (''sessionId'', ex_session), (''sourceFencingEpoch'', lit ''7''), (''status'', lit ''committed''),
     (''storageId'', lit ''storage-1'')]"

lemma ex_object_id [simp]: "assertPersistentObjectId (lit ''object-1'') e = None"
  by (simp add: assertPersistentObjectId_def isAsciiAlphaNumeric_def js_def)

lemma ex_crash_request_ok: "assertAtomicCrashCaptureRequest ex_crash_request = Inr ex_crash_request"
proof -
  have "crash_request_bound (ex_checkpoint ''crash-prefix'') (ex_checkpoint_mutation ''checkpoint'' ''7'') ex_attachment
      ex_storage_ref"
    by (simp add: crash_request_bound_def same_fields_def ex_checkpoint_def ex_checkpoint_mutation_def ex_attachment_def
        ex_storage_ref_def ex_checkpoint_target_def fld_plain_obj)
  then show ?thesis
    by (simp add: assertAtomicCrashCaptureRequest_def ex_crash_request_def crash_request_keys_def exact_plain_obj
        fld_plain_obj ex_checkpoint_ok ex_checkpoint_mutation_ok ex_attachment_ok ex_storage_ref_ok rcatch_def)
qed

lemma ex_artifact_ok: "assertAtomicCrashCaptureArtifact ex_artifact = Inr ex_artifact"
proof -
  have "list_all (\<lambda>c. c = None) (artifact_checks (fld ex_artifact))"
    by (simp add: artifact_checks_def ex_artifact_def fld_plain_obj positive_uint64_eq)
  then show ?thesis
    by (simp add: artifact.accepted) (simp add: ex_artifact_def artifact_keys_def ex_simps)
qed

lemma ex_crash_normalized: "crash_result_normalized ex_crash_result ex_crash_request = Inr ex_crash_result"
proof -
  have f: "fld (fld ex_crash_request ''checkpoint'') ''artifactId'' = lit ''artifact-1''"
    "fld (fld ex_crash_request ''checkpoint'') ''checkpointId'' = lit ''checkpoint-1''"
    "fld (fld ex_crash_request ''checkpoint'') ''sourceFencingEpoch'' = lit ''7''"
    "fld (fld ex_crash_request ''storageRef'') ''backendId'' = lit ''backend-1''"
    "fld (fld ex_crash_request ''storageRef'') ''sessionId'' = ex_session"
    "fld (fld ex_crash_request ''storageRef'') ''storageId'' = lit ''storage-1''"
    "fld (fld ex_crash_request ''mutationRequest'') ''operationId'' = lit ''operation-1''"
    "fld ex_crash_request ''captureAttemptId'' = lit ''attempt-1''"
    by (simp_all add: ex_crash_request_def ex_checkpoint_def ex_storage_ref_def ex_checkpoint_mutation_def fld_plain_obj)
  have art: "fld ex_crash_result ''artifact'' = ex_artifact"
    by (simp add: ex_crash_result_def fld_plain_obj)
  show ?thesis
    unfolding crash_result_normalized_def art ex_artifact_ok rbind_simps f
    by (simp add: crash_result_ids_def crash_result_keys_def ex_crash_result_def fld_plain_obj guarded_ok)
qed

theorem crash_capture_result_is_bound_witness:
  "\<exists>options w. assertAtomicCrashCaptureResult ex_crash_result options = Inr w \<and>
     fld w ''sourceFencingEpoch'' = fld (fld ex_crash_request ''checkpoint'') ''sourceFencingEpoch''"
proof -
  let ?kvs = "[(''previousResult'', ex_crash_result), (''request'', ex_crash_request)]"
  have o: "assertOptionsObject (plain_obj ?kvs) [''previousResult'', ''request''] [''request'']
      Invalid_atomic_crash_capture = Inr (literal_opts ?kvs)"
    by (rule literal_options) simp_all
  have ex: "exact_object ex_crash_result crash_result_keys"
    by (simp add: ex_crash_result_def crash_result_keys_def exact_plain_obj)
  have m: "atomicCrashCaptureResultsMatch ex_crash_result ex_crash_result"
    by (simp add: atomicCrashCaptureResultsMatch_def same_fields_def ex_crash_result_def ex_artifact_def artifact_keys_def
        fld_plain_obj)
  have n: "ex_crash_result \<noteq> JUndefined" by (simp add: ex_crash_result_def plain_obj_def)
  have ok: "assertAtomicCrashCaptureResult ex_crash_result (plain_obj ?kvs) = Inr ex_crash_result"
    by (simp add: assertAtomicCrashCaptureResult_def o fld_literal_opts crash_result_against_def ex ex_crash_request_ok
        ex_crash_normalized m n)
  from crash_capture_result_is_bound [OF o ok] ok show ?thesis
    by (auto simp: fld_literal_opts ex_crash_request_ok)
qed

section \<open>An activation, and an unknown fence\<close>

definition ex_publication :: jsval where
  "ex_publication = plain_obj [(''artifactManifestDigest'', lit ex_sha), (''coordinatorBindingSha256'', lit ex_sha),
     (''modeledDigest'', lit ex_sha), (''publicationId'', lit ''publication-1''),
     (''publicationKind'', lit ''restore-destination''),
     (''root'', plain_obj [(''filesystemId'', lit ''filesystem-1''), (''objectIdentityScheme'', lit ''scheme-1''),
        (''objectId'', lit ''object-1''), (''rootPath'', lit ''/srv/s1'')]),
     (''treeIdentityDigest'', lit ex_sha)]"

lemma ex_publication_ids [simp]: "isOpaqueId (lit ''publication-1'')" "isOpaqueId (lit ''filesystem-1'')"
  by (simp_all add: isOpaqueId_def isAsciiAlphaNumeric_def js_def)

lemma ex_publication_ok: "assertRestoreAttachmentPublication ex_publication = Inr ex_publication"
  unfolding assertRestoreAttachmentPublication_def
  by (simp add: ex_publication_def publication_keys_def publication_checks_def publication_root_keys_def ex_simps)

definition ex_activation :: jsval where
  "ex_activation = plain_obj [(''contractVersion'', JInt 1), (''lease'', ex_canonical), (''manifest'', ex_manifest),
     (''mutationRequest'', ex_attach), (''publication'', ex_publication), (''storageRef'', ex_storage_ref)]"

lemma ex_ids_eq:
  "fld ex_storage_ref ''sessionId'' = ex_session" "fld ex_attachment ''sessionId'' = ex_session"
  "fld ex_canonical ''sessionId'' = ex_session" "fld ex_manifest ''sessionId'' = ex_session"
  "fld ex_attach ''sessionId'' = ex_session" "fld ex_attach ''operation'' = lit ''attach''"
  by (simp_all add: ex_attachment_def ex_lease_def ex_storage_ref_def ex_manifest_def ex_attach_def ex_attach_fields_def
      fld_plain_obj)

lemma ex_same_fields:
  "same_fields [''backendId'', ''storageId''] ex_attachment ex_storage_ref"
  "same_fields [''backendId'', ''storageId''] ex_attach ex_storage_ref"
  "same_fields [''leaseId'', ''holderId'', ''fencingEpoch''] ex_attachment ex_canonical"
  "same_fields [''leaseId'', ''holderId'', ''fencingEpoch''] ex_attach ex_canonical"
  by (simp_all add: same_fields_def ex_attachment_def ex_attach_def ex_attach_fields_def ex_lease_def ex_storage_ref_def
      fld_plain_obj)

lemma ex_activation_ok: "assertRestoreAttachmentActivationRequest ex_activation = Inr ex_activation"
  by (simp add: assertRestoreAttachmentActivationRequest_def ex_activation_def activation_request_keys_def exact_plain_obj
      fld_plain_obj ex_canonical_ok ex_manifest_ok ex_attach_ok ex_publication_ok ex_storage_ref_ok ex_ids_eq ex_same_fields)

definition ex_activation_result :: jsval where
  "ex_activation_result = plain_obj [(''attachment'', ex_attachment), (''contractVersion'', JInt 1),
     (''mutationResult'', ex_attach_result), (''publication'', ex_publication)]"

lemma ex_activation_matches:
  "assertSessionAttachmentMatches (plain_obj [(''attachment'', ex_attachment), (''lease'', ex_canonical),
     (''manifest'', ex_manifest), (''storageRef'', ex_storage_ref)]) = Inr (plain_obj [(''attachment'', ex_attachment),
     (''lease'', ex_canonical), (''manifest'', ex_manifest), (''storageRef'', ex_storage_ref)])"
  by (simp add: assertSessionAttachmentMatches_def literal_options fld_literal_opts ex_manifest_ok ex_attachment_ok
      ex_canonical_ok ex_storage_ref_ok ex_ids_eq ex_same_fields)

theorem activation_attaches_the_publication_witness:
  "\<exists>options w. assertRestoreAttachmentActivationResult ex_activation_result options = Inr w \<and>
     fld (fld w ''attachment'') ''fencingEpoch'' = lit ''7''"
proof -
  let ?kvs = "[(''request'', ex_activation)]"
  have o: "assertOptionsObject (plain_obj ?kvs) [''request''] [''request''] Invalid_restore_attachment_activation =
      Inr (literal_opts ?kvs)" by (rule literal_options) simp_all
  have r: "assertStorageMutationResult ex_attach_result (plain_obj [(''request'', ex_attach)]) = Inr ex_attach_result"
    by (rule ex_attach_result_ok [of _ "literal_opts [(''request'', ex_attach)]"])
      (simp_all add: literal_options fld_literal_opts)
  have pub: "restoreAttachmentPublicationsMatch ex_publication ex_publication"
    by (simp add: restoreAttachmentPublicationsMatch_def same_fields_def ex_publication_def publication_root_keys_def
        fld_plain_obj)
  have ids: "fld ex_attachment ''operationId'' = lit ''operation-1''" "fld ex_attach ''operationId'' = lit ''operation-1''"
    "fld ex_attach_result ''operationId'' = lit ''operation-1''" "fld ex_attachment ''attachmentId'' = lit ''attachment-1''"
    "fld (fld ex_attach ''target'') ''attachmentId'' = lit ''attachment-1''"
    "fld (fld ex_attach_result ''target'') ''attachmentId'' = lit ''attachment-1''"
    "fld ex_attachment ''proofId'' = lit ''proof-1''" "fld ex_attach_result ''proofId'' = lit ''proof-1''"
    "fld ex_attachment ''rootPath'' = lit ''/srv/s1''" "fld (fld ex_publication ''root'') ''rootPath'' = lit ''/srv/s1''"
    by (simp_all add: ex_attachment_def ex_attach_def ex_attach_result_def ex_attach_fields_def ex_publication_def fld_plain_obj)
  have parts: "fld ex_activation ''publication'' = ex_publication" "fld ex_activation ''mutationRequest'' = ex_attach"
    "fld ex_activation ''lease'' = ex_canonical" "fld ex_activation ''manifest'' = ex_manifest"
    "fld ex_activation ''storageRef'' = ex_storage_ref"
    by (simp_all add: ex_activation_def fld_plain_obj)
  have ok: "assertRestoreAttachmentActivationResult ex_activation_result (plain_obj ?kvs) = Inr ex_activation_result"
    by (simp add: assertRestoreAttachmentActivationResult_def o fld_literal_opts ex_activation_ok parts)
      (simp add: ex_activation_result_def exact_plain_obj fld_plain_obj ex_publication_ok pub r ex_activation_matches
        Let_def ids)
  from activation_attaches_the_publication [OF o ok]
  have "fld (fld ex_activation_result ''attachment'') ''fencingEpoch'' = fld ex_canonical ''fencingEpoch''"
    by (auto simp: fld_literal_opts ex_activation_ok parts)
  with ok show ?thesis by (auto simp: ex_lease_def fld_plain_obj)
qed

theorem reconciliation_proves_or_stays_unknown_witness:
  "\<exists>v options w. assertStorageForceFenceReconciliationResult v options = Inr w \<and> fld w ''result'' = JNull"
proof -
  let ?v = "plain_obj [(''contractVersion'', JInt 1), (''outcome'', lit ''unknown''), (''result'', JNull)]"
  let ?kvs = "[(''request'', ex_fence)]"
  have o: "assertOptionsObject (plain_obj ?kvs) [''request''] [''request''] Invalid_storage_force_fence_reconciliation =
      Inr (literal_opts ?kvs)" by (rule literal_options) simp_all
  have ok: "assertStorageForceFenceReconciliationResult ?v (plain_obj ?kvs) = Inr ?v"
    by (simp add: assertStorageForceFenceReconciliationResult_def o fld_literal_opts ex_fence_ok rcatch_def exact_plain_obj
        fld_plain_obj)
  have "lit ''unknown'' \<noteq> lit ''committed''" by simp
  moreover have "fld ?v ''outcome'' = lit ''unknown''" by (simp add: fld_plain_obj)
  ultimately have "fld ?v ''result'' = JNull"
    using reconciliation_proves_or_stays_unknown [of ?v "plain_obj ?kvs" ?v] ok by (auto simp: fld_plain_obj)
  with ok show ?thesis by blast
qed

section \<open>The manifest as text\<close>

theorem manifest_round_trip_witness:
  "\<exists>t. serializeSessionManifest ex_manifest = Inr t \<and> parseSessionManifest t = Inr (canonical_manifest ex_manifest)"
  using manifest_round_trip [OF ex_manifest_ok] by blast

theorem scanner_rejects_exactly_duplicate_keys_witness:
  "\<exists>m. parseSessionManifest (JStr (json_print 2 0 (manifest_json ex_manifest))) = Inr m"
proof -
  note j = manifest_to_json [OF ex_manifest_ok]
  have "utf8_length (json_print 2 0 (manifest_json ex_manifest)) \<le> 65536"
    using utf8_bounds [of "json_print 2 0 (manifest_json ex_manifest)"] manifest_text_length [OF ex_manifest_ok]
    by linarith
  then show ?thesis
    using scanner_rejects_exactly_duplicate_keys [OF json_round_trip [OF j(2), of 2]] j(3,4)
      canonical_accepted [OF ex_manifest_ok] by auto
qed

end
