(* ===== verification/Js_Store.thy ===== *)
theory Js_Store
  imports Js_Prelude
begin

text \<open>
  Objects that a module remembers by identity. A module-private \<open>WeakSet\<close> or \<open>WeakMap\<close> over frozen
  objects is a store from identities to records that only grows; the locale \<open>token_store\<close> says what
  the modules rely on.
\<close>

section \<open>Branded frozen objects\<close>

type_synonym 'r store = "(nat \<times> 'r) list"

definition brand :: "'r store \<Rightarrow> 'r \<Rightarrow> 'r store \<times> nat" where
  "brand st r = ((length st, r) # st, length st)"

definition branded :: "'r store \<Rightarrow> nat \<Rightarrow> 'r option" where
  "branded st i = map_of st i"

definition wf_store :: "'r store \<Rightarrow> bool" where
  "wf_store st \<longleftrightarrow> map fst st = rev [0..<length st]"

lemma wf_empty: "wf_store []"
  by (simp add: wf_store_def)

lemma brand_keeps:
  assumes "wf_store st" and "brand st r = (st', i)"
  shows "wf_store st'" and "branded st' i = Some r" and "branded st i = None"
    and "branded st j = Some q \<Longrightarrow> branded st' j = Some q"
proof -
  have st: "map fst st = rev [0..<length st]" using assms(1) by (simp add: wf_store_def)
  have s: "st' = (length st, r) # st" "i = length st" using assms(2) by (auto simp: brand_def)
  have "fst ` set st = {0..<length st}" using arg_cong [OF st, of set] by simp
  then have none: "map_of st (length st) = None" by (simp add: map_of_eq_None_iff)
  show "wf_store st'" using st by (simp add: s wf_store_def)
  show "branded st' i = Some r" "branded st i = None" using none by (simp_all add: s branded_def)
  show "branded st j = Some q \<Longrightarrow> branded st' j = Some q" using none by (auto simp: s branded_def)
qed

text \<open>
  What a client relies on: an issued record is found under its identity, was not found there before,
  and stays found.
\<close>

locale token_store =
  fixes issue :: "'s \<Rightarrow> 'r \<Rightarrow> 's \<times> nat" and look :: "'s \<Rightarrow> nat \<Rightarrow> 'r option" and valid :: "'s \<Rightarrow> bool"
  assumes issue_valid: "valid st \<Longrightarrow> issue st r = (st', i) \<Longrightarrow> valid st'"
    and issue_look: "valid st \<Longrightarrow> issue st r = (st', i) \<Longrightarrow> look st' i = Some r"
    and issue_fresh: "valid st \<Longrightarrow> issue st r = (st', i) \<Longrightarrow> look st i = None"
    and issue_keeps: "valid st \<Longrightarrow> issue st r = (st', i) \<Longrightarrow> look st j = Some q \<Longrightarrow> look st' j = Some q"
begin

lemma issued_apart:
  assumes "valid st" and "issue st r = (st', i)" and "issue st' q = (st'', j)"
  shows "valid st'' \<and> i \<noteq> j \<and> look st'' i = Some r \<and> look st'' j = Some q"
proof -
  note v = issue_valid [OF assms(1,2)]
  have "look st' i = Some r" "look st' j = None" using issue_look [OF assms(1,2)] issue_fresh [OF v assms(3)] by simp_all
  then show ?thesis using issue_valid [OF v assms(3)] issue_look [OF v assms(3)] issue_keeps [OF v assms(3)] by auto
qed

end

interpretation brands: token_store brand branded wf_store
  by unfold_locales (fact brand_keeps)+

end
