(* ===== verification/Contract_Backend.thy ===== *)
theory Contract_Backend
  imports Contract_Core Js_Store
begin

text \<open>
  The storage backends of \<open>session-storage-contracts.mjs\<close>: the check of a backend object, the
  projection that captures its operations once, the frozen facades over it, and the optional
  extensions. A backend is foreign code, so the checks walk its prototype chain instead of reading
  its properties, and refuse proxies, accessors and whatever sits on the shared
  \<open>Object.prototype\<close>.

  Projections and facades are objects of a store: \<open>JOpaque n\<close> names the object with the own
  properties \<open>objects st n\<close>, and the two \<open>WeakSet\<close>s are sets of such names. A property of one of them
  is a value or a function of this module, kept as the closure it is; calling one ends in a call of
  a foreign function with a receiver and arguments, which is the result of \<open>apply_op\<close>.
\<close>

section \<open>Objects of this module\<close>

text \<open>
  \<open>checkpointBackendOperation\<close> is a \<open>Bound\<close> foreign operation with its receiver; the methods of a
  facade are \<open>Guarded\<close> by the identity of the facade and pass a call on to another receiver.
\<close>

datatype backend_op =
    Foreign jsval
  | Bound jsval jsval
  | Guarded nat backend_op jsval

datatype bval = Value jsval | Method backend_op

record backend_store =
  next_handle :: nat
  objects :: "nat \<Rightarrow> (string \<times> bval) list option"
  checkpointBackendProjections :: "nat set"
  atomicCrashCaptureBackendFacades :: "nat set"

definition new_object :: "backend_store \<Rightarrow> (string \<times> bval) list \<Rightarrow> backend_store \<times> nat" where
  "new_object st fs = (st\<lparr>next_handle := Suc (next_handle st),
     objects := (objects st)(next_handle st \<mapsto> fs)\<rparr>, next_handle st)"

definition wf_objects :: "backend_store \<Rightarrow> bool" where
  "wf_objects st \<longleftrightarrow> (\<forall>n. objects st n \<noteq> None \<longrightarrow> n < next_handle st)"

definition empty_store :: "nat \<Rightarrow> backend_store" where
  "empty_store n = \<lparr>next_handle = n, objects = (\<lambda>_. None), checkpointBackendProjections = {},
     atomicCrashCaptureBackendFacades = {}\<rparr>"

interpretation backend_objects: token_store new_object objects wf_objects
  by unfold_locales (auto simp: new_object_def wf_objects_def less_Suc_eq split: if_splits)

text \<open>\<open>weakSetHas\<close>, with the name under which the object is known.\<close>

definition known :: "nat set \<Rightarrow> jsval \<Rightarrow> nat option" where
  "known s v = (case v of JOpaque n \<Rightarrow> if n \<in> s then Some n else None | _ \<Rightarrow> None)"

definition object_field :: "backend_store \<Rightarrow> nat \<Rightarrow> string \<Rightarrow> bval" where
  "object_field st n k = (case objects st n of
     Some fs \<Rightarrow> (case map_of fs k of Some b \<Rightarrow> b | None \<Rightarrow> Value JUndefined)
   | None \<Rightarrow> Value JUndefined)"

text \<open>What the validators see of a property: functions are never identifiers or records.\<close>

fun shown :: "bval \<Rightarrow> jsval" where
  "shown (Value v) = v"
| "shown (Method _) = JFun 0 False"

fun as_op :: "bval \<Rightarrow> backend_op" where
  "as_op (Value v) = Foreign v"
| "as_op (Method f) = f"

text \<open>A call with \<open>this\<close> and arguments: the foreign function it reaches, with receiver and arguments.\<close>

primrec apply_op :: "backend_op \<Rightarrow> jsval \<Rightarrow> jsval list \<Rightarrow> (jsval \<times> jsval \<times> jsval list) result" where
  "apply_op (Foreign f) this args = Inr (f, this, args)"
| "apply_op (Bound f receiver) this args = Inr (f, receiver, args)"
| "apply_op (Guarded n f receiver) this args =
     (if this = JOpaque n then apply_op f receiver args else Inl Type_error)"

section \<open>Property access\<close>

text \<open>\<open>value[key]\<close>, along the prototypes; a getter may throw.\<close>

fun read_prop :: "backend_store \<Rightarrow> jsval \<Rightarrow> string \<Rightarrow> bval result" where
  "read_prop st (JObj p ps) k = (case map_of ps (key k) of
     Some d \<Rightarrow> (case desc_value d of Some x \<Rightarrow> Inr (Value x) | None \<Rightarrow> Inl Foreign_error)
   | None \<Rightarrow> read_prop st p k)"
| "read_prop st (JOpaque n) k = Inr (object_field st n k)"
| "read_prop st v k = (case js_get v (key k) of Some x \<Rightarrow> Inr (Value x) | None \<Rightarrow> Inl Foreign_error)"

text \<open>The own property descriptor: absent, an accessor, or a data property.\<close>

datatype slot = Absent | Accessor | Data bval

definition own_slot :: "backend_store \<Rightarrow> jsval \<Rightarrow> string \<Rightarrow> slot" where
  "own_slot st v k = (case v of
     JOpaque n \<Rightarrow> (case objects st n of
        Some fs \<Rightarrow> (case map_of fs k of Some b \<Rightarrow> Data b | None \<Rightarrow> Absent) | None \<Rightarrow> Absent)
   | _ \<Rightarrow> (case own_desc v (key k) of
        None \<Rightarrow> Absent | Some (DataDesc _ x) \<Rightarrow> Data (Value x) | Some (AccessorDesc _ _) \<Rightarrow> Accessor))"

text \<open>\<open>plainDataDescriptor(value, key).value\<close>: an own enumerable data property.\<close>

definition plain_slot :: "backend_store \<Rightarrow> jsval \<Rightarrow> string \<Rightarrow> bval result" where
  "plain_slot st v k = (case v of
     JOpaque n \<Rightarrow> (case own_slot st v k of Data b \<Rightarrow> Inr b | _ \<Rightarrow> Inl Invalid_storage_backend)
   | _ \<Rightarrow> rbind (plainDataDescriptor v (key k) Invalid_storage_backend) (\<lambda>x. Inr (Value x)))"

definition MAX_BACKEND_PROTOTYPE_DEPTH :: nat where
  "MAX_BACKEND_PROTOTYPE_DEPTH = 64"

text \<open>
  \<open>dataValue\<close>: the first object of the chain that has the property must hold it as data. \<open>first\<close> is
  \<open>depth === 0\<close>; the bound counts the objects that may still be looked at.
\<close>

fun chain_value :: "backend_store \<Rightarrow> nat \<Rightarrow> bool \<Rightarrow> jsval \<Rightarrow> string \<Rightarrow> bval result" where
  "chain_value st 0 first cursor k = Inl Invalid_storage_backend"
| "chain_value st (Suc n) first cursor k =
     (if cursor = JNull then Inl Invalid_storage_backend
      else guarded
        [ensure (\<not> is_proxy cursor) Invalid_storage_backend,
         ensure (cursor \<noteq> JObjectPrototype \<and> \<not> (\<not> first \<and> proto_of cursor = JNull))
           Invalid_storage_backend]
        (case own_slot st cursor k of
           Data b \<Rightarrow> Inr b
         | Accessor \<Rightarrow> Inl Invalid_storage_backend
         | Absent \<Rightarrow> chain_value st n False (proto_of cursor) k))"

definition dataValue :: "backend_store \<Rightarrow> jsval \<Rightarrow> string \<Rightarrow> bval result" where
  "dataValue st v k = chain_value st MAX_BACKEND_PROTOTYPE_DEPTH True v k"

text \<open>The walk to the end of the chain that the crash-capture extension makes first.\<close>

fun chain_ends :: "nat \<Rightarrow> bool \<Rightarrow> jsval \<Rightarrow> check" where
  "chain_ends 0 first cursor = ensure (cursor = JNull) Invalid_storage_backend"
| "chain_ends (Suc n) first cursor =
     (if cursor = JNull then None
      else if is_proxy cursor then Some Invalid_storage_backend
      else if cursor = JObjectPrototype then None
      else if \<not> first \<and> proto_of cursor = JNull then Some Invalid_storage_backend
      else chain_ends n False (proto_of cursor))"

section \<open>The base contract\<close>

definition STORAGE_BACKEND_METHODS :: "string list" where
  "STORAGE_BACKEND_METHODS = [''captureCheckpoint'', ''destroySession'', ''detachAttachment'', ''forceFence'',
     ''prepareWritableAttachment'', ''provisionSession'', ''restoreCheckpoint'']"

definition CHECKPOINT_BACKEND_METHODS :: "string list" where
  "CHECKPOINT_BACKEND_METHODS = [''captureCheckpoint'', ''restoreCheckpoint'']"

definition STORAGE_BACKEND_CAPABILITY_KEYS :: "string list" where
  "STORAGE_BACKEND_CAPABILITY_KEYS = [''atomicPointInTimeCheckpoint'', ''exclusiveWriterAttachment'',
     ''fencing'', ''normalDirectoryAttachment'']"

definition capability_checks :: "(string \<Rightarrow> jsval) \<Rightarrow> check list" where
  "capability_checks f =
     [ensure (js_seq (f ''normalDirectoryAttachment'') (JBool True) \<and>
              js_seq (f ''exclusiveWriterAttachment'') (JBool True) \<and>
              is_boolean (f ''atomicPointInTimeCheckpoint'') \<and>
              array_includes [''epoch-enforced'', ''verified-detach'', ''manual''] (f ''fencing''))
        Invalid_storage_backend]"

definition assertStorageBackendCapabilities :: "jsval \<Rightarrow> jsval result" where
  "assertStorageBackendCapabilities v =
     guarded (assertExactObject v STORAGE_BACKEND_CAPABILITY_KEYS Invalid_storage_backend
         # capability_checks (fld v))
       (defensiveClone v Invalid_storage_backend)"

text \<open>\<open>typeof operation === "function"\<close>.\<close>

definition callable :: "bval \<Rightarrow> bool" where
  "callable b \<longleftrightarrow> is_function (shown b)"

definition version_one :: "bval \<Rightarrow> bool" where
  "version_one b \<longleftrightarrow> js_seq (shown b) (JInt STORAGE_CONTRACT_VERSION)"

definition assertStorageBackend :: "backend_store \<Rightarrow> jsval \<Rightarrow> jsval result" where
  "assertStorageBackend st v =
     guarded [ensure (v \<noteq> JNull \<and> is_object v \<and> \<not> is_array v) Invalid_storage_backend]
     (rbind (read_prop st v ''contractVersion'') (\<lambda>contractVersion.
      guarded [ensure (version_one contractVersion) Invalid_storage_backend]
     (rbind (read_prop st v ''backendId'') (\<lambda>backendId.
      guarded [assertOpaqueId (shown backendId) Invalid_storage_backend]
     (rbind (read_prop st v ''capabilities'') (\<lambda>capabilities.
      rbind (assertStorageBackendCapabilities (shown capabilities)) (\<lambda>_.
      guarded (map (\<lambda>m. err_of (rbind (read_prop st v m) (\<lambda>f.
          guarded [ensure (callable f) Invalid_storage_backend] (Inr ())))) STORAGE_BACKEND_METHODS)
        (Inr v))))))))"

section \<open>Checkpoint projections and facades\<close>

text \<open>The \<open>for\<close> loop over the methods: each operation is read once and bound to the backend.\<close>

primrec capture_methods :: "backend_store \<Rightarrow> jsval \<Rightarrow> string list \<Rightarrow> (string \<times> bval) list result" where
  "capture_methods st v [] = Inr []"
| "capture_methods st v (m # ms) =
     rbind (dataValue st v m) (\<lambda>operation.
      guarded [ensure (callable operation \<and> \<not> is_proxy (shown operation)) Invalid_storage_backend]
     (rbind (capture_methods st v ms) (\<lambda>fs. Inr ((m, Method (Bound (shown operation) v)) # fs))))"

definition projection_fields :: "backend_store \<Rightarrow> jsval \<Rightarrow> (string \<times> bval) list result" where
  "projection_fields st v =
     rbind (dataValue st v ''contractVersion'') (\<lambda>contractVersion.
      guarded [ensure (version_one contractVersion) Invalid_storage_backend]
     (rbind (dataValue st v ''backendId'') (\<lambda>backendId.
      guarded [assertOpaqueId (shown backendId) Invalid_storage_backend]
     (rbind (dataValue st v ''capabilities'') (\<lambda>value.
      rbind (assertStorageBackendCapabilities (shown value)) (\<lambda>capabilities.
      rbind (capture_methods st v CHECKPOINT_BACKEND_METHODS) (\<lambda>fs.
      Inr ([(''backendId'', backendId), (''capabilities'', Value capabilities),
            (''contractVersion'', contractVersion)] @ fs))))))))"

definition checkpointBackendProjection :: "backend_store \<Rightarrow> jsval \<Rightarrow> nat result \<times> backend_store" where
  "checkpointBackendProjection st v =
     (if \<not> (v \<noteq> JNull \<and> is_object v \<and> \<not> is_array v \<and> \<not> is_proxy v)
      then (Inl Invalid_storage_backend, st)
      else case known (checkpointBackendProjections st) v of
        Some n \<Rightarrow> (Inr n, st)
      | None \<Rightarrow>
         if proto_of v = JNull then (Inl Invalid_storage_backend, st)
         else case projection_fields st v of
           Inl e \<Rightarrow> (Inl e, st)
         | Inr fs \<Rightarrow> (case new_object st fs of (st1, n) \<Rightarrow>
             (Inr n, st1\<lparr>checkpointBackendProjections := insert n (checkpointBackendProjections st1)\<rparr>)))"

definition assertCheckpointBackend :: "backend_store \<Rightarrow> jsval \<Rightarrow> nat result \<times> backend_store" where
  "assertCheckpointBackend st v = checkpointBackendProjection st v"

text \<open>The capabilities of a facade: a null-prototype object with the four keys.\<close>

definition copy_capabilities :: "jsval \<Rightarrow> jsval" where
  "copy_capabilities v =
     JObj JNull (map (\<lambda>k. (key k, DataDesc True (fld v k))) STORAGE_BACKEND_CAPABILITY_KEYS)"

definition checkpoint_facade_fields :: "backend_store \<Rightarrow> nat \<Rightarrow> nat \<Rightarrow> (string \<times> bval) list" where
  "checkpoint_facade_fields st facade p =
     [(''backendId'', object_field st p ''backendId''),
      (''capabilities'', Value (copy_capabilities (shown (object_field st p ''capabilities'')))),
      (''contractVersion'', object_field st p ''contractVersion''),
      (''captureCheckpoint'', Method (Guarded facade (as_op (object_field st p ''captureCheckpoint'')) (JOpaque p))),
      (''restoreCheckpoint'', Method (Guarded facade (as_op (object_field st p ''restoreCheckpoint'')) (JOpaque p)))]"

definition createCheckpointBackendFacade :: "backend_store \<Rightarrow> jsval \<Rightarrow> nat result \<times> backend_store" where
  "createCheckpointBackendFacade st v = (case checkpointBackendProjection st v of
     (Inl e, st1) \<Rightarrow> (Inl e, st1)
   | (Inr p, st1) \<Rightarrow>
      (case new_object st1 (checkpoint_facade_fields st1 (next_handle st1) p) of (st2, n) \<Rightarrow>
        (Inr n, st2\<lparr>checkpointBackendProjections := insert n (checkpointBackendProjections st2)\<rparr>)))"

section \<open>Atomic crash capture\<close>

record crash_extension =
  x_backend :: jsval
  x_backendId :: bval
  x_capabilities :: jsval
  x_capture :: backend_op
  x_contractVersion :: bval
  x_verify :: backend_op

definition facade_extension :: "backend_store \<Rightarrow> nat \<Rightarrow> crash_extension" where
  "facade_extension st n = \<lparr>x_backend = JOpaque n, x_backendId = object_field st n ''backendId'',
     x_capabilities = shown (object_field st n ''capabilities''),
     x_capture = as_op (object_field st n ''captureAtomicCrashCheckpoint''),
     x_contractVersion = object_field st n ''contractVersion'',
     x_verify = as_op (object_field st n ''verifyCommittedAtomicCrashCheckpoint'')\<rparr>"

definition foreign_extension :: "backend_store \<Rightarrow> jsval \<Rightarrow> crash_extension result" where
  "foreign_extension st v =
     guarded [chain_ends MAX_BACKEND_PROTOTYPE_DEPTH True v]
     (rbind (dataValue st v ''contractVersion'') (\<lambda>contractVersion.
      guarded [ensure (version_one contractVersion) Invalid_storage_backend]
     (rbind (dataValue st v ''backendId'') (\<lambda>backendId.
      guarded [assertOpaqueId (shown backendId) Invalid_storage_backend]
     (rbind (dataValue st v ''capabilities'') (\<lambda>value.
      rbind (assertStorageBackendCapabilities (shown value)) (\<lambda>capabilities.
      guarded (map (\<lambda>m. err_of (rbind (dataValue st v m) (\<lambda>f. guarded
          [ensure (callable f \<and> \<not> is_proxy (shown f)) Invalid_storage_backend] (Inr ()))))
        STORAGE_BACKEND_METHODS)
     (rbind (plain_slot st v ''atomicCrashCaptureContractVersion'') (\<lambda>version.
      rbind (plain_slot st v ''captureAtomicCrashCheckpoint'') (\<lambda>capture.
      rbind (plain_slot st v ''verifyCommittedAtomicCrashCheckpoint'') (\<lambda>verify.
      guarded [ensure (version_one version \<and>
          js_seq (fld capabilities ''atomicPointInTimeCheckpoint'') (JBool True) \<and>
          callable capture \<and> \<not> is_proxy (shown capture) \<and>
          callable verify \<and> \<not> is_proxy (shown verify)) Invalid_storage_backend]
     (Inr \<lparr>x_backend = v, x_backendId = backendId, x_capabilities = capabilities,
        x_capture = as_op capture, x_contractVersion = contractVersion, x_verify = as_op verify\<rparr>))))))))))))"

definition atomicCrashCaptureBackendExtension :: "backend_store \<Rightarrow> jsval \<Rightarrow> crash_extension result" where
  "atomicCrashCaptureBackendExtension st v = (case known (atomicCrashCaptureBackendFacades st) v of
     Some n \<Rightarrow> Inr (facade_extension st n)
   | None \<Rightarrow> guarded [ensure (v \<noteq> JNull \<and> is_object v \<and> \<not> is_array v \<and> \<not> is_proxy v)
                Invalid_storage_backend] (foreign_extension st v))"

definition assertAtomicCrashCaptureBackend :: "backend_store \<Rightarrow> jsval \<Rightarrow> jsval result" where
  "assertAtomicCrashCaptureBackend st v =
     rbind (atomicCrashCaptureBackendExtension st v) (\<lambda>x. Inr (x_backend x))"

definition crash_facade_fields :: "nat \<Rightarrow> crash_extension \<Rightarrow> (string \<times> bval) list" where
  "crash_facade_fields facade x =
     (let operation = (\<lambda>f. Method (Guarded facade f (x_backend x))) in
      [(''atomicCrashCaptureContractVersion'', Value (JInt 1)),
       (''backendId'', x_backendId x),
       (''capabilities'', Value (copy_capabilities (x_capabilities x))),
       (''captureAtomicCrashCheckpoint'', operation (x_capture x)),
       (''contractVersion'', x_contractVersion x),
       (''verifyCommittedAtomicCrashCheckpoint'', operation (x_verify x))])"

definition createAtomicCrashCaptureBackendFacade :: "backend_store \<Rightarrow> jsval \<Rightarrow> nat result \<times> backend_store" where
  "createAtomicCrashCaptureBackendFacade st v =
     (case known (atomicCrashCaptureBackendFacades st) v of
        Some n \<Rightarrow> (Inr n, st)
      | None \<Rightarrow> (case atomicCrashCaptureBackendExtension st v of
        Inl e \<Rightarrow> (Inl e, st)
      | Inr x \<Rightarrow> (case new_object st (crash_facade_fields (next_handle st) x) of (st1, n) \<Rightarrow>
          (Inr n, st1\<lparr>atomicCrashCaptureBackendFacades := insert n (atomicCrashCaptureBackendFacades st1)\<rparr>))))"

section \<open>The other extensions\<close>

definition assertCheckpointCaptureReconciliationBackend :: "backend_store \<Rightarrow> jsval \<Rightarrow> jsval result" where
  "assertCheckpointCaptureReconciliationBackend st v =
     rbind (assertStorageBackend st v) (\<lambda>backend.
     rbind (read_prop st backend ''captureReconciliationContractVersion'') (\<lambda>version.
     guarded [ensure (version_one version) Invalid_storage_backend]
     (rbind (read_prop st backend ''reconcileCheckpointCapture'') (\<lambda>f.
      guarded [ensure (callable f) Invalid_storage_backend] (Inr backend)))))"

text \<open>An own version and an own function, on a backend that passed its base contract.\<close>

definition own_extension :: "backend_store \<Rightarrow> jsval \<Rightarrow> string \<Rightarrow> string \<Rightarrow> (jsval \<Rightarrow> bool) \<Rightarrow> jsval result" where
  "own_extension st backend version_key method_key function_ok =
     rbind (plain_slot st backend version_key) (\<lambda>version.
     rbind (plain_slot st backend method_key) (\<lambda>f.
     guarded [ensure (version_one version \<and> callable f \<and> function_ok (shown f)) Invalid_storage_backend]
       (Inr backend)))"

definition assertStorageForceFenceReconciliationBackend :: "backend_store \<Rightarrow> jsval \<Rightarrow> jsval result" where
  "assertStorageForceFenceReconciliationBackend st v =
     guarded [ensure (\<not> is_proxy v) Invalid_storage_backend]
     (rbind (assertStorageBackend st v) (\<lambda>backend. own_extension st backend
        ''forceFenceReconciliationContractVersion'' ''reconcileForceFence'' (\<lambda>f. \<not> is_proxy f)))"

definition assertPreparedCheckpointCaptureBackend :: "backend_store \<Rightarrow> jsval \<Rightarrow> jsval result" where
  "assertPreparedCheckpointCaptureBackend st v =
     guarded [ensure (\<not> is_proxy v) Invalid_storage_backend]
     (rbind (assertStorageBackend st v) (\<lambda>backend. own_extension st backend
        ''preparedCheckpointCaptureContractVersion'' ''resumePreparedCheckpointCapture'' (\<lambda>_. True)))"

definition assertRestoreAttachmentActivationBackend :: "backend_store \<Rightarrow> jsval \<Rightarrow> jsval result" where
  "assertRestoreAttachmentActivationBackend st v =
     guarded [ensure (\<not> is_proxy v) Invalid_storage_backend]
     (rbind (assertStorageBackend st v) (\<lambda>backend. own_extension st backend
        ''restoreAttachmentActivationContractVersion'' ''prepareRestoreAttachment'' (\<lambda>_. True)))"

definition assertRestoreAttachmentReconciliationBackend :: "backend_store \<Rightarrow> jsval \<Rightarrow> jsval result" where
  "assertRestoreAttachmentReconciliationBackend st v =
     rbind (assertRestoreAttachmentActivationBackend st v) (\<lambda>backend. own_extension st backend
       ''restoreAttachmentReconciliationContractVersion'' ''reconcileRestoreAttachment'' (\<lambda>_. True))"

section \<open>Where a captured field comes from\<close>

text \<open>An object of the chain that \<open>dataValue\<close> may look at, at the given depth.\<close>

definition readable :: "bool \<Rightarrow> jsval \<Rightarrow> bool" where
  "readable first c \<longleftrightarrow> c \<noteq> JNull \<and> \<not> is_proxy c \<and> c \<noteq> JObjectPrototype \<and> (first \<or> proto_of c \<noteq> JNull)"

lemma chain_value_iff:
  "chain_value st n first v k = Inr b \<longleftrightarrow>
     (\<exists>i < n. own_slot st ((proto_of ^^ i) v) k = Data b \<and>
        (\<forall>j < i. own_slot st ((proto_of ^^ j) v) k = Absent) \<and>
        (\<forall>j \<le> i. readable (first \<and> j = 0) ((proto_of ^^ j) v)))"
    (is "_ \<longleftrightarrow> (\<exists>i < n. ?P first v i)")
proof (induction n arbitrary: first v)
  case (Suc n)
  have shift: "(proto_of ^^ Suc i) v = (proto_of ^^ i) (proto_of v)" for i
    by (simp add: funpow_Suc_right del: funpow.simps)
  have step: "?P first v (Suc i) \<longleftrightarrow> readable first v \<and> own_slot st v k = Absent \<and> ?P False (proto_of v) i" for i
    unfolding less_Suc_eq_le [symmetric] All_less_Suc2 shift by auto
  have "(\<exists>i < Suc n. ?P first v i) \<longleftrightarrow> ?P first v 0 \<or> (\<exists>i < n. ?P first v (Suc i))"
    by (rule Ex_less_Suc2)
  also have "?P first v 0 \<longleftrightarrow> readable first v \<and> own_slot st v k = Data b" by auto
  finally have split: "(\<exists>i < Suc n. ?P first v i) \<longleftrightarrow> readable first v \<and>
      (own_slot st v k = Data b \<or> own_slot st v k = Absent \<and> (\<exists>i < n. ?P False (proto_of v) i))"
    unfolding step by blast
  have "chain_value st (Suc n) first v k = Inr b \<longleftrightarrow> readable first v \<and>
      (own_slot st v k = Data b \<or>
       own_slot st v k = Absent \<and> chain_value st n False (proto_of v) k = Inr b)"
    by (cases "own_slot st v k") (auto simp: readable_def)
  then show ?case unfolding split Suc.IH .
qed simp

section \<open>The capabilities are a flat record\<close>

interpretation capabilities: flat_record assertStorageBackendCapabilities STORAGE_BACKEND_CAPABILITY_KEYS
  Invalid_storage_backend capability_checks
proof
  show "list_all (\<lambda>k. data_prim (f k)) STORAGE_BACKEND_CAPABILITY_KEYS"
    if "list_all (\<lambda>c. c = None) (capability_checks f)" for f
    using that
    by (cases "f ''atomicPointInTimeCheckpoint''")
      (auto simp: capability_checks_def STORAGE_BACKEND_CAPABILITY_KEYS_def)
qed (simp_all add: STORAGE_BACKEND_CAPABILITY_KEYS_def assertStorageBackendCapabilities_def capability_checks_def)

section \<open>The invariant of the store\<close>

text \<open>A method call \<open>object[m](...args)\<close> with a given receiver.\<close>

definition call_method :: "backend_store \<Rightarrow> nat \<Rightarrow> string \<Rightarrow> jsval \<Rightarrow> jsval list \<Rightarrow>
    (jsval \<times> jsval \<times> jsval list) result" where
  "call_method st n m this args = apply_op (as_op (object_field st n m)) this args"

text \<open>Called on its own object, the method reaches one foreign function with the arguments unchanged.\<close>

definition resolves :: "backend_store \<Rightarrow> nat \<Rightarrow> string \<Rightarrow> jsval \<Rightarrow> jsval \<Rightarrow> bool" where
  "resolves st n m f receiver \<longleftrightarrow> is_function f \<and> \<not> is_proxy f \<and>
     (\<forall>args. call_method st n m (JOpaque n) args = Inr (f, receiver, args))"

definition CRASH_BACKEND_METHODS :: "string list" where
  "CRASH_BACKEND_METHODS = [''captureAtomicCrashCheckpoint'', ''verifyCommittedAtomicCrashCheckpoint'']"

definition backend_inv :: "backend_store \<Rightarrow> bool" where
  "backend_inv st \<longleftrightarrow> wf_objects st \<and>
     (\<forall>n. objects st n \<noteq> None \<longleftrightarrow> n \<in> checkpointBackendProjections st \<union> atomicCrashCaptureBackendFacades st) \<and>
     (\<forall>n. object_field st n ''destroySession'' = Value JUndefined) \<and>
     (\<forall>n \<in> checkpointBackendProjections st. \<forall>m \<in> set CHECKPOINT_BACKEND_METHODS. \<exists>f r. resolves st n m f r) \<and>
     (\<forall>n \<in> atomicCrashCaptureBackendFacades st. \<forall>m \<in> set CRASH_BACKEND_METHODS. \<exists>f r. resolves st n m f r)"

lemma backend_inv_empty: "backend_inv (empty_store n)"
  by (simp add: backend_inv_def empty_store_def wf_objects_def object_field_def)

lemma known_Some [simp]: "known s v = Some n \<longleftrightarrow> v = JOpaque n \<and> n \<in> s"
  by (cases v) (auto simp: known_def)

lemma known_handle [simp]: "known s (JOpaque n) = (if n \<in> s then Some n else None)"
  by (simp add: known_def)

text \<open>One new object with its brand.\<close>

lemma new_object_sel:
  assumes "new_object st fs = (st', n)"
  shows "n = next_handle st" and "objects st' = (objects st)(n \<mapsto> fs)" and "next_handle st' = Suc n"
    and "checkpointBackendProjections st' = checkpointBackendProjections st"
    and "atomicCrashCaptureBackendFacades st' = atomicCrashCaptureBackendFacades st"
    and "object_field st' i k = (if i = n then (case map_of fs k of Some b \<Rightarrow> b | None \<Rightarrow> Value JUndefined)
      else object_field st i k)"
  using assms by (auto simp: new_object_def object_field_def)

lemma fresh_object: "backend_inv st \<Longrightarrow> new_object st fs = (st', n) \<Longrightarrow> objects st n = None"
  by (rule backend_objects.issue_fresh) (simp add: backend_inv_def)

lemma resolves_cong:
  "(\<And>k. object_field st' n k = object_field st n k) \<Longrightarrow> resolves st' n m f r = resolves st n m f r"
  by (simp add: resolves_def call_method_def)

lemma branded_inv:
  assumes inv: "backend_inv st" and new: "new_object st fs = (st1, n)"
    and st': "objects st' = objects st1" "next_handle st' = next_handle st1"
      "checkpointBackendProjections st' = checkpointBackendProjections st \<union> P"
      "atomicCrashCaptureBackendFacades st' = atomicCrashCaptureBackendFacades st \<union> A"
    and brand: "P \<union> A = {n}" and shape: "map_of fs ''destroySession'' = None"
    and cp: "\<And>m. P \<noteq> {} \<Longrightarrow> m \<in> set CHECKPOINT_BACKEND_METHODS \<Longrightarrow> \<exists>f r. resolves st1 n m f r"
    and cr: "\<And>m. A \<noteq> {} \<Longrightarrow> m \<in> set CRASH_BACKEND_METHODS \<Longrightarrow> \<exists>f r. resolves st1 n m f r"
  shows "backend_inv st'"
proof -
  note sel = new_object_sel [OF new]
  have fresh: "objects st n = None" by (rule fresh_object [OF inv new])
  have field: "object_field st' = object_field st1" by (simp add: fun_eq_iff object_field_def st')
  have old: "resolves st' i m f r = resolves st i m f r" if "i \<noteq> n" for i m f r
    by (rule resolves_cong) (simp add: field sel(6) that)
  have new': "resolves st' n m f r = resolves st1 n m f r" for m f r
    by (rule resolves_cong) (simp add: field)
  have "wf_objects st1" by (rule backend_objects.issue_valid [OF _ new]) (use inv in \<open>simp add: backend_inv_def\<close>)
  then have "wf_objects st'" by (simp add: wf_objects_def st')
  moreover have "objects st' i \<noteq> None \<longleftrightarrow>
      i \<in> checkpointBackendProjections st' \<union> atomicCrashCaptureBackendFacades st'" for i
    using inv brand unfolding backend_inv_def st' sel(2) by (cases "i = n") auto
  moreover have "object_field st' i ''destroySession'' = Value JUndefined" for i
    using inv shape by (simp add: backend_inv_def field sel(6))
  moreover have "n \<notin> checkpointBackendProjections st" "n \<notin> atomicCrashCaptureBackendFacades st"
    using inv fresh unfolding backend_inv_def by (metis UnI1, metis UnI2)
  then have "\<exists>f r. resolves st' i m f r"
    if "i \<in> checkpointBackendProjections st'" "m \<in> set CHECKPOINT_BACKEND_METHODS" for i m
    using that inv brand cp [of m] unfolding backend_inv_def st' by (cases "i = n") (auto simp: old new')
  moreover have "\<exists>f r. resolves st' i m f r"
    if "i \<in> atomicCrashCaptureBackendFacades st'" "m \<in> set CRASH_BACKEND_METHODS" for i m
    using that inv brand cr [of m] \<open>n \<notin> atomicCrashCaptureBackendFacades st\<close>
    unfolding backend_inv_def st' by (cases "i = n") (auto simp: old new')
  ultimately show ?thesis unfolding backend_inv_def by blast
qed

section \<open>Projections\<close>

lemma not_handle_field:
  assumes "proto_of v \<noteq> JNull" and "dataValue st v k = Inr b"
  shows "\<exists>x. b = Value x"
proof -
  obtain i where i: "own_slot st ((proto_of ^^ i) v) k = Data b"
      "readable (True \<and> i = 0) ((proto_of ^^ i) v)"
    using assms(2) unfolding dataValue_def chain_value_iff by blast
  have "\<nexists>n. (proto_of ^^ i) v = JOpaque n"
    using i(2) assms(1) by (cases i) (auto simp: readable_def)
  with i(1) show ?thesis
    by (auto simp: own_slot_def split: jsval.splits option.splits jsdesc.splits)
qed

lemma captured:
  assumes "capture_methods st v ms = Inr fs" and "m \<in> set ms"
  shows "\<exists>operation. dataValue st v m = Inr operation \<and> callable operation \<and> \<not> is_proxy (shown operation) \<and>
    map_of fs m = Some (Method (Bound (shown operation) v))"
  using assms by (induction ms arbitrary: fs) auto

lemma captured_only: "capture_methods st v ms = Inr fs \<Longrightarrow> map fst fs = ms"
  by (induction ms arbitrary: fs) auto

lemma projection_known: "known (checkpointBackendProjections st) v = Some p \<Longrightarrow>
    checkpointBackendProjection st v = (Inr p, st)"
  by (cases v) (auto simp: checkpointBackendProjection_def known_def simp del: known_Some split: if_splits)

lemma projection_new:
  assumes "known (checkpointBackendProjections st) v = None"
    and "checkpointBackendProjection st v = (Inr p, st')"
  obtains fs st1 where "projection_fields st v = Inr fs" "new_object st fs = (st1, p)"
    "st' = st1\<lparr>checkpointBackendProjections := insert p (checkpointBackendProjections st1)\<rparr>"
    "proto_of v \<noteq> JNull" "is_object v" "\<not> is_proxy v"
  using assms by (auto simp: checkpointBackendProjection_def split: if_splits sum.splits prod.splits)

lemma projection_field:
  assumes "projection_fields st v = Inr fs"
  shows "m \<in> set CHECKPOINT_BACKEND_METHODS \<Longrightarrow> \<exists>operation. dataValue st v m = Inr operation \<and>
      callable operation \<and> \<not> is_proxy (shown operation) \<and>
      map_of fs m = Some (Method (Bound (shown operation) v))"
    and "\<exists>b. dataValue st v ''backendId'' = Inr b \<and> map_of fs ''backendId'' = Some b \<and> isOpaqueId (shown b)"
    and "\<exists>b c. dataValue st v ''capabilities'' = Inr b \<and>
      assertStorageBackendCapabilities (shown b) = Inr c \<and> map_of fs ''capabilities'' = Some (Value c)"
    and "\<exists>b. dataValue st v ''contractVersion'' = Inr b \<and> map_of fs ''contractVersion'' = Some b \<and> version_one b"
    and "map_of fs ''destroySession'' = None"
proof -
  from assms obtain version ident given caps ms where p: "dataValue st v ''contractVersion'' = Inr version"
      "version_one version" "dataValue st v ''backendId'' = Inr ident"
      "assertOpaqueId (shown ident) Invalid_storage_backend = None" "dataValue st v ''capabilities'' = Inr given"
      "assertStorageBackendCapabilities (shown given) = Inr caps"
      "capture_methods st v CHECKPOINT_BACKEND_METHODS = Inr ms"
      "fs = [(''backendId'', ident), (''capabilities'', Value caps), (''contractVersion'', version)] @ ms"
    by (auto simp: projection_fields_def)
  show "\<exists>b. dataValue st v ''backendId'' = Inr b \<and> map_of fs ''backendId'' = Some b \<and> isOpaqueId (shown b)"
    "\<exists>b c. dataValue st v ''capabilities'' = Inr b \<and>
      assertStorageBackendCapabilities (shown b) = Inr c \<and> map_of fs ''capabilities'' = Some (Value c)"
    "\<exists>b. dataValue st v ''contractVersion'' = Inr b \<and> map_of fs ''contractVersion'' = Some b \<and> version_one b"
    using p by (auto simp: assertOpaqueId_def)
  have "fst ` set ms = set CHECKPOINT_BACKEND_METHODS"
    using arg_cong [OF captured_only [OF p(7)], of set] by simp
  then have "''destroySession'' \<notin> fst ` set ms" by (simp add: CHECKPOINT_BACKEND_METHODS_def)
  then show "map_of fs ''destroySession'' = None" by (simp add: p(8) map_of_eq_None_iff)
  show "\<exists>operation. dataValue st v m = Inr operation \<and> callable operation \<and> \<not> is_proxy (shown operation) \<and>
      map_of fs m = Some (Method (Bound (shown operation) v))"
    if "m \<in> set CHECKPOINT_BACKEND_METHODS"
    using captured [OF p(7) that] that by (auto simp: p(8) CHECKPOINT_BACKEND_METHODS_def)
qed

lemma projection_inv:
  assumes "backend_inv st" and "checkpointBackendProjection st v = (r, st')"
  shows "backend_inv st'"
proof (cases "\<exists>p. r = Inr p \<and> known (checkpointBackendProjections st) v = None")
  case True
  then obtain p where r: "r = Inr p" "known (checkpointBackendProjections st) v = None" by blast
  from r assms(2) obtain fs st1 where p: "projection_fields st v = Inr fs" "new_object st fs = (st1, p)"
      "st' = st1\<lparr>checkpointBackendProjections := insert p (checkpointBackendProjections st1)\<rparr>"
      "proto_of v \<noteq> JNull"
    using projection_new by metis
  note sel = new_object_sel [OF p(2)]
  show ?thesis
  proof (rule branded_inv [OF assms(1) p(2), where P = "{p}" and A = "{}"])
    fix m assume m: "m \<in> set CHECKPOINT_BACKEND_METHODS"
    from projection_field(1) [OF p(1) this] obtain operation
      where "callable operation" "\<not> is_proxy (shown operation)"
        "map_of fs m = Some (Method (Bound (shown operation) v))" by blast
    then have "resolves st1 p m (shown operation) v"
      by (simp add: resolves_def call_method_def sel(6) callable_def)
    then show "\<exists>f r. resolves st1 p m f r" by blast
  qed (use projection_field(5) [OF p(1)] sel in \<open>simp_all add: p(3)\<close>)
next
  case False
  then show ?thesis
    using assms by (auto simp: checkpointBackendProjection_def split: if_splits sum.splits prod.splits option.splits)
qed

section \<open>Facades\<close>

lemma projection_result:
  assumes "backend_inv st" and "checkpointBackendProjection st v = (Inr p, st')"
  shows "p \<in> checkpointBackendProjections st'"
    and "objects st n = Some fs \<Longrightarrow> objects st' n = Some fs"
    and "checkpointBackendProjections st \<subseteq> checkpointBackendProjections st'"
    and "atomicCrashCaptureBackendFacades st' = atomicCrashCaptureBackendFacades st"
proof -
  have "p \<in> checkpointBackendProjections st' \<and> (objects st n = Some fs \<longrightarrow> objects st' n = Some fs) \<and>
    checkpointBackendProjections st \<subseteq> checkpointBackendProjections st' \<and>
    atomicCrashCaptureBackendFacades st' = atomicCrashCaptureBackendFacades st"
  proof (cases "known (checkpointBackendProjections st) v")
    case None
    from None assms(2) obtain gs st1 where p: "new_object st gs = (st1, p)"
        "st' = st1\<lparr>checkpointBackendProjections := insert p (checkpointBackendProjections st1)\<rparr>"
      by (rule projection_new)
    show ?thesis using fresh_object [OF assms(1) p(1)] new_object_sel [OF p(1)] by (auto simp: p(2))
  next
    case (Some i)
    then show ?thesis using projection_known [OF Some] assms(2) by auto
  qed
  then show "p \<in> checkpointBackendProjections st'"
    "objects st n = Some fs \<Longrightarrow> objects st' n = Some fs"
    "checkpointBackendProjections st \<subseteq> checkpointBackendProjections st'"
    "atomicCrashCaptureBackendFacades st' = atomicCrashCaptureBackendFacades st" by auto
qed

lemma facade_created:
  assumes "createCheckpointBackendFacade st v = (Inr f, st')"
  obtains p st1 st2 where "checkpointBackendProjection st v = (Inr p, st1)"
    "new_object st1 (checkpoint_facade_fields st1 f p) = (st2, f)"
    "st' = st2\<lparr>checkpointBackendProjections := insert f (checkpointBackendProjections st2)\<rparr>"
proof -
  obtain r st1 where r: "checkpointBackendProjection st v = (r, st1)" by fastforce
  with assms obtain p where p: "r = Inr p"
    by (cases r) (auto simp: createCheckpointBackendFacade_def)
  let ?new = "new_object st1 (checkpoint_facade_fields st1 (next_handle st1) p)"
  from assms r p have "f = next_handle st1" "?new = (fst ?new, f)"
    "st' = (fst ?new)\<lparr>checkpointBackendProjections := insert f (checkpointBackendProjections (fst ?new))\<rparr>"
    by (auto simp: createCheckpointBackendFacade_def new_object_def)
  with r p that [of p st1 "fst ?new"] show ?thesis by simp
qed

lemma facade_method:
  assumes "new_object st (checkpoint_facade_fields st f p) = (st', f)"
    and "m \<in> set CHECKPOINT_BACKEND_METHODS"
  shows "call_method st' f m this args =
    (if this = JOpaque f then call_method st p m (JOpaque p) args else Inl Type_error)"
  using assms(2)
  by (auto simp: call_method_def new_object_sel(6) [OF assms(1)] checkpoint_facade_fields_def
      CHECKPOINT_BACKEND_METHODS_def)

lemma facade_inv:
  assumes "backend_inv st" and "createCheckpointBackendFacade st v = (r, st')"
  shows "backend_inv st'"
proof (cases r)
  case (Inl e)
  with assms(2) have "checkpointBackendProjection st v = (Inl e, st')"
    by (auto simp: createCheckpointBackendFacade_def new_object_def split: sum.splits prod.splits)
  with assms(1) show ?thesis by (rule projection_inv)
next
  case (Inr f)
  with assms(2) obtain p st1 st2 where p: "checkpointBackendProjection st v = (Inr p, st1)"
      "new_object st1 (checkpoint_facade_fields st1 f p) = (st2, f)"
      "st' = st2\<lparr>checkpointBackendProjections := insert f (checkpointBackendProjections st2)\<rparr>"
    using facade_created by metis
  have inv1: "backend_inv st1" by (rule projection_inv [OF assms(1) p(1)])
  show ?thesis
  proof (rule branded_inv [OF inv1 p(2), where P = "{f}" and A = "{}"])
    fix m assume m: "m \<in> set CHECKPOINT_BACKEND_METHODS"
    then obtain g r' where "resolves st1 p m g r'"
      using inv1 projection_result(1) [OF assms(1) p(1)] unfolding backend_inv_def by blast
    then have "resolves st2 f m g r'" by (simp add: resolves_def facade_method [OF p(2) m])
    then show "\<exists>g r'. resolves st2 f m g r'" by blast
  qed (use new_object_sel [OF p(2)] in \<open>simp_all add: p(3) checkpoint_facade_fields_def\<close>)
qed

text \<open>No object of this module passes for a foreign crash-capture backend.\<close>

lemma handle_no_backend:
  assumes "backend_inv st"
  shows "foreign_extension st (JOpaque n) \<noteq> Inr x"
proof
  assume "foreign_extension st (JOpaque n) = Inr x"
  then obtain b where b: "dataValue st (JOpaque n) ''destroySession'' = Inr b" "callable b"
    by (auto simp: foreign_extension_def STORAGE_BACKEND_METHODS_def)
  have "object_field st n ''destroySession'' = Value JUndefined" using assms by (simp add: backend_inv_def)
  with b show False
    by (auto simp: dataValue_def MAX_BACKEND_PROTOTYPE_DEPTH_def numeral_eq_Suc own_slot_def object_field_def
        callable_def split: option.splits if_splits)
qed

lemma foreign_extension_facts:
  assumes "foreign_extension st v = Inr x"
  obtains capture verify where "plain_slot st v ''captureAtomicCrashCheckpoint'' = Inr capture"
    "plain_slot st v ''verifyCommittedAtomicCrashCheckpoint'' = Inr verify"
    "x_capture x = as_op capture" "x_verify x = as_op verify" "x_backend x = v"
    "callable capture" "\<not> is_proxy (shown capture)" "callable verify" "\<not> is_proxy (shown verify)"
    "dataValue st v ''backendId'' = Inr (x_backendId x)" "isOpaqueId (shown (x_backendId x))"
    "js_seq (fld (x_capabilities x) ''atomicPointInTimeCheckpoint'') (JBool True)"
  using assms by (auto simp: foreign_extension_def assertOpaqueId_def)

text \<open>Its capture and verification are own data properties of the foreign object.\<close>

lemma foreign_slot:
  assumes "\<nexists>n. v = JOpaque n" and "plain_slot st v k = Inr b"
  shows "\<exists>x. b = Value x \<and> own_desc v (key k) = Some (DataDesc True x)"
  using assms by (cases v) (auto simp: plain_slot_def plainDataDescriptor_Inr split: if_splits)

lemma crash_facade_created:
  assumes "backend_inv st" and "createAtomicCrashCaptureBackendFacade st v = (Inr f, st')"
    and "known (atomicCrashCaptureBackendFacades st) v = None"
  obtains x st1 where "foreign_extension st v = Inr x" "new_object st (crash_facade_fields f x) = (st1, f)"
    "st' = st1\<lparr>atomicCrashCaptureBackendFacades := insert f (atomicCrashCaptureBackendFacades st1)\<rparr>"
    "\<nexists>n. v = JOpaque n"
proof -
  from assms(2,3) obtain x where x: "atomicCrashCaptureBackendExtension st v = Inr x"
    by (auto simp: createAtomicCrashCaptureBackendFacade_def split: sum.splits)
  with assms(3) have ext: "foreign_extension st v = Inr x"
    by (simp add: atomicCrashCaptureBackendExtension_def)
  with handle_no_backend [OF assms(1)] have h: "\<nexists>n. v = JOpaque n" by blast
  let ?new = "new_object st (crash_facade_fields (next_handle st) x)"
  have "f = next_handle st" "?new = (fst ?new, f)"
    "st' = (fst ?new)\<lparr>atomicCrashCaptureBackendFacades := insert f (atomicCrashCaptureBackendFacades (fst ?new))\<rparr>"
    using assms(2,3) x by (auto simp: createAtomicCrashCaptureBackendFacade_def new_object_def)
  with ext h that [of x "fst ?new"] show ?thesis by simp
qed

lemma crash_facade_method:
  assumes "new_object st (crash_facade_fields f x) = (st', f)"
  shows "call_method st' f ''captureAtomicCrashCheckpoint'' this args =
      (if this = JOpaque f then apply_op (x_capture x) (x_backend x) args else Inl Type_error)"
    and "call_method st' f ''verifyCommittedAtomicCrashCheckpoint'' this args =
      (if this = JOpaque f then apply_op (x_verify x) (x_backend x) args else Inl Type_error)"
  by (auto simp: call_method_def new_object_sel(6) [OF assms] crash_facade_fields_def)

lemma crash_facade_inv:
  assumes inv: "backend_inv st" and "createAtomicCrashCaptureBackendFacade st v = (r, st')"
  shows "backend_inv st'"
proof (cases "known (atomicCrashCaptureBackendFacades st) v = None \<and> (\<exists>f. r = Inr f)")
  case True
  then obtain f where r: "r = Inr f" "known (atomicCrashCaptureBackendFacades st) v = None" by blast
  from assms r obtain x st1 where x: "foreign_extension st v = Inr x"
      "new_object st (crash_facade_fields f x) = (st1, f)"
      "st' = st1\<lparr>atomicCrashCaptureBackendFacades := insert f (atomicCrashCaptureBackendFacades st1)\<rparr>"
      "\<nexists>n. v = JOpaque n"
    using crash_facade_created by metis
  from x(1) obtain c w where cw: "plain_slot st v ''captureAtomicCrashCheckpoint'' = Inr c"
      "plain_slot st v ''verifyCommittedAtomicCrashCheckpoint'' = Inr w"
      "x_capture x = as_op c" "x_verify x = as_op w" "x_backend x = v"
      "callable c" "\<not> is_proxy (shown c)" "callable w" "\<not> is_proxy (shown w)"
    by (rule foreign_extension_facts)
  obtain c' w' where c'w': "c = Value c'" "w = Value w'"
    using foreign_slot [OF x(4) cw(1)] foreign_slot [OF x(4) cw(2)] by auto
  have "resolves st1 f ''captureAtomicCrashCheckpoint'' c' v" "resolves st1 f ''verifyCommittedAtomicCrashCheckpoint'' w' v"
    using cw by (simp_all add: resolves_def crash_facade_method [OF x(2)] c'w' callable_def)
  then have res: "\<exists>g r'. resolves st1 f m g r'" if "m \<in> set CRASH_BACKEND_METHODS" for m
    using that by (auto simp: CRASH_BACKEND_METHODS_def)
  show ?thesis
  proof (rule branded_inv [OF inv x(2), where P = "{}" and A = "{f}"])
    show "\<exists>g r'. resolves st1 f m g r'" if "m \<in> set CRASH_BACKEND_METHODS" for m by (rule res [OF that])
  qed (use new_object_sel [OF x(2)] in \<open>simp_all add: x(3) crash_facade_fields_def\<close>)
next
  case False
  with assms show ?thesis
    by (auto simp: createAtomicCrashCaptureBackendFacade_def new_object_def split: sum.splits option.splits)
qed

section \<open>What a checked backend is called through\<close>

lemma backend_inv_next: "backend_inv st \<Longrightarrow> next_handle st \<le> n \<Longrightarrow> backend_inv (st\<lparr>next_handle := n\<rparr>)"
  by (auto simp: backend_inv_def wf_objects_def object_field_def resolves_def call_method_def
      dest: less_le_trans)

lemma handles_grow:
  "checkpointBackendProjection st v = (r, st') \<Longrightarrow> next_handle st \<le> next_handle st'"
  "createCheckpointBackendFacade st v = (r, st') \<Longrightarrow> next_handle st \<le> next_handle st'"
  "createAtomicCrashCaptureBackendFacade st v = (r, st') \<Longrightarrow> next_handle st \<le> next_handle st'"
proof -
  show *: "next_handle st \<le> next_handle st'" if "checkpointBackendProjection st v = (r, st')" for r st'
    using that by (auto simp: checkpointBackendProjection_def new_object_def split: if_splits option.splits sum.splits)
  show "createCheckpointBackendFacade st v = (r, st') \<Longrightarrow> next_handle st \<le> next_handle st'"
    by (cases "checkpointBackendProjection st v")
      (auto simp: createCheckpointBackendFacade_def new_object_def split: sum.splits dest: *)
  show "createAtomicCrashCaptureBackendFacade st v = (r, st') \<Longrightarrow> next_handle st \<le> next_handle st'"
    by (auto simp: createAtomicCrashCaptureBackendFacade_def new_object_def split: option.splits sum.splits)
qed

text \<open>
  Operation \<open>m\<close> of backend \<open>v\<close> is the foreign function \<open>f\<close> on \<open>r\<close>: for an object of this module what
  its method resolves to, for a foreign backend the function on its own prototype chain.
\<close>

definition backend_target :: "backend_store \<Rightarrow> jsval \<Rightarrow> string \<Rightarrow> jsval \<Rightarrow> jsval \<Rightarrow> bool" where
  "backend_target st v m f r \<longleftrightarrow> is_function f \<and> \<not> is_proxy f \<and>
     (case known (checkpointBackendProjections st) v of
        Some p \<Rightarrow> resolves st p m f r
      | None \<Rightarrow> dataValue st v m = Inr (Value f) \<and> r = v)"

lemma captured_target:
  assumes "backend_inv st" and "checkpointBackendProjection st v = (Inr p, st')"
    and "m \<in> set CHECKPOINT_BACKEND_METHODS"
  obtains f r where "backend_target st v m f r"
    "\<And>args. apply_op (as_op (object_field st' p m)) v args = Inr (f, r, args)"
    "\<And>args. apply_op (as_op (object_field st' p m)) (JOpaque p) args = Inr (f, r, args)"
proof (cases "known (checkpointBackendProjections st) v")
  case None
  from None assms(2) obtain fs st1 where q: "projection_fields st v = Inr fs" "new_object st fs = (st1, p)"
      "st' = st1\<lparr>checkpointBackendProjections := insert p (checkpointBackendProjections st1)\<rparr>"
      "proto_of v \<noteq> JNull"
    by (rule projection_new)
  obtain operation where o: "dataValue st v m = Inr operation" "callable operation"
      "\<not> is_proxy (shown operation)" "map_of fs m = Some (Method (Bound (shown operation) v))"
    using projection_field(1) [OF q(1) assms(3)] by blast
  obtain g where g: "operation = Value g" using not_handle_field [OF q(4) o(1)] by blast
  have "object_field st' p m = Method (Bound g v)"
    using new_object_sel(2) [OF q(2)] o(4) by (simp add: object_field_def q(3) g)
  with None o that [of g v] show ?thesis by (simp add: backend_target_def g callable_def)
next
  case (Some i)
  with assms(2) projection_known [OF Some] have p: "p = i" "st' = st" "v = JOpaque p" by auto
  from Some assms(1,3) obtain f r where "resolves st i m f r" unfolding backend_inv_def by fastforce
  with Some p that [of f r] show ?thesis by (simp add: backend_target_def resolves_def call_method_def)
qed

text \<open>
  C17: A facade is a new object and calls nothing but its backend. Its two operations answer a
  call on the facade itself with a call of the operation that was found on the backend's own
  prototype chain when the facade was made, with the backend as receiver and the arguments
  unchanged; over an existing projection or facade they pass the call on to it. With any other
  receiver they throw a \<open>TypeError\<close> and call nothing. Every earlier object stays as it is, and the
  facade is taken for itself when it is wrapped again.
\<close>

theorem facade_calls_its_backend:
  assumes "backend_inv st" and "createCheckpointBackendFacade st v = (Inr f, st')"
    and "m \<in> set CHECKPOINT_BACKEND_METHODS"
  shows "objects st f = None \<and> (\<forall>n fs. objects st n = Some fs \<longrightarrow> objects st' n = Some fs) \<and>
    assertCheckpointBackend st' (JOpaque f) = (Inr f, st') \<and>
    (\<forall>this args. this \<noteq> JOpaque f \<longrightarrow> call_method st' f m this args = Inl Type_error) \<and>
    (case known (checkpointBackendProjections st) v of
       Some p \<Rightarrow> \<forall>args. call_method st' f m (JOpaque f) args = call_method st p m (JOpaque p) args
     | None \<Rightarrow> \<exists>operation. dataValue st v m = Inr (Value operation) \<and> is_function operation \<and>
         (\<forall>args. call_method st' f m (JOpaque f) args = Inr (operation, v, args)))"
proof -
  from assms(2) obtain p st1 st2 where p: "checkpointBackendProjection st v = (Inr p, st1)"
      "new_object st1 (checkpoint_facade_fields st1 f p) = (st2, f)"
      "st' = st2\<lparr>checkpointBackendProjections := insert f (checkpointBackendProjections st2)\<rparr>"
    by (rule facade_created)
  have inv1: "backend_inv st1" by (rule projection_inv [OF assms(1) p(1)])
  note keeps1 = projection_result(2) [OF assms(1) p(1)]
  have fresh1: "objects st1 f = None" by (rule fresh_object [OF inv1 p(2)])
  have "objects st f = None"
    using keeps1 [of f] fresh1 by (cases "objects st f") auto
  moreover have "objects st' n = Some fs" if "objects st n = Some fs" for n fs
    using keeps1 [OF that] fresh1 by (auto simp: p(3) new_object_sel(2) [OF p(2)])
  moreover have "assertCheckpointBackend st' (JOpaque f) = (Inr f, st')"
    unfolding assertCheckpointBackend_def by (rule projection_known) (simp add: p(3))
  moreover have call: "call_method st' f m this args =
      (if this = JOpaque f then call_method st1 p m (JOpaque p) args else Inl Type_error)" for this args
    using facade_method [OF p(2) assms(3), of this args]
    by (simp add: call_method_def object_field_def p(3))
  moreover have "case known (checkpointBackendProjections st) v of
       Some p \<Rightarrow> \<forall>args. call_method st' f m (JOpaque f) args = call_method st p m (JOpaque p) args
     | None \<Rightarrow> \<exists>operation. dataValue st v m = Inr (Value operation) \<and> is_function operation \<and>
         (\<forall>args. call_method st' f m (JOpaque f) args = Inr (operation, v, args))"
  proof (cases "known (checkpointBackendProjections st) v")
    case None
    from None p(1) obtain fs st0 where q: "projection_fields st v = Inr fs" "new_object st fs = (st0, p)"
        "st1 = st0\<lparr>checkpointBackendProjections := insert p (checkpointBackendProjections st0)\<rparr>"
        "proto_of v \<noteq> JNull"
      by (rule projection_new)
    obtain operation where o: "dataValue st v m = Inr operation" "callable operation"
        "map_of fs m = Some (Method (Bound (shown operation) v))"
      using projection_field(1) [OF q(1) assms(3)] by blast
    obtain g where g: "operation = Value g" using not_handle_field [OF q(4) o(1)] by blast
    have "object_field st1 p m = Method (Bound g v)"
      using new_object_sel(2) [OF q(2)] o(3) by (simp add: object_field_def q(3) g)
    with None o g show ?thesis unfolding call by (simp add: call_method_def callable_def)
  next
    case (Some i)
    with p(1) projection_known [OF Some] have "p = i" "st1 = st" by simp_all
    with Some show ?thesis by (simp add: call)
  qed
  ultimately show ?thesis by simp
qed

text \<open>
  A field that the capture of a backend reads is a data property of the first object on the
  backend's prototype chain that has it. That object lies less than 64 steps away; neither it nor
  any object before it is a proxy, the shared \<open>Object.prototype\<close> or, past the backend itself, the
  end of the chain. Every such field is read, and nothing else is.
\<close>

theorem captured_field_is_own_chain_data:
  "dataValue st v k = Inr b \<longleftrightarrow>
     (\<exists>i < 64. own_slot st ((proto_of ^^ i) v) k = Data b \<and>
        (\<forall>j < i. own_slot st ((proto_of ^^ j) v) k = Absent) \<and>
        (\<forall>j \<le> i. readable (j = 0) ((proto_of ^^ j) v)))"
  by (simp add: dataValue_def chain_value_iff MAX_BACKEND_PROTOTYPE_DEPTH_def)

end
