(* ===== verification/Snapshot_Core.thy ===== *)
theory Snapshot_Core
  imports Contract_Backend Contract_Mutation
begin

text \<open>
  \<open>session-snapshot-core.mjs\<close>: capturing, reconciling and restoring a clean checkpoint through a
  storage backend. Each operation checks its options against the contracts, calls one captured
  backend operation once, and accepts only a result that answers the request.

  An asynchronous operation is split at its \<open>await\<close>: \<open>..._begin\<close> runs up to the call of the backend
  and returns that call, \<open>..._settled\<close> takes what it settled with, \<open>None\<close> when it threw or was
  rejected. A prepared capture is a frozen object that the \<open>WeakMap\<close> of this module knows; its
  identity comes from the same counter as the backend objects.
\<close>

datatype snapshot_error =
    Contract contract_error
  | Checkpoint_outcome_uncertain
  | Checkpoint_reconciliation_outcome_uncertain
  | Restore_outcome_uncertain
  | Unsupported_checkpoint_class

type_synonym 'a sresult = "snapshot_error + 'a"

record prepared_capture =
  p_attachment :: jsval
  p_backend :: jsval
  p_checkpoint :: jsval
  p_manifest :: jsval
  p_request :: jsval
  p_storageRef :: jsval
  p_capture :: backend_op
  p_dispatched :: bool

record snapshot_core =
  backends :: backend_store
  preparedCleanCheckpointCaptures :: "nat \<Rightarrow> prepared_capture option"

definition new_snapshot_core :: "nat \<Rightarrow> snapshot_core" where
  "new_snapshot_core n = \<lparr>backends = empty_store n, preparedCleanCheckpointCaptures = (\<lambda>_. None)\<rparr>"

definition remember_prepared :: "snapshot_core \<Rightarrow> prepared_capture \<Rightarrow> snapshot_core \<times> nat" where
  "remember_prepared st r = (let n = next_handle (backends st) in
     (st\<lparr>backends := (backends st)\<lparr>next_handle := Suc n\<rparr>,
         preparedCleanCheckpointCaptures := (preparedCleanCheckpointCaptures st)(n \<mapsto> r)\<rparr>, n))"

definition wf_prepared :: "snapshot_core \<Rightarrow> bool" where
  "wf_prepared st \<longleftrightarrow> (\<forall>n. preparedCleanCheckpointCaptures st n \<noteq> None \<longrightarrow> n < next_handle (backends st))"

interpretation prepared_captures: token_store remember_prepared preparedCleanCheckpointCaptures wf_prepared
  by unfold_locales (auto simp: remember_prepared_def wf_prepared_def less_Suc_eq Let_def split: if_splits)

section \<open>Wrapping the contracts\<close>

text \<open>\<open>assertExactOptions\<close>: exactly these own enumerable data properties, copied.\<close>

definition assertExactOptionsS :: "jsval \<Rightarrow> string list \<Rightarrow> jsval sresult" where
  "assertExactOptionsS v ks = exact_options (Contract Invalid_checkpoint) v ks"

text \<open>Contract errors pass, anything else becomes the given contract error.\<close>

definition validateContract :: "'a result \<Rightarrow> contract_error \<Rightarrow> 'a sresult" where
  "validateContract r e = (case r of
     Inr a \<Rightarrow> Inr a
   | Inl c \<Rightarrow> Inl (Contract (if c = Type_error \<or> c = Foreign_error then e else c)))"

text \<open>Errors of a collaborator never pass.\<close>

definition validateExternalOperation :: "'a result \<Rightarrow> contract_error \<Rightarrow> 'a sresult" where
  "validateExternalOperation r e = rcatch r (Contract e)"

definition uncaught :: "'a result \<Rightarrow> 'a sresult" where
  "uncaught r = (case r of Inr a \<Rightarrow> Inr a | Inl c \<Rightarrow> Inl (Contract c))"

definition assertCleanCheckpointClass :: "jsval \<Rightarrow> jsval sresult" where
  "assertCleanCheckpointClass v =
     rbind (validateContract (assertCheckpointClass v) Invalid_checkpoint) (\<lambda>checkpointClass.
     guarded [ensure (js_seq checkpointClass (lit ''clean'')) Unsupported_checkpoint_class]
       (Inr checkpointClass))"

definition checkedBackend :: "backend_store \<Rightarrow> jsval \<Rightarrow> nat sresult \<times> backend_store" where
  "checkedBackend st v = (case assertCheckpointBackend st v of
     (r, st') \<Rightarrow> (validateExternalOperation r Invalid_storage_backend, st'))"

definition checkedCaptureReconciliationBackend :: "backend_store \<Rightarrow> jsval \<Rightarrow> jsval sresult" where
  "checkedCaptureReconciliationBackend st v =
     validateExternalOperation (assertCheckpointCaptureReconciliationBackend st v) Invalid_storage_backend"

definition checkedBackendMethod :: "backend_store \<Rightarrow> jsval \<Rightarrow> string \<Rightarrow> backend_op sresult" where
  "checkedBackendMethod st backend m = validateExternalOperation
     (rbind (read_prop st backend m) (\<lambda>operation.
        guarded [ensure (callable operation) Invalid_storage_backend] (Inr (as_op operation))))
     Invalid_storage_backend"

definition assertStoppedWriterEvidence :: "jsval \<Rightarrow> jsval sresult" where
  "assertStoppedWriterEvidence v =
     guarded [ensure (v \<noteq> JNull \<and> is_object v \<and> \<not> is_proxy v \<and> \<not> is_array v) (Contract Invalid_checkpoint)]
       (Inr v)"

definition assertBackendMatchesStorage :: "backend_store \<Rightarrow> jsval \<Rightarrow> jsval \<Rightarrow> snapshot_error option" where
  "assertBackendMatchesStorage st backend storageRef = err_of (validateExternalOperation
     (rbind (read_prop st backend ''backendId'') (\<lambda>backendId.
        guarded [ensure (js_seq (shown backendId) (fld storageRef ''backendId'')) Invalid_storage_backend]
          (Inr ())))
     Invalid_storage_backend)"

definition assertOperation :: "jsval \<Rightarrow> string \<Rightarrow> snapshot_error option" where
  "assertOperation request operation =
     ensure (js_seq (fld request ''operation'') (lit operation)) (Contract Invalid_storage_mutation)"

definition assertCheckpointTarget :: "jsval \<Rightarrow> jsval \<Rightarrow> snapshot_error option" where
  "assertCheckpointTarget request checkpoint = ensure
     (js_seq (fld (fld request ''target'') ''kind'') (lit ''checkpoint'') \<and>
      js_seq (fld (fld request ''target'') ''checkpointId'') (fld checkpoint ''checkpointId'') \<and>
      js_seq (fld (fld request ''target'') ''artifactId'') (fld checkpoint ''artifactId''))
     (Contract Invalid_storage_mutation)"

section \<open>Calls of the backend\<close>

definition frozenResult :: "jsval \<Rightarrow> jsval \<Rightarrow> jsval" where
  "frozenResult checkpoint mutation = plain_obj [(''checkpoint'', checkpoint), (''mutation'', mutation)]"

text \<open>\<open>objectKeys(expected).every(key => checkpoint[key] === expected[key])\<close>\<close>

definition same_checkpoint :: "jsval \<Rightarrow> jsval \<Rightarrow> bool" where
  "same_checkpoint expected checkpoint \<longleftrightarrow>
     list_all (\<lambda>k. js_seq (own_value checkpoint k) (own_value expected k)) (own_keys expected)"

text \<open>\<open>storageRef\<close> is \<open>undefined\<close> for a restore.\<close>

definition assertBackendCheckpointResult :: "jsval \<Rightarrow> jsval \<Rightarrow> jsval \<Rightarrow> jsval \<Rightarrow> jsval \<Rightarrow> jsval sresult" where
  "assertBackendCheckpointResult v expectedCheckpoint manifest request storageRef =
     rbind (assertExactOptionsS v [''checkpoint'', ''mutation'']) (\<lambda>envelope.
     let checkpointOptions = (if storageRef = JUndefined then plain_obj [(''manifest'', manifest)]
           else plain_obj [(''manifest'', manifest), (''storageRef'', storageRef)]) in
     rbind (uncaught (assertCheckpointDescriptor (fld envelope ''checkpoint'') checkpointOptions)) (\<lambda>checkpoint.
     guarded [ensure (same_checkpoint expectedCheckpoint checkpoint) (Contract Invalid_checkpoint)]
     (rbind (uncaught (assertStorageMutationResult (fld envelope ''mutation'') (plain_obj [(''request'', request)])))
       (\<lambda>mutation. Inr (frozenResult checkpoint mutation)))))"

text \<open>A call that was made: the foreign function it reached, and what its result has to answer.\<close>

record backend_call =
  k_called :: "(jsval \<times> jsval \<times> jsval list) result"
  k_checkpoint :: jsval
  k_manifest :: jsval
  k_request :: jsval
  k_storageRef :: jsval

text \<open>The \<open>try\<close> around the \<open>await\<close>: every failure past the call leaves the outcome uncertain.\<close>

definition call_settled :: "snapshot_error \<Rightarrow> backend_call \<Rightarrow> jsval option \<Rightarrow> jsval sresult" where
  "call_settled uncertain k outcome = (case k_called k of
     Inl _ \<Rightarrow> Inl uncertain
   | Inr _ \<Rightarrow> (case outcome of
       None \<Rightarrow> Inl uncertain
     | Some result \<Rightarrow> rcatch (assertBackendCheckpointResult result (k_checkpoint k) (k_manifest k)
         (k_request k) (k_storageRef k)) uncertain))"

section \<open>Preparing and dispatching a capture\<close>

definition capture_descriptor :: "jsval \<Rightarrow> jsval \<Rightarrow> jsval \<Rightarrow> jsval \<Rightarrow> jsval" where
  "capture_descriptor matched mutationRequest cleanClass createdAt = plain_obj
     [(''artifactId'', fld (fld mutationRequest ''target'') ''artifactId''),
      (''backendId'', fld (fld matched ''storageRef'') ''backendId''),
      (''checkpointClass'', cleanClass),
      (''checkpointId'', fld (fld mutationRequest ''target'') ''checkpointId''),
      (''codexSessionId'', fld (fld (fld matched ''manifest'') ''codex'') ''sessionId''),
      (''codexThreadId'', fld (fld (fld matched ''manifest'') ''codex'') ''rootThreadId''),
      (''contractVersion'', fld (fld matched ''storageRef'') ''contractVersion''),
      (''createdAt'', createdAt),
      (''imageDigest'', fld (fld (fld matched ''manifest'') ''runtime'') ''imageDigest''),
      (''sessionId'', fld (fld matched ''manifest'') ''sessionId''),
      (''sourceFencingEpoch'', fld (fld matched ''lease'') ''fencingEpoch''),
      (''storageId'', fld (fld matched ''storageRef'') ''storageId'')]"

text \<open>Everything after the backend was captured as object \<open>b\<close>.\<close>

definition prepared_record :: "backend_store \<Rightarrow> nat \<Rightarrow> jsval \<Rightarrow> jsval \<Rightarrow> prepared_capture sresult" where
  "prepared_record st b opts cleanClass =
     rbind (validateContract (assertSessionAttachmentMatches (plain_obj
         [(''attachment'', fld opts ''attachment''), (''lease'', fld opts ''canonicalLease''),
          (''manifest'', fld opts ''manifest''), (''storageRef'', fld opts ''storageRef'')]))
       Invalid_storage_attachment) (\<lambda>matched.
     guarded [assertBackendMatchesStorage st (JOpaque b) (fld matched ''storageRef'')]
     (rbind (validateContract (assertStorageMutationMatchesLeaseSnapshot (plain_obj
         [(''canonicalLease'', fld matched ''lease''), (''now'', fld opts ''now''),
          (''request'', fld opts ''request''), (''storageRef'', fld matched ''storageRef'')]))
       Invalid_storage_mutation) (\<lambda>mutationRequest.
     guarded [assertOperation mutationRequest ''checkpoint'']
     (rbind (validateContract (assertCheckpointDescriptor
         (capture_descriptor matched mutationRequest cleanClass (fld opts ''createdAt''))
         (plain_obj [(''manifest'', fld matched ''manifest''), (''storageRef'', fld matched ''storageRef'')]))
       Invalid_checkpoint) (\<lambda>checkpoint.
     rbind (checkedBackendMethod st (JOpaque b) ''captureCheckpoint'') (\<lambda>capture.
     Inr \<lparr>p_attachment = fld matched ''attachment'', p_backend = fld opts ''backend'',
       p_checkpoint = checkpoint, p_manifest = fld matched ''manifest'', p_request = mutationRequest,
       p_storageRef = fld matched ''storageRef'', p_capture = capture, p_dispatched = False\<rparr>))))))"

definition prepare_keys :: "string list" where
  "prepare_keys = [''attachment'', ''backend'', ''canonicalLease'', ''checkpointClass'', ''createdAt'',
     ''manifest'', ''now'', ''request'', ''storageRef'']"

definition prepareCleanCheckpointCapture :: "snapshot_core \<Rightarrow> jsval \<Rightarrow> jsval sresult \<times> snapshot_core" where
  "prepareCleanCheckpointCapture st options = (case
     rbind (assertExactOptionsS options prepare_keys) (\<lambda>opts.
     rbind (assertCleanCheckpointClass (fld opts ''checkpointClass'')) (\<lambda>cleanClass. Inr (opts, cleanClass)))
   of Inl e \<Rightarrow> (Inl e, st)
    | Inr (opts, cleanClass) \<Rightarrow> (case checkedBackend (backends st) (fld opts ''backend'') of
       (Inl e, bs) \<Rightarrow> (Inl e, st\<lparr>backends := bs\<rparr>)
     | (Inr b, bs) \<Rightarrow> (let st1 = st\<lparr>backends := bs\<rparr> in
         case prepared_record bs b opts cleanClass of
           Inl e \<Rightarrow> (Inl e, st1)
         | Inr r \<Rightarrow> (case remember_prepared st1 r of (st2, n) \<Rightarrow> (Inr (JOpaque n), st2)))))"

text \<open>A token is valid while it is known and was not dispatched.\<close>

definition prepared_token :: "snapshot_core \<Rightarrow> jsval \<Rightarrow> (nat \<times> prepared_capture) sresult" where
  "prepared_token st v = (case v of
     JOpaque n \<Rightarrow> (case preparedCleanCheckpointCaptures st n of
        None \<Rightarrow> Inl (Contract Invalid_checkpoint)
      | Some r \<Rightarrow> guarded [ensure (\<not> p_dispatched r) (Contract Invalid_checkpoint)] (Inr (n, r)))
   | _ \<Rightarrow> Inl (Contract Invalid_checkpoint))"

definition capture_call :: "prepared_capture \<Rightarrow> jsval \<Rightarrow> backend_call" where
  "capture_call r writerEvidence = \<lparr>
     k_called = apply_op (p_capture r) (p_backend r) [plain_obj
       [(''attachment'', p_attachment r), (''checkpoint'', p_checkpoint r), (''request'', p_request r),
        (''stoppedWriterEvidence'', writerEvidence)]],
     k_checkpoint = p_checkpoint r, k_manifest = p_manifest r, k_request = p_request r,
     k_storageRef = p_storageRef r\<rparr>"

definition capturePreparedCleanCheckpoint_begin ::
    "snapshot_core \<Rightarrow> jsval \<Rightarrow> backend_call sresult \<times> snapshot_core" where
  "capturePreparedCleanCheckpoint_begin st options = (case
     rbind (assertExactOptionsS options [''preparedCapture'', ''stoppedWriterEvidence'']) (\<lambda>opts.
     rbind (assertStoppedWriterEvidence (fld opts ''stoppedWriterEvidence'')) (\<lambda>writerEvidence.
     rbind (prepared_token st (fld opts ''preparedCapture'')) (\<lambda>(n, r). Inr (writerEvidence, n, r))))
   of Inl e \<Rightarrow> (Inl e, st)
    | Inr (writerEvidence, n, r) \<Rightarrow>
       (Inr (capture_call r writerEvidence),
        st\<lparr>preparedCleanCheckpointCaptures :=
             (preparedCleanCheckpointCaptures st)(n \<mapsto> r\<lparr>p_dispatched := True\<rparr>)\<rparr>))"

definition capturePreparedCleanCheckpoint_settled :: "backend_call \<Rightarrow> jsval option \<Rightarrow> jsval sresult" where
  "capturePreparedCleanCheckpoint_settled k outcome = call_settled Checkpoint_outcome_uncertain k outcome"

definition assertPreparedCleanCheckpointResult :: "snapshot_core \<Rightarrow> jsval \<Rightarrow> jsval sresult" where
  "assertPreparedCleanCheckpointResult st options =
     rbind (assertExactOptionsS options [''preparedCapture'', ''result'']) (\<lambda>opts.
     rbind (prepared_token st (fld opts ''preparedCapture'')) (\<lambda>(n, r).
     assertBackendCheckpointResult (fld opts ''result'') (p_checkpoint r) (p_manifest r) (p_request r)
       (p_storageRef r)))"

definition captureCleanCheckpoint_begin :: "snapshot_core \<Rightarrow> jsval \<Rightarrow> backend_call sresult \<times> snapshot_core" where
  "captureCleanCheckpoint_begin st options = (case
     rbind (assertExactOptionsS options
       [''attachment'', ''backend'', ''canonicalLease'', ''checkpointClass'', ''createdAt'', ''manifest'',
        ''now'', ''request'', ''stoppedWriterEvidence'', ''storageRef'']) (\<lambda>opts.
     rbind (assertStoppedWriterEvidence (fld opts ''stoppedWriterEvidence'')) (\<lambda>writerEvidence.
       Inr (opts, writerEvidence)))
   of Inl e \<Rightarrow> (Inl e, st)
    | Inr (opts, writerEvidence) \<Rightarrow>
       (case prepareCleanCheckpointCapture st (plain_obj (map (\<lambda>k. (k, fld opts k)) prepare_keys)) of
          (Inl e, st1) \<Rightarrow> (Inl e, st1)
        | (Inr preparedCapture, st1) \<Rightarrow> capturePreparedCleanCheckpoint_begin st1 (plain_obj
            [(''preparedCapture'', preparedCapture), (''stoppedWriterEvidence'', writerEvidence)])))"

section \<open>Reconciling a capture\<close>

definition reconcile_checked :: "jsval \<Rightarrow> (jsval \<times> jsval \<times> jsval \<times> jsval) sresult" where
  "reconcile_checked opts =
     rbind (validateContract (assertSessionStorageRef (fld opts ''storageRef'')) Invalid_storage_ref) (\<lambda>storage.
     rbind (validateContract (assertSessionManifest (fld opts ''manifest'')) Invalid_session_manifest)
       (\<lambda>sessionManifest.
     rbind (validateContract (assertCheckpointDescriptor (fld opts ''checkpoint'')
         (plain_obj [(''manifest'', sessionManifest), (''storageRef'', storage)])) Invalid_checkpoint)
       (\<lambda>descriptor.
     rbind (assertCleanCheckpointClass (fld descriptor ''checkpointClass'')) (\<lambda>_.
     rbind (validateContract (assertStorageMutationRequest (fld opts ''request'')) Invalid_storage_mutation)
       (\<lambda>mutationRequest.
     guarded
       [assertOperation mutationRequest ''checkpoint'',
        assertCheckpointTarget mutationRequest descriptor,
        ensure (same_fields [''backendId'', ''storageId'', ''sessionId''] mutationRequest descriptor)
          (Contract Invalid_storage_mutation),
        ensure (js_seq (fld mutationRequest ''fencingEpoch'') (fld descriptor ''sourceFencingEpoch''))
          (Contract Stale_fence)]
       (Inr (storage, sessionManifest, descriptor, mutationRequest)))))))"

definition reconcileCleanCheckpointCapture_begin :: "snapshot_core \<Rightarrow> jsval \<Rightarrow> backend_call sresult" where
  "reconcileCleanCheckpointCapture_begin st options =
     rbind (assertExactOptionsS options [''backend'', ''checkpoint'', ''manifest'', ''request'', ''storageRef''])
       (\<lambda>opts.
     rbind (reconcile_checked opts) (\<lambda>(storage, sessionManifest, descriptor, mutationRequest).
     rbind (checkedCaptureReconciliationBackend (backends st) (fld opts ''backend'')) (\<lambda>storageBackend.
     guarded [assertBackendMatchesStorage (backends st) storageBackend storage]
     (rbind (checkedBackendMethod (backends st) storageBackend ''reconcileCheckpointCapture'') (\<lambda>reconcile.
     Inr \<lparr>k_called = apply_op reconcile storageBackend
            [plain_obj [(''checkpoint'', descriptor), (''request'', mutationRequest)]],
       k_checkpoint = descriptor, k_manifest = sessionManifest, k_request = mutationRequest,
       k_storageRef = storage\<rparr>)))))"

definition reconcileCleanCheckpointCapture_settled :: "backend_call \<Rightarrow> jsval option \<Rightarrow> jsval sresult" where
  "reconcileCleanCheckpointCapture_settled k outcome =
     call_settled Checkpoint_reconciliation_outcome_uncertain k outcome"

section \<open>Restoring a checkpoint\<close>

definition restore_source :: "jsval \<Rightarrow> (jsval \<times> jsval \<times> jsval) sresult" where
  "restore_source opts =
     rbind (validateContract (assertSessionStorageRef (fld opts ''storageRef'')) Invalid_storage_ref) (\<lambda>storage.
     rbind (validateContract (assertSessionManifest (fld opts ''manifest'')) Invalid_session_manifest)
       (\<lambda>sessionManifest.
     rbind (validateContract (assertCheckpointDescriptor (fld opts ''checkpoint'')
         (plain_obj [(''manifest'', sessionManifest)])) Invalid_checkpoint) (\<lambda>descriptor.
     rbind (assertCleanCheckpointClass (fld descriptor ''checkpointClass'')) (\<lambda>_.
     guarded [ensure (same_fields [''sessionId'', ''backendId''] descriptor storage)
         (Contract Invalid_checkpoint)]
       (Inr (storage, sessionManifest, descriptor))))))"

definition restore_admitted ::
    "backend_store \<Rightarrow> nat \<Rightarrow> jsval \<Rightarrow> jsval \<Rightarrow> jsval \<Rightarrow> jsval \<Rightarrow> backend_call sresult" where
  "restore_admitted st b opts storage sessionManifest descriptor =
     guarded [assertBackendMatchesStorage st (JOpaque b) storage]
     (rbind (validateContract (assertLeaseGrant (fld opts ''canonicalLease'')) Invalid_fence) (\<lambda>lease.
     rbind (validateContract (assertStorageMutationMatchesLeaseSnapshot (plain_obj
         [(''canonicalLease'', lease), (''now'', fld opts ''now''), (''request'', fld opts ''request''),
          (''storageRef'', storage)])) Invalid_storage_mutation) (\<lambda>mutationRequest.
     guarded
       [assertOperation mutationRequest ''restore'',
        assertCheckpointTarget mutationRequest descriptor,
        err_of (rbind (uncaught (compareFencingEpochs (fld lease ''fencingEpoch'')
            (fld descriptor ''sourceFencingEpoch''))) (\<lambda>c.
          guarded [ensure (c > 0) (Contract Stale_fence)] (Inr ())))]
     (rbind (checkedBackendMethod st (JOpaque b) ''restoreCheckpoint'') (\<lambda>restore.
     Inr \<lparr>k_called = apply_op restore (JOpaque b)
            [plain_obj [(''checkpoint'', descriptor), (''request'', mutationRequest)]],
       k_checkpoint = descriptor, k_manifest = sessionManifest, k_request = mutationRequest,
       k_storageRef = JUndefined\<rparr>)))))"

definition restoreCleanCheckpoint_begin :: "snapshot_core \<Rightarrow> jsval \<Rightarrow> backend_call sresult \<times> snapshot_core" where
  "restoreCleanCheckpoint_begin st options = (case
     rbind (assertExactOptionsS options
       [''backend'', ''canonicalLease'', ''checkpoint'', ''manifest'', ''now'', ''request'', ''storageRef''])
       (\<lambda>opts. rbind (restore_source opts) (\<lambda>source. Inr (opts, source)))
   of Inl e \<Rightarrow> (Inl e, st)
    | Inr (opts, storage, sessionManifest, descriptor) \<Rightarrow>
       (case checkedBackend (backends st) (fld opts ''backend'') of
          (Inl e, bs) \<Rightarrow> (Inl e, st\<lparr>backends := bs\<rparr>)
        | (Inr b, bs) \<Rightarrow> (restore_admitted bs b opts storage sessionManifest descriptor, st\<lparr>backends := bs\<rparr>)))"

definition restoreCleanCheckpoint_settled :: "backend_call \<Rightarrow> jsval option \<Rightarrow> jsval sresult" where
  "restoreCleanCheckpoint_settled k outcome = call_settled Restore_outcome_uncertain k outcome"

section \<open>Histories\<close>

text \<open>Every call that changes the state, with the calls of backends that it makes.\<close>

inductive snapshot_step :: "snapshot_core \<Rightarrow> snapshot_core \<Rightarrow> bool" where
  prepare: "prepareCleanCheckpointCapture st options = (res, st') \<Longrightarrow> snapshot_step st st'"
| dispatch: "capturePreparedCleanCheckpoint_begin st options = (res, st') \<Longrightarrow> snapshot_step st st'"
| capture: "captureCleanCheckpoint_begin st options = (res, st') \<Longrightarrow> snapshot_step st st'"
| restore: "restoreCleanCheckpoint_begin st options = (res, st') \<Longrightarrow> snapshot_step st st'"
| facade: "createCheckpointBackendFacade (backends st) v = (res, bs) \<Longrightarrow> snapshot_step st (st\<lparr>backends := bs\<rparr>)"
| crash_facade: "createAtomicCrashCaptureBackendFacade (backends st) v = (res, bs) \<Longrightarrow>
    snapshot_step st (st\<lparr>backends := bs\<rparr>)"

inductive snapshot_reach :: "snapshot_core \<Rightarrow> snapshot_core \<Rightarrow> bool" where
  reach_refl: "snapshot_reach st st"
| reach_step: "snapshot_reach st st' \<Longrightarrow> snapshot_step st' st'' \<Longrightarrow> snapshot_reach st st''"

end
