(* ===== verification/Snapshot_Properties.thy ===== *)
theory Snapshot_Properties
  imports Snapshot_Core Contract_Properties
begin

text \<open>
  What the clean snapshot core guarantees: a prepared capture is dispatched at most once, the
  backend is called with exactly the checkpoint and the request that were checked against the
  canonical lease, and a result is accepted only as an answer to them.
\<close>

section \<open>Options\<close>

lemma exact_optionsS:
  assumes "assertExactOptionsS v ks = Inr opts" and "distinct ks"
  shows "exact_object v ks" and "s \<in> set ks \<Longrightarrow> fld opts s = fld v s"
  using assms exact_options_fld unfolding assertExactOptionsS_def by (auto simp: exact_options_iff)

lemma exact_optionsS_ok: "exact_object v ks \<Longrightarrow> \<exists>opts. assertExactOptionsS v ks = Inr opts"
  by (simp add: assertExactOptionsS_def exact_options_iff)

lemma validateContract_Inr [simp]: "validateContract r e = Inr a \<longleftrightarrow> r = Inr a"
  by (cases r) (simp_all add: validateContract_def)

lemma validateExternalOperation_Inr [simp]: "validateExternalOperation r e = Inr a \<longleftrightarrow> r = Inr a"
  by (simp add: validateExternalOperation_def)

lemma uncaught_Inr [simp]: "uncaught r = Inr a \<longleftrightarrow> r = Inr a"
  by (cases r) (simp_all add: uncaught_def)

lemma cleanClass_Inr [simp]: "assertCleanCheckpointClass v = Inr c \<longleftrightarrow> c = v \<and> v = lit ''clean''"
  by (auto simp: assertCleanCheckpointClass_def checkpoint_class_iff)

lemma evidence_Inr: "assertStoppedWriterEvidence v = Inr w \<Longrightarrow> w = v"
  by (simp add: assertStoppedWriterEvidence_def)

section \<open>Descriptors\<close>

lemma descriptor_bare: "assertCheckpointDescriptor v options = Inr c \<Longrightarrow> assertBareCheckpointDescriptor v = Inr c"
  by (auto simp: bare_checkpoint_shape assertCheckpointDescriptor_def)

lemma descriptor_bound:
  assumes "assertCheckpointDescriptor v (plain_obj kvs) = Inr c" and "distinct (map fst kvs)"
  shows "map_of kvs ''manifest'' = Some m \<Longrightarrow> checkpoint_manifest_check v m = None"
    and "map_of kvs ''storageRef'' = Some s \<Longrightarrow> checkpoint_storage_check v s = None"
proof -
  obtain opts where o: "assertOptionsObject (plain_obj kvs) [''manifest'', ''storageRef''] [] Invalid_checkpoint = Inr opts"
    and c: "checkpoint_manifest_check v (fld opts ''manifest'') = None"
      "checkpoint_storage_check v (fld opts ''storageRef'') = None"
    using assms(1) by (auto simp: assertCheckpointDescriptor_def)
  show "map_of kvs ''manifest'' = Some m \<Longrightarrow> checkpoint_manifest_check v m = None"
    and "map_of kvs ''storageRef'' = Some s \<Longrightarrow> checkpoint_storage_check v s = None"
    using c options_plain_field [OF o assms(2)] by simp_all
qed

lemma same_checkpoint_fields:
  assumes e: "assertBareCheckpointDescriptor v = Inr e" and c: "assertBareCheckpointDescriptor x = Inr c"
    and "same_checkpoint e c" and k: "k \<in> set checkpoint_keys"
  shows "fld c k = fld e k"
proof -
  have own: "own_value d (key k) = fld d k" if "assertBareCheckpointDescriptor y = Inr d" for y d
    using exact_own_desc [OF checkpoint.result_exact [OF that] checkpoint.keys_distinct k]
    by (simp add: own_value_def)
  have "key k \<in> set (own_keys e)"
    using exact_own_keys [OF checkpoint.result_exact [OF e] checkpoint.keys_distinct] k by auto
  with assms(3) have "js_seq (fld c k) (fld e k)"
    using own [OF e] own [OF c] by (auto simp: same_checkpoint_def list_all_iff)
  then show ?thesis
    by (rule js_seqD [OF _ data_prim_prim [OF checkpoint.field_prim [OF c k]]])
qed

section \<open>The state\<close>

definition well_prepared :: "prepared_capture \<Rightarrow> bool" where
  "well_prepared r \<longleftrightarrow> (\<exists>v. assertBareCheckpointDescriptor v = Inr (p_checkpoint r)) \<and>
     (\<exists>v. assertStorageMutationRequest v = Inr (p_request r)) \<and>
     (\<exists>f rc. is_function f \<and> (\<forall>args. apply_op (p_capture r) (p_backend r) args = Inr (f, rc, args)))"

definition core_inv :: "snapshot_core \<Rightarrow> bool" where
  "core_inv st \<longleftrightarrow> backend_inv (backends st) \<and> wf_prepared st \<and>
     (\<forall>n r. preparedCleanCheckpointCaptures st n = Some r \<longrightarrow> well_prepared r)"

text \<open>A known capture never changes, except that it becomes dispatched.\<close>

definition keeps_prepared :: "snapshot_core \<Rightarrow> snapshot_core \<Rightarrow> bool" where
  "keeps_prepared st st' \<longleftrightarrow> (\<forall>n r. preparedCleanCheckpointCaptures st n = Some r \<longrightarrow>
     preparedCleanCheckpointCaptures st' n \<in> {Some r, Some (r\<lparr>p_dispatched := True\<rparr>)})"

lemma core_inv_new: "core_inv (new_snapshot_core n)"
  by (simp add: core_inv_def new_snapshot_core_def backend_inv_empty wf_prepared_def)

lemma keeps_refl: "keeps_prepared st st"
  by (simp add: keeps_prepared_def)

lemma keeps_trans: "keeps_prepared st st' \<Longrightarrow> keeps_prepared st' st'' \<Longrightarrow> keeps_prepared st st''"
  unfolding keeps_prepared_def by fastforce

lemma backends_step:
  assumes "core_inv st" and "backend_inv bs" and "next_handle (backends st) \<le> next_handle bs"
  shows "core_inv (st\<lparr>backends := bs\<rparr>)" and "keeps_prepared st (st\<lparr>backends := bs\<rparr>)"
  using assms by (auto simp: core_inv_def wf_prepared_def keeps_prepared_def dest: less_le_trans)

lemma remember_step:
  assumes "core_inv st" and "well_prepared r" and "remember_prepared st r = (st', n)"
  shows "core_inv st'" and "keeps_prepared st st'"
proof -
  have wf: "wf_prepared st" using assms(1) by (simp add: core_inv_def)
  have "wf_prepared st'" by (rule prepared_captures.issue_valid [OF wf assms(3)])
  have "backend_inv ((backends st)\<lparr>next_handle := Suc (next_handle (backends st))\<rparr>)"
    by (rule backend_inv_next) (use assms(1) in \<open>simp_all add: core_inv_def\<close>)
  then have "backend_inv (backends st')"
    using assms(3) by (auto simp: remember_prepared_def Let_def)
  with \<open>wf_prepared st'\<close> show "core_inv st'"
    using assms by (auto simp: core_inv_def remember_prepared_def Let_def split: if_splits)
  show "keeps_prepared st st'"
    using prepared_captures.issue_keeps [OF wf assms(3)] by (simp add: keeps_prepared_def)
qed

lemma checkedBackend_step:
  assumes "core_inv st" and "checkedBackend (backends st) v = (res, bs)"
  shows "core_inv (st\<lparr>backends := bs\<rparr>)" and "keeps_prepared st (st\<lparr>backends := bs\<rparr>)"
proof -
  obtain r where r: "checkpointBackendProjection (backends st) v = (r, bs)"
    using assms(2) by (auto simp: checkedBackend_def assertCheckpointBackend_def split: prod.splits)
  have "backend_inv bs" by (rule projection_inv [OF _ r]) (use assms(1) in \<open>simp add: core_inv_def\<close>)
  then show "core_inv (st\<lparr>backends := bs\<rparr>)" "keeps_prepared st (st\<lparr>backends := bs\<rparr>)"
    using backends_step [OF assms(1)] handles_grow(1) [OF r] by blast+
qed

lemma checkedBackend_Inr:
  assumes "checkedBackend st v = (Inr b, bs)"
  shows "checkpointBackendProjection st v = (Inr b, bs)"
  using assms by (auto simp: checkedBackend_def assertCheckpointBackend_def split: prod.splits)

lemma checkpoint_methods [simp]:
  "''captureCheckpoint'' \<in> set CHECKPOINT_BACKEND_METHODS" "''restoreCheckpoint'' \<in> set CHECKPOINT_BACKEND_METHODS"
  by (simp_all add: CHECKPOINT_BACKEND_METHODS_def)

text \<open>The function a checked method of a captured backend reaches.\<close>

lemma checked_method_target:
  assumes "backend_inv st" and "checkedBackend st v = (Inr b, bs)"
    and "checkedBackendMethod bs (JOpaque b) m = Inr f" and "m \<in> set CHECKPOINT_BACKEND_METHODS"
  obtains g r where "backend_target st v m g r" "\<And>args. apply_op f v args = Inr (g, r, args)"
    "\<And>args. apply_op f (JOpaque b) args = Inr (g, r, args)"
proof -
  have "f = as_op (object_field bs b m)" using assms(3) by (simp add: checkedBackendMethod_def)
  with captured_target [OF assms(1) checkedBackend_Inr [OF assms(2)] assms(4)] that show ?thesis by metis
qed

section \<open>Preparation\<close>

text \<open>A preparation that succeeds, taken apart.\<close>

lemma prepare_cases:
  assumes "prepareCleanCheckpointCapture st options = (res, st')"
  obtains (refused) e where "res = Inl e" "st' = st"
    | (failed) e bs x v where "res = Inl e" "checkedBackend (backends st) v = (x, bs)" "st' = st\<lparr>backends := bs\<rparr>"
    | (prepared) opts b bs r n where "assertExactOptionsS options prepare_keys = Inr opts"
        "fld opts ''checkpointClass'' = lit ''clean''"
        "checkedBackend (backends st) (fld opts ''backend'') = (Inr b, bs)"
        "prepared_record bs b opts (lit ''clean'') = Inr r"
        "remember_prepared (st\<lparr>backends := bs\<rparr>) r = (st', n)" "res = Inr (JOpaque n)"
proof (cases "rbind (assertExactOptionsS options prepare_keys) (\<lambda>opts.
     rbind (assertCleanCheckpointClass (fld opts ''checkpointClass'')) (\<lambda>cleanClass. Inr (opts, cleanClass)))")
  case (Inl e)
  with assms refused show ?thesis by (auto simp: prepareCleanCheckpointCapture_def)
next
  case (Inr oc)
  then obtain opts where o: "oc = (opts, lit ''clean'')" "assertExactOptionsS options prepare_keys = Inr opts"
      "fld opts ''checkpointClass'' = lit ''clean''" by auto
  obtain x bs where x: "checkedBackend (backends st) (fld opts ''backend'') = (x, bs)" by fastforce
  note eq = assms [unfolded prepareCleanCheckpointCapture_def Inr o(1) sum.case prod.case x]
  show ?thesis
  proof (cases x)
    case (Inl e)
    with eq x show ?thesis by (intro failed [where e = e and x = x and bs = bs and v = "fld opts ''backend''"]) simp_all
  next
    case b: (Inr b)
    show ?thesis
    proof (cases "prepared_record bs b opts (lit ''clean'')")
      case (Inl e)
      with eq b x show ?thesis by (intro failed [where e = e and x = x and bs = bs and v = "fld opts ''backend''"]) (simp_all add: Let_def)
    next
      case (Inr r)
      obtain st2 n where s: "remember_prepared (st\<lparr>backends := bs\<rparr>) r = (st2, n)" by fastforce
      with Inr eq b have "res = Inr (JOpaque n)" "st' = st2" by (simp_all add: Let_def)
      with prepared o(2,3) x b Inr s show ?thesis by blast
    qed
  qed
qed

text \<open>The fence of a lease and the storage of a reference.\<close>

definition under_lease :: "jsval \<Rightarrow> jsval \<Rightarrow> bool" where
  "under_lease v l \<longleftrightarrow> (\<forall>k \<in> {''sessionId'', ''leaseId'', ''holderId'', ''fencingEpoch''}. fld v k = fld l k)"

definition on_storage :: "jsval \<Rightarrow> jsval \<Rightarrow> bool" where
  "on_storage v s \<longleftrightarrow> (\<forall>k \<in> {''sessionId'', ''backendId'', ''storageId''}. fld v k = fld s k)"

definition unexpired :: "jsval \<Rightarrow> jsval \<Rightarrow> bool" where
  "unexpired now l \<longleftrightarrow> (\<exists>t. now = JNum (JFin t) \<and> t < of_int (l_expires (lease_view l)))"

text \<open>The contract checks behind both kinds of mutation.\<close>

lemma matched_parts:
  assumes "assertSessionAttachmentMatches (plain_obj [(''attachment'', a), (''lease'', l), (''manifest'', m),
      (''storageRef'', s)]) = Inr matched"
  shows "assertSessionAttachment a = Inr (fld matched ''attachment'')" and "assertLeaseGrant l = Inr (fld matched ''lease'')"
    and "assertSessionManifest m = Inr (fld matched ''manifest'')"
    and "assertSessionStorageRef s = Inr (fld matched ''storageRef'')"
    and "under_lease (fld matched ''attachment'') (fld matched ''lease'')"
    and "on_storage (fld matched ''attachment'') (fld matched ''storageRef'')"
    and "fld (fld matched ''attachment'') ''sessionId'' = fld (fld matched ''manifest'') ''sessionId''"
proof -
  obtain o' where o': "assertOptionsObject (plain_obj [(''attachment'', a), (''lease'', l), (''manifest'', m),
      (''storageRef'', s)]) [''attachment'', ''lease'', ''manifest'', ''storageRef'']
      [''attachment'', ''lease'', ''manifest'', ''storageRef''] Invalid_storage_attachment = Inr o'"
    using assms by (auto simp: assertSessionAttachmentMatches_def)
  have f: "fld o' ''attachment'' = a" "fld o' ''lease'' = l" "fld o' ''manifest'' = m" "fld o' ''storageRef'' = s"
    using options_plain_field [OF o'] by simp_all
  from attachment_matches_fields [OF o' assms, unfolded f]
  obtain a' l' m' s' where "matched = plain_obj [(''attachment'', a'), (''lease'', l'), (''manifest'', m'),
      (''storageRef'', s')]" "assertSessionAttachment a = Inr a'" "assertLeaseGrant l = Inr l'"
    "assertSessionManifest m = Inr m'" "assertSessionStorageRef s = Inr s'"
    "under_lease a' l'" "on_storage a' s'" "fld a' ''sessionId'' = fld m' ''sessionId''"
    unfolding under_lease_def on_storage_def by metis
  then show "assertSessionAttachment a = Inr (fld matched ''attachment'')" "assertLeaseGrant l = Inr (fld matched ''lease'')"
    "assertSessionManifest m = Inr (fld matched ''manifest'')"
    "assertSessionStorageRef s = Inr (fld matched ''storageRef'')"
    "under_lease (fld matched ''attachment'') (fld matched ''lease'')"
    "on_storage (fld matched ''attachment'') (fld matched ''storageRef'')"
    "fld (fld matched ''attachment'') ''sessionId'' = fld (fld matched ''manifest'') ''sessionId''"
    by (simp_all add: fld_plain_obj)
qed

lemma snapshot_mutation_parts:
  assumes "assertStorageMutationMatchesLeaseSnapshot (plain_obj [(''canonicalLease'', l), (''now'', now),
      (''request'', q), (''storageRef'', s)]) = Inr w"
  obtains l' s' where "assertStorageMutationRequest q = Inr w" "assertLeaseGrant l = Inr l'"
    "assertSessionStorageRef s = Inr s'" "under_lease w l'" "on_storage w s'" "unexpired now l'"
proof -
  obtain o' where o': "assertOptionsObject (plain_obj [(''canonicalLease'', l), (''now'', now),
      (''request'', q), (''storageRef'', s)]) [''allowExpired'', ''canonicalLease'', ''now'', ''request'', ''storageRef'']
      [''canonicalLease'', ''now'', ''request'', ''storageRef''] Invalid_storage_mutation = Inr o'"
    using assms by (auto simp: assertStorageMutationMatchesLeaseSnapshot_def)
  have f: "fld o' ''canonicalLease'' = l" "fld o' ''now'' = now" "fld o' ''request'' = q" "fld o' ''storageRef'' = s"
    "fld o' ''allowExpired'' = JUndefined"
    using options_plain_field [OF o'] by simp_all
  from lease_snapshot_facts [OF o' assms, unfolded f] that show ?thesis
    unfolding under_lease_def on_storage_def unexpired_def by auto
qed

lemma prepared_record_facts:
  assumes "prepared_record bs b opts (lit ''clean'') = Inr r"
  shows "assertSessionAttachment (fld opts ''attachment'') = Inr (p_attachment r)"
    and "assertSessionManifest (fld opts ''manifest'') = Inr (p_manifest r)"
    and "assertSessionStorageRef (fld opts ''storageRef'') = Inr (p_storageRef r)"
    and "\<exists>l. assertLeaseGrant (fld opts ''canonicalLease'') = Inr l \<and> under_lease (p_attachment r) l \<and>
      under_lease (p_request r) l \<and> unexpired (fld opts ''now'') l \<and>
      fld (p_checkpoint r) ''sourceFencingEpoch'' = fld l ''fencingEpoch''"
    and "on_storage (p_attachment r) (p_storageRef r)" and "on_storage (p_request r) (p_storageRef r)"
    and "on_storage (p_checkpoint r) (p_storageRef r)"
    and "assertStorageMutationRequest (fld opts ''request'') = Inr (p_request r)"
    and "fld (p_request r) ''operation'' = lit ''checkpoint''"
    and "fld (p_checkpoint r) ''checkpointClass'' = lit ''clean''"
    and "fld (p_checkpoint r) ''artifactId'' = fld (fld (p_request r) ''target'') ''artifactId''"
    and "fld (p_checkpoint r) ''checkpointId'' = fld (fld (p_request r) ''target'') ''checkpointId''"
    and "p_backend r = fld opts ''backend''" and "\<not> p_dispatched r"
    and "checkedBackendMethod bs (JOpaque b) ''captureCheckpoint'' = Inr (p_capture r)"
    and "\<exists>v. assertBareCheckpointDescriptor v = Inr (p_checkpoint r)"
proof -
  let ?m = "plain_obj [(''attachment'', fld opts ''attachment''), (''lease'', fld opts ''canonicalLease''),
      (''manifest'', fld opts ''manifest''), (''storageRef'', fld opts ''storageRef'')]"
  obtain matched q c f where m: "assertSessionAttachmentMatches ?m = Inr matched"
    and q: "assertStorageMutationMatchesLeaseSnapshot (plain_obj [(''canonicalLease'', fld matched ''lease''),
        (''now'', fld opts ''now''), (''request'', fld opts ''request''), (''storageRef'', fld matched ''storageRef'')]) = Inr q"
    and op: "fld q ''operation'' = lit ''checkpoint''"
    and c: "assertCheckpointDescriptor (capture_descriptor matched q (lit ''clean'') (fld opts ''createdAt''))
        (plain_obj [(''manifest'', fld matched ''manifest''), (''storageRef'', fld matched ''storageRef'')]) = Inr c"
      (is "assertCheckpointDescriptor ?d _ = _")
    and f: "checkedBackendMethod bs (JOpaque b) ''captureCheckpoint'' = Inr f"
    and r: "r = \<lparr>p_attachment = fld matched ''attachment'', p_backend = fld opts ''backend'', p_checkpoint = c,
        p_manifest = fld matched ''manifest'', p_request = q, p_storageRef = fld matched ''storageRef'',
        p_capture = f, p_dispatched = False\<rparr>"
    using assms by (auto simp: prepared_record_def assertOperation_def)
  note mp = matched_parts [OF m]
  obtain l' s' where qp: "assertStorageMutationRequest (fld opts ''request'') = Inr q"
      "assertLeaseGrant (fld matched ''lease'') = Inr l'" "assertSessionStorageRef (fld matched ''storageRef'') = Inr s'"
      "under_lease q l'" "on_storage q s'" "unexpired (fld opts ''now'') l'"
    by (rule snapshot_mutation_parts [OF q])
  have l': "l' = fld matched ''lease''" and s': "s' = fld matched ''storageRef''"
    using qp(2,3) lease.idempotent [OF mp(2)] storage_ref.idempotent [OF mp(4)] by simp_all
  have bare: "assertBareCheckpointDescriptor ?d = Inr c" by (rule descriptor_bare [OF c])
  have fields: "fld c k = fld ?d k" if "k \<in> set checkpoint_keys" for k
    by (rule checkpoint.same_field [OF bare that])
  note defs = checkpoint_keys_def capture_descriptor_def fld_plain_obj
  show "assertSessionAttachment (fld opts ''attachment'') = Inr (p_attachment r)"
    "assertSessionManifest (fld opts ''manifest'') = Inr (p_manifest r)"
    "assertSessionStorageRef (fld opts ''storageRef'') = Inr (p_storageRef r)"
    "on_storage (p_attachment r) (p_storageRef r)"
    "assertStorageMutationRequest (fld opts ''request'') = Inr (p_request r)"
    "fld (p_request r) ''operation'' = lit ''checkpoint''"
    "p_backend r = fld opts ''backend''" "\<not> p_dispatched r"
    "checkedBackendMethod bs (JOpaque b) ''captureCheckpoint'' = Inr (p_capture r)"
    using mp(1,3,4,6) qp(1) op f by (simp_all add: r)
  show "on_storage (p_request r) (p_storageRef r)" using qp(5) by (simp add: r s')
  show "\<exists>v. assertBareCheckpointDescriptor v = Inr (p_checkpoint r)" using bare by (auto simp: r)
  show "fld (p_checkpoint r) ''checkpointClass'' = lit ''clean''"
    "fld (p_checkpoint r) ''artifactId'' = fld (fld (p_request r) ''target'') ''artifactId''"
    "fld (p_checkpoint r) ''checkpointId'' = fld (fld (p_request r) ''target'') ''checkpointId''"
    using fields [of "''checkpointClass''"] fields [of "''artifactId''"] fields [of "''checkpointId''"]
    by (simp_all add: r defs)
  have "fld c ''sourceFencingEpoch'' = fld (fld matched ''lease'') ''fencingEpoch''"
    using fields [of "''sourceFencingEpoch''"] by (simp add: defs)
  then show "\<exists>l. assertLeaseGrant (fld opts ''canonicalLease'') = Inr l \<and> under_lease (p_attachment r) l \<and>
      under_lease (p_request r) l \<and> unexpired (fld opts ''now'') l \<and>
      fld (p_checkpoint r) ''sourceFencingEpoch'' = fld l ''fencingEpoch''"
    using mp(2,5) qp(4,6) by (simp add: r l')
  have "fld (fld matched ''manifest'') ''sessionId'' = fld (fld matched ''storageRef'') ''sessionId''"
    using mp(6,7) by (simp add: on_storage_def)
  then show "on_storage (p_checkpoint r) (p_storageRef r)"
    using fields [of "''sessionId''"] fields [of "''backendId''"] fields [of "''storageId''"]
    by (simp add: on_storage_def r defs)
qed

lemma prepared_well:
  assumes "core_inv st" and "checkedBackend (backends st) (fld opts ''backend'') = (Inr b, bs)"
    and "prepared_record bs b opts (lit ''clean'') = Inr r"
  shows "well_prepared r"
proof -
  note f = prepared_record_facts [OF assms(3)]
  have inv: "backend_inv (backends st)" using assms(1) by (simp add: core_inv_def)
  obtain g rc where "backend_target (backends st) (fld opts ''backend'') ''captureCheckpoint'' g rc"
      "\<And>args. apply_op (p_capture r) (fld opts ''backend'') args = Inr (g, rc, args)"
      "\<And>args. apply_op (p_capture r) (JOpaque b) args = Inr (g, rc, args)"
    by (rule checked_method_target [OF inv assms(2) f(15) checkpoint_methods(1)]) (rule that)
  then show ?thesis
    unfolding well_prepared_def f(13) using f(8,16) by (auto simp: backend_target_def)
qed

section \<open>Dispatch\<close>

lemma token_Inr: "prepared_token st v = Inr (n, r) \<longleftrightarrow>
    v = JOpaque n \<and> preparedCleanCheckpointCaptures st n = Some r \<and> \<not> p_dispatched r"
  by (auto simp: prepared_token_def split: jsval.splits option.splits)

lemma dispatch_cases:
  assumes "capturePreparedCleanCheckpoint_begin st options = (res, st')"
  obtains (refused) e where "res = Inl e" "st' = st"
    | (dispatched) n r where "fld options ''preparedCapture'' = JOpaque n"
        "preparedCleanCheckpointCaptures st n = Some r" "\<not> p_dispatched r"
        "res = Inr (capture_call r (fld options ''stoppedWriterEvidence''))"
        "st' = st\<lparr>preparedCleanCheckpointCaptures :=
           (preparedCleanCheckpointCaptures st)(n \<mapsto> r\<lparr>p_dispatched := True\<rparr>)\<rparr>"
proof (cases "rbind (assertExactOptionsS options [''preparedCapture'', ''stoppedWriterEvidence'']) (\<lambda>opts.
     rbind (assertStoppedWriterEvidence (fld opts ''stoppedWriterEvidence'')) (\<lambda>writerEvidence.
     rbind (prepared_token st (fld opts ''preparedCapture'')) (\<lambda>(n, r). Inr (writerEvidence, n, r))))")
  case (Inl e)
  with assms show ?thesis by (intro refused [of e]) (simp_all add: capturePreparedCleanCheckpoint_begin_def)
next
  case (Inr x)
  then obtain opts w n r where o: "assertExactOptionsS options [''preparedCapture'', ''stoppedWriterEvidence''] = Inr opts"
      and w: "assertStoppedWriterEvidence (fld opts ''stoppedWriterEvidence'') = Inr w"
      and t: "prepared_token st (fld opts ''preparedCapture'') = Inr (n, r)" and x: "x = (w, n, r)"
    by auto
  have "fld opts k = fld options k" if "k \<in> {''preparedCapture'', ''stoppedWriterEvidence''}" for k
    by (rule exact_optionsS(2) [OF o]) (use that in auto)
  with w t have "w = fld options ''stoppedWriterEvidence''" "fld options ''preparedCapture'' = JOpaque n"
    "preparedCleanCheckpointCaptures st n = Some r" "\<not> p_dispatched r"
    by (simp_all add: evidence_Inr token_Inr)
  with assms Inr x dispatched show ?thesis by (simp add: capturePreparedCleanCheckpoint_begin_def)
qed

lemma dispatch_step:
  assumes "core_inv st" and "capturePreparedCleanCheckpoint_begin st options = (res, st')"
  shows "core_inv st' \<and> keeps_prepared st st'"
  using assms(2)
proof (cases rule: dispatch_cases)
  case refused
  with assms(1) show ?thesis by (simp add: keeps_refl)
next
  case (dispatched n r)
  have "well_prepared (r\<lparr>p_dispatched := True\<rparr>) = well_prepared r" by (simp add: well_prepared_def)
  with dispatched(2,5) assms(1) show ?thesis
    by (auto simp: core_inv_def wf_prepared_def keeps_prepared_def split: if_splits)
qed

lemma prepare_step:
  assumes "core_inv st" and "prepareCleanCheckpointCapture st options = (res, st')"
  shows "core_inv st' \<and> keeps_prepared st st'"
  using assms(2)
proof (cases rule: prepare_cases)
  case refused
  with assms(1) show ?thesis by (simp add: keeps_refl)
next
  case (failed e bs x v)
  with checkedBackend_step [OF assms(1) failed(2)] show ?thesis by simp
next
  case (prepared opts b bs r n)
  note c = checkedBackend_step [OF assms(1) prepared(3)]
  note m = remember_step [OF c(1) prepared_well [OF assms(1) prepared(3,4)] prepared(5)]
  with c(2) show ?thesis by (blast intro: keeps_trans)
qed

lemma capture_step:
  assumes "core_inv st" and "captureCleanCheckpoint_begin st options = (res, st')"
  shows "core_inv st' \<and> keeps_prepared st st'"
proof -
  have "st' = st \<or> (\<exists>o1 r1 st1. prepareCleanCheckpointCapture st o1 = (r1, st1) \<and>
      (st' = st1 \<or> (\<exists>o2 r2. capturePreparedCleanCheckpoint_begin st1 o2 = (r2, st'))))"
    using assms(2) unfolding captureCleanCheckpoint_begin_def
    by (auto split: sum.splits prod.splits)
  then show ?thesis
    using assms(1) prepare_step dispatch_step keeps_refl keeps_trans by metis
qed

lemma restore_step:
  assumes "core_inv st" and "restoreCleanCheckpoint_begin st options = (res, st')"
  shows "core_inv st' \<and> keeps_prepared st st'"
proof -
  have "st' = st \<or> (\<exists>v x bs. checkedBackend (backends st) v = (x, bs) \<and> st' = st\<lparr>backends := bs\<rparr>)"
    using assms(2) unfolding restoreCleanCheckpoint_begin_def
    by (auto split: sum.splits prod.splits)
  then show ?thesis using assms(1) checkedBackend_step keeps_refl by metis
qed

lemma snapshot_step_inv: "snapshot_step st st' \<Longrightarrow> core_inv st \<Longrightarrow> core_inv st' \<and> keeps_prepared st st'"
proof (induction rule: snapshot_step.induct)
  case (facade st v res bs)
  then have "backend_inv bs" by (auto simp: core_inv_def intro: facade_inv)
  with facade show ?case using backends_step handles_grow(2) by blast
next
  case (crash_facade st v res bs)
  then have "backend_inv bs" by (auto simp: core_inv_def intro: crash_facade_inv)
  with crash_facade show ?case using backends_step handles_grow(3) by blast
qed (use prepare_step dispatch_step capture_step restore_step in blast)+

lemma snapshot_reach_inv: "snapshot_reach st st' \<Longrightarrow> core_inv st \<Longrightarrow> core_inv st' \<and> keeps_prepared st st'"
proof (induction rule: snapshot_reach.induct)
  case (reach_refl st)
  then show ?case by (simp add: keeps_refl)
next
  case (reach_step st st' st'')
  then show ?case using snapshot_step_inv keeps_trans by blast
qed

text \<open>
  C11: A prepared capture is dispatched at most once. After a dispatch began, and whatever happens
  next, its token starts no further call and is no longer good for checking a result, however the
  first call ended; the refused attempts change nothing.
\<close>

theorem prepared_capture_dispatches_once:
  assumes "core_inv st" and "capturePreparedCleanCheckpoint_begin st options = (Inr k, st1)"
    and "snapshot_reach st1 st2" and "fld options' ''preparedCapture'' = fld options ''preparedCapture''"
  shows "(\<exists>e. capturePreparedCleanCheckpoint_begin st2 options' = (Inl e, st2)) \<and>
    (\<exists>e. assertPreparedCleanCheckpointResult st2 options' = Inl e)"
proof -
  from assms(2) obtain n r where d: "fld options ''preparedCapture'' = JOpaque n"
      "st1 = st\<lparr>preparedCleanCheckpointCaptures :=
         (preparedCleanCheckpointCaptures st)(n \<mapsto> r\<lparr>p_dispatched := True\<rparr>)\<rparr>"
    by (cases rule: dispatch_cases) auto
  have "core_inv st1" using dispatch_step assms(1,2) by blast
  then have "keeps_prepared st1 st2" using snapshot_reach_inv assms(3) by blast
  then have spent: "preparedCleanCheckpointCaptures st2 n = Some (r\<lparr>p_dispatched := True\<rparr>)"
    unfolding keeps_prepared_def by (simp add: d(2) split: if_splits)
  have "\<exists>e. capturePreparedCleanCheckpoint_begin st2 options' = (Inl e, st2)"
  proof -
    obtain res st3 where b: "capturePreparedCleanCheckpoint_begin st2 options' = (res, st3)" by fastforce
    then have "st3 = st2 \<and> (\<exists>e. res = Inl e)"
      using spent d(1) assms(4) by (cases rule: dispatch_cases) auto
    with b show ?thesis by auto
  qed
  moreover have "\<exists>e. assertPreparedCleanCheckpointResult st2 options' = Inl e"
  proof (cases "assertPreparedCleanCheckpointResult st2 options'")
    case (Inr w)
    then obtain opts m q where o: "assertExactOptionsS options' [''preparedCapture'', ''result''] = Inr opts"
      and t: "prepared_token st2 (fld opts ''preparedCapture'') = Inr (m, q)"
      by (auto simp: assertPreparedCleanCheckpointResult_def)
    have "fld opts ''preparedCapture'' = fld options' ''preparedCapture''"
      by (rule exact_optionsS(2) [OF o]) simp_all
    with t spent d(1) assms(4) show ?thesis by (auto simp: token_Inr)
  qed simp
  ultimately show ?thesis ..
qed

text \<open>
  C12: The call of a clean capture presents exactly what was checked when it was prepared. Whatever
  happened since, it reaches the operation the backend had then, on that backend, with one argument:
  the attachment, the checkpoint, the request and the evidence given at the dispatch. The attachment
  and the request carry the fence of the canonical lease, which had not expired, and lie on the
  referenced storage; the checkpoint is clean, is the one the request targets, and its source epoch
  is the epoch of the request.
\<close>

theorem capture_presents_the_checked_checkpoint:
  assumes "core_inv st" and "prepareCleanCheckpointCapture st options = (Inr preparedCapture, st1)"
    and "snapshot_reach st1 st2" and "capturePreparedCleanCheckpoint_begin st2 options' = (Inr k, st3)"
    and "fld options' ''preparedCapture'' = preparedCapture"
  shows "\<exists>f r a c q s l.
    backend_target (backends st) (fld options ''backend'') ''captureCheckpoint'' f r \<and>
    k_called k = Inr (f, r, [plain_obj [(''attachment'', a), (''checkpoint'', c), (''request'', q),
      (''stoppedWriterEvidence'', fld options' ''stoppedWriterEvidence'')]]) \<and>
    assertSessionAttachment (fld options ''attachment'') = Inr a \<and>
    assertStorageMutationRequest (fld options ''request'') = Inr q \<and>
    assertSessionStorageRef (fld options ''storageRef'') = Inr s \<and>
    assertLeaseGrant (fld options ''canonicalLease'') = Inr l \<and> unexpired (fld options ''now'') l \<and>
    under_lease a l \<and> under_lease q l \<and> on_storage a s \<and> on_storage q s \<and> on_storage c s \<and>
    fld q ''operation'' = lit ''checkpoint'' \<and> fld c ''checkpointClass'' = lit ''clean'' \<and>
    fld c ''artifactId'' = fld (fld q ''target'') ''artifactId'' \<and>
    fld c ''checkpointId'' = fld (fld q ''target'') ''checkpointId'' \<and>
    fld c ''sourceFencingEpoch'' = fld q ''fencingEpoch''"
proof -
  from assms(2) obtain opts b bs p n where p: "assertExactOptionsS options prepare_keys = Inr opts"
      "checkedBackend (backends st) (fld opts ''backend'') = (Inr b, bs)"
      "prepared_record bs b opts (lit ''clean'') = Inr p"
      "remember_prepared (st\<lparr>backends := bs\<rparr>) p = (st1, n)" "preparedCapture = JOpaque n"
    by (cases rule: prepare_cases) auto
  have o: "fld opts i = fld options i" if "i \<in> set prepare_keys" for i
    by (rule exact_optionsS(2) [OF p(1) _ that]) (simp add: prepare_keys_def)
  note f = prepared_record_facts [OF p(3)]
  have inv1: "core_inv st1" using prepare_step [OF assms(1,2)] by simp
  then have keeps: "keeps_prepared st1 st2" using snapshot_reach_inv assms(3) by blast
  have "wf_prepared (st\<lparr>backends := bs\<rparr>)"
    using checkedBackend_step(1) [OF assms(1) p(2)] by (simp add: core_inv_def)
  then have "preparedCleanCheckpointCaptures st1 n = Some p"
    by (rule prepared_captures.issue_look [OF _ p(4)])
  with keeps have known2: "preparedCleanCheckpointCaptures st2 n \<in> {Some p, Some (p\<lparr>p_dispatched := True\<rparr>)}"
    unfolding keeps_prepared_def by blast
  from assms(4) have k: "k = capture_call p (fld options' ''stoppedWriterEvidence'')"
    using known2 assms(5) p(5) by (cases rule: dispatch_cases) auto
  have inv: "backend_inv (backends st)" using assms(1) by (simp add: core_inv_def)
  obtain g r where t: "backend_target (backends st) (fld opts ''backend'') ''captureCheckpoint'' g r"
      "\<And>args. apply_op (p_capture p) (fld opts ''backend'') args = Inr (g, r, args)"
    using checked_method_target [OF inv p(2) f(15) checkpoint_methods(1)] by metis
  obtain l where l: "assertLeaseGrant (fld opts ''canonicalLease'') = Inr l" "under_lease (p_attachment p) l"
      "under_lease (p_request p) l" "unexpired (fld opts ''now'') l"
      "fld (p_checkpoint p) ''sourceFencingEpoch'' = fld l ''fencingEpoch''"
    using f(4) by blast
  have "fld (p_checkpoint p) ''sourceFencingEpoch'' = fld (p_request p) ''fencingEpoch''"
    using l(3,5) by (simp add: under_lease_def)
  moreover have "k_called k = Inr (g, r, [plain_obj [(''attachment'', p_attachment p), (''checkpoint'', p_checkpoint p),
      (''request'', p_request p), (''stoppedWriterEvidence'', fld options' ''stoppedWriterEvidence'')]])"
    by (simp add: k capture_call_def f(13) t(2))
  moreover have "fld opts ''attachment'' = fld options ''attachment''" "fld opts ''backend'' = fld options ''backend''"
    "fld opts ''canonicalLease'' = fld options ''canonicalLease''" "fld opts ''now'' = fld options ''now''"
    "fld opts ''request'' = fld options ''request''" "fld opts ''storageRef'' = fld options ''storageRef''"
    by (simp_all add: o prepare_keys_def)
  ultimately show ?thesis
    using t(1) l(1-4) f(1,3,5-12) by (intro exI conjI) (simp only:)+
qed

section \<open>Results\<close>

text \<open>What a call was made for: an accepted descriptor and an accepted request.\<close>

definition well_called :: "backend_call \<Rightarrow> bool" where
  "well_called k \<longleftrightarrow> (\<exists>v. assertBareCheckpointDescriptor v = Inr (k_checkpoint k)) \<and>
     assertStorageMutationRequest (k_request k) = Inr (k_request k)"

definition answers :: "backend_call \<Rightarrow> jsval \<Rightarrow> bool" where
  "answers k w \<longleftrightarrow> (\<exists>c u. w = frozenResult c u \<and> (\<forall>i \<in> set checkpoint_keys. fld c i = fld (k_checkpoint k) i) \<and>
     (\<forall>i \<in> set mutation_keys - {''target''}. fld u i = fld (k_request k) i) \<and>
     (\<forall>i \<in> set (target_schema (fld (k_request k) ''operation'')).
        fld (fld u ''target'') i = fld (fld (k_request k) ''target'') i) \<and>
     fld u ''status'' = operation_status (fld (k_request k) ''operation'') \<and> isOpaqueId (fld u ''proofId''))"

lemma result_answers:
  assumes "well_called k" and "assertBackendCheckpointResult v (k_checkpoint k) m (k_request k) s = Inr w"
  shows "answers k w"
proof -
  obtain env c u opts where c: "assertCheckpointDescriptor (fld env ''checkpoint'') opts = Inr c"
    and same: "same_checkpoint (k_checkpoint k) c"
    and u: "assertStorageMutationResult (fld env ''mutation'') (plain_obj [(''request'', k_request k)]) = Inr u"
    and w: "w = frozenResult c u"
    using assms(2) by (auto simp: assertBackendCheckpointResult_def Let_def)
  from assms(1) obtain d where d: "assertBareCheckpointDescriptor d = Inr (k_checkpoint k)"
    and q: "assertStorageMutationRequest (k_request k) = Inr (k_request k)" by (auto simp: well_called_def)
  obtain o' where o': "assertOptionsObject (plain_obj [(''request'', k_request k)]) [''request''] [''request'']
      Invalid_storage_mutation = Inr o'"
    using u by (auto simp: assertStorageMutationResult_def)
  have "fld o' ''request'' = k_request k" using options_plain_field [OF o'] by simp
  with mutation_result_facts [OF o' u] q
  have "(\<forall>i \<in> set mutation_keys - {''target''}. fld u i = fld (k_request k) i) \<and>
     (\<forall>i \<in> set (target_schema (fld (k_request k) ''operation'')).
        fld (fld u ''target'') i = fld (fld (k_request k) ''target'') i) \<and>
     fld u ''status'' = operation_status (fld (k_request k) ''operation'') \<and> isOpaqueId (fld u ''proofId'')"
    by simp
  with same_checkpoint_fields [OF d descriptor_bare [OF c] same] w show ?thesis
    unfolding answers_def by blast
qed

lemma capture_well_called:
  assumes "core_inv st" and "capturePreparedCleanCheckpoint_begin st options = (Inr k, st')"
  shows "well_called k"
  using assms(2)
proof (cases rule: dispatch_cases)
  case (dispatched n r)
  then have "well_prepared r" using assms(1) by (simp add: core_inv_def)
  with dispatched(4) show ?thesis
    by (auto simp: well_called_def capture_call_def well_prepared_def dest: mutation.idempotent)
qed simp

lemma reconcile_checked_facts:
  assumes "reconcile_checked opts = Inr (s, m, d, q)"
  shows "assertStorageMutationRequest (fld opts ''request'') = Inr q"
    and "assertBareCheckpointDescriptor (fld opts ''checkpoint'') = Inr d"
  using assms by (auto simp: reconcile_checked_def dest: descriptor_bare)

lemma reconcile_well_called: "reconcileCleanCheckpointCapture_begin st options = Inr k \<Longrightarrow> well_called k"
  by (auto simp: reconcileCleanCheckpointCapture_begin_def well_called_def)
    (blast dest: reconcile_checked_facts mutation.idempotent)+

lemma restore_cases:
  assumes "restoreCleanCheckpoint_begin st options = (Inr k, st')"
  obtains opts s m d b bs where "assertExactOptionsS options
       [''backend'', ''canonicalLease'', ''checkpoint'', ''manifest'', ''now'', ''request'', ''storageRef''] = Inr opts"
    "restore_source opts = Inr (s, m, d)" "checkedBackend (backends st) (fld opts ''backend'') = (Inr b, bs)"
    "restore_admitted bs b opts s m d = Inr k"
  using assms by (auto simp: restoreCleanCheckpoint_begin_def split: sum.splits prod.splits)

lemma restore_source_facts:
  assumes "restore_source opts = Inr (s, m, d)"
  shows "assertSessionStorageRef (fld opts ''storageRef'') = Inr s"
    and "assertBareCheckpointDescriptor (fld opts ''checkpoint'') = Inr d"
    and "fld d ''checkpointClass'' = lit ''clean''"
    and "fld d ''sessionId'' = fld s ''sessionId''" and "fld d ''backendId'' = fld s ''backendId''"
proof -
  from assms have r: "assertSessionStorageRef (fld opts ''storageRef'') = Inr s"
    "\<exists>o'. assertCheckpointDescriptor (fld opts ''checkpoint'') o' = Inr d"
    "fld d ''checkpointClass'' = lit ''clean''" "same_fields [''sessionId'', ''backendId''] d s"
    by (auto simp: restore_source_def)
  from r(2) show d: "assertBareCheckpointDescriptor (fld opts ''checkpoint'') = Inr d"
    by (auto dest: descriptor_bare)
  show "assertSessionStorageRef (fld opts ''storageRef'') = Inr s" "fld d ''checkpointClass'' = lit ''clean''"
    by fact+
  show "fld d ''sessionId'' = fld s ''sessionId''" "fld d ''backendId'' = fld s ''backendId''"
    using same_fields_eq [OF r(4) _ checkpoint.field_prim [OF d]] by (simp_all add: checkpoint_keys_def)
qed

lemma restore_admitted_facts:
  assumes "restore_admitted bs b opts s m d = Inr k"
  obtains l q f where "assertLeaseGrant (fld opts ''canonicalLease'') = Inr l"
    "assertStorageMutationMatchesLeaseSnapshot (plain_obj [(''canonicalLease'', l), (''now'', fld opts ''now''),
       (''request'', fld opts ''request''), (''storageRef'', s)]) = Inr q"
    "fld q ''operation'' = lit ''restore''" "assertCheckpointTarget q d = None"
    "\<exists>c > 0. compareFencingEpochs (fld l ''fencingEpoch'') (fld d ''sourceFencingEpoch'') = Inr c"
    "checkedBackendMethod bs (JOpaque b) ''restoreCheckpoint'' = Inr f"
    "k = \<lparr>k_called = apply_op f (JOpaque b) [plain_obj [(''checkpoint'', d), (''request'', q)]],
       k_checkpoint = d, k_manifest = m, k_request = q, k_storageRef = JUndefined\<rparr>"
  using assms by (auto simp: restore_admitted_def assertOperation_def)

lemma restore_well_called:
  assumes "restoreCleanCheckpoint_begin st options = (Inr k, st')"
  shows "well_called k"
proof -
  from assms obtain opts s m d b bs where r: "restore_source opts = Inr (s, m, d)"
      "restore_admitted bs b opts s m d = Inr k"
    by (rule restore_cases)
  from r(2) obtain l q f where q: "assertStorageMutationMatchesLeaseSnapshot (plain_obj [(''canonicalLease'', l),
       (''now'', fld opts ''now''), (''request'', fld opts ''request''), (''storageRef'', s)]) = Inr q"
      "k_checkpoint k = d" "k_request k = q"
    by (rule restore_admitted_facts) auto
  from q(1) have "assertStorageMutationRequest (fld opts ''request'') = Inr q"
    by (rule snapshot_mutation_parts)
  with q restore_source_facts(2) [OF r(1)] show ?thesis
    by (auto simp: well_called_def dest: mutation.idempotent)
qed

lemma settled_cases:
  assumes "well_called k"
  shows "call_settled uncertain k outcome = Inl uncertain \<or>
    (\<exists>w. call_settled uncertain k outcome = Inr w \<and> answers k w)"
proof -
  have "answers k w" if "call_settled uncertain k outcome = Inr w" for w
    using that result_answers [OF assms] by (auto simp: call_settled_def split: sum.splits option.splits)
  moreover have "e = uncertain" if "call_settled uncertain k outcome = Inl e" for e
    using that by (auto simp: call_settled_def split: sum.splits option.splits)
  ultimately show ?thesis by (cases "call_settled uncertain k outcome") auto
qed

text \<open>
  C13: A backend call either returns an answer or leaves its outcome uncertain, with the error of
  that operation and no other. An answer repeats the checkpoint the call was made for field by
  field, every field of the request, fence and target included, the status of the operation, and
  carries a proof.
\<close>

theorem backend_call_answers_or_stays_uncertain:
  assumes "core_inv st"
  shows "(capturePreparedCleanCheckpoint_begin st options = (Inr k, st') \<longrightarrow>
      capturePreparedCleanCheckpoint_settled k outcome = Inl Checkpoint_outcome_uncertain \<or>
      (\<exists>w. capturePreparedCleanCheckpoint_settled k outcome = Inr w \<and> answers k w)) \<and>
    (reconcileCleanCheckpointCapture_begin st options = Inr k \<longrightarrow>
      reconcileCleanCheckpointCapture_settled k outcome = Inl Checkpoint_reconciliation_outcome_uncertain \<or>
      (\<exists>w. reconcileCleanCheckpointCapture_settled k outcome = Inr w \<and> answers k w)) \<and>
    (restoreCleanCheckpoint_begin st options = (Inr k, st') \<longrightarrow>
      restoreCleanCheckpoint_settled k outcome = Inl Restore_outcome_uncertain \<or>
      (\<exists>w. restoreCleanCheckpoint_settled k outcome = Inr w \<and> answers k w))"
  unfolding capturePreparedCleanCheckpoint_settled_def reconcileCleanCheckpointCapture_settled_def
    restoreCleanCheckpoint_settled_def
  using settled_cases capture_well_called [OF assms] reconcile_well_called restore_well_called by blast

section \<open>Restores\<close>

lemma epoch_newer:
  assumes "compareFencingEpochs a b = Inr c" and "0 < c"
  obtains new old where "a = JStr (dec_of new)" "b = JStr (dec_of old)" "old < new"
proof -
  obtain m n where p: "parseFencingEpoch a = Inr m" "parseFencingEpoch b = Inr n"
    using contract_epochs.compare_parsed [OF assms(1)] by blast
  then have "a = JStr (dec_of m)" "b = JStr (dec_of n)" by (simp_all add: contract_epochs.parse_iff)
  moreover have "n < m" using contract_epochs.compare_later [OF p] assms by blast
  ultimately show ?thesis using that by blast
qed

lemma target_fields:
  assumes q: "assertStorageMutationRequest v = Inr q" and "assertCheckpointTarget q d = None"
    and "fld q ''operation'' = lit ''restore''"
  shows "fld d ''artifactId'' = fld (fld q ''target'') ''artifactId''"
    and "fld d ''checkpointId'' = fld (fld q ''target'') ''checkpointId''"
proof -
  have "fld d i = fld (fld q ''target'') i" if "i \<in> {''artifactId'', ''checkpointId''}" for i
  proof -
    have "data_prim (fld (fld q ''target'') i)"
      by (rule mutation_target_data [OF q]) (use that assms(3) in \<open>auto simp: target_schema_def\<close>)
    moreover have "js_seq (fld (fld q ''target'') i) (fld d i)"
      using that assms(2) by (auto simp: assertCheckpointTarget_def)
    ultimately show ?thesis by (metis js_seqD data_prim_prim)
  qed
  then show "fld d ''artifactId'' = fld (fld q ''target'') ''artifactId''"
    "fld d ''checkpointId'' = fld (fld q ''target'') ''checkpointId''" by simp_all
qed

text \<open>
  C14: A restore reaches the backend only as a fenced one: on the operation of the given backend,
  with the accepted checkpoint and the accepted request as its only argument. The checkpoint is
  clean, of the session and backend of the destination, and the one the request targets; the
  request carries the fence of the canonical lease, which has not expired, and its epoch is
  strictly newer than the one the checkpoint was taken under.
\<close>

theorem restore_presents_a_newer_fence:
  assumes "core_inv st" and "restoreCleanCheckpoint_begin st options = (Inr k, st')"
  shows "\<exists>f r d q s l old new.
    backend_target (backends st) (fld options ''backend'') ''restoreCheckpoint'' f r \<and>
    k_called k = Inr (f, r, [plain_obj [(''checkpoint'', d), (''request'', q)]]) \<and>
    assertBareCheckpointDescriptor (fld options ''checkpoint'') = Inr d \<and>
    assertStorageMutationRequest (fld options ''request'') = Inr q \<and>
    assertSessionStorageRef (fld options ''storageRef'') = Inr s \<and>
    assertLeaseGrant (fld options ''canonicalLease'') = Inr l \<and> unexpired (fld options ''now'') l \<and>
    under_lease q l \<and> on_storage q s \<and> fld q ''operation'' = lit ''restore'' \<and>
    fld d ''checkpointClass'' = lit ''clean'' \<and> fld d ''sessionId'' = fld s ''sessionId'' \<and>
    fld d ''backendId'' = fld s ''backendId'' \<and>
    fld d ''artifactId'' = fld (fld q ''target'') ''artifactId'' \<and>
    fld d ''checkpointId'' = fld (fld q ''target'') ''checkpointId'' \<and>
    fld d ''sourceFencingEpoch'' = JStr (dec_of old) \<and> fld q ''fencingEpoch'' = JStr (dec_of new) \<and> old < new"
proof -
  from assms(2) obtain opts s m d b bs where o: "assertExactOptionsS options
       [''backend'', ''canonicalLease'', ''checkpoint'', ''manifest'', ''now'', ''request'', ''storageRef''] = Inr opts"
      and src: "restore_source opts = Inr (s, m, d)"
      and b: "checkedBackend (backends st) (fld opts ''backend'') = (Inr b, bs)"
      and adm: "restore_admitted bs b opts s m d = Inr k"
    by (rule restore_cases)
  note f = restore_source_facts [OF src]
  obtain l q g where l: "assertLeaseGrant (fld opts ''canonicalLease'') = Inr l"
    and q: "assertStorageMutationMatchesLeaseSnapshot (plain_obj [(''canonicalLease'', l), (''now'', fld opts ''now''),
       (''request'', fld opts ''request''), (''storageRef'', s)]) = Inr q"
    and op: "fld q ''operation'' = lit ''restore''" and target: "assertCheckpointTarget q d = None"
    and newer: "\<exists>c > 0. compareFencingEpochs (fld l ''fencingEpoch'') (fld d ''sourceFencingEpoch'') = Inr c"
    and g: "checkedBackendMethod bs (JOpaque b) ''restoreCheckpoint'' = Inr g"
    and k: "k = \<lparr>k_called = apply_op g (JOpaque b) [plain_obj [(''checkpoint'', d), (''request'', q)]],
       k_checkpoint = d, k_manifest = m, k_request = q, k_storageRef = JUndefined\<rparr>"
    by (rule restore_admitted_facts [OF adm])
  obtain l' s' where qp: "assertStorageMutationRequest (fld opts ''request'') = Inr q" "assertLeaseGrant l = Inr l'"
      "assertSessionStorageRef s = Inr s'" "under_lease q l'" "on_storage q s'" "unexpired (fld opts ''now'') l'"
    by (rule snapshot_mutation_parts [OF q])
  have same: "l' = l" "s' = s"
    using qp(2,3) lease.idempotent [OF l] storage_ref.idempotent [OF f(1)] by simp_all
  from newer obtain new old where e: "fld l ''fencingEpoch'' = JStr (dec_of new)"
      "fld d ''sourceFencingEpoch'' = JStr (dec_of old)" "old < new"
    by (blast elim: epoch_newer)
  have inv: "backend_inv (backends st)" using assms(1) by (simp add: core_inv_def)
  obtain h r where t: "backend_target (backends st) (fld opts ''backend'') ''restoreCheckpoint'' h r"
      "\<And>args. apply_op g (JOpaque b) args = Inr (h, r, args)"
    using checked_method_target [OF inv b g checkpoint_methods(2)] by metis
  have "k_called k = Inr (h, r, [plain_obj [(''checkpoint'', d), (''request'', q)]])" by (simp add: k t(2))
  moreover have "fld q ''fencingEpoch'' = JStr (dec_of new)"
    using qp(4) e(1) by (simp add: under_lease_def same)
  moreover have "fld opts i = fld options i"
    if "i \<in> {''backend'', ''canonicalLease'', ''checkpoint'', ''now'', ''request'', ''storageRef''}" for i
    by (rule exact_optionsS(2) [OF o]) (use that in auto)
  then have "fld opts ''checkpoint'' = fld options ''checkpoint''" "fld opts ''backend'' = fld options ''backend''"
    "fld opts ''canonicalLease'' = fld options ''canonicalLease''" "fld opts ''now'' = fld options ''now''"
    "fld opts ''request'' = fld options ''request''" "fld opts ''storageRef'' = fld options ''storageRef''"
    by simp_all
  ultimately show ?thesis
    using t(1) f l qp(1,4-6) op target_fields [OF qp(1) target op] e(2,3) unfolding same
    by (intro exI conjI) (simp only:)+
qed

end
