(* ===== verification/Crash_Core.thy ===== *)
theory Crash_Core
  imports Contract_Backend Contract_Capture Contract_Properties
begin

text \<open>
  \<open>session-crash-capture-core.mjs\<close>: dispatching one atomic crash capture through a facade of a
  storage backend, and the verification that asks the provider for a committed result without any
  authority. Asynchronous operations are split at their \<open>await\<close> as in the snapshot core. The
  lemmas show that a prepared capture is dispatched at most once, what the provider is called
  with, and what is accepted as its answer.
\<close>

datatype crash_error =
    Crash_contract contract_error
  | Atomic_crash_capture_outcome_uncertain
  | Atomic_crash_capture_verification_outcome_uncertain

type_synonym 'a kresult = "crash_error + 'a"

record prepared_crash =
  pc_backendId :: bval
  pc_request :: jsval
  pc_backend :: nat
  pc_capture :: backend_op
  pc_dispatched :: bool

record crash_core =
  crash_backends :: backend_store
  preparedAtomicCrashCaptures :: "nat \<Rightarrow> prepared_crash option"

definition new_crash_core :: "nat \<Rightarrow> crash_core" where
  "new_crash_core n = \<lparr>crash_backends = empty_store n, preparedAtomicCrashCaptures = (\<lambda>_. None)\<rparr>"

definition remember_crash :: "crash_core \<Rightarrow> prepared_crash \<Rightarrow> crash_core \<times> nat" where
  "remember_crash st r = (let n = next_handle (crash_backends st) in
     (st\<lparr>crash_backends := (crash_backends st)\<lparr>next_handle := Suc n\<rparr>,
         preparedAtomicCrashCaptures := (preparedAtomicCrashCaptures st)(n \<mapsto> r)\<rparr>, n))"

definition wf_crash :: "crash_core \<Rightarrow> bool" where
  "wf_crash st \<longleftrightarrow> (\<forall>n. preparedAtomicCrashCaptures st n \<noteq> None \<longrightarrow> n < next_handle (crash_backends st))"

interpretation prepared_crashes: token_store remember_crash preparedAtomicCrashCaptures wf_crash
  by unfold_locales (auto simp: remember_crash_def wf_crash_def less_Suc_eq Let_def split: if_splits)

section \<open>Checks\<close>

definition assertExactOptionsC :: "jsval \<Rightarrow> string list \<Rightarrow> jsval kresult" where
  "assertExactOptionsC v ks = exact_options (Crash_contract Invalid_atomic_crash_capture) v ks"

definition validateContractC :: "'a result \<Rightarrow> contract_error \<Rightarrow> 'a kresult" where
  "validateContractC r e = (case r of
     Inr a \<Rightarrow> Inr a
   | Inl c \<Rightarrow> Inl (Crash_contract (if c = Type_error \<or> c = Foreign_error then e else c)))"

definition validateExternalOperationC :: "'a result \<Rightarrow> contract_error \<Rightarrow> 'a kresult" where
  "validateExternalOperationC r e = rcatch r (Crash_contract e)"

definition checkedBackendC :: "backend_store \<Rightarrow> jsval \<Rightarrow> nat kresult \<times> backend_store" where
  "checkedBackendC st v = (case createAtomicCrashCaptureBackendFacade st v of
     (r, st') \<Rightarrow> (validateExternalOperationC r Invalid_storage_backend, st'))"

definition checkedBackendMethodC :: "backend_store \<Rightarrow> nat \<Rightarrow> string \<Rightarrow> backend_op kresult" where
  "checkedBackendMethodC st backend m = validateExternalOperationC
     (guarded [ensure (callable (object_field st backend m)) Invalid_storage_backend]
        (Inr (as_op (object_field st backend m)))) Invalid_storage_backend"

definition assertCaptureAuthority :: "jsval \<Rightarrow> jsval kresult" where
  "assertCaptureAuthority v =
     guarded [ensure (v \<noteq> JNull \<and> is_object v \<and> \<not> is_proxy v \<and> \<not> is_array v)
       (Crash_contract Invalid_atomic_crash_capture)] (Inr v)"

definition assertBackendMatchesRequest :: "backend_store \<Rightarrow> nat \<Rightarrow> jsval \<Rightarrow> crash_error option" where
  "assertBackendMatchesRequest st backend request = ensure
     (js_seq (shown (object_field st backend ''backendId'')) (fld (fld request ''storageRef'') ''backendId''))
     (Crash_contract Invalid_storage_backend)"

section \<open>Preparing and dispatching a capture\<close>

text \<open>The common opening: options, request, and the facade over the given backend.\<close>

definition crash_opening :: "crash_core \<Rightarrow> jsval \<Rightarrow> (jsval \<times> nat) kresult \<times> crash_core" where
  "crash_opening st options = (case
     rbind (assertExactOptionsC options [''backend'', ''request'']) (\<lambda>opts.
     rbind (validateContractC (assertAtomicCrashCaptureRequest (fld opts ''request''))
       Invalid_atomic_crash_capture) (\<lambda>request. Inr (fld opts ''backend'', request)))
   of Inl e \<Rightarrow> (Inl e, st)
    | Inr (backend, request) \<Rightarrow> (case checkedBackendC (crash_backends st) backend of
        (Inl e, bs) \<Rightarrow> (Inl e, st\<lparr>crash_backends := bs\<rparr>)
      | (Inr b, bs) \<Rightarrow>
          (guarded [assertBackendMatchesRequest bs b request] (Inr (request, b)), st\<lparr>crash_backends := bs\<rparr>)))"

definition prepareAtomicCrashCapture :: "crash_core \<Rightarrow> jsval \<Rightarrow> jsval kresult \<times> crash_core" where
  "prepareAtomicCrashCapture st options = (case crash_opening st options of
     (Inl e, st1) \<Rightarrow> (Inl e, st1)
   | (Inr (request, b), st1) \<Rightarrow>
      (case checkedBackendMethodC (crash_backends st1) b ''captureAtomicCrashCheckpoint'' of
         Inl e \<Rightarrow> (Inl e, st1)
       | Inr capture \<Rightarrow> (case remember_crash st1
            \<lparr>pc_backendId = object_field (crash_backends st1) b ''backendId'', pc_request = request,
             pc_backend = b, pc_capture = capture, pc_dispatched = False\<rparr> of
           (st2, n) \<Rightarrow> (Inr (JOpaque n), st2))))"

record crash_call =
  kc_called :: "(jsval \<times> jsval \<times> jsval list) result"
  kc_request :: jsval

definition crash_token :: "crash_core \<Rightarrow> jsval \<Rightarrow> (nat \<times> prepared_crash) kresult" where
  "crash_token st v = (case v of
     JOpaque n \<Rightarrow> (case preparedAtomicCrashCaptures st n of
        None \<Rightarrow> Inl (Crash_contract Invalid_atomic_crash_capture)
      | Some r \<Rightarrow> guarded [ensure (\<not> pc_dispatched r) (Crash_contract Invalid_atomic_crash_capture)]
          (Inr (n, r)))
   | _ \<Rightarrow> Inl (Crash_contract Invalid_atomic_crash_capture))"

definition capturePreparedAtomicCrashCheckpoint_begin ::
    "crash_core \<Rightarrow> jsval \<Rightarrow> crash_call kresult \<times> crash_core" where
  "capturePreparedAtomicCrashCheckpoint_begin st options = (case
     rbind (assertExactOptionsC options [''captureAuthority'', ''preparedCapture'']) (\<lambda>opts.
     rbind (assertCaptureAuthority (fld opts ''captureAuthority'')) (\<lambda>authority.
     rbind (crash_token st (fld opts ''preparedCapture'')) (\<lambda>(n, r). Inr (authority, n, r))))
   of Inl e \<Rightarrow> (Inl e, st)
    | Inr (authority, n, r) \<Rightarrow>
       (Inr \<lparr>kc_called = apply_op (pc_capture r) (JOpaque (pc_backend r))
               [plain_obj [(''captureAuthority'', authority), (''request'', pc_request r)]],
             kc_request = pc_request r\<rparr>,
        st\<lparr>preparedAtomicCrashCaptures := (preparedAtomicCrashCaptures st)(n \<mapsto> r\<lparr>pc_dispatched := True\<rparr>)\<rparr>))"

definition capturePreparedAtomicCrashCheckpoint_settled :: "crash_call \<Rightarrow> jsval option \<Rightarrow> jsval kresult" where
  "capturePreparedAtomicCrashCheckpoint_settled k outcome = (case kc_called k of
     Inl _ \<Rightarrow> Inl Atomic_crash_capture_outcome_uncertain
   | Inr _ \<Rightarrow> (case outcome of
       None \<Rightarrow> Inl Atomic_crash_capture_outcome_uncertain
     | Some result \<Rightarrow> rcatch (assertAtomicCrashCaptureResult result
         (plain_obj [(''request'', kc_request k)])) Atomic_crash_capture_outcome_uncertain))"

section \<open>Verifying a committed capture\<close>

definition verifyCommittedAtomicCrashCapture_begin ::
    "crash_core \<Rightarrow> jsval \<Rightarrow> crash_call kresult \<times> crash_core" where
  "verifyCommittedAtomicCrashCapture_begin st options = (case crash_opening st options of
     (Inl e, st1) \<Rightarrow> (Inl e, st1)
   | (Inr (request, b), st1) \<Rightarrow>
      (rbind (checkedBackendMethodC (crash_backends st1) b ''verifyCommittedAtomicCrashCheckpoint'') (\<lambda>verify.
         Inr \<lparr>kc_called = apply_op verify (JOpaque b) [request], kc_request = request\<rparr>), st1))"

definition verifyCommittedAtomicCrashCapture_settled :: "crash_call \<Rightarrow> jsval option \<Rightarrow> jsval kresult" where
  "verifyCommittedAtomicCrashCapture_settled k outcome = (case kc_called k of
     Inl _ \<Rightarrow> Inl Atomic_crash_capture_verification_outcome_uncertain
   | Inr _ \<Rightarrow> (case outcome of
       None \<Rightarrow> Inl Atomic_crash_capture_verification_outcome_uncertain
     | Some result \<Rightarrow> rcatch (assertAtomicCrashCaptureVerificationResult result
         (plain_obj [(''request'', kc_request k)])) Atomic_crash_capture_verification_outcome_uncertain))"

section \<open>Histories\<close>

inductive crash_step :: "crash_core \<Rightarrow> crash_core \<Rightarrow> bool" where
  prepare_crash: "prepareAtomicCrashCapture st options = (res, st') \<Longrightarrow> crash_step st st'"
| dispatch_crash: "capturePreparedAtomicCrashCheckpoint_begin st options = (res, st') \<Longrightarrow> crash_step st st'"
| verify_crash: "verifyCommittedAtomicCrashCapture_begin st options = (res, st') \<Longrightarrow> crash_step st st'"
| checkpoint_facade: "createCheckpointBackendFacade (crash_backends st) v = (res, bs) \<Longrightarrow>
    crash_step st (st\<lparr>crash_backends := bs\<rparr>)"
| capture_facade: "createAtomicCrashCaptureBackendFacade (crash_backends st) v = (res, bs) \<Longrightarrow>
    crash_step st (st\<lparr>crash_backends := bs\<rparr>)"

inductive crash_reach :: "crash_core \<Rightarrow> crash_core \<Rightarrow> bool" where
  crash_refl: "crash_reach st st"
| crash_next: "crash_reach st st' \<Longrightarrow> crash_step st' st'' \<Longrightarrow> crash_reach st st''"

section \<open>The state\<close>

text \<open>
  Operation \<open>m\<close> of a capture backend \<open>v\<close>: of a facade what its method resolves to, of a foreign
  backend its own property \<open>m\<close>, called on the backend.
\<close>

definition crash_target :: "backend_store \<Rightarrow> jsval \<Rightarrow> string \<Rightarrow> jsval \<Rightarrow> jsval \<Rightarrow> bool" where
  "crash_target st v m f r \<longleftrightarrow> is_function f \<and> \<not> is_proxy f \<and>
     (case known (atomicCrashCaptureBackendFacades st) v of
        Some p \<Rightarrow> resolves st p m f r
      | None \<Rightarrow> own_desc v (key m) = Some (DataDesc True f) \<and> r = v)"

lemma crash_methods [simp]:
  "''captureAtomicCrashCheckpoint'' \<in> set CRASH_BACKEND_METHODS"
  "''verifyCommittedAtomicCrashCheckpoint'' \<in> set CRASH_BACKEND_METHODS"
  by (simp_all add: CRASH_BACKEND_METHODS_def)

lemma crash_facade_target:
  assumes "backend_inv st" and "createAtomicCrashCaptureBackendFacade st v = (Inr b, st')"
    and "m \<in> set CRASH_BACKEND_METHODS"
  obtains f r where "crash_target st v m f r" "resolves st' b m f r"
proof (cases "known (atomicCrashCaptureBackendFacades st) v")
  case None
  from assms(1,2) None obtain x st1 where x: "foreign_extension st v = Inr x"
      "new_object st (crash_facade_fields b x) = (st1, b)"
      "st' = st1\<lparr>atomicCrashCaptureBackendFacades := insert b (atomicCrashCaptureBackendFacades st1)\<rparr>"
      "\<nexists>n. v = JOpaque n"
    by (rule crash_facade_created)
  from x(1) obtain c w where cw: "plain_slot st v ''captureAtomicCrashCheckpoint'' = Inr c"
      "plain_slot st v ''verifyCommittedAtomicCrashCheckpoint'' = Inr w"
      "x_capture x = as_op c" "x_verify x = as_op w" "x_backend x = v"
      "callable c" "\<not> is_proxy (shown c)" "callable w" "\<not> is_proxy (shown w)"
    by (rule foreign_extension_facts)
  obtain c' w' where s: "c = Value c'" "own_desc v (key ''captureAtomicCrashCheckpoint'') = Some (DataDesc True c')"
      "w = Value w'" "own_desc v (key ''verifyCommittedAtomicCrashCheckpoint'') = Some (DataDesc True w')"
    using foreign_slot [OF x(4) cw(1)] foreign_slot [OF x(4) cw(2)] by auto
  have "call_method st' b = call_method st1 b"
    by (simp add: call_method_def object_field_def x(3) fun_eq_iff)
  then have "resolves st' b ''captureAtomicCrashCheckpoint'' c' v"
    "resolves st' b ''verifyCommittedAtomicCrashCheckpoint'' w' v"
    using cw s by (simp_all add: resolves_def crash_facade_method [OF x(2)] callable_def)
  moreover have "crash_target st v ''captureAtomicCrashCheckpoint'' c' v"
    "crash_target st v ''verifyCommittedAtomicCrashCheckpoint'' w' v"
    using None cw s by (simp_all add: crash_target_def callable_def)
  ultimately show ?thesis using that assms(3) by (auto simp: CRASH_BACKEND_METHODS_def)
next
  case (Some i)
  with assms(2) have b: "b = i" "st' = st" by (auto simp: createAtomicCrashCaptureBackendFacade_def)
  from Some assms(1,3) obtain f r where "resolves st i m f r" unfolding backend_inv_def by fastforce
  with Some b that [of f r] show ?thesis by (simp add: crash_target_def resolves_def)
qed

definition well_crash :: "prepared_crash \<Rightarrow> bool" where
  "well_crash r \<longleftrightarrow> assertAtomicCrashCaptureRequest (pc_request r) = Inr (pc_request r) \<and>
     (\<exists>f rc. is_function f \<and> (\<forall>args. apply_op (pc_capture r) (JOpaque (pc_backend r)) args = Inr (f, rc, args)))"

definition crash_inv :: "crash_core \<Rightarrow> bool" where
  "crash_inv st \<longleftrightarrow> backend_inv (crash_backends st) \<and> wf_crash st \<and>
     (\<forall>n r. preparedAtomicCrashCaptures st n = Some r \<longrightarrow> well_crash r)"

definition keeps_crash :: "crash_core \<Rightarrow> crash_core \<Rightarrow> bool" where
  "keeps_crash st st' \<longleftrightarrow> (\<forall>n r. preparedAtomicCrashCaptures st n = Some r \<longrightarrow>
     preparedAtomicCrashCaptures st' n \<in> {Some r, Some (r\<lparr>pc_dispatched := True\<rparr>)})"

lemma crash_inv_new: "crash_inv (new_crash_core n)"
  by (simp add: crash_inv_def new_crash_core_def backend_inv_empty wf_crash_def)

lemma keeps_crash_refl: "keeps_crash st st"
  by (simp add: keeps_crash_def)

lemma keeps_crash_trans: "keeps_crash st st' \<Longrightarrow> keeps_crash st' st'' \<Longrightarrow> keeps_crash st st''"
  unfolding keeps_crash_def by fastforce

lemma crash_backends_step:
  assumes "crash_inv st" and "backend_inv bs" and "next_handle (crash_backends st) \<le> next_handle bs"
  shows "crash_inv (st\<lparr>crash_backends := bs\<rparr>) \<and> keeps_crash st (st\<lparr>crash_backends := bs\<rparr>)"
  using assms by (auto simp: crash_inv_def wf_crash_def keeps_crash_def dest: less_le_trans)

lemma remember_crash_step:
  assumes "crash_inv st" and "well_crash r" and "remember_crash st r = (st', n)"
  shows "crash_inv st' \<and> keeps_crash st st'"
proof
  have wf: "wf_crash st" using assms(1) by (simp add: crash_inv_def)
  have "wf_crash st'" by (rule prepared_crashes.issue_valid [OF wf assms(3)])
  have "backend_inv ((crash_backends st)\<lparr>next_handle := Suc (next_handle (crash_backends st))\<rparr>)"
    by (rule backend_inv_next) (use assms(1) in \<open>simp_all add: crash_inv_def\<close>)
  then have "backend_inv (crash_backends st')"
    using assms(3) by (auto simp: remember_crash_def Let_def)
  with \<open>wf_crash st'\<close> show "crash_inv st'"
    using assms by (auto simp: crash_inv_def remember_crash_def Let_def split: if_splits)
  show "keeps_crash st st'"
    using prepared_crashes.issue_keeps [OF wf assms(3)] by (simp add: keeps_crash_def)
qed

section \<open>What the operations do\<close>

lemma exact_optionsC:
  assumes "assertExactOptionsC v ks = Inr opts" and "distinct ks"
  shows "exact_object v ks" and "s \<in> set ks \<Longrightarrow> fld opts s = fld v s"
  using assms exact_options_fld unfolding assertExactOptionsC_def by (auto simp: exact_options_iff)

lemma validateContractC_Inr [simp]: "validateContractC r e = Inr a \<longleftrightarrow> r = Inr a"
  by (cases r) (simp_all add: validateContractC_def)

lemma crash_opening_cases:
  assumes "crash_inv st" and "crash_opening st options = (res, st')"
  obtains (refused) e where "res = Inl e" "crash_inv st'" "keeps_crash st st'"
      "preparedAtomicCrashCaptures st' = preparedAtomicCrashCaptures st"
    | (opened) q b where "res = Inr (q, b)" "crash_inv st'" "keeps_crash st st'"
      "preparedAtomicCrashCaptures st' = preparedAtomicCrashCaptures st"
      "assertAtomicCrashCaptureRequest (fld options ''request'') = Inr q"
      "createAtomicCrashCaptureBackendFacade (crash_backends st) (fld options ''backend'') = (Inr b, crash_backends st')"
proof (cases "rbind (assertExactOptionsC options [''backend'', ''request'']) (\<lambda>opts.
     rbind (validateContractC (assertAtomicCrashCaptureRequest (fld opts ''request''))
       Invalid_atomic_crash_capture) (\<lambda>request. Inr (fld opts ''backend'', request)))")
  case (Inl e)
  with assms show ?thesis by (intro refused [of e]) (auto simp: crash_opening_def keeps_crash_refl)
next
  case (Inr x)
  then obtain opts q where o: "assertExactOptionsC options [''backend'', ''request''] = Inr opts"
      and q: "assertAtomicCrashCaptureRequest (fld opts ''request'') = Inr q" and x: "x = (fld opts ''backend'', q)"
    by auto
  have f: "fld opts ''backend'' = fld options ''backend''" "fld opts ''request'' = fld options ''request''"
    using exact_optionsC(2) [OF o] by simp_all
  obtain r bs where r: "createAtomicCrashCaptureBackendFacade (crash_backends st) (fld options ''backend'') = (r, bs)"
    by fastforce
  have "backend_inv bs" by (rule crash_facade_inv [OF _ r]) (use assms(1) in \<open>simp add: crash_inv_def\<close>)
  then have keep: "crash_inv (st\<lparr>crash_backends := bs\<rparr>) \<and> keeps_crash st (st\<lparr>crash_backends := bs\<rparr>)"
    using crash_backends_step [OF assms(1)] handles_grow(3) [OF r] by blast
  have st': "st' = st\<lparr>crash_backends := bs\<rparr>"
    using assms(2) Inr r
    by (auto simp: crash_opening_def x f checkedBackendC_def validateExternalOperationC_def split: sum.splits)
  show ?thesis
  proof (cases res)
    case (Inl e)
    with keep st' show ?thesis by (intro refused [of e]) simp_all
  next
    case b: (Inr y)
    then obtain b where "y = (q, b)" "r = Inr b"
      using assms(2) Inr r
      by (auto simp: crash_opening_def x f checkedBackendC_def validateExternalOperationC_def split: sum.splits)
    with keep st' q r b f show ?thesis by (intro opened [of q b]) simp_all
  qed
qed

lemma checked_crash_method:
  "checkedBackendMethodC bs b m = Inr f \<Longrightarrow> f = as_op (object_field bs b m)"
  by (simp add: checkedBackendMethodC_def validateExternalOperationC_def)

lemma prepare_crash_step:
  assumes "crash_inv st" and "prepareAtomicCrashCapture st options = (res, st')"
  shows "crash_inv st' \<and> keeps_crash st st'"
    and "res = Inr v \<Longrightarrow> \<exists>n r f rc. v = JOpaque n \<and> preparedAtomicCrashCaptures st' n = Some r \<and>
      assertAtomicCrashCaptureRequest (fld options ''request'') = Inr (pc_request r) \<and>
      crash_target (crash_backends st) (fld options ''backend'') ''captureAtomicCrashCheckpoint'' f rc \<and>
      (\<forall>args. apply_op (pc_capture r) (JOpaque (pc_backend r)) args = Inr (f, rc, args))"
proof -
  obtain r0 st1 where o: "crash_opening st options = (r0, st1)" by fastforce
  have "crash_inv st' \<and> keeps_crash st st' \<and> (\<forall>v. res = Inr v \<longrightarrow> (\<exists>n r f rc. v = JOpaque n \<and>
      preparedAtomicCrashCaptures st' n = Some r \<and>
      assertAtomicCrashCaptureRequest (fld options ''request'') = Inr (pc_request r) \<and>
      crash_target (crash_backends st) (fld options ''backend'') ''captureAtomicCrashCheckpoint'' f rc \<and>
      (\<forall>args. apply_op (pc_capture r) (JOpaque (pc_backend r)) args = Inr (f, rc, args))))"
    using assms(1) o
  proof (cases rule: crash_opening_cases)
    case (refused e)
    with o assms(2) show ?thesis by (auto simp: prepareAtomicCrashCapture_def)
  next
    case (opened q b)
    show ?thesis
    proof (cases "checkedBackendMethodC (crash_backends st1) b ''captureAtomicCrashCheckpoint''")
      case (Inl e)
      with opened o assms(2) show ?thesis by (auto simp: prepareAtomicCrashCapture_def)
    next
      case (Inr g)
      let ?r = "\<lparr>pc_backendId = object_field (crash_backends st1) b ''backendId'', pc_request = q,
             pc_backend = b, pc_capture = g, pc_dispatched = False\<rparr>"
      have inv: "backend_inv (crash_backends st)" using assms(1) by (simp add: crash_inv_def)
      obtain f rc where t: "crash_target (crash_backends st) (fld options ''backend'') ''captureAtomicCrashCheckpoint'' f rc"
          "resolves (crash_backends st1) b ''captureAtomicCrashCheckpoint'' f rc"
        by (rule crash_facade_target [OF inv opened(6) crash_methods(1)])
      then have call: "\<forall>args. apply_op g (JOpaque b) args = Inr (f, rc, args)" "is_function f"
        using checked_crash_method [OF Inr] by (simp_all add: resolves_def call_method_def)
      then have well: "well_crash ?r"
        using crash_request_idempotent [OF opened(5)] by (auto simp: well_crash_def)
      obtain st2 n where m: "remember_crash st1 ?r = (st2, n)" by fastforce
      have eq: "res = Inr (JOpaque n)" "st' = st2"
        using assms(2) o opened(1) Inr m by (auto simp: prepareAtomicCrashCapture_def)
      have "preparedAtomicCrashCaptures st2 n = Some ?r"
        by (rule prepared_crashes.issue_look [OF _ m]) (use opened(2) in \<open>simp add: crash_inv_def\<close>)
      with remember_crash_step [OF opened(2) well m] opened(3,5) t(1) call eq show ?thesis
        by (auto intro: keeps_crash_trans)
    qed
  qed
  then show "crash_inv st' \<and> keeps_crash st st'"
    and "res = Inr v \<Longrightarrow> \<exists>n r f rc. v = JOpaque n \<and> preparedAtomicCrashCaptures st' n = Some r \<and>
      assertAtomicCrashCaptureRequest (fld options ''request'') = Inr (pc_request r) \<and>
      crash_target (crash_backends st) (fld options ''backend'') ''captureAtomicCrashCheckpoint'' f rc \<and>
      (\<forall>args. apply_op (pc_capture r) (JOpaque (pc_backend r)) args = Inr (f, rc, args))"
    by blast+
qed

lemma crash_dispatch_cases:
  assumes "capturePreparedAtomicCrashCheckpoint_begin st options = (res, st')"
  obtains (refused) e where "res = Inl e" "st' = st"
    | (dispatched) n r where "fld options ''preparedCapture'' = JOpaque n"
        "preparedAtomicCrashCaptures st n = Some r" "\<not> pc_dispatched r"
        "res = Inr \<lparr>kc_called = apply_op (pc_capture r) (JOpaque (pc_backend r))
               [plain_obj [(''captureAuthority'', fld options ''captureAuthority''), (''request'', pc_request r)]],
             kc_request = pc_request r\<rparr>"
        "st' = st\<lparr>preparedAtomicCrashCaptures :=
           (preparedAtomicCrashCaptures st)(n \<mapsto> r\<lparr>pc_dispatched := True\<rparr>)\<rparr>"
proof (cases "rbind (assertExactOptionsC options [''captureAuthority'', ''preparedCapture'']) (\<lambda>opts.
     rbind (assertCaptureAuthority (fld opts ''captureAuthority'')) (\<lambda>authority.
     rbind (crash_token st (fld opts ''preparedCapture'')) (\<lambda>(n, r). Inr (authority, n, r))))")
  case (Inl e)
  with assms show ?thesis by (intro refused [of e]) (simp_all add: capturePreparedAtomicCrashCheckpoint_begin_def)
next
  case (Inr x)
  then obtain opts w n r where o: "assertExactOptionsC options [''captureAuthority'', ''preparedCapture''] = Inr opts"
      and w: "assertCaptureAuthority (fld opts ''captureAuthority'') = Inr w"
      and t: "crash_token st (fld opts ''preparedCapture'') = Inr (n, r)" and x: "x = (w, n, r)"
    by auto
  have "fld opts ''captureAuthority'' = fld options ''captureAuthority''"
    "fld opts ''preparedCapture'' = fld options ''preparedCapture''"
    using exact_optionsC(2) [OF o] by simp_all
  with w t have "w = fld options ''captureAuthority''" "fld options ''preparedCapture'' = JOpaque n"
    "preparedAtomicCrashCaptures st n = Some r" "\<not> pc_dispatched r"
    by (auto simp: assertCaptureAuthority_def crash_token_def split: jsval.splits option.splits)
  with assms Inr x dispatched show ?thesis by (simp add: capturePreparedAtomicCrashCheckpoint_begin_def)
qed

lemma crash_dispatch_step:
  assumes "crash_inv st" and "capturePreparedAtomicCrashCheckpoint_begin st options = (res, st')"
  shows "crash_inv st' \<and> keeps_crash st st'"
  using assms(2)
proof (cases rule: crash_dispatch_cases)
  case refused
  with assms(1) show ?thesis by (simp add: keeps_crash_refl)
next
  case (dispatched n r)
  have "well_crash (r\<lparr>pc_dispatched := True\<rparr>) = well_crash r" by (simp add: well_crash_def)
  with dispatched(2,5) assms(1) show ?thesis
    by (auto simp: crash_inv_def wf_crash_def keeps_crash_def split: if_splits)
qed

lemma verify_crash_step:
  assumes "crash_inv st" and "verifyCommittedAtomicCrashCapture_begin st options = (res, st')"
  shows "crash_inv st' \<and> keeps_crash st st' \<and> preparedAtomicCrashCaptures st' = preparedAtomicCrashCaptures st"
proof -
  obtain r0 st1 where o: "crash_opening st options = (r0, st1)" by fastforce
  then have "st' = st1"
    using assms(2) by (auto simp: verifyCommittedAtomicCrashCapture_begin_def split: sum.splits)
  with assms(1) o show ?thesis by (cases rule: crash_opening_cases) auto
qed

lemma crash_step_inv: "crash_step st st' \<Longrightarrow> crash_inv st \<Longrightarrow> crash_inv st' \<and> keeps_crash st st'"
proof (induction rule: crash_step.induct)
  case (checkpoint_facade st v res bs)
  then have "backend_inv bs" by (auto simp: crash_inv_def intro: facade_inv)
  with checkpoint_facade show ?case using crash_backends_step handles_grow(2) by blast
next
  case (capture_facade st v res bs)
  then have "backend_inv bs" by (auto simp: crash_inv_def intro: crash_facade_inv)
  with capture_facade show ?case using crash_backends_step handles_grow(3) by blast
qed (use prepare_crash_step crash_dispatch_step verify_crash_step in blast)+

lemma crash_reach_inv: "crash_reach st st' \<Longrightarrow> crash_inv st \<Longrightarrow> crash_inv st' \<and> keeps_crash st st'"
proof (induction rule: crash_reach.induct)
  case (crash_refl st)
  then show ?case by (simp add: keeps_crash_refl)
next
  case (crash_next st st' st'')
  then show ?case using crash_step_inv keeps_crash_trans by blast
qed

text \<open>
  C15: A prepared crash capture is dispatched at most once and presents what was prepared. The call
  reaches the capture operation the given backend itself had at the preparation, on that backend,
  with the capture authority of the dispatch and the accepted request as its only argument. From
  then on, whatever happens, the token is refused and nothing is called.
\<close>

theorem crash_capture_dispatches_once:
  assumes "crash_inv st" and "prepareAtomicCrashCapture st options = (Inr token, st1)"
    and "crash_reach st1 st2" and "capturePreparedAtomicCrashCheckpoint_begin st2 options' = (Inr k, st3)"
    and "fld options' ''preparedCapture'' = token"
    and "crash_reach st3 st4" and "fld options'' ''preparedCapture'' = token"
  shows "(\<exists>f r q. crash_target (crash_backends st) (fld options ''backend'') ''captureAtomicCrashCheckpoint'' f r \<and>
      assertAtomicCrashCaptureRequest (fld options ''request'') = Inr q \<and> kc_request k = q \<and>
      kc_called k = Inr (f, r, [plain_obj [(''captureAuthority'', fld options' ''captureAuthority''),
        (''request'', q)]])) \<and>
    (\<exists>e. capturePreparedAtomicCrashCheckpoint_begin st4 options'' = (Inl e, st4))"
proof -
  obtain n p f rc where p: "token = JOpaque n" "preparedAtomicCrashCaptures st1 n = Some p"
      "assertAtomicCrashCaptureRequest (fld options ''request'') = Inr (pc_request p)"
      "crash_target (crash_backends st) (fld options ''backend'') ''captureAtomicCrashCheckpoint'' f rc"
      "\<forall>args. apply_op (pc_capture p) (JOpaque (pc_backend p)) args = Inr (f, rc, args)"
    using prepare_crash_step(2) [OF assms(1,2)] by blast
  have inv1: "crash_inv st1" using prepare_crash_step(1) [OF assms(1,2)] ..
  note at2 = crash_reach_inv [OF assms(3) inv1]
  note at3 = crash_dispatch_step [OF conjunct1 [OF at2] assms(4)]
  note at4 = crash_reach_inv [OF assms(6) conjunct1 [OF at3]]
  from at2 p(2) have "preparedAtomicCrashCaptures st2 n \<in> {Some p, Some (p\<lparr>pc_dispatched := True\<rparr>)}"
    unfolding keeps_crash_def by blast
  with assms(4,5) p(1) have k: "k = \<lparr>kc_called = apply_op (pc_capture p) (JOpaque (pc_backend p))
        [plain_obj [(''captureAuthority'', fld options' ''captureAuthority''), (''request'', pc_request p)]],
      kc_request = pc_request p\<rparr>"
    and at: "preparedAtomicCrashCaptures st3 n = Some (p\<lparr>pc_dispatched := True\<rparr>)"
    by (cases rule: crash_dispatch_cases; auto)+
  from at at4 have spent: "preparedAtomicCrashCaptures st4 n = Some (p\<lparr>pc_dispatched := True\<rparr>)"
    unfolding keeps_crash_def by fastforce
  obtain res st5 where b: "capturePreparedAtomicCrashCheckpoint_begin st4 options'' = (res, st5)" by fastforce
  then have "st5 = st4 \<and> (\<exists>e. res = Inl e)"
    using spent p(1) assms(7) by (cases rule: crash_dispatch_cases) auto
  with b k p(3-5) show ?thesis by auto
qed

text \<open>An answer to a capture request: bound to its checkpoint, storage, operation and attempt.\<close>

definition crash_answer :: "jsval \<Rightarrow> jsval \<Rightarrow> bool" where
  "crash_answer q w \<longleftrightarrow>
     fld w ''artifactId'' = fld (fld q ''checkpoint'') ''artifactId'' \<and>
     fld w ''checkpointId'' = fld (fld q ''checkpoint'') ''checkpointId'' \<and>
     fld w ''sourceFencingEpoch'' = fld (fld q ''checkpoint'') ''sourceFencingEpoch'' \<and>
     (\<forall>i \<in> {''backendId'', ''storageId'', ''sessionId''}. fld w i = fld (fld q ''storageRef'') i) \<and>
     fld w ''operationId'' = fld (fld q ''mutationRequest'') ''operationId'' \<and>
     fld w ''captureAttemptId'' = fld q ''captureAttemptId''"

lemma crash_result_answer:
  assumes "assertAtomicCrashCaptureRequest q = Inr q"
    and "assertAtomicCrashCaptureResult v (plain_obj [(''request'', q)]) = Inr w"
  shows "crash_answer q w"
proof -
  obtain o' where o': "assertOptionsObject (plain_obj [(''request'', q)]) [''previousResult'', ''request'']
      [''request''] Invalid_atomic_crash_capture = Inr o'"
    using assms(2) by (auto simp: assertAtomicCrashCaptureResult_def)
  have "fld o' ''request'' = q" using options_plain_field [OF o'] by simp
  with crash_result_facts [OF o' assms(2)] assms(1) show ?thesis unfolding crash_answer_def by auto
qed

lemma verification_answer:
  assumes "assertAtomicCrashCaptureRequest q = Inr q"
    and "assertAtomicCrashCaptureVerificationResult v (plain_obj [(''request'', q)]) = Inr w"
  shows "fld w ''outcome'' = lit ''unknown'' \<and> fld w ''result'' = JNull \<or>
    fld w ''outcome'' = lit ''committed'' \<and> crash_answer q (fld w ''result'')"
proof -
  obtain o' where o': "assertOptionsObject (plain_obj [(''request'', q)]) [''request'']
      [''request''] Invalid_atomic_crash_capture = Inr o'"
    using assms(2) by (auto simp: assertAtomicCrashCaptureVerificationResult_def)
  have "fld o' ''request'' = q" using options_plain_field [OF o'] by simp
  with assms o' show ?thesis
    using crash_result_answer [OF assms(1)]
    by (auto simp: assertAtomicCrashCaptureVerificationResult_def fld_plain_obj split: if_splits)
qed

text \<open>
  C16: What the provider answers is bound to the request or reported as uncertain. A capture returns
  only a result for the checkpoint, storage, operation and attempt it was dispatched for. The
  verification of a committed capture calls nothing but the verification operation of the given
  backend, with the accepted request alone; it consumes no prepared capture, and returns unknown
  without a result or committed with a result that is bound in the same way.
\<close>

theorem crash_answers_are_bound:
  assumes "crash_inv st"
  shows "(capturePreparedAtomicCrashCheckpoint_begin st options = (Inr k, st') \<longrightarrow>
      capturePreparedAtomicCrashCheckpoint_settled k outcome = Inl Atomic_crash_capture_outcome_uncertain \<or>
      (\<exists>w. capturePreparedAtomicCrashCheckpoint_settled k outcome = Inr w \<and> crash_answer (kc_request k) w)) \<and>
    (verifyCommittedAtomicCrashCapture_begin st options = (Inr k, st') \<longrightarrow>
      preparedAtomicCrashCaptures st' = preparedAtomicCrashCaptures st \<and>
      (\<exists>f r. crash_target (crash_backends st) (fld options ''backend'') ''verifyCommittedAtomicCrashCheckpoint'' f r \<and>
         kc_called k = Inr (f, r, [kc_request k])) \<and>
      assertAtomicCrashCaptureRequest (fld options ''request'') = Inr (kc_request k) \<and>
      (verifyCommittedAtomicCrashCapture_settled k outcome = Inl Atomic_crash_capture_verification_outcome_uncertain \<or>
       (\<exists>w. verifyCommittedAtomicCrashCapture_settled k outcome = Inr w \<and>
          (fld w ''outcome'' = lit ''unknown'' \<and> fld w ''result'' = JNull \<or>
           fld w ''outcome'' = lit ''committed'' \<and> crash_answer (kc_request k) (fld w ''result'')))))"
proof (intro conjI impI)
  assume "capturePreparedAtomicCrashCheckpoint_begin st options = (Inr k, st')"
  then obtain n r where "preparedAtomicCrashCaptures st n = Some r" "kc_request k = pc_request r"
    by (cases rule: crash_dispatch_cases) auto
  then have "assertAtomicCrashCaptureRequest (kc_request k) = Inr (kc_request k)"
    using assms by (auto simp: crash_inv_def well_crash_def)
  from crash_result_answer [OF this]
  show "capturePreparedAtomicCrashCheckpoint_settled k outcome = Inl Atomic_crash_capture_outcome_uncertain \<or>
      (\<exists>w. capturePreparedAtomicCrashCheckpoint_settled k outcome = Inr w \<and> crash_answer (kc_request k) w)"
    by (cases "kc_called k"; cases outcome)
      (auto simp: capturePreparedAtomicCrashCheckpoint_settled_def rcatch_def split: sum.splits)
next
  assume v: "verifyCommittedAtomicCrashCapture_begin st options = (Inr k, st')"
  show "preparedAtomicCrashCaptures st' = preparedAtomicCrashCaptures st"
    using verify_crash_step [OF assms v] by blast
  obtain r0 st1 where o: "crash_opening st options = (r0, st1)" by fastforce
  with v obtain q b g where q: "r0 = Inr (q, b)" "k = \<lparr>kc_called = apply_op g (JOpaque b) [q], kc_request = q\<rparr>"
      "checkedBackendMethodC (crash_backends st1) b ''verifyCommittedAtomicCrashCheckpoint'' = Inr g"
    by (auto simp: verifyCommittedAtomicCrashCapture_begin_def split: sum.splits)
  from assms o have op: "assertAtomicCrashCaptureRequest (fld options ''request'') = Inr q"
    "createAtomicCrashCaptureBackendFacade (crash_backends st) (fld options ''backend'') = (Inr b, crash_backends st1)"
    using q(1) by (cases rule: crash_opening_cases; auto)+
  then show "assertAtomicCrashCaptureRequest (fld options ''request'') = Inr (kc_request k)" by (simp add: q)
  have inv: "backend_inv (crash_backends st)" using assms by (simp add: crash_inv_def)
  obtain f r where "crash_target (crash_backends st) (fld options ''backend'') ''verifyCommittedAtomicCrashCheckpoint'' f r"
      "resolves (crash_backends st1) b ''verifyCommittedAtomicCrashCheckpoint'' f r"
    by (rule crash_facade_target [OF inv op(2) crash_methods(2)])
  then show "\<exists>f r. crash_target (crash_backends st) (fld options ''backend'') ''verifyCommittedAtomicCrashCheckpoint'' f r \<and>
         kc_called k = Inr (f, r, [kc_request k])"
    using checked_crash_method [OF q(3)] by (auto simp: q resolves_def call_method_def)
  have "assertAtomicCrashCaptureRequest (kc_request k) = Inr (kc_request k)"
    using crash_request_idempotent [OF op(1)] by (simp add: q)
  from verification_answer [OF this]
  show "verifyCommittedAtomicCrashCapture_settled k outcome = Inl Atomic_crash_capture_verification_outcome_uncertain \<or>
       (\<exists>w. verifyCommittedAtomicCrashCapture_settled k outcome = Inr w \<and>
          (fld w ''outcome'' = lit ''unknown'' \<and> fld w ''result'' = JNull \<or>
           fld w ''outcome'' = lit ''committed'' \<and> crash_answer (kc_request k) (fld w ''result'')))"
    by (cases "kc_called k"; cases outcome)
      (auto simp: verifyCommittedAtomicCrashCapture_settled_def rcatch_def split: sum.splits)
qed

end
