(* ===== verification/Snapshot_Examples.thy ===== *)
theory Snapshot_Examples
  imports Snapshot_Properties Crash_Core Contract_Examples
begin

text \<open>
  A storage backend written as an instance of a class, with its operations on the prototype of the
  class and the crash capture extension on the instance, and the guarantees of the facades and of
  both cores at captures and a restore of the records of \<open>Contract_Examples\<close>.
\<close>

section \<open>A backend\<close>

definition ex_capabilities :: jsval where
  "ex_capabilities = plain_obj [(''atomicPointInTimeCheckpoint'', JBool True),
     (''exclusiveWriterAttachment'', JBool True), (''fencing'', lit ''epoch-enforced''),
     (''normalDirectoryAttachment'', JBool True)]"

definition ex_class :: jsval where
  "ex_class = JObj JObjectPrototype (map (\<lambda>(m, i). (key m, DataDesc False (JFun i False)))
     [(''captureCheckpoint'', 1), (''destroySession'', 2), (''detachAttachment'', 3), (''forceFence'', 4),
      (''prepareWritableAttachment'', 5), (''provisionSession'', 6), (''restoreCheckpoint'', 7)])"

definition ex_backend :: jsval where
  "ex_backend = JObj ex_class (map (\<lambda>(k, v). (key k, DataDesc True v))
     [(''contractVersion'', JInt 1), (''backendId'', lit ''backend-1''), (''capabilities'', ex_capabilities),
      (''atomicCrashCaptureContractVersion'', JInt 1), (''captureAtomicCrashCheckpoint'', JFun 8 False),
      (''verifyCommittedAtomicCrashCheckpoint'', JFun 9 False)])"

text \<open>Along an instance and its class.\<close>

lemma class_value:
  assumes "readable True v" and "readable False (proto_of v)"
  shows "own_slot st v k = Data b \<Longrightarrow> dataValue st v k = Inr b"
    and "own_slot st v k = Absent \<Longrightarrow> own_slot st (proto_of v) k = Data b \<Longrightarrow> dataValue st v k = Inr b"
proof -
  obtain n where depth: "MAX_BACKEND_PROTOTYPE_DEPTH = Suc (Suc n)"
    by (rule that [of 62]) (simp add: MAX_BACKEND_PROTOTYPE_DEPTH_def)
  show "own_slot st v k = Data b \<Longrightarrow> dataValue st v k = Inr b"
    "own_slot st v k = Absent \<Longrightarrow> own_slot st (proto_of v) k = Data b \<Longrightarrow> dataValue st v k = Inr b"
    using assms unfolding dataValue_def depth by (simp_all add: readable_def guarded_ok)
qed

lemma ex_backend_object [simp]: "is_object ex_backend" "\<not> is_array ex_backend" "\<not> is_proxy ex_backend"
  "ex_backend \<noteq> JNull" "proto_of ex_backend \<noteq> JNull" "ex_backend \<noteq> JOpaque n" "ex_backend \<noteq> JObjectPrototype"
  by (simp_all add: ex_backend_def ex_class_def)

lemma ex_unknown [simp]: "known s ex_backend = None"
  by (cases "known s ex_backend") simp_all

lemma ex_backend_fields [simp]:
  "dataValue st ex_backend ''contractVersion'' = Inr (Value (JInt 1))"
  "dataValue st ex_backend ''backendId'' = Inr (Value (lit ''backend-1''))"
  "dataValue st ex_backend ''capabilities'' = Inr (Value ex_capabilities)"
  "dataValue st ex_backend ''captureCheckpoint'' = Inr (Value (JFun 1 False))"
  "dataValue st ex_backend ''destroySession'' = Inr (Value (JFun 2 False))"
  "dataValue st ex_backend ''detachAttachment'' = Inr (Value (JFun 3 False))"
  "dataValue st ex_backend ''forceFence'' = Inr (Value (JFun 4 False))"
  "dataValue st ex_backend ''prepareWritableAttachment'' = Inr (Value (JFun 5 False))"
  "dataValue st ex_backend ''provisionSession'' = Inr (Value (JFun 6 False))"
  "dataValue st ex_backend ''restoreCheckpoint'' = Inr (Value (JFun 7 False))"
proof -
  have r: "readable True ex_backend" "readable False (proto_of ex_backend)"
    by (simp_all add: ex_backend_def ex_class_def readable_def)
  note here = class_value(1) [OF r] and there = class_value(2) [OF r]
  show "dataValue st ex_backend ''contractVersion'' = Inr (Value (JInt 1))"
    "dataValue st ex_backend ''backendId'' = Inr (Value (lit ''backend-1''))"
    "dataValue st ex_backend ''capabilities'' = Inr (Value ex_capabilities)"
    by (rule here; simp add: ex_backend_def own_slot_def)+
  show "dataValue st ex_backend ''captureCheckpoint'' = Inr (Value (JFun 1 False))"
    "dataValue st ex_backend ''destroySession'' = Inr (Value (JFun 2 False))"
    "dataValue st ex_backend ''detachAttachment'' = Inr (Value (JFun 3 False))"
    "dataValue st ex_backend ''forceFence'' = Inr (Value (JFun 4 False))"
    "dataValue st ex_backend ''prepareWritableAttachment'' = Inr (Value (JFun 5 False))"
    "dataValue st ex_backend ''provisionSession'' = Inr (Value (JFun 6 False))"
    "dataValue st ex_backend ''restoreCheckpoint'' = Inr (Value (JFun 7 False))"
    by (rule there; simp add: ex_backend_def ex_class_def own_slot_def)+
qed


lemma ex_capabilities_ok [simp]: "assertStorageBackendCapabilities ex_capabilities = Inr ex_capabilities"
  unfolding assertStorageBackendCapabilities_def
  by (simp add: ex_capabilities_def capability_checks_def STORAGE_BACKEND_CAPABILITY_KEYS_def ex_simps)

definition ex_projection :: "(string \<times> bval) list" where
  "ex_projection = [(''backendId'', Value (lit ''backend-1'')), (''capabilities'', Value ex_capabilities),
     (''contractVersion'', Value (JInt 1)),
     (''captureCheckpoint'', Method (Bound (JFun 1 False) ex_backend)),
     (''restoreCheckpoint'', Method (Bound (JFun 7 False) ex_backend))]"

lemma ex_projection_ok: "projection_fields st ex_backend = Inr ex_projection"
  by (simp add: projection_fields_def ex_projection_def version_one_def STORAGE_CONTRACT_VERSION_def assertOpaqueId_def
      CHECKPOINT_BACKEND_METHODS_def callable_def guarded_ok)

lemma ex_checked: "assertCheckpointBackend st ex_backend = (Inr (next_handle st),
    st\<lparr>next_handle := Suc (next_handle st), objects := (objects st)(next_handle st \<mapsto> ex_projection),
       checkpointBackendProjections := insert (next_handle st) (checkpointBackendProjections st)\<rparr>)"
proof -
  show ?thesis
    by (simp add: assertCheckpointBackend_def checkpointBackendProjection_def ex_projection_ok new_object_def)
qed

section \<open>The facade\<close>

theorem captured_field_is_own_chain_data_witness:
  "own_slot (empty_store 1) (proto_of ex_backend) ''captureCheckpoint'' = Data (Value (JFun 1 False)) \<and>
   own_slot (empty_store 1) ex_backend ''captureCheckpoint'' = Absent"
proof -
  have "dataValue (empty_store 1) ex_backend ''captureCheckpoint'' = Inr (Value (JFun 1 False))" by simp
  then obtain i where i: "own_slot (empty_store 1) ((proto_of ^^ i) ex_backend) ''captureCheckpoint'' = Data (Value (JFun 1 False))"
      "\<forall>j < i. own_slot (empty_store 1) ((proto_of ^^ j) ex_backend) ''captureCheckpoint'' = Absent"
      "\<forall>j \<le> i. readable (j = 0) ((proto_of ^^ j) ex_backend)"
    unfolding captured_field_is_own_chain_data by blast
  have "i = 1"
  proof (cases i)
    case 0
    with i(1) show ?thesis by (simp add: ex_backend_def own_slot_def)
  next
    case (Suc m)
    show ?thesis
    proof (cases m)
      case (Suc l)
      with \<open>i = Suc m\<close> have "readable False (proto_of (proto_of ex_backend))"
        using i(3) [rule_format, of 2] by (simp add: numeral_2_eq_2)
      then show ?thesis by (simp add: ex_backend_def ex_class_def readable_def)
    qed (use Suc in simp)
  qed
  with i(1,2) show ?thesis by simp
qed

theorem facade_calls_its_backend_witness:
  "\<exists>f st. createCheckpointBackendFacade (empty_store 1) ex_backend = (Inr f, st) \<and>
     call_method st f ''captureCheckpoint'' (JOpaque f) [JNull] = Inr (JFun 1 False, ex_backend, [JNull]) \<and>
     call_method st f ''captureCheckpoint'' JNull [JNull] = Inl Type_error"
proof -
  have "checkpointBackendProjection (empty_store 1) ex_backend = (Inr 1, snd (assertCheckpointBackend (empty_store 1) ex_backend))"
    using ex_checked [of "empty_store 1"] by (simp add: assertCheckpointBackend_def empty_store_def)
  then obtain f st where f: "createCheckpointBackendFacade (empty_store 1) ex_backend = (Inr f, st)"
    by (simp add: createCheckpointBackendFacade_def new_object_def)
  have "''captureCheckpoint'' \<in> set CHECKPOINT_BACKEND_METHODS" by (simp add: CHECKPOINT_BACKEND_METHODS_def)
  from facade_calls_its_backend [OF backend_inv_empty f this] f show ?thesis by auto
qed

section \<open>A clean capture and a restore\<close>

definition ex_prepare :: jsval where
  "ex_prepare = plain_obj [(''attachment'', ex_attachment), (''backend'', ex_backend),
     (''canonicalLease'', ex_canonical), (''checkpointClass'', lit ''clean''),
     (''createdAt'', lit ''2026-08-01T12:00:00.000Z''), (''manifest'', ex_manifest),
     (''now'', JNum (JFin 1785585599999)), (''request'', ex_checkpoint_mutation ''checkpoint'' ''7''),
     (''storageRef'', ex_storage_ref)]"

definition ex_dispatch :: "nat \<Rightarrow> jsval" where
  "ex_dispatch n = plain_obj [(''preparedCapture'', JOpaque n), (''stoppedWriterEvidence'', plain_obj [])]"

definition ex_restore :: jsval where
  "ex_restore = plain_obj [(''backend'', ex_backend), (''canonicalLease'', ex_lease8),
     (''checkpoint'', ex_checkpoint ''clean''), (''manifest'', ex_manifest), (''now'', JNum (JFin 1785585599999)),
     (''request'', ex_checkpoint_mutation ''restore'' ''8''), (''storageRef'', ex_storage_ref)]"


lemma exact_literal:
  assumes "exact_object (plain_obj kvs) ks"
  shows "exact_options e (plain_obj kvs) ks = Inr (own_copy (plain_obj kvs))"
    and "distinct ks \<Longrightarrow> k \<in> set ks \<Longrightarrow> fld (own_copy (plain_obj kvs)) k = fld (plain_obj kvs) k"
  using assms own_copy_exact(2) by (auto simp: exact_options_iff)

lemma ex_snapshot_admitted:
  assumes "(lease, operation, epoch) \<in> {(ex_canonical, ''checkpoint'', ''7''), (ex_lease8, ''restore'', ''8'')}"
  shows "assertStorageMutationMatchesLeaseSnapshot (plain_obj [(''canonicalLease'', lease),
    (''now'', JNum (JFin 1785585599999)), (''request'', ex_checkpoint_mutation operation epoch),
    (''storageRef'', ex_storage_ref)]) = Inr (ex_checkpoint_mutation operation epoch)"
    (is "assertStorageMutationMatchesLeaseSnapshot (plain_obj ?kvs) = _")
proof -
  have o: "assertOptionsObject (plain_obj ?kvs)
      [''allowExpired'', ''canonicalLease'', ''now'', ''request'', ''storageRef'']
      [''canonicalLease'', ''now'', ''request'', ''storageRef''] Invalid_storage_mutation = Inr (literal_opts ?kvs)"
    by (rule literal_options) simp_all
  have same: "same_fields [''sessionId'', ''leaseId'', ''holderId'', ''fencingEpoch'']
      (ex_checkpoint_mutation operation epoch) lease"
    "same_fields [''sessionId'', ''backendId'', ''storageId''] (ex_checkpoint_mutation operation epoch) ex_storage_ref"
    "date_num (fld lease ''expiresAt'') = JFin 1785585600000"
    "assertLeaseGrant lease = Inr lease"
    using assms ex_lease8_ok ex_lease_ok [OF ex_ts_ok(1)]
    by (auto simp: same_fields_def ex_checkpoint_mutation_def ex_lease_def ex_lease8_def ex_storage_ref_def
        fld_plain_obj date_num_def)
  have "assertStorageMutationRequest (ex_checkpoint_mutation operation epoch) = Inr (ex_checkpoint_mutation operation epoch)"
    by (rule ex_checkpoint_mutation_ok) (use assms in auto)
  note same = same this
  show ?thesis
    using o same
    by (simp add: assertStorageMutationMatchesLeaseSnapshot_def fld_literal_opts Let_def
        ex_storage_ref_ok is_finite_number_def num_is_finite_def num_of_def)
qed

lemma ex_descriptor_ok:
  assumes "opts \<in> {[(''manifest'', ex_manifest), (''storageRef'', ex_storage_ref)], [(''manifest'', ex_manifest)]}"
  shows "assertCheckpointDescriptor (ex_checkpoint ''clean'') (plain_obj opts) = Inr (ex_checkpoint ''clean'')"
proof -
  have c: "exact_object (ex_checkpoint ''clean'') checkpoint_keys"
    "list_all (\<lambda>c. c = None) (checkpoint_checks (fld (ex_checkpoint ''clean'')))"
    "structured_clone (ex_checkpoint ''clean'') = Some (ex_checkpoint ''clean'')"
    using ex_checkpoint_ok [of "''clean''"] by (simp_all add: checkpoint.accepted)
  have m: "checkpoint_manifest_check (ex_checkpoint ''clean'') ex_manifest = None"
    by (simp add: checkpoint_manifest_check_def ex_manifest_ok)
      (simp add: ex_checkpoint_def ex_manifest_def ex_codex_def ex_runtime_def fld_plain_obj)
  have s: "checkpoint_storage_check (ex_checkpoint ''clean'') ex_storage_ref = None"
    by (simp add: checkpoint_storage_check_def ex_storage_ref_ok)
      (simp add: ex_checkpoint_def ex_storage_ref_def same_fields_def fld_plain_obj)
  have "checkpoint_storage_check v JUndefined = None" for v by (simp add: checkpoint_storage_check_def)
  moreover obtain kvs where "assertOptionsObject (plain_obj opts) [''manifest'', ''storageRef''] [] Invalid_checkpoint
      = Inr (literal_opts kvs)" "kvs = opts"
    using assms by (auto simp: literal_options)
  ultimately show ?thesis
    using assms c m s
    by (auto simp: assertCheckpointDescriptor_def fld_literal_opts defensiveClone_def guarded_ok)
qed


definition ex_prepared :: prepared_capture where
  "ex_prepared = \<lparr>p_attachment = ex_attachment, p_backend = ex_backend, p_checkpoint = ex_checkpoint ''clean'',
     p_manifest = ex_manifest, p_request = ex_checkpoint_mutation ''checkpoint'' ''7'',
     p_storageRef = ex_storage_ref, p_capture = Bound (JFun 1 False) ex_backend, p_dispatched = False\<rparr>"

definition ex_store :: backend_store where
  "ex_store = \<lparr>next_handle = 2, objects = [1 \<mapsto> ex_projection], checkpointBackendProjections = {1},
     atomicCrashCaptureBackendFacades = {}\<rparr>"

definition ex_core :: "bool \<Rightarrow> snapshot_core" where
  "ex_core dispatched = \<lparr>backends = ex_store\<lparr>next_handle := 3\<rparr>,
     preparedCleanCheckpointCaptures = [2 \<mapsto> ex_prepared\<lparr>p_dispatched := dispatched\<rparr>]\<rparr>"

lemma ex_checked_backend: "checkedBackend (empty_store 1) ex_backend = (Inr 1, ex_store)"
  using ex_checked [of "empty_store 1"]
  by (simp add: checkedBackend_def validateExternalOperation_def ex_store_def empty_store_def rcatch_def)

lemma ex_store_reads:
  "read_prop ex_store (JOpaque 1) ''backendId'' = Inr (Value (lit ''backend-1''))"
  "read_prop ex_store (JOpaque 1) ''captureCheckpoint'' = Inr (Method (Bound (JFun 1 False) ex_backend))"
  "read_prop ex_store (JOpaque 1) ''restoreCheckpoint'' = Inr (Method (Bound (JFun 7 False) ex_backend))"
  by (simp_all add: ex_store_def object_field_def ex_projection_def)

lemma ex_store_matches: "assertBackendMatchesStorage ex_store (JOpaque 1) ex_storage_ref = None"
  unfolding assertBackendMatchesStorage_def validateExternalOperation_def ex_store_reads
  by (simp add: rcatch_def) (simp add: ex_storage_ref_def fld_plain_obj guarded_ok)

lemma ex_clean: "assertCleanCheckpointClass (lit ''clean'') = Inr (lit ''clean'')"
  by (simp add: assertCleanCheckpointClass_def validateContract_def assertCheckpointClass_def guarded_ok)

lemma ex_prepared_ok:
  assumes "\<And>k. k \<in> set prepare_keys \<Longrightarrow> fld opts k = fld ex_prepare k"
  shows "prepared_record ex_store 1 opts (lit ''clean'') = Inr ex_prepared"
proof -
  have o: "fld opts ''attachment'' = ex_attachment" "fld opts ''backend'' = ex_backend"
    "fld opts ''canonicalLease'' = ex_canonical" "fld opts ''createdAt'' = lit ''2026-08-01T12:00:00.000Z''"
    "fld opts ''manifest'' = ex_manifest" "fld opts ''now'' = JNum (JFin 1785585599999)"
    "fld opts ''request'' = ex_checkpoint_mutation ''checkpoint'' ''7''" "fld opts ''storageRef'' = ex_storage_ref"
    using assms by (simp_all add: prepare_keys_def ex_prepare_def fld_plain_obj)
  let ?matched = "plain_obj [(''attachment'', ex_attachment), (''lease'', ex_canonical),
     (''manifest'', ex_manifest), (''storageRef'', ex_storage_ref)]"
  have d: "capture_descriptor ?matched (ex_checkpoint_mutation ''checkpoint'' ''7'') (lit ''clean'')
      (lit ''2026-08-01T12:00:00.000Z'') = ex_checkpoint ''clean''"
    by (simp add: capture_descriptor_def ex_checkpoint_def ex_checkpoint_mutation_def ex_checkpoint_target_def
        ex_manifest_def ex_codex_def ex_runtime_def ex_storage_ref_def ex_lease_def fld_plain_obj)
  have m: "fld ?matched ''attachment'' = ex_attachment" "fld ?matched ''lease'' = ex_canonical"
    "fld ?matched ''manifest'' = ex_manifest" "fld ?matched ''storageRef'' = ex_storage_ref"
    by (simp_all add: fld_plain_obj)
  note b = ex_store_matches
  have op: "assertOperation (ex_checkpoint_mutation ''checkpoint'' ''7'') ''checkpoint'' = None"
    by (simp add: assertOperation_def) (simp add: ex_checkpoint_mutation_def fld_plain_obj)
  have cap: "checkedBackendMethod ex_store (JOpaque 1) ''captureCheckpoint'' = Inr (Bound (JFun 1 False) ex_backend)"
    unfolding checkedBackendMethod_def validateExternalOperation_def ex_store_reads
    by (simp add: rcatch_def callable_def guarded_ok)
  show ?thesis
    unfolding prepared_record_def o b cap
    by (simp add: ex_activation_matches validateContract_def m op d ex_snapshot_admitted ex_descriptor_ok
        b [simplified] guarded_ok ex_prepared_def)
qed

lemma ex_prepare_ok:
  "prepareCleanCheckpointCapture (new_snapshot_core 1) ex_prepare = (Inr (JOpaque 2), ex_core False)"
proof -
  have ex: "exact_object ex_prepare prepare_keys"
    by (simp add: ex_prepare_def prepare_keys_def exact_plain_obj)
  have d: "distinct prepare_keys" by (simp add: prepare_keys_def)
  have o: "assertExactOptionsS ex_prepare prepare_keys = Inr (own_copy ex_prepare)"
    "k \<in> set prepare_keys \<Longrightarrow> fld (own_copy ex_prepare) k = fld ex_prepare k" for k
    using ex own_copy_exact(2) [OF ex d] by (simp_all add: assertExactOptionsS_def exact_options_iff)
  have f: "fld (own_copy ex_prepare) ''checkpointClass'' = lit ''clean''" "fld (own_copy ex_prepare) ''backend'' = ex_backend"
    using o(2) by (simp_all add: prepare_keys_def) (simp_all add: ex_prepare_def fld_plain_obj)
  have p: "prepared_record ex_store 1 (own_copy ex_prepare) (lit ''clean'') = Inr ex_prepared"
    by (rule ex_prepared_ok) (rule o(2))
  show ?thesis
    unfolding prepareCleanCheckpointCapture_def o(1) rbind_simps f ex_clean sum.case prod.case new_snapshot_core_def
      snapshot_core.select_convs ex_checked_backend Let_def p
    by (simp add: remember_prepared_def ex_core_def ex_store_def ex_prepared_def)
qed


lemma ex_dispatch_ok:
  "capturePreparedCleanCheckpoint_begin (ex_core False) (ex_dispatch 2) =
     (Inr (capture_call ex_prepared (plain_obj [])), ex_core True)"
proof -
  let ?ks = "[''preparedCapture'', ''stoppedWriterEvidence'']"
  have ex: "exact_object (ex_dispatch 2) ?ks" by (simp add: ex_dispatch_def exact_plain_obj)
  have d: "distinct ?ks" by simp
  have o: "assertExactOptionsS (ex_dispatch 2) ?ks = Inr (own_copy (ex_dispatch 2))"
    "k \<in> set ?ks \<Longrightarrow> fld (own_copy (ex_dispatch 2)) k = fld (ex_dispatch 2) k" for k
    using ex own_copy_exact(2) [OF ex d] by (simp_all add: assertExactOptionsS_def exact_options_iff)
  have f: "fld (own_copy (ex_dispatch 2)) ''preparedCapture'' = JOpaque 2"
    "fld (own_copy (ex_dispatch 2)) ''stoppedWriterEvidence'' = plain_obj []"
    using o(2) by (simp_all add: ex_dispatch_def fld_plain_obj)
  have e: "assertStoppedWriterEvidence (plain_obj []) = Inr (plain_obj [])"
    by (simp add: assertStoppedWriterEvidence_def plain_obj_def)
  have t: "prepared_token (ex_core False) (JOpaque 2) = Inr (2, ex_prepared)"
    by (simp add: prepared_token_def ex_core_def ex_prepared_def)
  show ?thesis
    unfolding capturePreparedCleanCheckpoint_begin_def o(1) rbind_simps f e t sum.case prod.case
    by (simp add: ex_core_def ex_prepared_def)
qed

lemma ex_core_inv: "core_inv (new_snapshot_core 1)" "core_inv (ex_core False)"
  using core_inv_new prepare_step ex_prepare_ok by blast+

theorem prepared_capture_dispatches_once_witness:
  "\<exists>st1 k e. capturePreparedCleanCheckpoint_begin (ex_core False) (ex_dispatch 2) = (Inr k, st1) \<and>
     capturePreparedCleanCheckpoint_begin st1 (ex_dispatch 2) = (Inl e, st1)"
  using prepared_capture_dispatches_once [OF ex_core_inv(2) ex_dispatch_ok snapshot_reach.reach_refl refl]
    ex_dispatch_ok by blast

theorem capture_presents_the_checked_checkpoint_witness:
  "\<exists>k st c args. capturePreparedCleanCheckpoint_begin (ex_core False) (ex_dispatch 2) = (Inr k, st) \<and>
     k_called k = Inr (JFun 1 False, ex_backend, args) \<and> k_checkpoint k = c \<and>
     fld c ''sourceFencingEpoch'' = lit ''7''"
proof -
  have t: "fld (ex_dispatch 2) ''preparedCapture'' = JOpaque 2" by (simp add: ex_dispatch_def fld_plain_obj)
  from capture_presents_the_checked_checkpoint [OF ex_core_inv(1) ex_prepare_ok snapshot_reach.reach_refl
      ex_dispatch_ok t]
  obtain f r args where "backend_target (backends (new_snapshot_core 1)) (fld ex_prepare ''backend'') ''captureCheckpoint'' f r"
    "k_called (capture_call ex_prepared (plain_obj [])) = Inr (f, r, args)" by blast
  then have "k_called (capture_call ex_prepared (plain_obj [])) = Inr (JFun 1 False, ex_backend, args)"
    by (simp add: capture_call_def ex_prepared_def)
  moreover have "fld (k_checkpoint (capture_call ex_prepared (plain_obj []))) ''sourceFencingEpoch'' = lit ''7''"
    by (simp add: capture_call_def ex_prepared_def ex_checkpoint_def fld_plain_obj)
  ultimately show ?thesis using ex_dispatch_ok by blast
qed

definition ex_captured :: jsval where
  "ex_captured = plain_obj [(''backendId'', lit ''backend-1''), (''contractVersion'', JInt 1),
     (''fencingEpoch'', lit ''7''), (''holderId'', lit ''holder-1''), (''leaseId'', lit ''lease-1''),
     (''operation'', lit ''checkpoint''), (''operationId'', lit ''operation-1''), (''sessionId'', ex_session),
     (''storageId'', lit ''storage-1''), (''target'', ex_checkpoint_target), (''proofId'', lit ''proof-1''),
     (''status'', lit ''checkpoint-created'')]"

lemma ex_captured_ok:
  "assertStorageMutationResult ex_captured (plain_obj [(''request'', ex_checkpoint_mutation ''checkpoint'' ''7'')]) =
     Inr ex_captured"
proof -
  let ?q = "ex_checkpoint_mutation ''checkpoint'' ''7''"
  have o: "assertOptionsObject (plain_obj [(''request'', ?q)]) [''request''] [''request''] Invalid_storage_mutation =
      Inr (literal_opts [(''request'', ?q)])" by (simp add: literal_options)
  have cl: "structured_clone ex_checkpoint_target = Some ex_checkpoint_target"
    by (simp add: ex_checkpoint_target_def ex_simps)
  have "exact_object ex_captured mutation_result_keys" "structured_clone ex_captured = Some ex_captured"
    using cl by (simp_all add: ex_captured_def mutation_result_keys_def ex_simps)
  moreover have "pick mutation_keys ex_captured = ?q"
    by (simp add: pick_def mutation_keys_def ex_captured_def ex_checkpoint_mutation_def fld_plain_obj)
  moreover have "fld ex_captured ''proofId'' = lit ''proof-1''" "fld ex_captured ''status'' = lit ''checkpoint-created''"
    "fld ex_captured ''operation'' = lit ''checkpoint''" "fld (literal_opts [(''request'', ?q)]) ''request'' = ?q"
    by (simp_all add: ex_captured_def fld_plain_obj fld_literal_opts)
  moreover have "targets_match ?q ?q"
    "same_fields [''backendId'', ''contractVersion'', ''operation'', ''operationId'', ''sessionId'', ''storageId''] ?q ?q"
    "same_fields [''fencingEpoch'', ''holderId'', ''leaseId''] ?q ?q"
    by (simp_all add: targets_match_def same_fields_def ex_checkpoint_mutation_def ex_checkpoint_target_def fld_plain_obj)
  ultimately show ?thesis
    using o by (simp add: assertStorageMutationResult_def ex_checkpoint_mutation_ok operation_status_def defensiveClone_def)
qed

theorem backend_call_answers_or_stays_uncertain_witness:
  "\<exists>k st w. capturePreparedCleanCheckpoint_begin (ex_core False) (ex_dispatch 2) = (Inr k, st) \<and>
     capturePreparedCleanCheckpoint_settled k (Some (frozenResult (ex_checkpoint ''clean'') ex_captured)) = Inr w \<and>
     answers k w"
proof -
  let ?k = "capture_call ex_prepared (plain_obj [])"
  let ?v = "frozenResult (ex_checkpoint ''clean'') ex_captured"
  have ex: "exact_object ?v [''checkpoint'', ''mutation'']"
    by (simp add: frozenResult_def exact_plain_obj)
  have o: "assertExactOptionsS ?v [''checkpoint'', ''mutation''] = Inr (own_copy ?v)"
    "fld (own_copy ?v) ''checkpoint'' = ex_checkpoint ''clean''" "fld (own_copy ?v) ''mutation'' = ex_captured"
    using ex own_copy_exact(2) [OF ex]
    by (simp_all add: assertExactOptionsS_def exact_options_iff) (simp_all add: frozenResult_def fld_plain_obj)
  have same: "same_checkpoint (ex_checkpoint ''clean'') (ex_checkpoint ''clean'')"
    by (simp add: same_checkpoint_def ex_checkpoint_def own_keys_plain_obj own_value_def) (simp add: plain_obj_def)
  have "ex_storage_ref \<noteq> JUndefined" by (simp add: ex_storage_ref_def plain_obj_def)
  then have "assertBackendCheckpointResult ?v (ex_checkpoint ''clean'') ex_manifest
      (ex_checkpoint_mutation ''checkpoint'' ''7'') ex_storage_ref = Inr ?v"
    unfolding assertBackendCheckpointResult_def o rbind_simps
    by (simp add: Let_def uncaught_def ex_descriptor_ok same ex_captured_ok guarded_ok)
  then have s: "capturePreparedCleanCheckpoint_settled ?k (Some ?v) = Inr ?v"
    by (simp add: capturePreparedCleanCheckpoint_settled_def call_settled_def capture_call_def ex_prepared_def rcatch_def)
  then have "answers ?k ?v"
    using backend_call_answers_or_stays_uncertain [OF ex_core_inv(2), THEN conjunct1, rule_format, OF ex_dispatch_ok]
    by (metis Inr_Inl_False sum.inject(2))
  with s ex_dispatch_ok show ?thesis by blast
qed

lemma ex_restore_ok: "\<exists>k st. restoreCleanCheckpoint_begin (new_snapshot_core 1) ex_restore = (Inr k, st)"
proof -
  let ?ks = "[''backend'', ''canonicalLease'', ''checkpoint'', ''manifest'', ''now'', ''request'', ''storageRef'']"
  have ex: "exact_object ex_restore ?ks" by (simp add: ex_restore_def exact_plain_obj)
  have d: "distinct ?ks" by simp
  define opts where "opts = own_copy ex_restore"
  have o: "assertExactOptionsS ex_restore ?ks = Inr opts"
    "k \<in> set ?ks \<Longrightarrow> fld opts k = fld ex_restore k" for k
    using ex own_copy_exact(2) [OF ex d] by (simp_all add: assertExactOptionsS_def exact_options_iff opts_def)
  have f: "fld opts ''backend'' = ex_backend" "fld opts ''canonicalLease'' = ex_lease8"
    "fld opts ''checkpoint'' = ex_checkpoint ''clean''" "fld opts ''manifest'' = ex_manifest"
    "fld opts ''now'' = JNum (JFin 1785585599999)" "fld opts ''request'' = ex_checkpoint_mutation ''restore'' ''8''"
    "fld opts ''storageRef'' = ex_storage_ref"
    using o(2) by (simp_all add: ex_restore_def fld_plain_obj)
  have c: "fld (ex_checkpoint ''clean'') ''checkpointClass'' = lit ''clean''"
    "same_fields [''sessionId'', ''backendId''] (ex_checkpoint ''clean'') ex_storage_ref"
    by (simp_all add: ex_checkpoint_def ex_storage_ref_def same_fields_def fld_plain_obj)
  have src: "restore_source opts = Inr (ex_storage_ref, ex_manifest, ex_checkpoint ''clean'')"
    unfolding restore_source_def f
    by (simp add: validateContract_def ex_storage_ref_ok ex_manifest_ok ex_descriptor_ok c ex_clean guarded_ok)
  note b = ex_store_matches
  have op: "assertOperation (ex_checkpoint_mutation ''restore'' ''8'') ''restore'' = None"
    "assertCheckpointTarget (ex_checkpoint_mutation ''restore'' ''8'') (ex_checkpoint ''clean'') = None"
    by (simp_all add: assertOperation_def assertCheckpointTarget_def)
      (simp_all add: ex_checkpoint_mutation_def ex_checkpoint_target_def ex_checkpoint_def fld_plain_obj)
  have e: "fld ex_lease8 ''fencingEpoch'' = lit ''8''" "fld (ex_checkpoint ''clean'') ''sourceFencingEpoch'' = lit ''7''"
    by (simp_all add: ex_lease8_def ex_checkpoint_def fld_plain_obj)
  have newer: "compareFencingEpochs (lit ''8'') (lit ''7'') = Inr 1"
    by (simp add: compareFencingEpochs_def parseFencingEpoch_def)
  have r: "checkedBackendMethod ex_store (JOpaque 1) ''restoreCheckpoint'' = Inr (Bound (JFun 7 False) ex_backend)"
    unfolding checkedBackendMethod_def validateExternalOperation_def ex_store_reads
    by (simp add: rcatch_def callable_def guarded_ok)
  have adm: "\<exists>k. restore_admitted ex_store 1 opts ex_storage_ref ex_manifest (ex_checkpoint ''clean'') = Inr k"
    unfolding restore_admitted_def f b r
    by (simp add: validateContract_def ex_lease8_ok ex_snapshot_admitted op uncaught_def e newer guarded_ok)
  show ?thesis
    unfolding restoreCleanCheckpoint_begin_def o(1) rbind_simps src f sum.case prod.case new_snapshot_core_def
      snapshot_core.select_convs ex_checked_backend
    using adm by auto
qed

theorem restore_presents_a_newer_fence_witness:
  "\<exists>k st f r d q old new. restoreCleanCheckpoint_begin (new_snapshot_core 1) ex_restore = (Inr k, st) \<and>
     k_called k = Inr (f, r, [plain_obj [(''checkpoint'', d), (''request'', q)]]) \<and>
     fld d ''sourceFencingEpoch'' = JStr (dec_of old) \<and> fld q ''fencingEpoch'' = JStr (dec_of new) \<and> old < new"
proof -
  obtain k st where r: "restoreCleanCheckpoint_begin (new_snapshot_core 1) ex_restore = (Inr k, st)"
    using ex_restore_ok by blast
  from restore_presents_a_newer_fence [OF ex_core_inv(1) r] r show ?thesis by blast
qed


section \<open>A crash capture\<close>

definition ex_crash_options :: jsval where
  "ex_crash_options = plain_obj [(''backend'', ex_backend), (''request'', ex_crash_request)]"

definition ex_crash_dispatch :: "nat \<Rightarrow> jsval" where
  "ex_crash_dispatch n = plain_obj [(''captureAuthority'', plain_obj []), (''preparedCapture'', JOpaque n)]"

definition ex_extension :: crash_extension where
  "ex_extension = \<lparr>x_backend = ex_backend, x_backendId = Value (lit ''backend-1''), x_capabilities = ex_capabilities,
     x_capture = Foreign (JFun 8 False), x_contractVersion = Value (JInt 1), x_verify = Foreign (JFun 9 False)\<rparr>"

lemma ex_extension_ok: "atomicCrashCaptureBackendExtension st ex_backend = Inr ex_extension"
proof -
  obtain n where depth: "MAX_BACKEND_PROTOTYPE_DEPTH = Suc (Suc (Suc n))"
    by (rule that [of 61]) (simp add: MAX_BACKEND_PROTOTYPE_DEPTH_def)
  have ends: "chain_ends MAX_BACKEND_PROTOTYPE_DEPTH True ex_backend = None"
    unfolding depth by (simp add: ex_backend_def ex_class_def)
  have plain: "plain_slot st ex_backend ''atomicCrashCaptureContractVersion'' = Inr (Value (JInt 1))"
    "plain_slot st ex_backend ''captureAtomicCrashCheckpoint'' = Inr (Value (JFun 8 False))"
    "plain_slot st ex_backend ''verifyCommittedAtomicCrashCheckpoint'' = Inr (Value (JFun 9 False))"
    by (simp_all add: plain_slot_def plainDataDescriptor_Inr ex_backend_def)
  have point: "fld ex_capabilities ''atomicPointInTimeCheckpoint'' = JBool True"
    by (simp add: ex_capabilities_def fld_plain_obj)
  show ?thesis
    by (simp add: atomicCrashCaptureBackendExtension_def foreign_extension_def ends plain point version_one_def
        STORAGE_CONTRACT_VERSION_def assertOpaqueId_def STORAGE_BACKEND_METHODS_def callable_def guarded_ok
        ex_extension_def)
qed

definition ex_crash_store :: backend_store where
  "ex_crash_store = \<lparr>next_handle = 2, objects = [1 \<mapsto> crash_facade_fields 1 ex_extension],
     checkpointBackendProjections = {}, atomicCrashCaptureBackendFacades = {1}\<rparr>"

definition ex_prepared_crash :: prepared_crash where
  "ex_prepared_crash = \<lparr>pc_backendId = Value (lit ''backend-1''), pc_request = ex_crash_request, pc_backend = 1,
     pc_capture = Guarded 1 (Foreign (JFun 8 False)) ex_backend, pc_dispatched = False\<rparr>"

definition ex_crash_core :: "bool \<Rightarrow> crash_core" where
  "ex_crash_core dispatched = \<lparr>crash_backends = ex_crash_store\<lparr>next_handle := 3\<rparr>,
     preparedAtomicCrashCaptures = [2 \<mapsto> ex_prepared_crash\<lparr>pc_dispatched := dispatched\<rparr>]\<rparr>"

lemma ex_crash_checked: "checkedBackendC (empty_store 1) ex_backend = (Inr 1, ex_crash_store)"
proof -
  show ?thesis
    by (simp add: checkedBackendC_def createAtomicCrashCaptureBackendFacade_def ex_extension_ok new_object_def
        empty_store_def ex_crash_store_def validateExternalOperationC_def rcatch_def)
qed

lemma ex_crash_opened: "crash_opening (new_crash_core 1) ex_crash_options =
    (Inr (ex_crash_request, 1), (new_crash_core 1)\<lparr>crash_backends := ex_crash_store\<rparr>)"
proof -
  let ?ks = "[''backend'', ''request'']"
  have ex: "exact_object ex_crash_options ?ks" by (simp add: ex_crash_options_def exact_plain_obj)
  have o: "assertExactOptionsC ex_crash_options ?ks = Inr (own_copy ex_crash_options)"
    "fld (own_copy ex_crash_options) ''backend'' = ex_backend"
    "fld (own_copy ex_crash_options) ''request'' = ex_crash_request"
    using ex own_copy_exact(2) [OF ex]
    by (simp_all add: assertExactOptionsC_def exact_options_iff) (simp_all add: ex_crash_options_def fld_plain_obj)
  have m: "assertBackendMatchesRequest ex_crash_store 1 ex_crash_request = None"
    by (simp add: assertBackendMatchesRequest_def ex_crash_store_def object_field_def crash_facade_fields_def
        ex_extension_def ex_crash_request_def ex_storage_ref_def fld_plain_obj)
  show ?thesis
    unfolding crash_opening_def o rbind_simps validateContractC_def ex_crash_request_ok sum.case prod.case
      new_crash_core_def crash_core.select_convs ex_crash_checked m
    by (simp add: guarded_ok)
qed

lemma ex_crash_method:
  "checkedBackendMethodC ex_crash_store 1 ''captureAtomicCrashCheckpoint'' =
     Inr (Guarded 1 (Foreign (JFun 8 False)) ex_backend)"
  "checkedBackendMethodC ex_crash_store 1 ''verifyCommittedAtomicCrashCheckpoint'' =
     Inr (Guarded 1 (Foreign (JFun 9 False)) ex_backend)"
  by (simp_all add: checkedBackendMethodC_def validateExternalOperationC_def ex_crash_store_def object_field_def
      crash_facade_fields_def ex_extension_def callable_def rcatch_def guarded_ok)

lemma ex_crash_prepare_ok:
  "prepareAtomicCrashCapture (new_crash_core 1) ex_crash_options = (Inr (JOpaque 2), ex_crash_core False)"
  unfolding prepareAtomicCrashCapture_def ex_crash_opened
  by (simp add: ex_crash_method new_crash_core_def del: One_nat_def)
    (simp add: remember_crash_def ex_crash_core_def ex_crash_store_def ex_prepared_crash_def object_field_def
      crash_facade_fields_def ex_extension_def)

lemma ex_crash_dispatch_ok:
  "\<exists>k. capturePreparedAtomicCrashCheckpoint_begin (ex_crash_core False) (ex_crash_dispatch 2) =
     (Inr k, ex_crash_core True) \<and> kc_request k = ex_crash_request \<and> (\<exists>call. kc_called k = Inr call)"
proof -
  let ?ks = "[''captureAuthority'', ''preparedCapture'']"
  have ex: "exact_object (ex_crash_dispatch 2) ?ks" by (simp add: ex_crash_dispatch_def exact_plain_obj)
  have o: "assertExactOptionsC (ex_crash_dispatch 2) ?ks = Inr (own_copy (ex_crash_dispatch 2))"
    "fld (own_copy (ex_crash_dispatch 2)) ''captureAuthority'' = plain_obj []"
    "fld (own_copy (ex_crash_dispatch 2)) ''preparedCapture'' = JOpaque 2"
    using ex own_copy_exact(2) [OF ex]
    by (simp_all add: assertExactOptionsC_def exact_options_iff) (simp_all add: ex_crash_dispatch_def fld_plain_obj)
  have e: "assertCaptureAuthority (plain_obj []) = Inr (plain_obj [])"
    by (simp add: assertCaptureAuthority_def plain_obj_def)
  have t: "crash_token (ex_crash_core False) (JOpaque 2) = Inr (2, ex_prepared_crash)"
    by (simp add: crash_token_def ex_crash_core_def ex_prepared_crash_def)
  show ?thesis
    unfolding capturePreparedAtomicCrashCheckpoint_begin_def o rbind_simps e t sum.case prod.case
    by (simp add: ex_crash_core_def ex_prepared_crash_def)
qed

theorem crash_capture_dispatches_once_witness:
  "\<exists>k st e. capturePreparedAtomicCrashCheckpoint_begin (ex_crash_core False) (ex_crash_dispatch 2) = (Inr k, st) \<and>
     kc_called k = Inr (JFun 8 False, ex_backend, [plain_obj [(''captureAuthority'', plain_obj []),
       (''request'', ex_crash_request)]]) \<and>
     capturePreparedAtomicCrashCheckpoint_begin st (ex_crash_dispatch 2) = (Inl e, st)"
proof -
  obtain k where k: "capturePreparedAtomicCrashCheckpoint_begin (ex_crash_core False) (ex_crash_dispatch 2) =
      (Inr k, ex_crash_core True)" using ex_crash_dispatch_ok by blast
  have t: "fld (ex_crash_dispatch 2) ''preparedCapture'' = JOpaque 2"
    "fld (ex_crash_dispatch 2) ''captureAuthority'' = plain_obj []"
    "fld ex_crash_options ''backend'' = ex_backend" "fld ex_crash_options ''request'' = ex_crash_request"
    by (simp_all add: ex_crash_dispatch_def ex_crash_options_def fld_plain_obj)
  have target: "crash_target st ex_backend ''captureAtomicCrashCheckpoint'' f r \<Longrightarrow> f = JFun 8 False \<and> r = ex_backend"
    for st f r by (auto simp: crash_target_def) (simp_all add: ex_backend_def)
  from crash_capture_dispatches_once [OF crash_inv_new ex_crash_prepare_ok crash_reach.crash_refl k t(1)
      crash_reach.crash_refl t(1)] k show ?thesis
    unfolding t ex_crash_request_ok by (blast dest: target)
qed

theorem crash_answers_are_bound_witness:
  "\<exists>k st w. capturePreparedAtomicCrashCheckpoint_begin (ex_crash_core False) (ex_crash_dispatch 2) = (Inr k, st) \<and>
     capturePreparedAtomicCrashCheckpoint_settled k (Some ex_crash_result) = Inr w \<and> crash_answer (kc_request k) w"
proof -
  obtain k where k: "capturePreparedAtomicCrashCheckpoint_begin (ex_crash_core False) (ex_crash_dispatch 2) =
      (Inr k, ex_crash_core True)" "kc_request k = ex_crash_request" "\<exists>call. kc_called k = Inr call" using ex_crash_dispatch_ok by blast
  have inv: "crash_inv (ex_crash_core False)"
    using prepare_crash_step(1) [OF crash_inv_new ex_crash_prepare_ok] ..
  have o: "assertOptionsObject (plain_obj [(''request'', ex_crash_request)]) [''previousResult'', ''request'']
      [''request''] Invalid_atomic_crash_capture = Inr (literal_opts [(''request'', ex_crash_request)])"
    by (rule literal_options) simp_all
  have ex: "exact_object ex_crash_result crash_result_keys"
    by (simp add: ex_crash_result_def crash_result_keys_def exact_plain_obj)
  have "assertAtomicCrashCaptureResult ex_crash_result (plain_obj [(''request'', ex_crash_request)]) = Inr ex_crash_result"
    by (simp add: assertAtomicCrashCaptureResult_def o fld_literal_opts crash_result_against_def ex ex_crash_request_ok
        ex_crash_normalized)
  then have s: "capturePreparedAtomicCrashCheckpoint_settled k (Some ex_crash_result) = Inr ex_crash_result"
    using k(2,3) by (auto simp: capturePreparedAtomicCrashCheckpoint_settled_def rcatch_def)
  then show ?thesis
    using crash_answers_are_bound [OF inv, THEN conjunct1, rule_format, OF k(1), of "Some ex_crash_result"] k by auto
qed

end
