(* ===== verification/Writer_Capability.thy ===== *)
theory Writer_Capability
  imports Writer_Binding
begin

text \<open>
  \<open>StoppedWriterCapabilityCoordinator\<close> of \<open>stopped-writer-capability.mjs\<close>. The coordinator's
  private fields are a \<open>coordinator\<close> record over three heaps, because writer records, capability
  records and slots are shared mutable objects: a writer record is reached through the
  \<open>#writers\<close> map, its slot and its capability. The heap fields are total functions read only at
  allocated addresses (below \<open>next_addr\<close>). A handle is the opaque object whose number is the address
  of the record it stands for; \<open>STOPPED_WRITER_STOP_CONFIRMED\<close> is opaque object 0.

  The two asynchronous operations run a callback of the caller and await what it returns. Each
  is split where other code can run: \<open>..._begin\<close> up to the call of the callback, \<open>..._returned\<close>
  from its return up to the \<open>await\<close>, \<open>..._resumed\<close> after it. \<open>calls\<close> holds the suspended calls,
  so every interleaving with other operations, also from inside the callback, is a sequence of
  steps.
\<close>

section \<open>State\<close>

datatype wstate = Running | Stopping | Stop_uncertain | Issued | Consuming | Consumed
  | Snapshot_uncertain | Revoked | Retired

datatype cstate = C_issued | C_consuming | C_consumed | C_revoked

record writer_record =
  w_attachment :: jsval
  w_capabilityRecord :: "nat option"
  w_handle :: jsval
  w_processIncarnationId :: jsval
  w_revocationRequested :: bool
  w_slot :: nat
  w_state :: wstate
  w_stopEstablished :: bool
  w_stopOperationId :: jsval
  w_stopWriter :: jsval
  w_writerFence :: jsval
  w_writerIncarnationId :: jsval

record capability_record =
  c_handle :: jsval
  c_state :: cstate
  c_writerRecord :: nat

record slot_record =
  s_current :: "nat option"
  s_lastFencingEpoch :: "jsval option"

text \<open>A suspended call: inside its callback, or awaiting what the callback returned.\<close>

datatype frame =
    Stop_calling nat
  | Stop_awaiting nat awaitable
  | Snapshot_calling nat
  | Snapshot_awaiting nat awaitable

record coordinator =
  activeWriters :: int
  activeWritersBySession :: "jsval \<Rightarrow> int option"
  capabilities :: "nat \<Rightarrow> nat option"
  disposed :: bool
  slots :: "jsval \<Rightarrow> (jsval \<Rightarrow> (jsval \<Rightarrow> nat option) option) option"
  writers :: "nat \<Rightarrow> nat option"
  writer_heap :: "nat \<Rightarrow> writer_record"
  capability_heap :: "nat \<Rightarrow> capability_record"
  slot_heap :: "nat \<Rightarrow> slot_record"
  next_addr :: nat
  calls :: "nat \<Rightarrow> frame option"

definition STOPPED_WRITER_STOP_CONFIRMED :: jsval where
  "STOPPED_WRITER_STOP_CONFIRMED = JOpaque 0"

definition blank_writer :: writer_record where
  "blank_writer = \<lparr>w_attachment = JNull, w_capabilityRecord = None, w_handle = JNull,
     w_processIncarnationId = JNull, w_revocationRequested = False, w_slot = 0, w_state = Retired,
     w_stopEstablished = False, w_stopOperationId = JNull, w_stopWriter = JNull,
     w_writerFence = JNull, w_writerIncarnationId = JNull\<rparr>"

definition new_coordinator :: coordinator where
  "new_coordinator = \<lparr>activeWriters = 0, activeWritersBySession = (\<lambda>_. None), capabilities = (\<lambda>_. None),
     disposed = False, slots = (\<lambda>_. None), writers = (\<lambda>_. None),
     writer_heap = (\<lambda>_. blank_writer),
     capability_heap = (\<lambda>_. \<lparr>c_handle = JNull, c_state = C_revoked, c_writerRecord = 0\<rparr>),
     slot_heap = (\<lambda>_. \<lparr>s_current = None, s_lastFencingEpoch = None\<rparr>),
     next_addr = 1, calls = (\<lambda>_. None)\<rparr>"

section \<open>Maps, slots and handles\<close>

text \<open>\<open>weakMapGet\<close>: only the opaque handles are ever keys.\<close>

definition weakMapGet :: "(nat \<Rightarrow> nat option) \<Rightarrow> jsval \<Rightarrow> nat option" where
  "weakMapGet m v = (case v of JOpaque n \<Rightarrow> m n | _ \<Rightarrow> None)"

definition findSlot ::
    "(jsval \<Rightarrow> (jsval \<Rightarrow> (jsval \<Rightarrow> nat option) option) option) \<Rightarrow> jsval \<Rightarrow> nat option" where
  "findSlot m att = (case m (fld att ''sessionId'') of
     None \<Rightarrow> None
   | Some backendSlots \<Rightarrow> (case backendSlots (fld att ''backendId'') of
       None \<Rightarrow> None
     | Some storageSlots \<Rightarrow> storageSlots (fld att ''storageId'')))"

definition createSlot :: "coordinator \<Rightarrow> jsval \<Rightarrow> nat \<times> coordinator" where
  "createSlot st att =
     (let backendSlots = (case slots st (fld att ''sessionId'') of Some m \<Rightarrow> m | None \<Rightarrow> (\<lambda>_. None));
          storageSlots = (case backendSlots (fld att ''backendId'') of Some m \<Rightarrow> m | None \<Rightarrow> (\<lambda>_. None));
          a = next_addr st
      in (a, st\<lparr>slots := (slots st)(fld att ''sessionId'' \<mapsto>
             backendSlots(fld att ''backendId'' \<mapsto> storageSlots(fld att ''storageId'' \<mapsto> a))),
           slot_heap := (slot_heap st)(a := \<lparr>s_current = None, s_lastFencingEpoch = None\<rparr>),
           next_addr := Suc a\<rparr>))"

definition active_in_session :: "coordinator \<Rightarrow> jsval \<Rightarrow> int" where
  "active_in_session st session = (case activeWritersBySession st session of Some n \<Rightarrow> n | None \<Rightarrow> 0)"

definition frozenCallbackBinding :: "writer_record \<Rightarrow> jsval" where
  "frozenCallbackBinding r = plain_obj
     [(''attachment'', w_attachment r), (''processIncarnationId'', w_processIncarnationId r),
      (''stopOperationId'', w_stopOperationId r), (''writerFence'', w_writerFence r),
      (''writerIncarnationId'', w_writerIncarnationId r)]"

definition upd_writer :: "coordinator \<Rightarrow> nat \<Rightarrow> (writer_record \<Rightarrow> writer_record) \<Rightarrow> coordinator" where
  "upd_writer st a f = st\<lparr>writer_heap := (writer_heap st)(a := f (writer_heap st a))\<rparr>"

definition upd_capability :: "coordinator \<Rightarrow> nat \<Rightarrow> cstate \<Rightarrow> coordinator" where
  "upd_capability st c s = st\<lparr>capability_heap := (capability_heap st)(c := (capability_heap st c)\<lparr>c_state := s\<rparr>)\<rparr>"

definition authenticateWriter :: "coordinator \<Rightarrow> jsval \<Rightarrow> jsval \<Rightarrow> jsval \<Rightarrow> nat wresult" where
  "authenticateWriter st writer processValue writerValue =
     (if writer = JNull \<or> \<not> is_object writer \<or> is_proxy writer \<or> is_array writer
      then Inl Writer_state_conflict
      else case weakMapGet (writers st) writer of
        None \<Rightarrow> Inl Writer_state_conflict
      | Some a \<Rightarrow>
          rbind (rcatch (assertOpaqueIdW processValue) Writer_state_conflict) (\<lambda>processIncarnationId.
          rbind (rcatch (assertOpaqueIdW writerValue) Writer_state_conflict) (\<lambda>writerIncarnationId.
          guarded [ensure
             (js_seq processIncarnationId (w_processIncarnationId (writer_heap st a)) \<and>
              js_seq writerIncarnationId (w_writerIncarnationId (writer_heap st a)))
             Writer_state_conflict] (Inr a))))"

section \<open>Admission and registration\<close>

text \<open>The strict advance over the slot's last epoch.\<close>

definition epoch_advances :: "jsval \<Rightarrow> jsval option \<Rightarrow> writer_error option" where
  "epoch_advances epoch previous = (case previous of
     None \<Rightarrow> None
   | Some e \<Rightarrow> (case compareFencingEpochsW epoch e of
       Inl _ \<Rightarrow> Some Invalid_stopped_writer_request
     | Inr c \<Rightarrow> ensure (c > 0) Writer_state_conflict))"

definition launch_admit :: "coordinator \<Rightarrow> jsval \<Rightarrow> jsval \<Rightarrow> unit wresult" where
  "launch_admit st attachmentValue canonicalLease =
     rbind (normalizeBinding attachmentValue canonicalLease) (\<lambda>(att, writerFence). guarded
        [err_of (parseFencingEpochW (fld writerFence ''fencingEpoch'')),
         ensure (\<not> disposed st) Writer_state_conflict,
         ensure (active_in_session st (fld att ''sessionId'') = 0) Writer_state_conflict]
      (case findSlot (slots st) att of
         None \<Rightarrow> Inr ()
       | Some s \<Rightarrow> guarded
           [ensure (s_current (slot_heap st s) = None) Writer_state_conflict,
            epoch_advances (fld writerFence ''fencingEpoch'') (s_lastFencingEpoch (slot_heap st s))]
           (Inr ())))"

definition assertWriterLaunchAvailable :: "coordinator \<Rightarrow> jsval \<Rightarrow> writer_error option" where
  "assertWriterLaunchAvailable st options = err_of (
     guarded [ensure (\<not> disposed st) Writer_state_conflict]
     (rbind (assertExactOptions options [''attachment'', ''canonicalLease'']) (\<lambda>opts.
        launch_admit st (fld opts ''attachment'') (fld opts ''canonicalLease''))))"

text \<open>The second half of the admission: the binding against the registry.\<close>

definition register_admit :: "coordinator \<Rightarrow> jsval \<Rightarrow> jsval \<Rightarrow> (jsval \<times> jsval) wresult" where
  "register_admit st attachmentValue canonicalLease =
     rbind (normalizeBinding attachmentValue canonicalLease) (\<lambda>(att, writerFence).
      let existing = findSlot (slots st) att in guarded
        [err_of (parseFencingEpochW (fld writerFence ''fencingEpoch'')),
         ensure (\<not> disposed st) Writer_state_conflict,
         ensure (active_in_session st (fld att ''sessionId'') = 0) Writer_state_conflict,
         (case existing of None \<Rightarrow> None
          | Some s \<Rightarrow> epoch_advances (fld writerFence ''fencingEpoch'')
                       (s_lastFencingEpoch (slot_heap st s))),
         ensure (\<not> disposed st) Writer_state_conflict,
         (case existing of None \<Rightarrow> None
          | Some s \<Rightarrow> ensure (s_current (slot_heap st s) = None) Writer_state_conflict)]
        (Inr (att, writerFence)))"

definition register_checked ::
    "coordinator \<Rightarrow> jsval \<Rightarrow> (jsval \<times> jsval \<times> jsval \<times> jsval \<times> jsval) wresult" where
  "register_checked st options =
     guarded [ensure (\<not> disposed st) Writer_state_conflict]
     (rbind (assertExactOptions options
        [''attachment'', ''canonicalLease'', ''processIncarnationId'', ''stopWriter'',
         ''writerIncarnationId'']) (\<lambda>opts.
      rbind (assertOpaqueIdW (fld opts ''processIncarnationId'')) (\<lambda>processIncarnationId.
      rbind (assertOpaqueIdW (fld opts ''writerIncarnationId'')) (\<lambda>writerIncarnationId.
      rbind (assertTrustedCallback (fld opts ''stopWriter'')) (\<lambda>stopWriter.
      rbind (register_admit st (fld opts ''attachment'') (fld opts ''canonicalLease''))
        (\<lambda>(att, writerFence).
         Inr (att, writerFence, processIncarnationId, writerIncarnationId, stopWriter)))))))"

definition insert_writer ::
    "coordinator \<Rightarrow> jsval \<Rightarrow> jsval \<Rightarrow> jsval \<Rightarrow> jsval \<Rightarrow> jsval \<Rightarrow> jsval \<times> coordinator" where
  "insert_writer st att writerFence processIncarnationId writerIncarnationId stopWriter =
     (let a = next_addr st; writer = JOpaque a;
          (s, st1) = (case findSlot (slots st) att of
             Some s \<Rightarrow> (s, st\<lparr>next_addr := Suc a\<rparr>)
           | None \<Rightarrow> createSlot (st\<lparr>next_addr := Suc a\<rparr>) att);
          session = fld att ''sessionId''
      in (writer, st1\<lparr>
           writers := (writers st1)(a \<mapsto> a),
           writer_heap := (writer_heap st1)(a :=
             \<lparr>w_attachment = att, w_capabilityRecord = None, w_handle = writer,
              w_processIncarnationId = processIncarnationId, w_revocationRequested = False,
              w_slot = s, w_state = Running, w_stopEstablished = False, w_stopOperationId = JNull,
              w_stopWriter = stopWriter, w_writerFence = writerFence,
              w_writerIncarnationId = writerIncarnationId\<rparr>),
           slot_heap := (slot_heap st1)(s := (slot_heap st1 s)\<lparr>s_current := Some a\<rparr>),
           activeWriters := activeWriters st1 + 1,
           activeWritersBySession := (activeWritersBySession st1)(session \<mapsto>
             active_in_session st1 session + 1)\<rparr>))"

definition registerWriter :: "coordinator \<Rightarrow> jsval \<Rightarrow> jsval wresult \<times> coordinator" where
  "registerWriter st options = (case register_checked st options of
     Inl e \<Rightarrow> (Inl e, st)
   | Inr (att, writerFence, processIncarnationId, writerIncarnationId, stopWriter) \<Rightarrow>
       (case insert_writer st att writerFence processIncarnationId writerIncarnationId stopWriter of
          (writer, st') \<Rightarrow> (Inr writer, st')))"

section \<open>Stopping a writer\<close>

text \<open>A callback returns a value or throws; an awaited value settles.\<close>

datatype callback_return = Callback_threw | Callback_returned awaitable
datatype settlement = Rejected | Fulfilled awaitable

fun settles :: "awaitable \<Rightarrow> settlement \<Rightarrow> bool" where
  "settles (Promise_object _) _ = True"
| "settles v out = (case out of Fulfilled w \<Rightarrow> w = v | Rejected \<Rightarrow> False)"

text \<open>A suspended call becomes known by the number under which \<open>calls\<close> holds its frame.\<close>

definition suspend :: "coordinator \<Rightarrow> frame \<Rightarrow> nat \<times> coordinator" where
  "suspend st f = (next_addr st, st\<lparr>calls := (calls st)(next_addr st \<mapsto> f), next_addr := Suc (next_addr st)\<rparr>)"

definition finish :: "coordinator \<Rightarrow> nat \<Rightarrow> coordinator" where
  "finish st k = st\<lparr>calls := (calls st)(k := None)\<rparr>"

definition stopAndIssueCapability_begin ::
    "coordinator \<Rightarrow> jsval \<Rightarrow> (nat \<times> jsval \<times> jsval) wresult \<times> coordinator" where
  "stopAndIssueCapability_begin st options = (case
     guarded [ensure (\<not> disposed st) Writer_state_conflict]
     (rbind (assertExactOptions options
        [''processIncarnationId'', ''stopOperationId'', ''writer'', ''writerIncarnationId'']) (\<lambda>opts.
      rbind (authenticateWriter st (fld opts ''writer'') (fld opts ''processIncarnationId'')
               (fld opts ''writerIncarnationId'')) (\<lambda>a.
      rbind (assertOpaqueIdW (fld opts ''stopOperationId'')) (\<lambda>stopOperationId.
      guarded [ensure (w_state (writer_heap st a) = Running) Writer_state_conflict]
        (Inr (a, stopOperationId))))))
   of Inl e \<Rightarrow> (Inl e, st)
    | Inr (a, stopOperationId) \<Rightarrow>
       (let st1 = upd_writer st a (\<lambda>r. r\<lparr>w_state := Stopping, w_stopOperationId := stopOperationId\<rparr>);
            (k, st2) = suspend st1 (Stop_calling a); r = writer_heap st2 a
        in (Inr (k, w_stopWriter r, frozenCallbackBinding r), st2)))"

definition stop_failed :: "coordinator \<Rightarrow> nat \<Rightarrow> coordinator" where
  "stop_failed st a = upd_writer st a (\<lambda>r. r\<lparr>
     w_state := (if w_state r = Stopping then Stop_uncertain else w_state r),
     w_stopEstablished := False\<rparr>)"

text \<open>\<open>None\<close>: the call goes on to await.\<close>

definition stopAndIssueCapability_returned ::
    "coordinator \<Rightarrow> nat \<Rightarrow> nat \<Rightarrow> callback_return \<Rightarrow> writer_error option \<times> coordinator" where
  "stopAndIssueCapability_returned st k a ret = (case ret of
     Callback_threw \<Rightarrow> (Some Writer_stop_outcome_uncertain, stop_failed (finish st k) a)
   | Callback_returned v \<Rightarrow>
       if isSafeCoordinatorAwaitValue v
       then (None, st\<lparr>calls := (calls st)(k \<mapsto> Stop_awaiting a v)\<rparr>)
       else (Some Writer_stop_outcome_uncertain, stop_failed (finish st k) a))"

definition stop_confirmed :: "settlement \<Rightarrow> bool" where
  "stop_confirmed out = (case out of
     Fulfilled (Plain v) \<Rightarrow> js_seq v STOPPED_WRITER_STOP_CONFIRMED | _ \<Rightarrow> False)"

definition stopAndIssueCapability_resumed ::
    "coordinator \<Rightarrow> nat \<Rightarrow> nat \<Rightarrow> settlement \<Rightarrow> jsval wresult \<times> coordinator" where
  "stopAndIssueCapability_resumed st k a out =
     (if \<not> stop_confirmed out
      then (Inl Writer_stop_outcome_uncertain, stop_failed (finish st k) a)
      else let st1 = upd_writer (finish st k) a (\<lambda>r. r\<lparr>w_stopEstablished := True\<rparr>) in
        if w_state (writer_heap st1 a) \<noteq> Stopping then (Inl Writer_state_conflict, st1)
        else let c = next_addr st1; capability = JOpaque c;
            st2 = upd_writer st1 a (\<lambda>r. r\<lparr>w_capabilityRecord := Some c, w_state := Issued\<rparr>)
          in (Inr capability, st2\<lparr>
               capability_heap := (capability_heap st2)(c :=
                 \<lparr>c_handle = capability, c_state = C_issued, c_writerRecord = a\<rparr>),
               capabilities := (capabilities st2)(c \<mapsto> c), next_addr := Suc c\<rparr>))"

section \<open>Consuming the capability\<close>

text \<open>
  The checks inside the \<open>try\<close>: the presented handle, identities, callback and binding must be
  those of the capability's writer. Any failure is caught below.
\<close>

definition consume_checked :: "coordinator \<Rightarrow> jsval \<Rightarrow> nat \<Rightarrow> jsval wresult" where
  "consume_checked st opts c =
     (let a = c_writerRecord (capability_heap st c); r = writer_heap st a in
      guarded [ensure (js_seq (fld opts ''writer'') (w_handle r) \<and>
                       weakMapGet (writers st) (fld opts ''writer'') = Some a)
                 Stopped_writer_capability_rejected]
      (rbind (assertOpaqueIdW (fld opts ''processIncarnationId'')) (\<lambda>p. guarded
         [ensure (js_seq p (w_processIncarnationId r)) Stopped_writer_capability_rejected]
      (rbind (assertOpaqueIdW (fld opts ''writerIncarnationId'')) (\<lambda>w. guarded
         [ensure (js_seq w (w_writerIncarnationId r)) Stopped_writer_capability_rejected]
      (rbind (assertOpaqueIdW (fld opts ''stopOperationId'')) (\<lambda>op. guarded
         [ensure (js_seq op (w_stopOperationId r)) Stopped_writer_capability_rejected]
      (rbind (assertTrustedCallback (fld opts ''runSnapshot'')) (\<lambda>runSnapshot.
       rbind (normalizeBinding (fld opts ''attachment'') (fld opts ''canonicalLease''))
         (\<lambda>(att, writerFence). guarded
            [ensure (sameFlatRecord att (w_attachment r) \<and> sameFence writerFence (w_writerFence r))
               Stopped_writer_capability_rejected,
             ensure (w_state r = Issued) Stopped_writer_capability_rejected]
            (Inr runSnapshot)))))))))))"

text \<open>Up to the \<open>try\<close>: the options and the issued capability they name.\<close>

definition consume_found :: "coordinator \<Rightarrow> jsval \<Rightarrow> (jsval \<times> nat) wresult" where
  "consume_found st options =
     guarded [ensure (\<not> disposed st) Stopped_writer_capability_rejected]
     (rbind (assertExactOptions options
        [''attachment'', ''canonicalLease'', ''capability'', ''processIncarnationId'', ''runSnapshot'',
         ''stopOperationId'', ''writer'', ''writerIncarnationId'']) (\<lambda>opts.
      case weakMapGet (capabilities st) (fld opts ''capability'') of
        None \<Rightarrow> Inl Stopped_writer_capability_rejected
      | Some c \<Rightarrow> guarded
          [ensure (c_state (capability_heap st c) = C_issued) Stopped_writer_capability_rejected]
          (Inr (opts, c))))"

definition consumeCapability_begin ::
    "coordinator \<Rightarrow> jsval \<Rightarrow> (nat \<times> jsval \<times> jsval) wresult \<times> coordinator" where
  "consumeCapability_begin st options = (case consume_found st options of
     Inl e \<Rightarrow> (Inl e, st)
   | Inr (opts, c) \<Rightarrow>
       (let a = c_writerRecord (capability_heap st c) in
        case consume_checked st opts c of
          Inl _ \<Rightarrow> (Inl Stopped_writer_capability_rejected,
            if c_state (capability_heap st c) = C_issued
            then upd_writer (upd_capability st c C_revoked) a (\<lambda>r. r\<lparr>w_state := Revoked\<rparr>) else st)
        | Inr runSnapshot \<Rightarrow>
            (let st1 = upd_writer (upd_capability st c C_consuming) a (\<lambda>r. r\<lparr>w_state := Consuming\<rparr>);
                 (k, st2) = suspend st1 (Snapshot_calling c)
             in (Inr (k, runSnapshot, frozenCallbackBinding (writer_heap st2 a)), st2))))"

definition snapshot_failed :: "coordinator \<Rightarrow> nat \<Rightarrow> coordinator" where
  "snapshot_failed st c = upd_writer (upd_capability st c C_consumed) (c_writerRecord (capability_heap st c))
     (\<lambda>r. r\<lparr>w_state := Snapshot_uncertain\<rparr>)"

definition consumeCapability_returned ::
    "coordinator \<Rightarrow> nat \<Rightarrow> nat \<Rightarrow> callback_return \<Rightarrow> writer_error option \<times> coordinator" where
  "consumeCapability_returned st k c ret = (case ret of
     Callback_threw \<Rightarrow> (Some Snapshot_outcome_uncertain, snapshot_failed (finish st k) c)
   | Callback_returned v \<Rightarrow>
       if isSafeCoordinatorAwaitValue v
       then (None, st\<lparr>calls := (calls st)(k \<mapsto> Snapshot_awaiting c v)\<rparr>)
       else (Some Snapshot_outcome_uncertain, snapshot_failed (finish st k) c))"

definition consumeCapability_resumed ::
    "coordinator \<Rightarrow> nat \<Rightarrow> nat \<Rightarrow> settlement \<Rightarrow> awaitable wresult \<times> coordinator" where
  "consumeCapability_resumed st k c out = (case out of
     Rejected \<Rightarrow> (Inl Snapshot_outcome_uncertain, snapshot_failed (finish st k) c)
   | Fulfilled v \<Rightarrow>
       (let a = c_writerRecord (capability_heap st c) in
        if w_revocationRequested (writer_heap st a) \<or> is_proxy (aw_view v) \<or>
           (case v of Generator_object _ \<Rightarrow> True | _ \<Rightarrow> False) \<or> \<not> isSafeAsyncReturnValue v
        then (Inl Snapshot_outcome_uncertain, snapshot_failed (finish st k) c)
        else (Inr v, upd_writer (upd_capability (finish st k) c C_consumed) a
               (\<lambda>r. r\<lparr>w_state := Consumed\<rparr>))))"

section \<open>Revocation, retirement and disposal\<close>

definition writer_request :: "coordinator \<Rightarrow> jsval \<Rightarrow> nat wresult" where
  "writer_request st options =
     guarded [ensure (\<not> disposed st) Writer_state_conflict]
     (rbind (assertExactOptions options [''processIncarnationId'', ''writer'', ''writerIncarnationId''])
       (\<lambda>opts. authenticateWriter st (fld opts ''writer'') (fld opts ''processIncarnationId'')
                 (fld opts ''writerIncarnationId'')))"

definition revokeWriter :: "coordinator \<Rightarrow> jsval \<Rightarrow> writer_error option \<times> coordinator" where
  "revokeWriter st options = (case writer_request st options of
     Inl e \<Rightarrow> (Some e, st)
   | Inr a \<Rightarrow>
      (let r = writer_heap st a in
       if w_state r = Consuming
       then (None, upd_writer st a (\<lambda>r. r\<lparr>w_revocationRequested := True\<rparr>))
       else if w_state r \<notin> {Running, Stopping, Issued, Stop_uncertain}
       then (Some Writer_state_conflict, st)
       else let st1 = (case w_capabilityRecord r of
                  Some c \<Rightarrow> if c_state (capability_heap st c) = C_issued
                            then upd_capability st c C_revoked else st
                | None \<Rightarrow> st)
            in (None, upd_writer st1 a (\<lambda>r. r\<lparr>w_state := Revoked\<rparr>))))"

definition retireWriter :: "coordinator \<Rightarrow> jsval \<Rightarrow> writer_error option \<times> coordinator" where
  "retireWriter st options = (case writer_request st options of
     Inl e \<Rightarrow> (Some e, st)
   | Inr a \<Rightarrow>
      (let r = writer_heap st a; s = w_slot r; session = fld (w_attachment r) ''sessionId'' in
       if \<not> (w_state r = Consumed \<or> w_state r = Revoked \<and> w_stopEstablished r)
       then (Some Writer_state_conflict, st)
       else if s_current (slot_heap st s) \<noteq> Some a then (Some Writer_state_conflict, st)
       else case activeWritersBySession st session of
         None \<Rightarrow> (Some Writer_state_conflict, st)
       | Some n \<Rightarrow>
         if \<not> n > 0 then (Some Writer_state_conflict, st)
         else let st1 = upd_writer st a (\<lambda>r. r\<lparr>w_state := Retired\<rparr>) in
           (None, st1\<lparr>
              slot_heap := (slot_heap st1)(s := \<lparr>s_current = None,
                s_lastFencingEpoch = Some (fld (w_writerFence r) ''fencingEpoch'')\<rparr>),
              activeWriters := activeWriters st1 - 1,
              activeWritersBySession := (if n = 1
                then (activeWritersBySession st1)(session := None)
                else (activeWritersBySession st1)(session \<mapsto> n - 1))\<rparr>)))"

text \<open>\<open>argc\<close> is the number of arguments \<open>dispose\<close> was called with.\<close>

definition dispose :: "coordinator \<Rightarrow> nat \<Rightarrow> writer_error option \<times> coordinator" where
  "dispose st argc = (case first_err
       [ensure (\<not> disposed st) Writer_state_conflict,
        ensure (argc = 0) Invalid_stopped_writer_request,
        ensure (activeWriters st = 0) Writer_state_conflict] of
     Some e \<Rightarrow> (Some e, st)
   | None \<Rightarrow> (None, st\<lparr>disposed := True, activeWritersBySession := (\<lambda>_. None),
       capabilities := (\<lambda>_. None), slots := (\<lambda>_. None), writers := (\<lambda>_. None)\<rparr>))"

section \<open>Histories\<close>

text \<open>
  One step of a history. Reading operations leave the state alone and are left out. A suspended
  call moves on only through its frame; a value that is not a promise settles to itself.
\<close>

inductive coord_step :: "coordinator \<Rightarrow> coordinator \<Rightarrow> bool" where
  register: "registerWriter st options = (res, st') \<Longrightarrow> coord_step st st'"
| stop_begin: "stopAndIssueCapability_begin st options = (res, st') \<Longrightarrow> coord_step st st'"
| stop_returned: "calls st k = Some (Stop_calling a) \<Longrightarrow>
    stopAndIssueCapability_returned st k a ret = (res, st') \<Longrightarrow> coord_step st st'"
| stop_resumed: "calls st k = Some (Stop_awaiting a v) \<Longrightarrow> settles v out \<Longrightarrow>
    stopAndIssueCapability_resumed st k a out = (res, st') \<Longrightarrow> coord_step st st'"
| consume_begin: "consumeCapability_begin st options = (res, st') \<Longrightarrow> coord_step st st'"
| consume_returned: "calls st k = Some (Snapshot_calling c) \<Longrightarrow>
    consumeCapability_returned st k c ret = (res, st') \<Longrightarrow> coord_step st st'"
| consume_resumed: "calls st k = Some (Snapshot_awaiting c v) \<Longrightarrow> settles v out \<Longrightarrow>
    consumeCapability_resumed st k c out = (res, st') \<Longrightarrow> coord_step st st'"
| revoke: "revokeWriter st options = (res, st') \<Longrightarrow> coord_step st st'"
| retire: "retireWriter st options = (res, st') \<Longrightarrow> coord_step st st'"
| dispose: "dispose st argc = (res, st') \<Longrightarrow> coord_step st st'"

inductive coord_reach :: "coordinator \<Rightarrow> coordinator \<Rightarrow> bool" where
  reach_start: "coord_reach st st"
| reach_step: "coord_reach st st' \<Longrightarrow> coord_step st' st'' \<Longrightarrow> coord_reach st st''"

abbreviation reachable :: "coordinator \<Rightarrow> bool" where
  "reachable st \<equiv> coord_reach new_coordinator st"

end
