(* ===== verification/Writer_Invariant.thy ===== *)
theory Writer_Invariant
  imports Writer_Capability
begin

text \<open>
  The invariant of the stopped-writer coordinator, in two halves. The registry half relates the
  writer map, the slots and the counters and carries the order of fencing epochs; the control
  half is the table of states a writer, its capability and its suspended calls can be in
  together. Every operation keeps both, so they hold in every reachable state.
\<close>

section \<open>Vocabulary\<close>

definition live :: "coordinator \<Rightarrow> nat \<Rightarrow> bool" where
  "live st a \<longleftrightarrow> writers st a = Some a \<and> w_state (writer_heap st a) \<noteq> Retired"

definition w_session :: "coordinator \<Rightarrow> nat \<Rightarrow> jsval" where
  "w_session st a = fld (w_attachment (writer_heap st a)) ''sessionId''"

definition w_epoch :: "coordinator \<Rightarrow> nat \<Rightarrow> jsval" where
  "w_epoch st a = fld (w_writerFence (writer_heap st a)) ''fencingEpoch''"

definition epoch_num :: "jsval \<Rightarrow> nat" where
  "epoch_num v = dec_val (str_of v)"

definition slot_of :: "coordinator \<Rightarrow> nat \<Rightarrow> slot_record" where
  "slot_of st a = slot_heap st (w_slot (writer_heap st a))"

definition same_slot_key :: "jsval \<Rightarrow> jsval \<Rightarrow> bool" where
  "same_slot_key x y \<longleftrightarrow> fld x ''sessionId'' = fld y ''sessionId'' \<and>
     fld x ''backendId'' = fld y ''backendId'' \<and> fld x ''storageId'' = fld y ''storageId''"

fun frame_stop :: "frame \<Rightarrow> nat option" where
  "frame_stop (Stop_calling a) = Some a"
| "frame_stop (Stop_awaiting a _) = Some a"
| "frame_stop _ = None"

fun frame_snap :: "frame \<Rightarrow> nat option" where
  "frame_snap (Snapshot_calling c) = Some c"
| "frame_snap (Snapshot_awaiting c _) = Some c"
| "frame_snap _ = None"

definition stop_pending :: "coordinator \<Rightarrow> nat \<Rightarrow> bool" where
  "stop_pending st a \<longleftrightarrow> (\<exists>k f. calls st k = Some f \<and> frame_stop f = Some a)"

definition snap_pending :: "coordinator \<Rightarrow> nat \<Rightarrow> bool" where
  "snap_pending st c \<longleftrightarrow> (\<exists>k f. calls st k = Some f \<and> frame_snap f = Some c)"

section \<open>The registry\<close>


definition addr_inv :: "coordinator \<Rightarrow> bool" where
  "addr_inv st \<longleftrightarrow>
     (\<forall>h a. writers st h = Some a \<longrightarrow> h = a \<and> a < next_addr st \<and> w_handle (writer_heap st a) = JOpaque a) \<and>
     (\<forall>h c. capabilities st h = Some c \<longrightarrow> h = c \<and> c < next_addr st) \<and>
     (\<forall>k f. calls st k = Some f \<longrightarrow> k < next_addr st) \<and>
     (\<forall>x s. findSlot (slots st) x = Some s \<longrightarrow> s < next_addr st)"

definition slot_inv :: "coordinator \<Rightarrow> bool" where
  "slot_inv st \<longleftrightarrow>
     (\<forall>a. writers st a = Some a \<longrightarrow>
        findSlot (slots st) (w_attachment (writer_heap st a)) = Some (w_slot (writer_heap st a))) \<and>
     (\<forall>a. live st a \<longrightarrow> s_current (slot_of st a) = Some a) \<and>
     (\<forall>x s a. findSlot (slots st) x = Some s \<longrightarrow> s_current (slot_heap st s) = Some a \<longrightarrow>
        live st a \<and> w_slot (writer_heap st a) = s) \<and>
     (\<forall>x y s. findSlot (slots st) x = Some s \<longrightarrow> findSlot (slots st) y = Some s \<longrightarrow> same_slot_key x y)"

definition count_inv :: "coordinator \<Rightarrow> bool" where
  "count_inv st \<longleftrightarrow>
     (\<forall>a b. live st a \<longrightarrow> live st b \<longrightarrow> w_session st a = w_session st b \<longrightarrow> a = b) \<and>
     (\<forall>x. activeWritersBySession st x = (if \<exists>a. live st a \<and> w_session st a = x then Some 1 else None)) \<and>
     finite {a. live st a} \<and> activeWriters st = int (card {a. live st a})"

definition epoch_inv :: "coordinator \<Rightarrow> bool" where
  "epoch_inv st \<longleftrightarrow>
     (\<forall>a. writers st a = Some a \<longrightarrow> (\<exists>n. parseFencingEpochW (w_epoch st a) = Inr n)) \<and>
     (\<forall>x s e. findSlot (slots st) x = Some s \<longrightarrow> s_lastFencingEpoch (slot_heap st s) = Some e \<longrightarrow>
        (\<exists>a. writers st a = Some a \<and> \<not> live st a \<and> w_slot (writer_heap st a) = s \<and> w_epoch st a = e)) \<and>
     (\<forall>a e. live st a \<longrightarrow> s_lastFencingEpoch (slot_of st a) = Some e \<longrightarrow>
        epoch_num e < epoch_num (w_epoch st a)) \<and>
     (\<forall>a. writers st a = Some a \<longrightarrow> \<not> live st a \<longrightarrow>
        (\<exists>e. s_lastFencingEpoch (slot_of st a) = Some e \<and> epoch_num (w_epoch st a) \<le> epoch_num e))"

section \<open>The control table\<close>

fun control :: "wstate \<Rightarrow> bool \<Rightarrow> cstate option \<Rightarrow> bool \<Rightarrow> bool \<Rightarrow> bool" where
  "control Running est cap stop snap \<longleftrightarrow> \<not> est \<and> cap = None \<and> \<not> stop \<and> \<not> snap"
| "control Stopping est cap stop snap \<longleftrightarrow> \<not> est \<and> cap = None \<and> stop \<and> \<not> snap"
| "control Stop_uncertain est cap stop snap \<longleftrightarrow> \<not> est \<and> cap = None \<and> \<not> stop \<and> \<not> snap"
| "control Issued est cap stop snap \<longleftrightarrow> est \<and> cap = Some C_issued \<and> \<not> stop \<and> \<not> snap"
| "control Consuming est cap stop snap \<longleftrightarrow> est \<and> cap = Some C_consuming \<and> \<not> stop \<and> snap"
| "control Consumed est cap stop snap \<longleftrightarrow> est \<and> cap = Some C_consumed \<and> \<not> stop \<and> \<not> snap"
| "control Snapshot_uncertain est cap stop snap \<longleftrightarrow> est \<and> cap = Some C_consumed \<and> \<not> stop \<and> \<not> snap"
| "control Revoked est cap stop snap \<longleftrightarrow> \<not> snap \<and> (cap = None \<or> cap = Some C_revoked \<and> est) \<and>
     (stop \<longrightarrow> \<not> est \<and> cap = None)"
| "control Retired est cap stop snap \<longleftrightarrow> est \<and> \<not> stop \<and> \<not> snap \<and>
     (cap = None \<or> cap = Some C_consumed \<or> cap = Some C_revoked)"

definition cap_of :: "coordinator \<Rightarrow> nat \<Rightarrow> cstate option" where
  "cap_of st a = map_option (\<lambda>c. c_state (capability_heap st c)) (w_capabilityRecord (writer_heap st a))"

definition snap_of :: "coordinator \<Rightarrow> nat \<Rightarrow> bool" where
  "snap_of st a = (case w_capabilityRecord (writer_heap st a) of Some c \<Rightarrow> snap_pending st c | None \<Rightarrow> False)"

definition table_inv :: "coordinator \<Rightarrow> bool" where
  "table_inv st \<longleftrightarrow> (\<forall>a. writers st a = Some a \<longrightarrow>
     control (w_state (writer_heap st a)) (w_stopEstablished (writer_heap st a)) (cap_of st a)
       (stop_pending st a) (snap_of st a))"

definition link_inv :: "coordinator \<Rightarrow> bool" where
  "link_inv st \<longleftrightarrow>
     (\<forall>a c. writers st a = Some a \<longrightarrow> w_capabilityRecord (writer_heap st a) = Some c \<longrightarrow>
        capabilities st c = Some c \<and> c_writerRecord (capability_heap st c) = a) \<and>
     (\<forall>c. capabilities st c = Some c \<longrightarrow>
        writers st (c_writerRecord (capability_heap st c)) = Some (c_writerRecord (capability_heap st c)) \<and>
        w_capabilityRecord (writer_heap st (c_writerRecord (capability_heap st c))) = Some c) \<and>
     (\<forall>k f a. calls st k = Some f \<longrightarrow> frame_stop f = Some a \<longrightarrow> writers st a = Some a) \<and>
     (\<forall>k f c. calls st k = Some f \<longrightarrow> frame_snap f = Some c \<longrightarrow> capabilities st c = Some c) \<and>
     (\<forall>k k' f f' a. calls st k = Some f \<longrightarrow> calls st k' = Some f' \<longrightarrow>
        frame_stop f = Some a \<longrightarrow> frame_stop f' = Some a \<longrightarrow> k = k') \<and>
     (\<forall>k k' f f' c. calls st k = Some f \<longrightarrow> calls st k' = Some f' \<longrightarrow>
        frame_snap f = Some c \<longrightarrow> frame_snap f' = Some c \<longrightarrow> k = k')"

definition disposed_inv :: "coordinator \<Rightarrow> bool" where
  "disposed_inv st \<longleftrightarrow> (disposed st \<longrightarrow> (\<forall>a. writers st a = None) \<and> (\<forall>c. capabilities st c = None) \<and>
     (\<forall>k. calls st k = None) \<and> (\<forall>x. findSlot (slots st) x = None))"

definition registry_inv :: "coordinator \<Rightarrow> bool" where
  "registry_inv st \<longleftrightarrow> slot_inv st \<and> count_inv st \<and> epoch_inv st"

definition coord_inv :: "coordinator \<Rightarrow> bool" where
  "coord_inv st \<longleftrightarrow> addr_inv st \<and> registry_inv st \<and> table_inv st \<and> link_inv st \<and> disposed_inv st"

section \<open>Updates that leave the registry alone\<close>

definition same_registry :: "coordinator \<Rightarrow> coordinator \<Rightarrow> bool" where
  "same_registry st st' \<longleftrightarrow> writers st' = writers st \<and> slots st' = slots st \<and> slot_heap st' = slot_heap st \<and>
     activeWriters st' = activeWriters st \<and> activeWritersBySession st' = activeWritersBySession st \<and>
     disposed st' = disposed st \<and> next_addr st \<le> next_addr st' \<and>
     (\<forall>a. w_attachment (writer_heap st' a) = w_attachment (writer_heap st a) \<and>
          w_handle (writer_heap st' a) = w_handle (writer_heap st a) \<and>
          w_slot (writer_heap st' a) = w_slot (writer_heap st a) \<and>
          w_writerFence (writer_heap st' a) = w_writerFence (writer_heap st a) \<and>
          w_processIncarnationId (writer_heap st' a) = w_processIncarnationId (writer_heap st a) \<and>
          w_writerIncarnationId (writer_heap st' a) = w_writerIncarnationId (writer_heap st a) \<and>
          (w_state (writer_heap st' a) = Retired) = (w_state (writer_heap st a) = Retired))"

lemma registry_frame:
  assumes "same_registry st st'" and "registry_inv st"
  shows "registry_inv st'"
proof -
  have l: "live st' = live st"
    using assms(1) by (auto simp: same_registry_def live_def fun_eq_iff)
  have f: "w_session st' = w_session st" "w_epoch st' = w_epoch st" "slot_of st' = slot_of st"
    using assms(1) by (auto simp: same_registry_def w_session_def w_epoch_def slot_of_def fun_eq_iff)
  from assms(1) have r: "writers st' = writers st" "slots st' = slots st" "slot_heap st' = slot_heap st"
     "activeWriters st' = activeWriters st" "activeWritersBySession st' = activeWritersBySession st"
     "\<And>a. w_attachment (writer_heap st' a) = w_attachment (writer_heap st a)"
     "\<And>a. w_slot (writer_heap st' a) = w_slot (writer_heap st a)"
    by (auto simp: same_registry_def)
  have "registry_inv st' = registry_inv st"
    unfolding registry_inv_def slot_inv_def count_inv_def epoch_inv_def l f r ..
  with assms(2) show ?thesis by simp
qed

lemma coord_inv_init: "coord_inv new_coordinator"
  by (simp add: coord_inv_def addr_inv_def registry_inv_def slot_inv_def count_inv_def epoch_inv_def
      table_inv_def link_inv_def disposed_inv_def new_coordinator_def live_def findSlot_def)

lemma addr_frame:
  assumes "same_registry st st'" and "addr_inv st"
    and "\<And>h c. capabilities st' h = Some c \<Longrightarrow> capabilities st h = Some c \<or> h = c \<and> c < next_addr st'"
    and "\<And>k. calls st' k \<noteq> None \<Longrightarrow> calls st k \<noteq> None \<or> k < next_addr st'"
  shows "addr_inv st'"
proof -
  from assms(1) have r: "writers st' = writers st" "slots st' = slots st" "next_addr st \<le> next_addr st'"
     "\<And>a. w_handle (writer_heap st' a) = w_handle (writer_heap st a)"
    by (auto simp: same_registry_def)
  have "k < next_addr st'" if "calls st' k = Some f" for k f
    using assms(2) assms(4) [of k] that r(3) unfolding addr_inv_def by fastforce
  moreover have "h = c \<and> c < next_addr st'" if "capabilities st' h = Some c" for h c
    using assms(2) assms(3) [OF that] r(3) unfolding addr_inv_def by fastforce
  ultimately show ?thesis
    using assms(2) r unfolding addr_inv_def by fastforce
qed

lemma disposed_frame:
  assumes "same_registry st st'" and "disposed_inv st"
    and "\<not> disposed st \<or> (\<forall>c. capabilities st' c = None) \<and> (\<forall>k. calls st' k = None)"
  shows "disposed_inv st'"
  using assms by (auto simp: same_registry_def disposed_inv_def)

text \<open>Not disposed where there is a writer or a suspended call.\<close>

lemma inv_not_disposed:
  assumes "disposed_inv st" and "writers st a \<noteq> None \<or> calls st k \<noteq> None \<or> capabilities st c \<noteq> None"
  shows "\<not> disposed st"
  using assms by (auto simp: disposed_inv_def)

section \<open>The primitive updates\<close>

lemma upd_writer_sel [simp]:
  "activeWriters (upd_writer st a f) = activeWriters st"
  "activeWritersBySession (upd_writer st a f) = activeWritersBySession st"
  "capabilities (upd_writer st a f) = capabilities st"
  "disposed (upd_writer st a f) = disposed st"
  "slots (upd_writer st a f) = slots st"
  "writers (upd_writer st a f) = writers st"
  "slot_heap (upd_writer st a f) = slot_heap st"
  "next_addr (upd_writer st a f) = next_addr st"
  "calls (upd_writer st a f) = calls st"
  "capability_heap (upd_writer st a f) = capability_heap st"
  by (simp_all add: upd_writer_def)

lemma upd_capability_sel [simp]:
  "activeWriters (upd_capability st c s) = activeWriters st"
  "activeWritersBySession (upd_capability st c s) = activeWritersBySession st"
  "capabilities (upd_capability st c s) = capabilities st"
  "disposed (upd_capability st c s) = disposed st"
  "slots (upd_capability st c s) = slots st"
  "writers (upd_capability st c s) = writers st"
  "slot_heap (upd_capability st c s) = slot_heap st"
  "next_addr (upd_capability st c s) = next_addr st"
  "calls (upd_capability st c s) = calls st"
  "writer_heap (upd_capability st c s) = writer_heap st"
  by (simp_all add: upd_capability_def)

lemma finish_sel [simp]:
  "activeWriters (finish st k) = activeWriters st"
  "activeWritersBySession (finish st k) = activeWritersBySession st"
  "capabilities (finish st k) = capabilities st"
  "disposed (finish st k) = disposed st"
  "slots (finish st k) = slots st"
  "writers (finish st k) = writers st"
  "slot_heap (finish st k) = slot_heap st"
  "next_addr (finish st k) = next_addr st"
  "capability_heap (finish st k) = capability_heap st"
  "writer_heap (finish st k) = writer_heap st"
  by (simp_all add: finish_def)

lemma upd_writer_heap [simp]:
  "writer_heap (upd_writer st a f) b = (if b = a then f (writer_heap st a) else writer_heap st b)"
  by (simp add: upd_writer_def)

lemma upd_capability_heap [simp]:
  "c_state (capability_heap (upd_capability st c s) d) = (if d = c then s else c_state (capability_heap st d))"
  "c_writerRecord (capability_heap (upd_capability st c s) d) = c_writerRecord (capability_heap st d)"
  by (simp_all add: upd_capability_def)

lemma finish_calls [simp]: "calls (finish st k) j = (if j = k then None else calls st j)"
  by (simp add: finish_def)

lemma pending_cong:
  "calls st' = calls st \<Longrightarrow> stop_pending st' = stop_pending st"
  "calls st' = calls st \<Longrightarrow> snap_pending st' = snap_pending st"
  by (simp_all add: stop_pending_def snap_pending_def fun_eq_iff)

lemma pending_upd [simp]:
  "stop_pending (upd_writer st a f) = stop_pending st" "snap_pending (upd_writer st a f) = snap_pending st"
  "stop_pending (upd_capability st c s) = stop_pending st"
  "snap_pending (upd_capability st c s) = snap_pending st"
  by (rule pending_cong; simp)+

text \<open>Whether a map holds a frame that belongs to \<open>x\<close>.\<close>

definition holds :: "(nat \<Rightarrow> frame option) \<Rightarrow> (frame \<Rightarrow> nat option) \<Rightarrow> nat \<Rightarrow> bool" where
  "holds m g x \<longleftrightarrow> (\<exists>k f. m k = Some f \<and> g f = Some x)"

lemma holds_new: "m k = None \<Longrightarrow> holds (m(k \<mapsto> f)) g x \<longleftrightarrow> holds m g x \<or> g f = Some x"
  unfolding holds_def by (metis fun_upd_apply option.distinct(1) option.inject)

lemma holds_swap: "m k = Some f \<Longrightarrow> g f' = g f \<Longrightarrow> holds (m(k \<mapsto> f')) g x \<longleftrightarrow> holds m g x"
  unfolding holds_def by (metis fun_upd_apply option.inject)

lemma holds_del:
  assumes "m k = Some f" and "\<And>k' f'. m k' = Some f' \<Longrightarrow> g f = Some x \<Longrightarrow> g f' = Some x \<Longrightarrow> k = k'"
  shows "holds (m(k := None)) g x \<longleftrightarrow> holds m g x \<and> g f \<noteq> Some x"
  unfolding holds_def using assms by (metis fun_upd_apply option.distinct(1) option.inject)

lemma pending_holds:
  "stop_pending st = holds (calls st) frame_stop" "snap_pending st = holds (calls st) frame_snap"
  by (simp_all add: stop_pending_def snap_pending_def holds_def fun_eq_iff)

lemma pending_finish:
  assumes "link_inv st" and "calls st k = Some f"
  shows "stop_pending (finish st k) b \<longleftrightarrow> stop_pending st b \<and> frame_stop f \<noteq> Some b"
    and "snap_pending (finish st k) c \<longleftrightarrow> snap_pending st c \<and> frame_snap f \<noteq> Some c"
proof -
  have "k = k'" if "calls st k' = Some f'" "frame_stop f = Some b" "frame_stop f' = Some b" for k' f'
    using assms that unfolding link_inv_def by blast
  then show "stop_pending (finish st k) b \<longleftrightarrow> stop_pending st b \<and> frame_stop f \<noteq> Some b"
    using holds_del [of "calls st" k f frame_stop b] assms(2) by (simp add: pending_holds finish_def)
  have "k = k'" if "calls st k' = Some f'" "frame_snap f = Some c" "frame_snap f' = Some c" for k' f'
    using assms that unfolding link_inv_def by blast
  then show "snap_pending (finish st k) c \<longleftrightarrow> snap_pending st c \<and> frame_snap f \<noteq> Some c"
    using holds_del [of "calls st" k f frame_snap c] assms(2) by (simp add: pending_holds finish_def)
qed

lemma pending_suspend:
  assumes "addr_inv st"
  shows "stop_pending (snd (suspend st f)) b \<longleftrightarrow> stop_pending st b \<or> frame_stop f = Some b"
    and "snap_pending (snd (suspend st f)) c \<longleftrightarrow> snap_pending st c \<or> frame_snap f = Some c"
proof -
  have "calls st (next_addr st) = None"
    using assms unfolding addr_inv_def by (meson less_irrefl not_None_eq)
  then show "stop_pending (snd (suspend st f)) b \<longleftrightarrow> stop_pending st b \<or> frame_stop f = Some b"
    "snap_pending (snd (suspend st f)) c \<longleftrightarrow> snap_pending st c \<or> frame_snap f = Some c"
    by (simp_all add: pending_holds suspend_def holds_new)
qed

lemma pending_swap:
  assumes "calls st k = Some f" and "frame_stop f' = frame_stop f" and "frame_snap f' = frame_snap f"
  shows "stop_pending (st\<lparr>calls := (calls st)(k \<mapsto> f')\<rparr>) = stop_pending st"
    and "snap_pending (st\<lparr>calls := (calls st)(k \<mapsto> f')\<rparr>) = snap_pending st"
  using assms by (simp_all add: pending_holds fun_eq_iff holds_swap)

text \<open>A step that touches one writer keeps the table if it keeps every other row.\<close>

definition row :: "coordinator \<Rightarrow> nat \<Rightarrow> bool" where
  "row st a = control (w_state (writer_heap st a)) (w_stopEstablished (writer_heap st a)) (cap_of st a)
     (stop_pending st a) (snap_of st a)"

lemma table_rows: "table_inv st \<longleftrightarrow> (\<forall>a. writers st a = Some a \<longrightarrow> row st a)"
  by (simp add: table_inv_def row_def)

lemma row_at:
  assumes "coord_inv st" and "writers st a = Some a"
  shows "row st a"
  using assms by (simp add: coord_inv_def table_rows)

lemma link_cap:
  assumes "link_inv st"
  shows "writers st a = Some a \<Longrightarrow> w_capabilityRecord (writer_heap st a) = Some c \<Longrightarrow>
      capabilities st c = Some c \<and> c_writerRecord (capability_heap st c) = a"
    and "capabilities st c = Some c \<Longrightarrow> a = c_writerRecord (capability_heap st c) \<Longrightarrow>
      writers st a = Some a \<and> w_capabilityRecord (writer_heap st a) = Some c"
    and "calls st k = Some f \<Longrightarrow> frame_stop f = Some a \<Longrightarrow> writers st a = Some a"
    and "calls st k = Some f \<Longrightarrow> frame_snap f = Some c \<Longrightarrow> capabilities st c = Some c"
  using assms unfolding link_inv_def by blast+

lemma link_cong:
  assumes "link_inv st" and "writers st' = writers st" and "capabilities st' = capabilities st"
    and "\<And>a. w_capabilityRecord (writer_heap st' a) = w_capabilityRecord (writer_heap st a)"
    and "\<And>c. c_writerRecord (capability_heap st' c) = c_writerRecord (capability_heap st c)"
    and "calls st' = calls st"
  shows "link_inv st'"
  using assms(1) unfolding link_inv_def assms(2-6) .

lemma link_upd_writer:
  "link_inv st \<Longrightarrow> (\<And>r. w_capabilityRecord (f r) = w_capabilityRecord r) \<Longrightarrow> link_inv (upd_writer st a f)"
  by (rule link_cong) (auto simp: fun_eq_iff)

lemma link_upd_capability: "link_inv st \<Longrightarrow> link_inv (upd_capability st c s)"
  by (rule link_cong) (auto simp: fun_eq_iff)

text \<open>The frames part of \<open>link_inv\<close>, as a predicate of the map of calls.\<close>

definition frames_ok :: "(nat \<Rightarrow> frame option) \<Rightarrow> (frame \<Rightarrow> nat option) \<Rightarrow> (nat \<Rightarrow> bool) \<Rightarrow> bool" where
  "frames_ok m g P \<longleftrightarrow> (\<forall>k f x. m k = Some f \<longrightarrow> g f = Some x \<longrightarrow> P x) \<and>
     (\<forall>k k' f f' x. m k = Some f \<longrightarrow> m k' = Some f' \<longrightarrow> g f = Some x \<longrightarrow> g f' = Some x \<longrightarrow> k = k')"

lemma link_frames:
  "link_inv st \<longleftrightarrow>
     (\<forall>a c. writers st a = Some a \<longrightarrow> w_capabilityRecord (writer_heap st a) = Some c \<longrightarrow>
        capabilities st c = Some c \<and> c_writerRecord (capability_heap st c) = a) \<and>
     (\<forall>c. capabilities st c = Some c \<longrightarrow>
        writers st (c_writerRecord (capability_heap st c)) = Some (c_writerRecord (capability_heap st c)) \<and>
        w_capabilityRecord (writer_heap st (c_writerRecord (capability_heap st c))) = Some c) \<and>
     frames_ok (calls st) frame_stop (\<lambda>a. writers st a = Some a) \<and>
     frames_ok (calls st) frame_snap (\<lambda>c. capabilities st c = Some c)"
  unfolding link_inv_def frames_ok_def by blast

lemma frames_del: "frames_ok m g P \<Longrightarrow> frames_ok (m(k := None)) g P"
  unfolding frames_ok_def by (metis fun_upd_apply option.distinct(1))

lemma frames_swap: "frames_ok m g P \<Longrightarrow> m k = Some f \<Longrightarrow> g f' = g f \<Longrightarrow> frames_ok (m(k \<mapsto> f')) g P"
  unfolding frames_ok_def by (smt (verit) fun_upd_apply option.inject)

lemma frames_new:
  assumes "frames_ok m g P" and "\<And>x. g f = Some x \<Longrightarrow> P x \<and> \<not> holds m g x"
  shows "frames_ok (m(k \<mapsto> f)) g P"
  using assms unfolding frames_ok_def holds_def by (smt (verit) fun_upd_apply option.inject)

lemma link_finish: "link_inv st \<Longrightarrow> link_inv (finish st k)"
  unfolding link_frames by (simp add: finish_def frames_del)

lemma link_swap:
  "link_inv st \<Longrightarrow> calls st k = Some f \<Longrightarrow> frame_stop f' = frame_stop f \<Longrightarrow> frame_snap f' = frame_snap f \<Longrightarrow>
     link_inv (st\<lparr>calls := (calls st)(k \<mapsto> f')\<rparr>)"
  unfolding link_frames by (auto intro: frames_swap)

lemma link_suspend:
  assumes "link_inv st"
    and "\<And>a. frame_stop f = Some a \<Longrightarrow> writers st a = Some a \<and> \<not> stop_pending st a"
    and "\<And>c. frame_snap f = Some c \<Longrightarrow> capabilities st c = Some c \<and> \<not> snap_pending st c"
  shows "link_inv (snd (suspend st f))"
  using assms unfolding link_frames pending_holds by (simp add: suspend_def frames_new)

section \<open>Each operation keeps the invariant\<close>

text \<open>The shape of every operation that leaves the registry alone.\<close>

lemma keep_coord_inv:
  assumes inv: "coord_inv st" and "same_registry st st'" and "link_inv st'"
    and live: "\<not> disposed st"
    and "\<And>h c. capabilities st' h = Some c \<Longrightarrow> capabilities st h = Some c \<or> h = c \<and> c < next_addr st'"
    and "\<And>k. calls st' k \<noteq> None \<Longrightarrow> calls st k \<noteq> None \<or> k < next_addr st'"
    and rows: "\<And>b. writers st b = Some b \<Longrightarrow> row st b \<Longrightarrow> row st' b"
  shows "coord_inv st'"
proof -
  have w: "writers st' = writers st" using assms(2) by (simp add: same_registry_def)
  have "table_inv st'" using inv rows by (simp add: coord_inv_def table_rows w)
  then show ?thesis
    using assms registry_frame [OF assms(2)] addr_frame [OF assms(2)] disposed_frame [OF assms(2)]
    unfolding coord_inv_def by blast
qed

lemma same_upd_writer:
  assumes "\<And>r. w_attachment (f r) = w_attachment r \<and> w_handle (f r) = w_handle r \<and>
      w_slot (f r) = w_slot r \<and> w_writerFence (f r) = w_writerFence r \<and>
      w_processIncarnationId (f r) = w_processIncarnationId r \<and>
      w_writerIncarnationId (f r) = w_writerIncarnationId r"
    and "same_registry st0 st"
    and "(w_state (f (writer_heap st a)) = Retired) = (w_state (writer_heap st a) = Retired)"
  shows "same_registry st0 (upd_writer st a f)"
  using assms unfolding same_registry_def by auto

lemma same_upd_capability: "same_registry st0 st \<Longrightarrow> same_registry st0 (upd_capability st c s)"
  unfolding same_registry_def by simp

lemma same_finish: "same_registry st0 st \<Longrightarrow> same_registry st0 (finish st k)"
  unfolding same_registry_def by simp

lemma same_refl: "same_registry st st"
  by (simp add: same_registry_def)

lemma same_suspend: "same_registry st0 st \<Longrightarrow> same_registry st0 (snd (suspend st f))"
  unfolding same_registry_def by (auto simp: suspend_def)

lemmas same_intros = same_refl same_upd_capability same_finish same_suspend same_upd_writer
lemmas link_intros = link_upd_writer link_upd_capability link_finish

lemma suspend_sel [simp]:
  "activeWriters (snd (suspend st f)) = activeWriters st"
  "activeWritersBySession (snd (suspend st f)) = activeWritersBySession st"
  "capabilities (snd (suspend st f)) = capabilities st"
  "disposed (snd (suspend st f)) = disposed st"
  "slots (snd (suspend st f)) = slots st"
  "writers (snd (suspend st f)) = writers st"
  "slot_heap (snd (suspend st f)) = slot_heap st"
  "capability_heap (snd (suspend st f)) = capability_heap st"
  "writer_heap (snd (suspend st f)) = writer_heap st"
  "next_addr (snd (suspend st f)) = Suc (next_addr st)"
  "calls (snd (suspend st f)) k = (if k = next_addr st then Some f else calls st k)"
  by (simp_all add: suspend_def)

lemma auth_registered:
  assumes "addr_inv st" and "authenticateWriter st w p q = Inr a"
  shows "writers st a = Some a"
proof -
  from assms(2) have "weakMapGet (writers st) w = Some a"
    by (auto simp: authenticateWriter_def split: if_splits option.splits)
  then obtain n where "writers st n = Some a" by (auto simp: weakMapGet_def split: jsval.splits)
  with assms(1) show ?thesis unfolding addr_inv_def by metis
qed

lemma stop_begin_result:
  assumes "addr_inv st" and "stopAndIssueCapability_begin st options = (Inr res, st')"
  obtains a op where "writers st a = Some a" "w_state (writer_heap st a) = Running" "\<not> disposed st"
    "st' = snd (suspend (upd_writer st a (\<lambda>r. r\<lparr>w_state := Stopping, w_stopOperationId := op\<rparr>)) (Stop_calling a))"
  using assms(2) auth_registered [OF assms(1)]
  by (auto simp: stopAndIssueCapability_begin_def Let_def split: sum.splits prod.splits)
    (metis snd_conv)

lemma stop_begin_error: "stopAndIssueCapability_begin st options = (Inl e, st') \<Longrightarrow> st' = st"
  by (auto simp: stopAndIssueCapability_begin_def Let_def split: sum.splits prod.splits)

lemma addr_upd_writer:
  "addr_inv st \<Longrightarrow> (\<And>r. w_handle (f r) = w_handle r) \<Longrightarrow> addr_inv (upd_writer st a f)"
  unfolding addr_inv_def by simp

lemma addr_upd_capability: "addr_inv st \<Longrightarrow> addr_inv (upd_capability st c s)"
  unfolding addr_inv_def by simp

lemma stop_begin_inv:
  assumes inv: "coord_inv st" and step: "stopAndIssueCapability_begin st options = (res, st')"
  shows "coord_inv st'"
proof (cases res)
  case (Inl e)
  with step stop_begin_error inv show ?thesis by blast
next
  case (Inr x)
  have addr: "addr_inv st" and link: "link_inv st" using inv by (simp_all add: coord_inv_def)
  obtain a op where a: "writers st a = Some a" "w_state (writer_heap st a) = Running" "\<not> disposed st"
    and st': "st' = snd (suspend (upd_writer st a (\<lambda>r. r\<lparr>w_state := Stopping, w_stopOperationId := op\<rparr>)) (Stop_calling a))"
    using stop_begin_result [OF addr step [unfolded Inr]] .
  let ?st1 = "upd_writer st a (\<lambda>r. r\<lparr>w_state := Stopping, w_stopOperationId := op\<rparr>)"
  have row: "row st a" by (rule row_at [OF inv a(1)])
  have addr1: "addr_inv ?st1" by (rule addr_upd_writer [OF addr]) simp
  show ?thesis
  proof (rule keep_coord_inv [OF inv])
    show "same_registry st st'" unfolding st' using a(2) by (intro same_intros) simp_all
    show "link_inv st'"
      unfolding st' using a row by (intro link_suspend link_upd_writer link) (simp_all add: row_def)
    show "row st' b" if "writers st b = Some b" "row st b" for b
      using that row a(2)
      by (auto simp: st' row_def cap_of_def snap_of_def pending_suspend [OF addr1] split: option.splits)
  qed (use a(3) in \<open>auto simp: st' split: if_splits\<close>)
qed

text \<open>A call that is stopping a writer finds it stopping or revoked.\<close>

lemma stop_frame_facts:
  assumes inv: "coord_inv st" and k: "calls st k = Some f" and f: "frame_stop f = Some a"
  shows "writers st a = Some a" and "\<not> disposed st"
    and "w_state (writer_heap st a) = Stopping \<or> w_state (writer_heap st a) = Revoked"
    and "\<not> w_stopEstablished (writer_heap st a)" and "w_capabilityRecord (writer_heap st a) = None"
    and "frame_snap f = None"
proof -
  have link: "link_inv st" and "disposed_inv st" using inv by (simp_all add: coord_inv_def)
  with k show "\<not> disposed st" using inv_not_disposed by blast
  show a: "writers st a = Some a" by (rule link_cap(3) [OF link k f])
  have "stop_pending st a" using k f by (auto simp: stop_pending_def)
  with row_at [OF inv a] show "w_state (writer_heap st a) = Stopping \<or> w_state (writer_heap st a) = Revoked"
    "\<not> w_stopEstablished (writer_heap st a)" "w_capabilityRecord (writer_heap st a) = None"
    by (cases "w_state (writer_heap st a)"; auto simp: row_def cap_of_def)+
  from f show "frame_snap f = None" by (cases f) auto
qed

lemma stop_failed_inv:
  assumes inv: "coord_inv st" and k: "calls st k = Some f" and f: "frame_stop f = Some a"
  shows "coord_inv (stop_failed (finish st k) a)"
proof -
  have link: "link_inv st" using inv by (simp add: coord_inv_def)
  note fr = stop_frame_facts [OF assms] and pend = pending_finish [OF link k]
  show ?thesis
  proof (rule keep_coord_inv [OF inv])
    show "same_registry st (stop_failed (finish st k) a)"
      unfolding stop_failed_def using fr(3) by (intro same_intros) auto
    show "link_inv (stop_failed (finish st k) a)"
      unfolding stop_failed_def by (intro link_intros link) simp
    show "row (stop_failed (finish st k) a) b" if "writers st b = Some b" "row st b" for b
      using that fr(3,5,6) f
      by (auto simp: stop_failed_def row_def cap_of_def snap_of_def pend split: option.splits)
  qed (use fr(2) in \<open>auto simp: stop_failed_def split: if_splits\<close>)
qed

text \<open>A call that goes from its callback to its \<open>await\<close>.\<close>

lemma swap_inv:
  assumes inv: "coord_inv st" and k: "calls st k = Some f"
    and f: "frame_stop f' = frame_stop f" "frame_snap f' = frame_snap f"
  shows "coord_inv (st\<lparr>calls := (calls st)(k \<mapsto> f')\<rparr>)" (is "coord_inv ?st'")
proof (rule keep_coord_inv [OF inv])
  have link: "link_inv st" and "disposed_inv st" using inv by (simp_all add: coord_inv_def)
  with k show "\<not> disposed st" using inv_not_disposed by blast
  show "link_inv ?st'" by (rule link_swap [OF link k f])
  show "row ?st' b" if "row st b" for b
    using that pending_swap [OF k f] by (simp add: row_def cap_of_def snap_of_def split: option.splits)
qed (use k in \<open>auto simp: same_registry_def split: if_splits\<close>)

lemma stop_returned_inv:
  assumes inv: "coord_inv st" and k: "calls st k = Some (Stop_calling a)"
    and step: "stopAndIssueCapability_returned st k a ret = (res, st')"
  shows "coord_inv st'"
proof -
  have "coord_inv (stop_failed (finish st k) a)" by (rule stop_failed_inv [OF inv k]) simp
  moreover have "coord_inv (st\<lparr>calls := (calls st)(k \<mapsto> Stop_awaiting a v)\<rparr>)" for v
    by (rule swap_inv [OF inv k]) simp_all
  ultimately show ?thesis using step
    by (auto simp: stopAndIssueCapability_returned_def split: callback_return.splits if_splits)
qed

text \<open>A late confirmation of a revoked writer is remembered.\<close>

lemma late_confirmation_inv:
  assumes inv: "coord_inv st" and k: "calls st k = Some f" and f: "frame_stop f = Some a"
    and "w_state (writer_heap st a) \<noteq> Stopping"
  shows "coord_inv (upd_writer (finish st k) a (\<lambda>r. r\<lparr>w_stopEstablished := True\<rparr>))" (is "coord_inv ?st'")
proof -
  have link: "link_inv st" using inv by (simp add: coord_inv_def)
  note fr = stop_frame_facts [OF assms(1-3)] and pend = pending_finish [OF link k]
  show ?thesis
  proof (rule keep_coord_inv [OF inv])
    show "same_registry st ?st'" by (intro same_intros) auto
    show "link_inv ?st'" by (intro link_intros link) simp
    show "row ?st' b" if "writers st b = Some b" "row st b" for b
      using that fr(3,5,6) f assms(4)
      by (auto simp: row_def cap_of_def snap_of_def pend split: option.splits)
  qed (use fr(2) in \<open>auto split: if_splits\<close>)
qed

text \<open>Issuing a capability to a writer whose stop is confirmed.\<close>

definition issue :: "coordinator \<Rightarrow> nat \<Rightarrow> coordinator" where
  "issue st a = (let c = next_addr st;
     st2 = upd_writer st a (\<lambda>r. r\<lparr>w_stopEstablished := True, w_capabilityRecord := Some c, w_state := Issued\<rparr>)
   in st2\<lparr>capability_heap := (capability_heap st2)(c :=
        \<lparr>c_handle = JOpaque c, c_state = C_issued, c_writerRecord = a\<rparr>),
      capabilities := (capabilities st2)(c \<mapsto> c), next_addr := Suc c\<rparr>)"

lemma issue_sel [simp]:
  "writers (issue st a) = writers st" "slots (issue st a) = slots st" "calls (issue st a) = calls st"
  "slot_heap (issue st a) = slot_heap st" "disposed (issue st a) = disposed st"
  "activeWriters (issue st a) = activeWriters st"
  "activeWritersBySession (issue st a) = activeWritersBySession st"
  "next_addr (issue st a) = Suc (next_addr st)"
  "capabilities (issue st a) = (capabilities st)(next_addr st \<mapsto> next_addr st)"
  "writer_heap (issue st a) b = (if b = a then (writer_heap st a)\<lparr>w_stopEstablished := True,
     w_capabilityRecord := Some (next_addr st), w_state := Issued\<rparr> else writer_heap st b)"
  "capability_heap (issue st a) c = (if c = next_addr st
     then \<lparr>c_handle = JOpaque c, c_state = C_issued, c_writerRecord = a\<rparr> else capability_heap st c)"
  by (simp_all add: issue_def Let_def)

lemma link_issue:
  assumes link: "link_inv st" and addr: "addr_inv st" and a: "writers st a = Some a"
    "w_capabilityRecord (writer_heap st a) = None"
  shows "link_inv (issue st a)"
proof -
  have fresh: "capabilities st (next_addr st) = None"
    using addr unfolding addr_inv_def by (metis less_irrefl not_None_eq)
  then have own: "d \<noteq> next_addr st" if "writers st b = Some b" "w_capabilityRecord (writer_heap st b) = Some d"
    for b d using link_cap(1) [OF link that] by auto
  have rev: "c_writerRecord (capability_heap st d) \<noteq> a" if "capabilities st d = Some d" for d
    using link_cap(2) [OF link that refl] a(2) by auto
  have "frames_ok (calls st) frame_snap (\<lambda>c. capabilities st c = Some c)"
    using link by (simp add: link_frames)
  then have "frames_ok (calls st) frame_snap (\<lambda>c. c \<noteq> next_addr st \<longrightarrow> capabilities st c = Some c)"
    unfolding frames_ok_def by blast
  then show ?thesis
    using link a own rev unfolding link_frames by auto
qed

lemma issue_inv:
  assumes inv: "coord_inv st" and k: "calls st k = Some f" and f: "frame_stop f = Some a"
    and "w_state (writer_heap st a) = Stopping"
  shows "coord_inv (issue (finish st k) a)"
proof -
  have link: "link_inv st" and addr: "addr_inv st" using inv by (simp_all add: coord_inv_def)
  note fr = stop_frame_facts [OF assms(1-3)]
    and pend = pending_finish [OF link k]
  have pend_issue: "stop_pending (issue st' a) = stop_pending st'" "snap_pending (issue st' a) = snap_pending st'"
    for st' by (rule pending_cong; simp)+
  have fresh: "\<not> snap_pending st (next_addr st)" "capabilities st (next_addr st) = None"
    using addr link_cap(4) [OF link] unfolding addr_inv_def snap_pending_def
    by (metis less_irrefl option.exhaust_sel)+
  have other: "d \<noteq> next_addr st" if "writers st b = Some b" "w_capabilityRecord (writer_heap st b) = Some d"
    for b d using link_cap(1) [OF link that] fresh(2) by auto
  have "addr_inv (finish st k)" using addr unfolding addr_inv_def by simp
  show ?thesis
  proof (rule keep_coord_inv [OF inv])
    show "same_registry st (issue (finish st k) a)"
      using assms(4) by (auto simp: same_registry_def)
    show "link_inv (issue (finish st k) a)"
      by (rule link_issue [OF link_finish [OF link] \<open>addr_inv (finish st k)\<close>]) (simp_all add: fr)
    show "row (issue (finish st k) a) b" if "writers st b = Some b" "row st b" for b
      using that fr(3,5,6) f assms(4) fresh(1) other [OF that(1)]
      by (cases "b = a") (auto simp: row_def cap_of_def snap_of_def pend pend_issue split: option.splits)
  qed (use fr(2) in \<open>auto split: if_splits\<close>)
qed

lemma stop_resumed_state:
  assumes "stopAndIssueCapability_resumed st k a out = (res, st')"
  shows "st' = (if \<not> stop_confirmed out then stop_failed (finish st k) a
      else if w_state (writer_heap st a) \<noteq> Stopping
      then upd_writer (finish st k) a (\<lambda>r. r\<lparr>w_stopEstablished := True\<rparr>)
      else issue (finish st k) a)"
  using assms
  by (auto simp: stopAndIssueCapability_resumed_def issue_def upd_writer_def finish_def Let_def
      split: if_splits)

lemma stop_resumed_inv:
  assumes inv: "coord_inv st" and k: "calls st k = Some (Stop_awaiting a v)"
    and step: "stopAndIssueCapability_resumed st k a out = (res, st')"
  shows "coord_inv st'"
  unfolding stop_resumed_state [OF step]
  using stop_failed_inv [OF inv k] late_confirmation_inv [OF inv k] issue_inv [OF inv k] by simp

text \<open>Moving a capability and its writer together.\<close>

definition move :: "coordinator \<Rightarrow> nat \<Rightarrow> cstate \<Rightarrow> wstate \<Rightarrow> coordinator" where
  "move st c cs ws = upd_writer (upd_capability st c cs) (c_writerRecord (capability_heap st c))
     (\<lambda>r. r\<lparr>w_state := ws\<rparr>)"

lemma move_sel [simp]:
  "calls (move st c cs ws) = calls st" "capabilities (move st c cs ws) = capabilities st"
  "writers (move st c cs ws) = writers st" "disposed (move st c cs ws) = disposed st"
  "next_addr (move st c cs ws) = next_addr st"
  "stop_pending (move st c cs ws) = stop_pending st" "snap_pending (move st c cs ws) = snap_pending st"
  "c_writerRecord (capability_heap (move st c cs ws) d) = c_writerRecord (capability_heap st d)"
  "c_state (capability_heap (move st c cs ws) d) = (if d = c then cs else c_state (capability_heap st d))"
  "writer_heap (move st c cs ws) b = (if b = c_writerRecord (capability_heap st c)
     then (writer_heap st b)\<lparr>w_state := ws\<rparr> else writer_heap st b)"
  by (simp_all add: move_def)

lemma addr_move: "addr_inv st \<Longrightarrow> addr_inv (move st c cs ws)"
  unfolding move_def by (intro addr_upd_writer addr_upd_capability) simp_all

lemma link_move: "link_inv st \<Longrightarrow> link_inv (move st c cs ws)"
  unfolding move_def by (intro link_intros) simp_all

lemma same_move:
  assumes "same_registry st0 st" and "ws \<noteq> Retired"
    and "w_state (writer_heap st (c_writerRecord (capability_heap st c))) \<noteq> Retired"
  shows "same_registry st0 (move st c cs ws)"
  unfolding move_def using assms by (intro same_intros) simp_all

lemma row_move:
  assumes link: "link_inv st" and c: "capabilities st c = Some c" and b: "writers st b = Some b"
  shows "b \<noteq> c_writerRecord (capability_heap st c) \<Longrightarrow> row (move st c cs ws) b = row st b"
    and "b = c_writerRecord (capability_heap st c) \<Longrightarrow> row (move st c cs ws) b =
      control ws (w_stopEstablished (writer_heap st b)) (Some cs) (stop_pending st b) (snap_pending st c)"
proof -
  note own = link_cap(1) [OF link b] and cap = link_cap(2) [OF link c refl]
  show "row (move st c cs ws) b = row st b" if "b \<noteq> c_writerRecord (capability_heap st c)"
    using that own by (auto simp: row_def move_def cap_of_def snap_of_def split: option.splits)
  show "row (move st c cs ws) b =
      control ws (w_stopEstablished (writer_heap st b)) (Some cs) (stop_pending st b) (snap_pending st c)"
    if "b = c_writerRecord (capability_heap st c)"
    using that cap by (simp add: row_def move_def cap_of_def snap_of_def)
qed

lemma move_inv:
  assumes inv: "coord_inv st" and c: "capabilities st c = Some c"
    and "ws \<noteq> Retired" and "w_state (writer_heap st (c_writerRecord (capability_heap st c))) \<noteq> Retired"
    and row: "\<And>b. b = c_writerRecord (capability_heap st c) \<Longrightarrow> row st b \<Longrightarrow>
      control ws (w_stopEstablished (writer_heap st b)) (Some cs) (stop_pending st b) (snap_pending st c)"
  shows "coord_inv (move st c cs ws)"
proof (rule keep_coord_inv [OF inv])
  have link: "link_inv st" and "disposed_inv st" using inv by (simp_all add: coord_inv_def)
  with c show "\<not> disposed st" using inv_not_disposed by blast
  show "same_registry st (move st c cs ws)" by (rule same_move [OF same_refl assms(3,4)])
  show "link_inv (move st c cs ws)" by (rule link_move [OF link])
  show "row (move st c cs ws) b" if "writers st b = Some b" "row st b" for b
    using row_move [OF link c that(1)] row [of b] that(2) by (cases "b = c_writerRecord (capability_heap st c)") simp_all
qed simp_all

lemma issued_facts:
  assumes inv: "coord_inv st" and c: "capabilities st c = Some c" "c_state (capability_heap st c) = C_issued"
  shows "w_state (writer_heap st (c_writerRecord (capability_heap st c))) = Issued"
    and "\<not> snap_pending st c"
proof -
  have link: "link_inv st" using inv by (simp add: coord_inv_def)
  note cap = link_cap(2) [OF link c(1) refl]
  have "row st (c_writerRecord (capability_heap st c))" using cap by (intro row_at [OF inv]) simp
  then show "w_state (writer_heap st (c_writerRecord (capability_heap st c))) = Issued" "\<not> snap_pending st c"
    using cap c(2)
    by (cases "w_state (writer_heap st (c_writerRecord (capability_heap st c)))";
        simp add: row_def cap_of_def snap_of_def)+
qed

lemma weakMapGet_Some: "weakMapGet m v = Some c \<Longrightarrow> \<exists>n. v = JOpaque n \<and> m n = Some c"
  by (cases v) (simp_all add: weakMapGet_def)

lemma consume_found_cap:
  assumes "addr_inv st" and "consume_found st options = Inr (opts, c)"
  shows "capabilities st c = Some c" and "c_state (capability_heap st c) = C_issued"
proof -
  from assms(2) have "weakMapGet (capabilities st) (fld opts ''capability'') = Some c"
    and "c_state (capability_heap st c) = C_issued"
    unfolding consume_found_def by (auto split: option.splits)
  then obtain n where "capabilities st n = Some c" using weakMapGet_Some by blast
  moreover from this have "n = c" using assms(1) unfolding addr_inv_def by blast
  ultimately show "capabilities st c = Some c" by simp
  show "c_state (capability_heap st c) = C_issued" by fact
qed

lemma consume_begin_cases:
  assumes "addr_inv st" and "consumeCapability_begin st options = (res, st')"
  obtains (same) e where "res = Inl e" "st' = st"
  | (reject) c where "capabilities st c = Some c" "c_state (capability_heap st c) = C_issued"
      "res = Inl Stopped_writer_capability_rejected" "st' = move st c C_revoked Revoked"
  | (run) c opts runSnapshot where "capabilities st c = Some c" "c_state (capability_heap st c) = C_issued"
      "consume_found st options = Inr (opts, c)" "consume_checked st opts c = Inr runSnapshot"
      "st' = snd (suspend (move st c C_consuming Consuming) (Snapshot_calling c))"
proof (cases "consume_found st options")
  case (Inl e)
  with assms(2) same show thesis by (auto simp: consumeCapability_begin_def)
next
  case (Inr x)
  obtain opts c where x: "x = (opts, c)" by (cases x)
  note cap = consume_found_cap [OF assms(1) Inr [unfolded x]]
  show thesis
  proof (cases "consume_checked st opts c")
    case Inl
    with assms(2) Inr x cap reject show thesis by (simp add: consumeCapability_begin_def move_def Let_def)
  next
    case (Inr run)
    with assms(2) \<open>consume_found st options = Inr x\<close> x cap show thesis
      by (intro that(3) [of c opts run])
        (simp_all add: consumeCapability_begin_def move_def Let_def suspend_def)
  qed
qed

lemma consume_begin_inv:
  assumes inv: "coord_inv st" and step: "consumeCapability_begin st options = (res, st')"
  shows "coord_inv st'"
proof -
  have addr: "addr_inv st" and link: "link_inv st" using inv by (simp_all add: coord_inv_def)
  from addr step show ?thesis
  proof (cases rule: consume_begin_cases)
    case same
    with inv show ?thesis by simp
  next
    case (reject c)
    note iss = issued_facts [OF inv reject(1,2)]
    show ?thesis unfolding reject(4)
      by (rule move_inv [OF inv reject(1)]) (use iss in \<open>auto simp: row_def\<close>)
  next
    case (run c opts runSnapshot)
    note iss = issued_facts [OF inv run(1,2)]
    let ?st1 = "move st c C_consuming Consuming"
    have nd: "\<not> disposed st" 
      using inv inv_not_disposed [of st _ _ c] run(1) by (simp add: coord_inv_def)
    show ?thesis unfolding run(5)
    proof (rule keep_coord_inv [OF inv _ _ nd])
      show "same_registry st (snd (suspend ?st1 (Snapshot_calling c)))"
        using iss by (intro same_suspend same_move same_refl) simp_all
      show "link_inv (snd (suspend ?st1 (Snapshot_calling c)))"
        using iss run(1) by (intro link_suspend link_move link) simp_all
      show "row (snd (suspend ?st1 (Snapshot_calling c))) b" if b: "writers st b = Some b" "row st b" for b
      proof (cases "b = c_writerRecord (capability_heap st c)")
        case True
        with b iss show ?thesis
          using link_cap(2) [OF link run(1) True]
          by (simp add: row_def cap_of_def snap_of_def pending_suspend [OF addr_move [OF addr]])
      next
        case False
        have "row (snd (suspend ?st1 (Snapshot_calling c))) b = row ?st1 b"
          using link_cap(1) [OF link b(1)] False
          by (auto simp: row_def cap_of_def snap_of_def pending_suspend [OF addr_move [OF addr]]
              split: option.splits)
        with row_move(1) [OF link run(1) b(1) False] b(2) show ?thesis by simp
      qed
    qed (auto split: if_splits)
  qed
qed

lemma snap_frame_facts:
  assumes inv: "coord_inv st" and k: "calls st k = Some f" and f: "frame_snap f = Some c"
  shows "capabilities st c = Some c" and "frame_stop f = None"
    and "w_state (writer_heap st (c_writerRecord (capability_heap st c))) = Consuming"
proof -
  have link: "link_inv st" using inv by (simp add: coord_inv_def)
  show c: "capabilities st c = Some c" by (rule link_cap(4) [OF link k f])
  from f show "frame_stop f = None" by (cases f) auto
  note cap = link_cap(2) [OF link c refl]
  have "snap_pending st c" using k f by (auto simp: snap_pending_def)
  moreover have "row st (c_writerRecord (capability_heap st c))" using cap by (intro row_at [OF inv]) simp
  ultimately show "w_state (writer_heap st (c_writerRecord (capability_heap st c))) = Consuming"
    using cap by (cases "w_state (writer_heap st (c_writerRecord (capability_heap st c)))")
      (simp_all add: row_def cap_of_def snap_of_def)
qed

text \<open>The end of a consumption, with a result or uncertain.\<close>

lemma consumption_ends_inv:
  assumes inv: "coord_inv st" and k: "calls st k = Some f" and f: "frame_snap f = Some c"
    and ws: "ws = Consumed \<or> ws = Snapshot_uncertain"
  shows "coord_inv (move (finish st k) c C_consumed ws)" (is "coord_inv ?st'")
proof -
  have link: "link_inv st" and disp: "disposed_inv st" using inv by (simp_all add: coord_inv_def)
  note fr = snap_frame_facts [OF inv k f] and pend = pending_finish [OF link k]
  have own: "c_writerRecord (capability_heap st d) = b"
    if "writers st b = Some b" "w_capabilityRecord (writer_heap st b) = Some d" for b d
    using link_cap(1) [OF link that] by simp
  show ?thesis
  proof (rule keep_coord_inv [OF inv])
    show "\<not> disposed st" using disp k inv_not_disposed by blast
    show "same_registry st ?st'" by (intro same_move same_finish same_refl) (use ws fr in auto)
    show "link_inv ?st'" by (intro link_move link_finish link)
    show "row ?st' b" if b: "writers st b = Some b" "row st b" for b
    proof (cases "b = c_writerRecord (capability_heap st c)")
      case True
      with b(2) link_cap(2) [OF link fr(1) True] fr(2,3) f ws show ?thesis
        by (auto simp: row_def cap_of_def snap_of_def pend)
    next
      case False
      with b own [OF b(1)] fr(2) f show ?thesis
        by (auto simp: row_def cap_of_def snap_of_def pend split: option.splits)
    qed
  qed (auto split: if_splits)
qed

lemma snapshot_failed_move: "snapshot_failed st c = move st c C_consumed Snapshot_uncertain"
  by (simp add: snapshot_failed_def move_def)

lemma consume_returned_inv:
  assumes inv: "coord_inv st" and k: "calls st k = Some (Snapshot_calling c)"
    and step: "consumeCapability_returned st k c ret = (res, st')"
  shows "coord_inv st'"
proof -
  have "coord_inv (snapshot_failed (finish st k) c)"
    unfolding snapshot_failed_move by (rule consumption_ends_inv [OF inv k]) simp_all
  moreover have "coord_inv (st\<lparr>calls := (calls st)(k \<mapsto> Snapshot_awaiting c v)\<rparr>)" for v
    by (rule swap_inv [OF inv k]) simp_all
  ultimately show ?thesis using step
    by (auto simp: consumeCapability_returned_def split: callback_return.splits if_splits)
qed

lemma consume_resumed_state:
  assumes "consumeCapability_resumed st k c out = (res, st')"
  shows "st' = move (finish st k) c C_consumed Consumed \<or>
      st' = move (finish st k) c C_consumed Snapshot_uncertain"
  using assms unfolding consumeCapability_resumed_def snapshot_failed_move Let_def
  by (simp add: move_def split: settlement.splits if_splits)

lemma consume_resumed_inv:
  assumes inv: "coord_inv st" and k: "calls st k = Some (Snapshot_awaiting c v)"
    and step: "consumeCapability_resumed st k c out = (res, st')"
  shows "coord_inv st'"
proof -
  have "coord_inv (move (finish st k) c C_consumed ws)" if "ws = Consumed \<or> ws = Snapshot_uncertain" for ws
    by (rule consumption_ends_inv [OF inv k _ that]) simp
  with consume_resumed_state [OF step] show ?thesis by auto
qed

text \<open>Revocation.\<close>

lemma revoke_cases:
  assumes "addr_inv st" and "revokeWriter st options = (res, st')"
  obtains (same) "st' = st"
  | (request) a where "writers st a = Some a" "w_state (writer_heap st a) = Consuming" "res = None"
      "st' = upd_writer st a (\<lambda>r. r\<lparr>w_revocationRequested := True\<rparr>)"
  | (revoke) a where "writers st a = Some a" "res = None"
      "w_state (writer_heap st a) \<in> {Running, Stopping, Issued, Stop_uncertain}"
      "st' = upd_writer (case w_capabilityRecord (writer_heap st a) of
          Some c \<Rightarrow> if c_state (capability_heap st c) = C_issued then upd_capability st c C_revoked else st
        | None \<Rightarrow> st) a (\<lambda>r. r\<lparr>w_state := Revoked\<rparr>)"
proof (cases "writer_request st options")
  case (Inl e)
  with assms(2) same show thesis by (auto simp: revokeWriter_def)
next
  case (Inr a)
  then have "\<exists>w p q. authenticateWriter st w p q = Inr a" by (auto simp: writer_request_def)
  with auth_registered [OF assms(1)] have a: "writers st a = Some a" by blast
  note step = assms(2) [unfolded revokeWriter_def Inr sum.case Let_def]
  consider "w_state (writer_heap st a) = Consuming"
    | "w_state (writer_heap st a) \<noteq> Consuming"
      "w_state (writer_heap st a) \<in> {Running, Stopping, Issued, Stop_uncertain}"
    | "w_state (writer_heap st a) \<noteq> Consuming"
      "w_state (writer_heap st a) \<notin> {Running, Stopping, Issued, Stop_uncertain}" by blast
  then show thesis
  proof cases
    case 1
    then show thesis using request [OF a] step by simp
  next
    case 2
    then show thesis using revoke [OF a _ 2(2)] step by (simp del: insert_iff)
  next
    case 3
    then show thesis using same step by (simp del: insert_iff)
  qed
qed

lemma revoke_inv:
  assumes inv: "coord_inv st" and step: "revokeWriter st options = (res, st')"
  shows "coord_inv st'"
proof -
  have addr: "addr_inv st" and link: "link_inv st" and disp: "disposed_inv st"
    using inv by (simp_all add: coord_inv_def)
  have nd: "\<not> disposed st" if "writers st a = Some a" for a
    using disp that inv_not_disposed by blast
  from addr step show ?thesis
  proof (cases rule: revoke_cases)
    case same
    with inv show ?thesis by simp
  next
    case (request a)
    have same_row: "row (upd_writer st a (\<lambda>r. r\<lparr>w_revocationRequested := True\<rparr>)) b = row st b" for b
      by (cases "b = a") (auto simp: row_def cap_of_def snap_of_def split: option.splits)
    show ?thesis unfolding request(4)
    proof (rule keep_coord_inv [OF inv _ _ nd [OF request(1)]])
      show "link_inv (upd_writer st a (\<lambda>r. r\<lparr>w_revocationRequested := True\<rparr>))"
        by (intro link_upd_writer link) simp
    qed (use same_row in \<open>auto intro!: same_intros\<close>)
  next
    case (revoke a)
    note row = row_at [OF inv revoke(1)]
    show ?thesis
    proof (cases "w_capabilityRecord (writer_heap st a)")
      case None
      show ?thesis unfolding revoke(4) None option.case
        by (rule keep_coord_inv [OF inv _ _ nd [OF revoke(1)]], intro same_intros)
          (use revoke(3) row None in \<open>auto simp: row_def cap_of_def snap_of_def intro!: link_upd_writer link
              split: option.splits\<close>)
    next
      case (Some c)
      note cap = link_cap(1) [OF link revoke(1) Some]
      have iss: "c_state (capability_heap st c) = C_issued"
        using row revoke(3) Some by (auto simp: row_def cap_of_def)
      have "st' = move st c C_revoked Revoked"
        using cap iss unfolding revoke(4) Some by (simp add: move_def)
      moreover have "coord_inv (move st c C_revoked Revoked)"
        by (rule move_inv [OF inv]) (use cap issued_facts [OF inv _ iss] in \<open>auto simp: row_def\<close>)
      ultimately show ?thesis by simp
    qed
  qed
qed

text \<open>Disposal: nothing is live, so nothing is suspended.\<close>

lemma frame_kind: "(\<exists>a. frame_stop f = Some a) \<or> (\<exists>c. frame_snap f = Some c)"
  by (cases f) auto

lemma suspended_live:
  assumes inv: "coord_inv st" and k: "calls st k = Some f"
  obtains a where "live st a"
proof -
  have link: "link_inv st" using inv by (simp add: coord_inv_def)
  from frame_kind [of f] consider a where "frame_stop f = Some a" | c where "frame_snap f = Some c" by blast
  then show thesis
  proof cases
    case (1 a)
    show thesis
      by (rule that [of a]) (use stop_frame_facts(1,3) [OF inv k 1] in \<open>auto simp: live_def\<close>)
  next
    case (2 c)
    note fr = snap_frame_facts [OF inv k 2]
    show thesis
      by (rule that [of "c_writerRecord (capability_heap st c)"]) (use fr link_cap(2) [OF link fr(1) refl] in \<open>simp add: live_def\<close>)
  qed
qed

lemma dispose_inv:
  assumes inv: "coord_inv st" and step: "dispose st argc = (res, st')"
  shows "coord_inv st'"
proof (cases "st' = st")
  case False
  with step have st': "st' = st\<lparr>disposed := True, activeWritersBySession := (\<lambda>_. None),
       capabilities := (\<lambda>_. None), slots := (\<lambda>_. None), writers := (\<lambda>_. None)\<rparr>"
    and zero: "activeWriters st = 0"
    by (auto simp: dispose_def split: option.splits)
  have "{a. live st a} = {}"
    using inv zero by (auto simp: coord_inv_def registry_inv_def count_inv_def)
  then have "calls st k = None" for k
    using suspended_live [OF inv] by (metis empty_Collect_eq option.exhaust)
  with zero show ?thesis
    by (simp add: st' coord_inv_def addr_inv_def registry_inv_def slot_inv_def count_inv_def epoch_inv_def
        table_inv_def link_inv_def disposed_inv_def live_def findSlot_def)
qed (use inv in simp)

section \<open>Retirement\<close>

definition retired :: "coordinator \<Rightarrow> nat \<Rightarrow> coordinator" where
  "retired st a = (upd_writer st a (\<lambda>r. r\<lparr>w_state := Retired\<rparr>))\<lparr>
     slot_heap := (slot_heap st)(w_slot (writer_heap st a) :=
       \<lparr>s_current = None, s_lastFencingEpoch = Some (w_epoch st a)\<rparr>),
     activeWriters := activeWriters st - 1,
     activeWritersBySession := (activeWritersBySession st)(w_session st a := None)\<rparr>"

lemma retire_cases:
  assumes inv: "coord_inv st" and step: "retireWriter st options = (res, st')"
  obtains (same) e where "res = Some e" "st' = st"
  | (retire) a where "writers st a = Some a" "res = None" "writer_request st options = Inr a"
      "w_state (writer_heap st a) = Consumed \<or>
         w_state (writer_heap st a) = Revoked \<and> w_stopEstablished (writer_heap st a)"
      "st' = retired st a"
proof (cases "res = None")
  case False
  with step same show thesis
    by (auto simp: retireWriter_def Let_def split: sum.splits option.splits if_splits)
next
  case True
  with step obtain a where req: "writer_request st options = Inr a"
    by (auto simp: retireWriter_def split: sum.splits)
  then have "\<exists>w p q. authenticateWriter st w p q = Inr a" by (auto simp: writer_request_def)
  with auth_registered inv have a: "writers st a = Some a" by (auto simp: coord_inv_def)
  note step' = step [unfolded retireWriter_def req sum.case Let_def True]
  from step' have st: "w_state (writer_heap st a) = Consumed \<or>
      w_state (writer_heap st a) = Revoked \<and> w_stopEstablished (writer_heap st a)"
    by (auto split: if_splits)
  then have "live st a" using a by (auto simp: live_def)
  then have "activeWritersBySession st (w_session st a) = Some 1"
    using inv by (auto simp: coord_inv_def registry_inv_def count_inv_def)
  with step' st show thesis
    by (intro retire [OF a True req st])
      (auto simp: w_session_def w_epoch_def retired_def split: if_splits)
qed

lemma retired_sel:
  "live (retired st a) b \<longleftrightarrow> live st b \<and> b \<noteq> a" "w_session (retired st a) = w_session st"
  "w_epoch (retired st a) = w_epoch st" "writers (retired st a) = writers st"
  "slots (retired st a) = slots st" "calls (retired st a) = calls st"
  "w_slot (writer_heap (retired st a) b) = w_slot (writer_heap st b)"
  "w_attachment (writer_heap (retired st a) b) = w_attachment (writer_heap st b)"
  "slot_of (retired st a) b = (if w_slot (writer_heap st b) = w_slot (writer_heap st a)
      then \<lparr>s_current = None, s_lastFencingEpoch = Some (w_epoch st a)\<rparr> else slot_of st b)"
  "slot_heap (retired st a) s = (if s = w_slot (writer_heap st a)
      then \<lparr>s_current = None, s_lastFencingEpoch = Some (w_epoch st a)\<rparr> else slot_heap st s)"
  by (auto simp: retired_def live_def w_session_def w_epoch_def slot_of_def fun_eq_iff)

lemma slot_apart:
  assumes "slot_inv st" and "live st a" "live st b" "b \<noteq> a"
  shows "w_slot (writer_heap st b) \<noteq> w_slot (writer_heap st a)"
  using assms unfolding slot_inv_def slot_of_def by (metis option.inject)

lemma retired_slots: "slot_inv st \<Longrightarrow> live st a \<Longrightarrow> slot_inv (retired st a)"
  using slot_apart [of st a] unfolding slot_inv_def retired_sel by auto

lemma retired_count:
  assumes "count_inv st" and "live st a"
  shows "count_inv (retired st a)"
proof -
  have "{b. live st b \<and> b \<noteq> a} = {b. live st b} - {a}" by auto
  moreover have "0 < card {b. live st b}" using assms by (auto simp: count_inv_def card_gt_0_iff)
  ultimately show ?thesis
    using assms unfolding count_inv_def retired_sel
    by (auto simp: retired_def card_Diff_singleton_if)
qed

lemma retired_epoch:
  assumes slot: "slot_inv st" and epoch: "epoch_inv st" and a: "live st a"
  shows "epoch_inv (retired st a)"
proof -
  have reg: "writers st a = Some a" using a by (simp add: live_def)
  have attained: "\<exists>b. writers st b = Some b \<and> \<not> (live st b \<and> b \<noteq> a) \<and> w_slot (writer_heap st b) = s \<and>
      w_epoch st b = e"
    if f: "findSlot (slots st) x = Some s" "s_lastFencingEpoch (slot_heap (retired st a) s) = Some e" for x s e
  proof (cases "s = w_slot (writer_heap st a)")
    case True
    with f(2) reg show ?thesis by (intro exI [of _ a]) (simp add: retired_sel)
  next
    case False
    with f have "s_lastFencingEpoch (slot_heap st s) = Some e" by (simp add: retired_sel)
    with f(1) epoch show ?thesis unfolding epoch_inv_def by blast
  qed
  have above: "epoch_num e < epoch_num (w_epoch st b)"
    if "live st b \<and> b \<noteq> a" "s_lastFencingEpoch (slot_of (retired st a) b) = Some e" for b e
    using that slot_apart [OF slot a, of b] epoch by (auto simp: retired_sel epoch_inv_def)
  have below: "\<exists>e. s_lastFencingEpoch (slot_of (retired st a) b) = Some e \<and>
      epoch_num (w_epoch st b) \<le> epoch_num e"
    if b: "writers st b = Some b" "\<not> (live st b \<and> b \<noteq> a)" for b
  proof (cases "b = a")
    case False
    with b epoch obtain e where e: "s_lastFencingEpoch (slot_of st b) = Some e"
        "epoch_num (w_epoch st b) \<le> epoch_num e"
      unfolding epoch_inv_def by blast
    have "epoch_num e < epoch_num (w_epoch st a)" if "w_slot (writer_heap st b) = w_slot (writer_heap st a)"
    proof -
      have "slot_of st a = slot_of st b" using that by (simp add: slot_of_def)
      with a e(1) epoch show ?thesis unfolding epoch_inv_def by simp
    qed
    with e show ?thesis by (auto simp: retired_sel)
  qed (simp add: retired_sel)
  show ?thesis
    using epoch attained above below unfolding epoch_inv_def retired_sel(1-5,7) by blast
qed

lemma retired_links:
  assumes "table_inv st" and "link_inv st"
    and "w_state (writer_heap st a) = Consumed \<or>
      w_state (writer_heap st a) = Revoked \<and> w_stopEstablished (writer_heap st a)"
  shows "table_inv (retired st a)" and "link_inv (retired st a)"
proof -
  have "row (retired st a) b" if "writers st b = Some b" for b
  proof -
    have "row st b" using assms(1) that by (simp add: table_rows)
    then show ?thesis
      using assms(3) pending_cong [OF retired_sel(6), of st a]
      by (auto simp: retired_def row_def cap_of_def snap_of_def split: option.splits)
  qed
  then show "table_inv (retired st a)" by (simp add: table_rows retired_sel)
  show "link_inv (retired st a)" by (rule link_cong [OF assms(2)]) (auto simp: retired_def)
qed

lemma retire_inv:
  assumes inv: "coord_inv st" and step: "retireWriter st options = (res, st')"
  shows "coord_inv st'"
  using inv step
proof (cases rule: retire_cases)
  case (retire a)
  have parts: "addr_inv st" "slot_inv st" "count_inv st" "epoch_inv st" "table_inv st" "link_inv st"
      "disposed_inv st"
    using inv by (simp_all add: coord_inv_def registry_inv_def)
  have a: "live st a" using retire(1,4) by (auto simp: live_def)
  have "addr_inv (retired st a)" using parts(1) unfolding addr_inv_def by (simp add: retired_def)
  moreover have "disposed_inv (retired st a)"
    using parts(7) retire(1) by (auto simp: disposed_inv_def retired_def)
  ultimately show ?thesis
    using retired_slots [OF parts(2) a] retired_count [OF parts(3) a] retired_epoch [OF parts(2,4) a]
      retired_links [OF parts(5,6) retire(4)]
    by (simp add: retire(5) coord_inv_def registry_inv_def)
qed (use inv in simp)

section \<open>Registration\<close>

definition entry_slot :: "coordinator \<Rightarrow> jsval \<Rightarrow> nat" where
  "entry_slot st att = (case findSlot (slots st) att of Some s \<Rightarrow> s | None \<Rightarrow> Suc (next_addr st))"

definition entry_last :: "coordinator \<Rightarrow> jsval \<Rightarrow> jsval option" where
  "entry_last st att = (case findSlot (slots st) att of
     Some s \<Rightarrow> s_lastFencingEpoch (slot_heap st s) | None \<Rightarrow> None)"

definition entry_state :: "coordinator \<Rightarrow> jsval \<Rightarrow> coordinator" where
  "entry_state st att = (case findSlot (slots st) att of
     Some s \<Rightarrow> st\<lparr>next_addr := Suc (next_addr st)\<rparr>
   | None \<Rightarrow> snd (createSlot (st\<lparr>next_addr := Suc (next_addr st)\<rparr>) att))"

lemma findSlot_key: "same_slot_key x y \<Longrightarrow> findSlot m x = findSlot m y"
  unfolding findSlot_def same_slot_key_def by (auto split: option.splits)

lemma createSlot_find:
  "findSlot (slots (snd (createSlot st att))) x =
     (if same_slot_key x att then Some (next_addr st) else findSlot (slots st) x)"
  by (auto simp: createSlot_def Let_def findSlot_def same_slot_key_def split: option.splits)

lemma entry_sel [simp]:
  "writers (entry_state st att) = writers st" "writer_heap (entry_state st att) = writer_heap st"
  "capabilities (entry_state st att) = capabilities st"
  "capability_heap (entry_state st att) = capability_heap st"
  "calls (entry_state st att) = calls st" "disposed (entry_state st att) = disposed st"
  "activeWriters (entry_state st att) = activeWriters st"
  "activeWritersBySession (entry_state st att) = activeWritersBySession st"
  by (cases "findSlot (slots st) att"; simp add: entry_state_def createSlot_def Let_def)+

lemma entry_slots:
  "findSlot (slots (entry_state st att)) x =
     (if same_slot_key x att then Some (entry_slot st att) else findSlot (slots st) x)"
  using findSlot_key [of x att "slots st"]
  by (cases "findSlot (slots st) att") (simp_all add: entry_state_def entry_slot_def createSlot_find)

lemma entry_heap:
  "slot_heap (entry_state st att) t = (if t = entry_slot st att \<and> findSlot (slots st) att = None
     then \<lparr>s_current = None, s_lastFencingEpoch = None\<rparr> else slot_heap st t)"
  by (cases "findSlot (slots st) att") (simp_all add: entry_state_def entry_slot_def createSlot_def Let_def)

lemma entry_next:
  assumes "addr_inv st"
  shows "next_addr st < next_addr (entry_state st att)" and "entry_slot st att < next_addr (entry_state st att)"
    and "entry_slot st att \<noteq> next_addr st"
proof -
  have "s < next_addr st" if "findSlot (slots st) att = Some s" for s
    using assms that unfolding addr_inv_def by blast
  then show "next_addr st < next_addr (entry_state st att)" "entry_slot st att < next_addr (entry_state st att)"
    "entry_slot st att \<noteq> next_addr st"
    by (cases "findSlot (slots st) att"; fastforce simp: entry_state_def entry_slot_def createSlot_def Let_def)+
qed

lemma insert_eq:
  "insert_writer st att fence p w stop = (JOpaque (next_addr st), (entry_state st att)\<lparr>
     writers := (writers st)(next_addr st \<mapsto> next_addr st),
     writer_heap := (writer_heap st)(next_addr st :=
       \<lparr>w_attachment = att, w_capabilityRecord = None, w_handle = JOpaque (next_addr st),
        w_processIncarnationId = p, w_revocationRequested = False, w_slot = entry_slot st att,
        w_state = Running, w_stopEstablished = False, w_stopOperationId = JNull, w_stopWriter = stop,
        w_writerFence = fence, w_writerIncarnationId = w\<rparr>),
     slot_heap := (slot_heap (entry_state st att))(entry_slot st att :=
       (slot_heap (entry_state st att) (entry_slot st att))\<lparr>s_current := Some (next_addr st)\<rparr>),
     activeWriters := activeWriters st + 1,
     activeWritersBySession := (activeWritersBySession st)(fld att ''sessionId'' \<mapsto>
       active_in_session st (fld att ''sessionId'') + 1)\<rparr>)"
  by (cases "findSlot (slots st) att")
    (simp_all add: insert_writer_def entry_state_def entry_slot_def createSlot_def active_in_session_def Let_def)

lemma epoch_num_parse: "parseFencingEpochW e = Inr n \<Longrightarrow> epoch_num e = n"
  by (auto simp: writer_epochs.parse_iff epoch_num_def str_of_def dec_val_of)

lemma epoch_advances_less:
  assumes "epoch_advances x (Some e) = None"
  shows "epoch_num e < epoch_num x"
proof -
  obtain c where c: "compareFencingEpochsW x e = Inr c" "c > 0"
    using assms by (auto simp: epoch_advances_def split: sum.splits)
  then obtain m n where "parseFencingEpochW x = Inr m" "parseFencingEpochW e = Inr n"
    using writer_epochs.compare_parsed by blast
  with c show ?thesis using writer_epochs.compare_later epoch_num_parse by metis
qed

lemma register_checked_facts:
  assumes "register_checked st options = Inr (att, fence, p, w, stop)"
  shows "\<not> disposed st" and "active_in_session st (fld att ''sessionId'') = 0"
    and "\<exists>n. parseFencingEpochW (fld fence ''fencingEpoch'') = Inr n"
    and "\<And>s. findSlot (slots st) att = Some s \<Longrightarrow> s_current (slot_heap st s) = None"
    and "epoch_advances (fld fence ''fencingEpoch'') (entry_last st att) = None"
    and "\<exists>a l. normalizeBinding a l = Inr (att, fence)"
proof -
  have "epoch_advances x None = None" for x by (simp add: epoch_advances_def)
  then show "\<not> disposed st" "active_in_session st (fld att ''sessionId'') = 0"
    "\<exists>n. parseFencingEpochW (fld fence ''fencingEpoch'') = Inr n"
    "\<And>s. findSlot (slots st) att = Some s \<Longrightarrow> s_current (slot_heap st s) = None"
    "epoch_advances (fld fence ''fencingEpoch'') (entry_last st att) = None"
    "\<exists>a l. normalizeBinding a l = Inr (att, fence)"
    using assms unfolding register_checked_def register_admit_def Let_def entry_last_def
    by (auto split: prod.splits option.splits)
qed

text \<open>The state after registration.\<close>

definition registers :: "coordinator \<Rightarrow> jsval \<Rightarrow> jsval \<Rightarrow> coordinator \<Rightarrow> bool" where
  "registers st att fence st' \<longleftrightarrow> coord_inv st \<and> (\<exists>options p w stop.
     register_checked st options = Inr (att, fence, p, w, stop) \<and>
     insert_writer st att fence p w stop = (JOpaque (next_addr st), st'))"

lemma registers_parts:
  assumes "registers st att fence st'"
  shows "addr_inv st" "slot_inv st" "count_inv st" "epoch_inv st" "table_inv st" "link_inv st"
    and "\<not> disposed st" and "active_in_session st (fld att ''sessionId'') = 0"
    and "\<exists>n. parseFencingEpochW (fld fence ''fencingEpoch'') = Inr n"
    and "\<And>s. findSlot (slots st) att = Some s \<Longrightarrow> s_current (slot_heap st s) = None"
    and "epoch_advances (fld fence ''fencingEpoch'') (entry_last st att) = None"
    and "writers st (next_addr st) = None"
proof -
  obtain options p w stop where rc: "register_checked st options = Inr (att, fence, p, w, stop)"
    using assms unfolding registers_def by blast
  show inv: "addr_inv st" "slot_inv st" "count_inv st" "epoch_inv st" "table_inv st" "link_inv st"
    using assms by (simp_all add: registers_def coord_inv_def registry_inv_def)
  show "\<not> disposed st" "active_in_session st (fld att ''sessionId'') = 0"
    "\<exists>n. parseFencingEpochW (fld fence ''fencingEpoch'') = Inr n"
    "\<And>s. findSlot (slots st) att = Some s \<Longrightarrow> s_current (slot_heap st s) = None"
    "epoch_advances (fld fence ''fencingEpoch'') (entry_last st att) = None"
    using register_checked_facts [OF rc] by blast+
  have "\<not> next_addr st < next_addr st" by simp
  with inv(1) show "writers st (next_addr st) = None" unfolding addr_inv_def by (metis option.exhaust)
qed

lemma registers_sel:
  assumes "registers st att fence st'"
  shows "writers st' = (writers st)(next_addr st \<mapsto> next_addr st)"
    and "\<And>b. b \<noteq> next_addr st \<Longrightarrow> writer_heap st' b = writer_heap st b"
    and "w_attachment (writer_heap st' (next_addr st)) = att" "w_state (writer_heap st' (next_addr st)) = Running"
    "w_slot (writer_heap st' (next_addr st)) = entry_slot st att"
    "w_writerFence (writer_heap st' (next_addr st)) = fence"
    "w_handle (writer_heap st' (next_addr st)) = JOpaque (next_addr st)"
    "w_capabilityRecord (writer_heap st' (next_addr st)) = None"
    "\<not> w_stopEstablished (writer_heap st' (next_addr st))"
    and "\<And>x. findSlot (slots st') x =
      (if same_slot_key x att then Some (entry_slot st att) else findSlot (slots st) x)"
    and "capabilities st' = capabilities st" "capability_heap st' = capability_heap st" "calls st' = calls st"
    "disposed st' = disposed st" "activeWriters st' = activeWriters st + 1"
    "activeWritersBySession st' = (activeWritersBySession st)(fld att ''sessionId'' \<mapsto> 1)"
    "next_addr st < next_addr st'" "entry_slot st att < next_addr st'"
    and "\<And>t. slot_heap st' t = (if t = entry_slot st att
      then \<lparr>s_current = Some (next_addr st), s_lastFencingEpoch = entry_last st att\<rparr> else slot_heap st t)"
proof -
  note parts = registers_parts [OF assms]
  obtain p w stop where st': "st' = snd (insert_writer st att fence p w stop)"
    using assms unfolding registers_def by (metis snd_conv)
  note ok = entry_next [OF parts(1), of att] parts(8)
  show "writers st' = (writers st)(next_addr st \<mapsto> next_addr st)"
    "\<And>b. b \<noteq> next_addr st \<Longrightarrow> writer_heap st' b = writer_heap st b"
    "w_attachment (writer_heap st' (next_addr st)) = att" "w_state (writer_heap st' (next_addr st)) = Running"
    "w_slot (writer_heap st' (next_addr st)) = entry_slot st att"
    "w_writerFence (writer_heap st' (next_addr st)) = fence"
    "w_handle (writer_heap st' (next_addr st)) = JOpaque (next_addr st)"
    "w_capabilityRecord (writer_heap st' (next_addr st)) = None"
    "\<not> w_stopEstablished (writer_heap st' (next_addr st))"
    "\<And>x. findSlot (slots st') x =
      (if same_slot_key x att then Some (entry_slot st att) else findSlot (slots st) x)"
    "capabilities st' = capabilities st" "capability_heap st' = capability_heap st" "calls st' = calls st"
    "disposed st' = disposed st" "activeWriters st' = activeWriters st + 1"
    "activeWritersBySession st' = (activeWritersBySession st)(fld att ''sessionId'' \<mapsto> 1)"
    "next_addr st < next_addr st'" "entry_slot st att < next_addr st'"
    using ok unfolding st' insert_eq by (simp_all add: entry_slots)
  show "slot_heap st' t = (if t = entry_slot st att
      then \<lparr>s_current = Some (next_addr st), s_lastFencingEpoch = entry_last st att\<rparr> else slot_heap st t)" for t
    unfolding st' insert_eq
    by (cases "findSlot (slots st) att") (simp_all add: entry_heap entry_last_def entry_slot_def)
qed

lemma registers_live:
  assumes r: "registers st att fence st'"
  shows "live st' b \<longleftrightarrow> live st b \<or> b = next_addr st"
    and "b \<noteq> next_addr st \<Longrightarrow> w_session st' b = w_session st b"
    and "b \<noteq> next_addr st \<Longrightarrow> w_epoch st' b = w_epoch st b"
    and "w_session st' (next_addr st) = fld att ''sessionId''"
    and "w_epoch st' (next_addr st) = fld fence ''fencingEpoch''"
    and "live st b \<Longrightarrow> b \<noteq> next_addr st"
    and "live st b \<Longrightarrow> w_session st b \<noteq> fld att ''sessionId''"
proof -
  note sel = registers_sel [OF r] and parts = registers_parts [OF r]
  show "live st' b \<longleftrightarrow> live st b \<or> b = next_addr st"
    by (cases "b = next_addr st") (auto simp: live_def sel)
  show "b \<noteq> next_addr st \<Longrightarrow> w_session st' b = w_session st b"
    "b \<noteq> next_addr st \<Longrightarrow> w_epoch st' b = w_epoch st b"
    "w_session st' (next_addr st) = fld att ''sessionId''"
    "w_epoch st' (next_addr st) = fld fence ''fencingEpoch''"
    by (simp_all add: w_session_def w_epoch_def sel)
  show "live st b \<Longrightarrow> b \<noteq> next_addr st" using parts(12) by (auto simp: live_def)
  show "live st b \<Longrightarrow> w_session st b \<noteq> fld att ''sessionId''"
    using parts(3,8) by (auto simp: count_inv_def active_in_session_def split: if_splits)
qed

lemma registers_slot_apart:
  assumes r: "registers st att fence st'" and b: "live st b"
  shows "w_slot (writer_heap st b) \<noteq> entry_slot st att"
proof
  note parts = registers_parts [OF r]
  assume s: "w_slot (writer_heap st b) = entry_slot st att"
  with b have f: "findSlot (slots st) (w_attachment (writer_heap st b)) = Some (entry_slot st att)"
    using parts(2) by (simp add: slot_inv_def live_def)
  then have "entry_slot st att < next_addr st" using parts(1) unfolding addr_inv_def by blast
  then have "findSlot (slots st) att = Some (entry_slot st att)"
    by (auto simp: entry_slot_def split: option.splits)
  from parts(10) [OF this] b s show False
    using parts(2) by (auto simp: slot_inv_def slot_of_def)
qed

lemma registers_addr:
  assumes r: "registers st att fence st'"
  shows "addr_inv st'"
proof -
  note sel = registers_sel [OF r] and addr = registers_parts(1) [OF r]
  have up: "n < next_addr st \<Longrightarrow> n < next_addr st'" for n using sel(17) by simp
  show ?thesis
    using addr sel(17,18) up unfolding addr_inv_def
    by (auto simp: sel split: if_splits) (metis sel(2,7))+
qed

lemma registers_slots:
  assumes r: "registers st att fence st'"
  shows "slot_inv st'"
proof -
  note sel = registers_sel [OF r] and parts = registers_parts [OF r] and lv = registers_live [OF r]
  have key: "same_slot_key x att" if "findSlot (slots st) x = Some (entry_slot st att)" for x
  proof -
    have "entry_slot st att < next_addr st" using parts(1) that unfolding addr_inv_def by blast
    then have "findSlot (slots st) att = Some (entry_slot st att)"
      by (auto simp: entry_slot_def split: option.splits)
    with that parts(2) show ?thesis unfolding slot_inv_def by blast
  qed
  have old: "findSlot (slots st) att = Some s \<Longrightarrow> s = entry_slot st att" for s by (simp add: entry_slot_def)
  have "findSlot (slots st') (w_attachment (writer_heap st' a)) = Some (w_slot (writer_heap st' a))"
    if "writers st' a = Some a" for a
  proof (cases "a = next_addr st")
    case False
    with that have "findSlot (slots st) (w_attachment (writer_heap st a)) = Some (w_slot (writer_heap st a))"
      using parts(2) by (simp add: sel slot_inv_def)
    moreover from this have "w_slot (writer_heap st a) = entry_slot st att"
      if "same_slot_key (w_attachment (writer_heap st a)) att"
      using findSlot_key [OF that, of "slots st"] by (simp add: old)
    ultimately show ?thesis using False by (simp add: sel)
  qed (simp add: sel same_slot_key_def)
  moreover have "s_current (slot_of st' a) = Some a" if "live st' a" for a
  proof (cases "a = next_addr st")
    case False
    with that have "live st a" by (simp add: lv(1))
    with registers_slot_apart [OF r this] False show ?thesis
      using parts(2) by (simp add: slot_of_def sel slot_inv_def)
  qed (simp add: slot_of_def sel)
  moreover have "live st' a \<and> w_slot (writer_heap st' a) = s"
    if "findSlot (slots st') x = Some s" "s_current (slot_heap st' s) = Some a" for x s a
  proof (cases "s = entry_slot st att")
    case False
    with that have "live st a \<and> w_slot (writer_heap st a) = s"
      using parts(2) unfolding slot_inv_def by (auto simp: sel split: if_splits)
    with lv(1,6) show ?thesis by (simp add: sel)
  qed (use that lv(1) sel(5) in \<open>auto simp: sel(19)\<close>)
  moreover have "same_slot_key x y" if "findSlot (slots st') x = Some s" "findSlot (slots st') y = Some s" for x y s
  proof (cases "s = entry_slot st att")
    case True
    with that have "same_slot_key x att" "same_slot_key y att"
      unfolding sel(10) by (auto split: if_splits intro: key)
    then show ?thesis by (simp add: same_slot_key_def)
  next
    case False
    with that have "findSlot (slots st) x = Some s" "findSlot (slots st) y = Some s"
      unfolding sel(10) by (auto split: if_splits)
    with parts(2) show ?thesis unfolding slot_inv_def by blast
  qed
  ultimately show ?thesis unfolding slot_inv_def by blast
qed

lemma registers_count:
  assumes r: "registers st att fence st'"
  shows "count_inv st'"
proof -
  note sel = registers_sel [OF r] and parts = registers_parts [OF r] and lv = registers_live [OF r]
  have set: "{a. live st' a} = insert (next_addr st) {a. live st a}" by (auto simp: lv(1))
  have nin: "next_addr st \<notin> {a. live st a}" using lv(6) by blast
  have sess: "w_session st' a = (if a = next_addr st then fld att ''sessionId'' else w_session st a)" for a
    using lv(2,4) by simp
  have "a = b" if "live st' a" "live st' b" "w_session st' a = w_session st' b" for a b
    using that lv(1,7) parts(3) unfolding count_inv_def sess by (auto split: if_splits)
  moreover have "activeWritersBySession st' x = (if \<exists>a. live st' a \<and> w_session st' a = x then Some 1 else None)" for x
  proof (cases "x = fld att ''sessionId''")
    case True
    then show ?thesis using lv(1,4) by (auto simp: sel)
  next
    case False
    then have "(\<exists>a. live st' a \<and> w_session st' a = x) \<longleftrightarrow> (\<exists>a. live st a \<and> w_session st a = x)"
      using lv(1,6) by (auto simp: sess)
    with False parts(3) show ?thesis by (simp add: sel count_inv_def)
  qed
  moreover have "finite {a. live st' a} \<and> activeWriters st' = int (card {a. live st' a})"
    using parts(3) nin unfolding set sel by (auto simp: count_inv_def)
  ultimately show ?thesis unfolding count_inv_def by blast
qed

lemma registers_epoch:
  assumes r: "registers st att fence st'"
  shows "epoch_inv st'"
proof -
  note sel = registers_sel [OF r] and parts = registers_parts [OF r] and lv = registers_live [OF r]
  have epoch: "w_epoch st' a = (if a = next_addr st then fld fence ''fencingEpoch'' else w_epoch st a)" for a
    using lv(3,5) by simp
  have reg: "writers st a = Some a" if "writers st' a = Some a" "a \<noteq> next_addr st" for a
    using that by (simp add: sel)
  have adv: "epoch_num e < epoch_num (fld fence ''fencingEpoch'')" if "entry_last st att = Some e" for e
    using parts(11) that epoch_advances_less by simp
  have slot': "slot_of st' a = slot_of st a" if "live st a" for a
    using registers_slot_apart [OF r that] lv(6) [OF that] by (simp add: slot_of_def sel)
  have dead: "\<exists>e. s_lastFencingEpoch (slot_of st' a) = Some e \<and> epoch_num (w_epoch st' a) \<le> epoch_num e"
    if a: "writers st' a = Some a" "\<not> live st' a" for a
  proof -
    from a lv(1) have n: "a \<noteq> next_addr st" "\<not> live st a" by auto
    with reg [OF a(1)] parts(4) obtain e where e: "s_lastFencingEpoch (slot_of st a) = Some e"
        "epoch_num (w_epoch st a) \<le> epoch_num e" unfolding epoch_inv_def by blast
    have "findSlot (slots st) (w_attachment (writer_heap st a)) = Some (w_slot (writer_heap st a))"
      using reg [OF a(1) n(1)] parts(2) by (simp add: slot_inv_def)
    then have "w_slot (writer_heap st a) < next_addr st" using parts(1) unfolding addr_inv_def by blast
    then have "entry_last st att = s_lastFencingEpoch (slot_of st a)"
      if "w_slot (writer_heap st a) = entry_slot st att"
      using that by (auto simp: entry_last_def entry_slot_def slot_of_def split: option.splits)
    with e n(1) show ?thesis by (auto simp: slot_of_def sel epoch)
  qed
  have first: "\<exists>n. parseFencingEpochW (w_epoch st' a) = Inr n" if "writers st' a = Some a" for a
    using that reg [OF that] parts(4,9) by (auto simp: epoch epoch_inv_def)
  have second: "\<exists>a. writers st' a = Some a \<and> \<not> live st' a \<and> w_slot (writer_heap st' a) = s \<and> w_epoch st' a = e"
    if f: "findSlot (slots st') x = Some s" "s_lastFencingEpoch (slot_heap st' s) = Some e" for x s e
  proof -
    have "\<exists>y. findSlot (slots st) y = Some s \<and> s_lastFencingEpoch (slot_heap st s) = Some e"
      using f by (auto simp: sel entry_last_def entry_slot_def split: if_splits option.splits)
    with parts(4) obtain a where a: "writers st a = Some a" "\<not> live st a" "w_slot (writer_heap st a) = s"
        "w_epoch st a = e" unfolding epoch_inv_def by blast
    with parts(12) have "a \<noteq> next_addr st" by auto
    with a show ?thesis by (intro exI [of _ a]) (simp add: sel lv(1) epoch)
  qed
  have third: "epoch_num e < epoch_num (w_epoch st' a)"
    if "live st' a" "s_lastFencingEpoch (slot_of st' a) = Some e" for a e
  proof (cases "a = next_addr st")
    case True
    with that(2) show ?thesis by (simp add: slot_of_def sel epoch adv)
  next
    case False
    with that(1) have "live st a" by (simp add: lv(1))
    with that(2) False parts(4) show ?thesis by (simp add: slot' epoch epoch_inv_def)
  qed
  show ?thesis unfolding epoch_inv_def
    by (intro conjI allI impI) (fact first second third dead | erule (1) first second third dead)+
qed

lemma registers_links:
  assumes r: "registers st att fence st'"
  shows "table_inv st'" and "link_inv st'"
proof -
  note sel = registers_sel [OF r] and parts = registers_parts [OF r]
  have reg: "b \<noteq> next_addr st" if "writers st b = Some b" for b using that parts(12) by auto
  have pend: "stop_pending st' = stop_pending st" "snap_pending st' = snap_pending st"
    by (rule pending_cong, rule sel)+
  have frames: "frames_ok (calls st) frame_stop (\<lambda>a. writers st' a = Some a)"
    using parts(6) unfolding link_frames frames_ok_def by (simp add: sel)
  have no_stop: "\<not> stop_pending st (next_addr st)"
    using link_cap(3) [OF parts(6)] parts(12) unfolding stop_pending_def by auto
  show "table_inv st'"
    unfolding table_rows
  proof (intro allI impI)
    fix b assume b: "writers st' b = Some b"
    show "row st' b"
    proof (cases "b = next_addr st")
      case False
      with b parts(5) have "row st b" by (simp add: table_rows sel)
      with False show ?thesis
        by (simp add: row_def cap_of_def snap_of_def pend sel split: option.splits)
    qed (use no_stop in \<open>simp add: row_def cap_of_def snap_of_def pend sel\<close>)
  qed
  have cap: "c_writerRecord (capability_heap st c) \<noteq> next_addr st" if "capabilities st c = Some c" for c
    using link_cap(2) [OF parts(6) that refl] reg by auto
  show "link_inv st'"
    using parts(6) frames cap unfolding link_frames sel(11-13) by (auto simp: sel split: if_splits)
qed

lemma registers_inv:
  assumes "registers st att fence st'"
  shows "coord_inv st'"
  using registers_addr [OF assms] registers_slots [OF assms] registers_count [OF assms]
    registers_epoch [OF assms] registers_links [OF assms] registers_parts(7) [OF assms]
    registers_sel(14) [OF assms]
  by (simp add: coord_inv_def registry_inv_def disposed_inv_def)

lemma register_cases:
  assumes "coord_inv st" and "registerWriter st options = (res, st')"
  obtains (same) e where "res = Inl e" "st' = st"
  | (registers) att fence p w stop where "register_checked st options = Inr (att, fence, p, w, stop)"
      "res = Inr (JOpaque (next_addr st))" "registers st att fence st'"
proof (cases "register_checked st options")
  case (Inl e)
  with assms(2) same show thesis by (auto simp: registerWriter_def)
next
  case (Inr x)
  obtain att fence p w stop where x: "x = (att, fence, p, w, stop)" by (cases x)
  from assms(2) Inr x have "insert_writer st att fence p w stop = (JOpaque (next_addr st), st')"
    and "res = Inr (JOpaque (next_addr st))"
    by (simp_all add: registerWriter_def insert_eq)
  moreover from this(1) assms(1) Inr x have "registers st att fence st'"
    unfolding registers_def by blast
  ultimately show thesis using registers Inr x by blast
qed

lemma register_inv:
  assumes "coord_inv st" and "registerWriter st options = (res, st')"
  shows "coord_inv st'"
  using assms(1) register_cases [OF assms] registers_inv by metis

section \<open>Reachable states\<close>

lemma step_inv: "coord_step st st' \<Longrightarrow> coord_inv st \<Longrightarrow> coord_inv st'"
  by (induction rule: coord_step.induct)
    (blast intro: register_inv stop_begin_inv stop_returned_inv stop_resumed_inv consume_begin_inv
      consume_returned_inv consume_resumed_inv revoke_inv retire_inv dispose_inv)+

lemma reach_inv: "coord_reach st st' \<Longrightarrow> coord_inv st \<Longrightarrow> coord_inv st'"
  by (induction rule: coord_reach.induct) (blast intro: step_inv)+

lemma reachable_inv: "reachable st \<Longrightarrow> coord_inv st"
  using reach_inv coord_inv_init by blast

end
