(* ===== verification/Writer_Properties.thy ===== *)
theory Writer_Properties
  imports Writer_Invariant
begin

text \<open>
  What the stopped-writer coordinator guarantees in every reachable state: one writer per session,
  strictly increasing fencing epochs, one snapshot per capability and only over a writer whose
  stop was confirmed, exclusion that outlasts uncertain outcomes, revocations that no later step
  forgets, and admission exactly when these rules allow it.
\<close>

section \<open>What one step can change\<close>

text \<open>
  A step keeps every registered writer's identity and registers at most the next address; a
  disposal is the only step that forgets writers.
\<close>

lemma neutral_steps:
  assumes inv: "coord_inv st" and "coord_step st st'"
  shows "same_registry st st' \<or> (\<exists>att fence. registers st att fence st') \<or>
    (\<exists>a. live st a \<and> st' = retired st a \<and> (w_state (writer_heap st a) = Consumed \<or>
       w_state (writer_heap st a) = Revoked \<and> w_stopEstablished (writer_heap st a))) \<or>
    disposed st' \<and> (\<forall>a. \<not> live st a)"
  using assms(2)
proof cases
  case (register options res)
  from inv register show ?thesis by (cases rule: register_cases) (auto simp: same_refl)
next
  case (stop_begin options res)
  have addr: "addr_inv st" using inv by (simp add: coord_inv_def)
  show ?thesis
  proof (cases res)
    case (Inl e)
    with stop_begin stop_begin_error show ?thesis using same_refl by blast
  next
    case (Inr x)
    from addr stop_begin [unfolded Inr] obtain a op where "w_state (writer_heap st a) = Running"
      "st' = snd (suspend (upd_writer st a (\<lambda>r. r\<lparr>w_state := Stopping, w_stopOperationId := op\<rparr>)) (Stop_calling a))"
      by (rule stop_begin_result)
    then have "same_registry st st'" by (simp, intro same_intros) simp_all
    then show ?thesis ..
  qed
next
  case (stop_returned k a ret res)
  note fr = stop_frame_facts [OF inv stop_returned(1), simplified]
  have "same_registry st (stop_failed (finish st k) a)"
    unfolding stop_failed_def using fr(3) by (intro same_intros) auto
  moreover have "same_registry st (st\<lparr>calls := (calls st)(k \<mapsto> Stop_awaiting a v)\<rparr>)" for v
    by (simp add: same_registry_def)
  ultimately show ?thesis
    using stop_returned(2)
    by (auto simp: stopAndIssueCapability_returned_def split: callback_return.splits if_splits)
next
  case (stop_resumed k a v out res)
  note fr = stop_frame_facts [OF inv stop_resumed(1), simplified]
  have "same_registry st (stop_failed (finish st k) a)"
    unfolding stop_failed_def using fr(3) by (intro same_intros) auto
  moreover have "same_registry st (upd_writer (finish st k) a (\<lambda>r. r\<lparr>w_stopEstablished := True\<rparr>))"
    by (intro same_intros) auto
  moreover have "same_registry st (issue (finish st k) a)" if "w_state (writer_heap st a) = Stopping"
    using that by (auto simp: same_registry_def)
  moreover have "st' = (if \<not> stop_confirmed out then stop_failed (finish st k) a
      else if w_state (writer_heap st a) \<noteq> Stopping
      then upd_writer (finish st k) a (\<lambda>r. r\<lparr>w_stopEstablished := True\<rparr>)
      else issue (finish st k) a)"
    using stop_resumed(3) by (rule stop_resumed_state)
  ultimately show ?thesis by (simp split: if_splits)
next
  case (consume_begin options res)
  have addr: "addr_inv st" using inv by (simp add: coord_inv_def)
  from addr consume_begin show ?thesis
  proof (cases rule: consume_begin_cases)
    case same
    then show ?thesis by (simp add: same_refl)
  next
    case (reject c)
    then have "same_registry st st'"
      using issued_facts [OF inv reject(1,2)] by (auto intro!: same_move same_refl)
    then show ?thesis ..
  next
    case (run c opts runSnapshot)
    then have "same_registry st st'"
      using issued_facts [OF inv run(1,2)] by (auto intro!: same_suspend same_move same_refl)
    then show ?thesis ..
  qed
next
  case (consume_returned k c ret res)
  note fr = snap_frame_facts [OF inv consume_returned(1), simplified]
  have "same_registry st (snapshot_failed (finish st k) c)"
    unfolding snapshot_failed_move using fr by (intro same_move same_finish same_refl) auto
  moreover have "same_registry st (st\<lparr>calls := (calls st)(k \<mapsto> Snapshot_awaiting c v)\<rparr>)" for v
    by (simp add: same_registry_def)
  ultimately show ?thesis
    using consume_returned(2)
    by (auto simp: consumeCapability_returned_def split: callback_return.splits if_splits)
next
  case (consume_resumed k c v out res)
  note fr = snap_frame_facts [OF inv consume_resumed(1), simplified]
  have "same_registry st (move (finish st k) c C_consumed ws)" if "ws = Consumed \<or> ws = Snapshot_uncertain" for ws
    using fr that by (intro same_move same_finish same_refl) auto
  with consume_resumed_state [OF consume_resumed(3)] show ?thesis by auto
next
  case (revoke options res)
  have addr: "addr_inv st" using inv by (simp add: coord_inv_def)
  from addr revoke show ?thesis
  proof (cases rule: revoke_cases)
    case same
    then show ?thesis by (simp add: same_refl)
  next
    case (request a)
    then show ?thesis by (auto intro!: disjI1 same_intros)
  next
    case (revoke a)
    then have "same_registry st st'"
      by (auto intro!: same_intros split: option.splits)
    then show ?thesis ..
  qed
next
  case (retire options res)
  from inv retire show ?thesis
    by (cases rule: retire_cases) (auto simp: same_refl live_def)
next
  case (dispose argc res)
  show ?thesis
  proof (cases "st' = st")
    case False
    with dispose have "disposed st'" "activeWriters st = 0"
      by (auto simp: dispose_def split: option.splits)
    with inv show ?thesis by (auto simp: coord_inv_def registry_inv_def count_inv_def)
  qed (simp add: same_refl)
qed

section \<open>One writer per session\<close>

text \<open>
  C1: In every reachable state a session has at most one writer that is not retired, whatever
  storage backend or volume it uses; the session counter is 1 exactly for the sessions that have
  one and the total counter is the number of such writers.
\<close>
theorem one_writer_per_session:
  assumes "reachable st"
  shows "(live st a \<and> live st b \<and> w_session st a = w_session st b \<longrightarrow> a = b) \<and>
    active_in_session st x = (if \<exists>a. live st a \<and> w_session st a = x then 1 else 0) \<and>
    activeWriters st = int (card {a. live st a})"
  using reachable_inv [OF assms]
  by (auto simp: coord_inv_def registry_inv_def count_inv_def active_in_session_def)

section \<open>Admission\<close>

lemma trusted_iff:
  "assertTrustedCallback v = Inr w \<longleftrightarrow> w = v \<and> (\<exists>i. v = JFun i False)"
  by (cases v) (auto simp: assertTrustedCallback_def)

lemma entry_last_max:
  assumes inv: "coord_inv st" and free: "\<And>a. live st a \<Longrightarrow> w_session st a \<noteq> fld att ''sessionId''"
    and new: "parseFencingEpochW epoch = Inr n"
  shows "epoch_advances epoch (entry_last st att) = None \<longleftrightarrow>
    (\<forall>a. writers st a = Some a \<longrightarrow> same_slot_key (w_attachment (writer_heap st a)) att \<longrightarrow>
       epoch_num (w_epoch st a) < epoch_num epoch)"
proof (cases "entry_last st att")
  case None
  have "\<not> same_slot_key (w_attachment (writer_heap st a)) att" if a: "writers st a = Some a" for a
  proof
    assume k: "same_slot_key (w_attachment (writer_heap st a)) att"
    then have "\<not> live st a" using free [of a] by (auto simp: same_slot_key_def w_session_def)
    with a inv obtain e where "s_lastFencingEpoch (slot_of st a) = Some e"
      unfolding coord_inv_def registry_inv_def epoch_inv_def by blast
    moreover have "findSlot (slots st) att = Some (w_slot (writer_heap st a))"
      using a inv findSlot_key [OF k] by (auto simp: coord_inv_def registry_inv_def slot_inv_def)
    ultimately show False using None by (simp add: entry_last_def slot_of_def)
  qed
  with None show ?thesis by (auto simp: epoch_advances_def)
next
  case (Some e)
  then obtain s where s: "findSlot (slots st) att = Some s" "s_lastFencingEpoch (slot_heap st s) = Some e"
    by (auto simp: entry_last_def split: option.splits)
  have slot: "slot_inv st" and ep: "epoch_inv st" using inv by (simp_all add: coord_inv_def registry_inv_def)
  from ep s obtain r where r: "writers st r = Some r" "w_slot (writer_heap st r) = s" "w_epoch st r = e"
    unfolding epoch_inv_def by blast
  then obtain m where m: "parseFencingEpochW e = Inr m" using ep unfolding epoch_inv_def by blast
  have rk: "same_slot_key (w_attachment (writer_heap st r)) att"
    using r s(1) slot unfolding slot_inv_def by blast
  have le: "epoch_num (w_epoch st a) \<le> epoch_num e"
    if a: "writers st a = Some a" "same_slot_key (w_attachment (writer_heap st a)) att" for a
  proof -
    have "w_slot (writer_heap st a) = s" using a s(1) slot findSlot_key [OF a(2), of "slots st"]
      by (simp add: slot_inv_def)
    moreover have "\<not> live st a" using free [of a] a(2) by (auto simp: same_slot_key_def w_session_def)
    ultimately show ?thesis using ep a(1) s(2) unfolding epoch_inv_def slot_of_def by auto
  qed
  have "epoch_advances epoch (Some e) = None \<longleftrightarrow> m < n"
    using writer_epochs.compare_value [OF new m] by (simp add: epoch_advances_def)
  also have "\<dots> \<longleftrightarrow> epoch_num e < epoch_num epoch"
    using epoch_num_parse [OF new] epoch_num_parse [OF m] by simp
  finally show ?thesis using Some le r rk by (metis order.strict_trans1)
qed

abbreviation register_keys :: "string list" where
  "register_keys \<equiv> [''attachment'', ''canonicalLease'', ''processIncarnationId'', ''stopWriter'',
     ''writerIncarnationId'']"

text \<open>The part of admission the preflight and registration share.\<close>

definition admissible :: "coordinator \<Rightarrow> jsval \<Rightarrow> jsval \<Rightarrow> bool" where
  "admissible st a l \<longleftrightarrow> \<not> disposed st \<and> (\<exists>att fence. normalizeBinding a l = Inr (att, fence) \<and>
     active_in_session st (fld att ''sessionId'') = 0 \<and>
     (\<forall>s. findSlot (slots st) att = Some s \<longrightarrow> s_current (slot_heap st s) = None) \<and>
     epoch_advances (fld fence ''fencingEpoch'') (entry_last st att) = None)"

lemma epoch_advances_None [simp]: "epoch_advances x None = None"
  by (simp add: epoch_advances_def)

lemma register_admit_iff:
  "(\<exists>att f. register_admit st a l = Inr (att, f)) \<longleftrightarrow> admissible st a l"
proof (cases "normalizeBinding a l")
  case (Inr b)
  obtain att f where b: "b = (att, f)" by (cases b)
  with Inr binding_fields(2) obtain n where "parseFencingEpochW (fld f ''fencingEpoch'') = Inr n" by blast
  with Inr b show ?thesis
    by (cases "findSlot (slots st) att") (auto simp: admissible_def entry_last_def register_admit_def)
qed (simp add: admissible_def register_admit_def)

lemma launch_admit_iff: "launch_admit st a l = Inr () \<longleftrightarrow> admissible st a l"
proof (cases "normalizeBinding a l")
  case (Inr b)
  obtain att f where b: "b = (att, f)" by (cases b)
  with Inr binding_fields(2) obtain n where "parseFencingEpochW (fld f ''fencingEpoch'') = Inr n" by blast
  with Inr b show ?thesis
    by (cases "findSlot (slots st) att") (auto simp: admissible_def entry_last_def launch_admit_def)
qed (simp add: admissible_def launch_admit_def)

lemma exact_options_pred:
  assumes "distinct ks" and "\<And>opts. (\<And>k. k \<in> set ks \<Longrightarrow> fld opts k = fld v k) \<Longrightarrow> P opts \<longleftrightarrow> Q"
  shows "(\<exists>opts. assertExactOptions v ks = Inr opts \<and> P opts) \<longleftrightarrow> exact_object v ks \<and> Q"
proof -
  have "P opts \<longleftrightarrow> Q" if "assertExactOptions v ks = Inr opts" for opts
    by (rule assms(2)) (rule exact_options_result(2) [OF that assms(1)])
  then show ?thesis using exact_options_ok [of v ks] by blast
qed

lemma register_ok_iff:
  "(\<exists>h st'. registerWriter st options = (Inr h, st')) \<longleftrightarrow>
     exact_object options register_keys \<and> isOpaqueId (fld options ''processIncarnationId'') \<and>
     isOpaqueId (fld options ''writerIncarnationId'') \<and> (\<exists>i. fld options ''stopWriter'' = JFun i False) \<and>
     admissible st (fld options ''attachment'') (fld options ''canonicalLease'')"
proof -
  have "(\<exists>h st'. registerWriter st options = (Inr h, st')) \<longleftrightarrow> (\<exists>x. register_checked st options = Inr x)"
    by (auto simp: registerWriter_def split: sum.splits prod.splits)
  also have "\<dots> \<longleftrightarrow> \<not> disposed st \<and> (\<exists>opts. assertExactOptions options register_keys = Inr opts \<and>
      isOpaqueId (fld opts ''processIncarnationId'') \<and> isOpaqueId (fld opts ''writerIncarnationId'') \<and>
      (\<exists>i. fld opts ''stopWriter'' = JFun i False) \<and>
      (\<exists>att f. register_admit st (fld opts ''attachment'') (fld opts ''canonicalLease'') = Inr (att, f)))"
    unfolding register_checked_def by (auto simp: trusted_iff)
  also have "\<dots> \<longleftrightarrow> \<not> disposed st \<and> exact_object options register_keys \<and>
      isOpaqueId (fld options ''processIncarnationId'') \<and> isOpaqueId (fld options ''writerIncarnationId'') \<and>
      (\<exists>i. fld options ''stopWriter'' = JFun i False) \<and>
      admissible st (fld options ''attachment'') (fld options ''canonicalLease'')"
    unfolding register_admit_iff by (subst exact_options_pred) simp_all
  finally show ?thesis by (auto simp: admissible_def)
qed

lemma launch_ok_iff:
  "assertWriterLaunchAvailable st options = None \<longleftrightarrow>
     exact_object options [''attachment'', ''canonicalLease''] \<and>
     admissible st (fld options ''attachment'') (fld options ''canonicalLease'')"
proof -
  let ?ks = "[''attachment'', ''canonicalLease'']"
  have "assertWriterLaunchAvailable st options = None \<longleftrightarrow> \<not> disposed st \<and>
      (\<exists>opts. assertExactOptions options ?ks = Inr opts \<and>
       launch_admit st (fld opts ''attachment'') (fld opts ''canonicalLease'') = Inr ())"
    by (auto simp: assertWriterLaunchAvailable_def)
  also have "\<dots> \<longleftrightarrow> \<not> disposed st \<and> exact_object options ?ks \<and>
      admissible st (fld options ''attachment'') (fld options ''canonicalLease'')"
    unfolding launch_admit_iff by (subst exact_options_pred) simp_all
  finally show ?thesis by (auto simp: admissible_def)
qed

text \<open>In a reachable state the registry's conditions are about writers, not about its tables.\<close>

lemma admissible_reachable:
  assumes inv: "coord_inv st"
  shows "admissible st a l \<longleftrightarrow> \<not> disposed st \<and>
    (\<exists>x. assertSessionAttachment a = Inr x) \<and> (\<exists>y. assertLeaseGrant l = Inr y) \<and>
    same_fields fence_fields a l \<and>
    (\<forall>b. live st b \<longrightarrow> w_session st b \<noteq> fld a ''sessionId'') \<and>
    (\<forall>b. writers st b = Some b \<longrightarrow> same_slot_key (w_attachment (writer_heap st b)) a \<longrightarrow>
       epoch_num (w_epoch st b) < epoch_num (fld a ''fencingEpoch''))"
proof (cases "normalizeBinding a l")
  case (Inl e)
  then show ?thesis using normalizeBinding_ok [of a l] by (auto simp: admissible_def)
next
  case (Inr b)
  obtain att f where b: "normalizeBinding a l = Inr (att, f)" using Inr by (cases b) simp
  then obtain l' where ex: "assertExactOptions a attachment_keys = Inr att" by (rule binding_snapshots)
  have fld: "fld att k = fld a k" if "k \<in> set attachment_keys" for k
    by (rule exact_options_result(2) [OF ex attachment.keys_distinct that])
  then have key: "same_slot_key x att = same_slot_key x a" for x
    by (simp add: same_slot_key_def attachment_keys_def)
  have epoch: "fld f ''fencingEpoch'' = fld a ''fencingEpoch''" "fld att ''sessionId'' = fld a ''sessionId''"
    using binding_fields(1) [OF b] fld by (simp_all add: attachment_keys_def)
  obtain n where n: "parseFencingEpochW (fld a ''fencingEpoch'') = Inr n"
    using binding_fields(2) [OF b] by (auto simp: epoch)
  have sess: "active_in_session st x = 0 \<longleftrightarrow> (\<forall>b. live st b \<longrightarrow> w_session st b \<noteq> x)" for x
    using inv by (auto simp: coord_inv_def registry_inv_def count_inv_def active_in_session_def)
  have cur: "s_current (slot_heap st s) = None"
    if f: "findSlot (slots st) att = Some s"
      and free: "\<forall>b. live st b \<longrightarrow> w_session st b \<noteq> fld a ''sessionId''" for s
  proof (rule ccontr)
    assume "s_current (slot_heap st s) \<noteq> None"
    then obtain c where "live st c" "w_slot (writer_heap st c) = s"
      using f inv unfolding coord_inv_def registry_inv_def slot_inv_def by blast
    then have "same_slot_key (w_attachment (writer_heap st c)) att"
      using f inv unfolding coord_inv_def registry_inv_def slot_inv_def live_def by blast
    with free \<open>live st c\<close> show False by (auto simp: same_slot_key_def w_session_def epoch)
  qed
  have "epoch_advances (fld a ''fencingEpoch'') (entry_last st att) = None \<longleftrightarrow>
      (\<forall>b. writers st b = Some b \<longrightarrow> same_slot_key (w_attachment (writer_heap st b)) a \<longrightarrow>
       epoch_num (w_epoch st b) < epoch_num (fld a ''fencingEpoch''))"
    if "\<forall>b. live st b \<longrightarrow> w_session st b \<noteq> fld a ''sessionId''"
    using entry_last_max [OF inv _ n, of att] that by (simp add: key epoch)
  with b cur sess show ?thesis
    using normalizeBinding_ok [of a l] by (auto simp: admissible_def epoch)
qed

text \<open>
  C4: Admission is exact. In a reachable state \<open>registerWriter\<close> succeeds if and only if the
  coordinator is not disposed, the options have exactly their five keys with valid identifiers and
  a plain callback, both storage contracts accept the attachment and the lease and their fences
  agree, no unretired writer exists in the session, and the fencing epoch is larger than that of
  every writer ever registered for the same session, backend and volume.
\<close>
theorem registration_admission:
  assumes "reachable st"
  shows "(\<exists>h st'. registerWriter st options = (Inr h, st')) \<longleftrightarrow>
    \<not> disposed st \<and> exact_object options register_keys \<and>
    isOpaqueId (fld options ''processIncarnationId'') \<and> isOpaqueId (fld options ''writerIncarnationId'') \<and>
    (\<exists>i. fld options ''stopWriter'' = JFun i False) \<and>
    (\<exists>x. assertSessionAttachment (fld options ''attachment'') = Inr x) \<and>
    (\<exists>y. assertLeaseGrant (fld options ''canonicalLease'') = Inr y) \<and>
    same_fields fence_fields (fld options ''attachment'') (fld options ''canonicalLease'') \<and>
    (\<forall>b. live st b \<longrightarrow> w_session st b \<noteq> fld (fld options ''attachment'') ''sessionId'') \<and>
    (\<forall>b. writers st b = Some b \<longrightarrow>
       same_slot_key (w_attachment (writer_heap st b)) (fld options ''attachment'') \<longrightarrow>
       epoch_num (w_epoch st b) < epoch_num (fld (fld options ''attachment'') ''fencingEpoch''))"
  unfolding register_ok_iff admissible_reachable [OF reachable_inv [OF assms]] by blast

text \<open>
  The launch preflight agrees with registration in every state: for the same attachment and
  lease, \<open>assertWriterLaunchAvailable\<close> passes exactly when \<open>registerWriter\<close> with valid identifiers
  and callback would succeed.
\<close>
theorem preflight_agrees:
  assumes "exact_object options register_keys" and "exact_object preflight [''attachment'', ''canonicalLease'']"
    and "fld preflight ''attachment'' = fld options ''attachment''"
    and "fld preflight ''canonicalLease'' = fld options ''canonicalLease''"
    and "isOpaqueId (fld options ''processIncarnationId'')"
    and "isOpaqueId (fld options ''writerIncarnationId'')" and "fld options ''stopWriter'' = JFun i False"
  shows "assertWriterLaunchAvailable st preflight = None \<longleftrightarrow>
    (\<exists>h st'. registerWriter st options = (Inr h, st'))"
  using assms by (simp add: launch_ok_iff register_ok_iff)

section \<open>Fencing epochs over time\<close>

definition order_inv :: "coordinator \<Rightarrow> bool" where
  "order_inv st \<longleftrightarrow> (\<forall>a b. writers st a = Some a \<longrightarrow> writers st b = Some b \<longrightarrow> a < b \<longrightarrow>
     same_slot_key (w_attachment (writer_heap st a)) (w_attachment (writer_heap st b)) \<longrightarrow>
     epoch_num (w_epoch st a) < epoch_num (w_epoch st b))"

lemma registers_above:
  assumes r: "registers st att fence st'" and a: "writers st a = Some a"
    and k: "same_slot_key (w_attachment (writer_heap st a)) att"
  shows "epoch_num (w_epoch st a) < epoch_num (fld fence ''fencingEpoch'')"
proof -
  have inv: "coord_inv st" using r by (simp add: registers_def)
  note parts = registers_parts [OF r]
  obtain n where n: "parseFencingEpochW (fld fence ''fencingEpoch'') = Inr n" using parts(9) by blast
  show ?thesis using entry_last_max [OF inv registers_live(7) [OF r] n] parts(11) a k by blast
qed

lemma order_step:
  assumes inv: "coord_inv st" and ord: "order_inv st" and step: "coord_step st st'"
  shows "order_inv st'"
proof -
  consider (same) "same_registry st st'" | (reg) att fence where "registers st att fence st'"
    | (ret) a where "st' = retired st a" | (disp) "disposed st'"
    using neutral_steps [OF inv step] by blast
  then show ?thesis
  proof cases
    case same
    then have "w_epoch st' = w_epoch st" by (auto simp: same_registry_def w_epoch_def fun_eq_iff)
    with same ord show ?thesis by (simp add: same_registry_def order_inv_def)
  next
    case reg
    note sel = registers_sel [OF reg] and lv = registers_live [OF reg]
    have old: "a < next_addr st" if "writers st a = Some a" for a
      using registers_parts(1) [OF reg] that unfolding addr_inv_def by blast
    show ?thesis
      unfolding order_inv_def
    proof (intro allI impI)
      fix a b
      assume ab: "writers st' a = Some a" "writers st' b = Some b" "a < b"
        "same_slot_key (w_attachment (writer_heap st' a)) (w_attachment (writer_heap st' b))"
      have a: "a \<noteq> next_addr st" using ab old [of b] by (auto simp: sel split: if_splits)
      then have wa: "writers st a = Some a" using ab(1) by (simp add: sel)
      show "epoch_num (w_epoch st' a) < epoch_num (w_epoch st' b)"
      proof (cases "b = next_addr st")
        case True
        with ab(4) a registers_above [OF reg wa] show ?thesis by (simp add: sel lv)
      next
        case False
        with ab a wa ord show ?thesis by (simp add: sel lv order_inv_def)
      qed
    qed
  next
    case (ret a)
    with ord show ?thesis by (simp add: order_inv_def retired_sel)
  next
    case disp
    with step_inv [OF step inv] show ?thesis by (simp add: coord_inv_def disposed_inv_def order_inv_def)
  qed
qed

lemma reachable_order: "reachable st \<Longrightarrow> order_inv st"
proof (induction new_coordinator st rule: coord_reach.induct)
  case reach_start
  show ?case by (simp add: order_inv_def new_coordinator_def)
next
  case (reach_step st' st'')
  then show ?case using order_step reachable_inv by blast
qed

text \<open>
  C5: Fencing epochs increase strictly over the life of the coordinator: of two writers registered
  for the same session, backend and volume, the one registered later carries the larger epoch.
\<close>
theorem fencing_epochs_increase:
  assumes "reachable st" and "writers st a = Some a" and "writers st b = Some b" and "a < b"
    and "same_slot_key (w_attachment (writer_heap st a)) (w_attachment (writer_heap st b))"
  shows "epoch_num (w_epoch st a) < epoch_num (w_epoch st b)"
  using reachable_order [OF assms(1)] assms(2-5) unfolding order_inv_def by blast

section \<open>Capabilities are spent once\<close>

text \<open>An allocated capability that is no longer issued.\<close>

definition spent :: "coordinator \<Rightarrow> nat \<Rightarrow> bool" where
  "spent st c \<longleftrightarrow> c < next_addr st \<and> c_state (capability_heap st c) \<noteq> C_issued"

lemma spent_prims:
  "spent st c \<Longrightarrow> spent (upd_writer st a f) c" "spent st c \<Longrightarrow> s \<noteq> C_issued \<Longrightarrow> spent (upd_capability st d s) c"
  "spent st c \<Longrightarrow> spent (finish st k) c" "spent st c \<Longrightarrow> spent (snd (suspend st g)) c"
  "spent st c \<Longrightarrow> cs \<noteq> C_issued \<Longrightarrow> spent (move st d cs ws) c" "spent st c \<Longrightarrow> spent (issue st a) c"
  "spent st c \<Longrightarrow> spent (retired st a) c" "spent st c \<Longrightarrow> spent (stop_failed st a) c"
  "spent st c \<Longrightarrow> spent (st\<lparr>calls := m\<rparr>) c"
  by (auto simp: spent_def retired_def stop_failed_def)

lemma spent_step:
  assumes inv: "coord_inv st" and sp: "spent st c" and step: "coord_step st st'"
  shows "spent st' c"
  using step
proof cases
  case (register options res)
  from inv register show ?thesis
  proof (cases rule: register_cases)
    case (registers att fence p w stop)
    with sp registers_sel(12,17) [OF registers(3)] show ?thesis by (auto simp: spent_def)
  qed (simp add: sp)
next
  case (stop_begin options res)
  have "addr_inv st" using inv by (simp add: coord_inv_def)
  with stop_begin sp show ?thesis
    by (cases res) (auto dest!: stop_begin_error intro: spent_prims elim!: stop_begin_result)
next
  case (stop_returned k a ret res)
  with sp show ?thesis
    by (auto simp: stopAndIssueCapability_returned_def intro: spent_prims
        split: callback_return.splits if_splits)
next
  case (stop_resumed k a v out res)
  from stop_resumed_state [OF stop_resumed(3)] sp show ?thesis by (auto intro: spent_prims split: if_splits)
next
  case (consume_begin options res)
  have "addr_inv st" using inv by (simp add: coord_inv_def)
  from this consume_begin show ?thesis
    by (cases rule: consume_begin_cases) (auto intro!: spent_prims sp)
next
  case (consume_returned k d ret res)
  with sp show ?thesis
    by (auto simp: consumeCapability_returned_def snapshot_failed_move intro: spent_prims
        split: callback_return.splits if_splits)
next
  case (consume_resumed k d v out res)
  from consume_resumed_state [OF consume_resumed(3)] sp show ?thesis by (auto intro!: spent_prims)
next
  case (revoke options res)
  have "addr_inv st" using inv by (simp add: coord_inv_def)
  from this revoke show ?thesis
    by (cases rule: revoke_cases) (auto intro!: spent_prims sp split: option.splits)
next
  case (retire options res)
  from inv retire show ?thesis by (cases rule: retire_cases) (auto intro: spent_prims sp)
next
  case (dispose argc res)
  then show ?thesis using sp by (auto simp: dispose_def spent_def split: option.splits)
qed

lemma spent_reach: "coord_reach st st' \<Longrightarrow> coord_inv st \<Longrightarrow> spent st c \<Longrightarrow> spent st' c"
  by (induction rule: coord_reach.induct) (blast intro: spent_step reach_inv)+

lemma consume_begin_run:
  assumes inv: "coord_inv st" and step: "consumeCapability_begin st options = (Inr (k, run, binding), st')"
  obtains c opts where "capabilities st c = Some c" "c_state (capability_heap st c) = C_issued"
    "consume_found st options = Inr (opts, c)" "consume_checked st opts c = Inr run"
    "st' = snd (suspend (move st c C_consuming Consuming) (Snapshot_calling c))"
    "binding = frozenCallbackBinding (writer_heap st (c_writerRecord (capability_heap st c)))"
    "fld options ''capability'' = JOpaque c"
proof -
  have addr: "addr_inv st" using inv by (simp add: coord_inv_def)
  from addr step show thesis
  proof (cases rule: consume_begin_cases)
    case (run c opts runSnapshot)
    from run(3) have f: "weakMapGet (capabilities st) (fld opts ''capability'') = Some c"
      "\<exists>ks. assertExactOptions options ks = Inr opts \<and> distinct ks \<and> ''capability'' \<in> set ks"
      unfolding consume_found_def by (auto split: option.splits)
    then have "fld options ''capability'' = fld opts ''capability''"
      using exact_options_result(2) by metis
    moreover from f(1) obtain n where "fld opts ''capability'' = JOpaque n" "capabilities st n = Some c"
      using weakMapGet_Some by blast
    moreover from this(2) have "n = c" using addr unfolding addr_inv_def by blast
    ultimately have cap: "fld options ''capability'' = JOpaque c" by simp
    from step run(3,4) have b: "run = runSnapshot"
      "binding = frozenCallbackBinding (writer_heap st (c_writerRecord (capability_heap st c)))"
      by (auto simp: consumeCapability_begin_def Let_def suspend_def frozenCallbackBinding_def)
    show thesis by (rule that [OF run(1,2,3) _ run(5) b(2) cap]) (simp add: b(1) run(4))
  qed simp_all
qed

text \<open>
  C2: A capability starts at most one snapshot: after a request that started one, no later
  request in any continuation of the history starts a snapshot with the same capability.
\<close>
theorem capability_runs_once:
  assumes "reachable st" and "consumeCapability_begin st options = (Inr res, st1)"
    and "coord_reach st1 st2" and "consumeCapability_begin st2 options2 = (Inr res2, st3)"
  shows "fld options2 ''capability'' \<noteq> fld options ''capability''"
proof
  assume same: "fld options2 ''capability'' = fld options ''capability''"
  have inv: "coord_inv st" by (rule reachable_inv [OF assms(1)])
  have inv1: "coord_inv st1" by (rule consume_begin_inv [OF inv assms(2)])
  have inv2: "coord_inv st2" by (rule reach_inv [OF assms(3) inv1])
  obtain k run b where r: "res = (k, run, b)" by (cases res)
  obtain c where c: "capabilities st c = Some c" "fld options ''capability'' = JOpaque c"
      "st1 = snd (suspend (move st c C_consuming Consuming) (Snapshot_calling c))"
    using consume_begin_run [OF inv assms(2) [unfolded r]] by metis
  have "c < next_addr st" using inv c(1) unfolding coord_inv_def addr_inv_def by blast
  then have "spent st1 c" by (simp add: c(3) spent_def)
  then have sp: "spent st2 c" by (rule spent_reach [OF assms(3) inv1])
  obtain k2 run2 b2 where r2: "res2 = (k2, run2, b2)" by (cases res2)
  obtain c2 where "c_state (capability_heap st2 c2) = C_issued" "fld options2 ''capability'' = JOpaque c2"
    using consume_begin_run [OF inv2 assms(4) [unfolded r2]] by metis
  with same c(2) sp show False by (simp add: spent_def)
qed

text \<open>
  C3: A snapshot starts only over a stopped writer and only for the presented binding: the stop of
  the writer was confirmed, the capability was issued and not revoked, the presented identities and
  stop operation are the recorded ones, the callback run is the presented one and it receives the
  recorded attachment, fence and identities.
\<close>
theorem snapshot_only_when_stopped:
  assumes "reachable st" and "consumeCapability_begin st options = (Inr (k, run, binding), st')"
  shows "\<exists>a. live st a \<and> fld options ''writer'' = JOpaque a \<and>
    w_stopEstablished (writer_heap st a) \<and> w_state (writer_heap st a) = Issued \<and>
    fld options ''processIncarnationId'' = w_processIncarnationId (writer_heap st a) \<and>
    fld options ''writerIncarnationId'' = w_writerIncarnationId (writer_heap st a) \<and>
    fld options ''stopOperationId'' = w_stopOperationId (writer_heap st a) \<and>
    run = fld options ''runSnapshot'' \<and> binding = frozenCallbackBinding (writer_heap st a)"
proof -
  have inv: "coord_inv st" by (rule reachable_inv [OF assms(1)])
  have addr: "addr_inv st" and link: "link_inv st" using inv by (simp_all add: coord_inv_def)
  obtain c opts where c: "capabilities st c = Some c" "c_state (capability_heap st c) = C_issued"
    and f: "consume_found st options = Inr (opts, c)" "consume_checked st opts c = Inr run"
    and b: "binding = frozenCallbackBinding (writer_heap st (c_writerRecord (capability_heap st c)))"
    using consume_begin_run [OF inv assms(2)] by metis
  define a where "a = c_writerRecord (capability_heap st c)"
  have reg: "writers st a = Some a" using link_cap(2) [OF link c(1) a_def] by simp
  have iss: "w_state (writer_heap st a) = Issued" using issued_facts(1) [OF inv c] by (simp add: a_def)
  then have est: "w_stopEstablished (writer_heap st a)" using row_at [OF inv reg] by (simp add: row_def)
  have handle: "w_handle (writer_heap st a) = JOpaque a" using addr reg unfolding addr_inv_def by blast
  from f(1) obtain ks where ks: "assertExactOptions options ks = Inr opts" "distinct ks"
      "{''writer'', ''processIncarnationId'', ''writerIncarnationId'', ''stopOperationId'', ''runSnapshot''} \<subseteq> set ks"
    unfolding consume_found_def by (auto split: option.splits)
  have fld: "fld opts k = fld options k" if "k \<in> set ks" for k
    by (rule exact_options_result(2) [OF ks(1,2) that])
  have op: "isOpaqueId x \<Longrightarrow> js_seq x y \<Longrightarrow> x = y" for x y using opaque_str [of x] js_seq_str2 by metis
  from f(2) have "js_seq (fld opts ''writer'') (JOpaque a)"
      "isOpaqueId (fld opts ''processIncarnationId'')" "isOpaqueId (fld opts ''writerIncarnationId'')"
      "isOpaqueId (fld opts ''stopOperationId'')"
      "js_seq (fld opts ''processIncarnationId'') (w_processIncarnationId (writer_heap st a))"
      "js_seq (fld opts ''writerIncarnationId'') (w_writerIncarnationId (writer_heap st a))"
      "js_seq (fld opts ''stopOperationId'') (w_stopOperationId (writer_heap st a))"
      "run = fld opts ''runSnapshot''"
    unfolding consume_checked_def Let_def a_def [symmetric] handle by (auto simp: trusted_iff)
  moreover from this(1) have "fld opts ''writer'' = JOpaque a"
    by (cases "fld opts ''writer''") (auto simp: js_seq_def)
  ultimately show ?thesis
    using reg iss est b op fld ks(3) by (intro exI [of _ a]) (auto simp: live_def a_def)
qed

section \<open>Exclusion\<close>

text \<open>
  While a snapshot callback runs or is awaited, its writer is still held: it is unretired, its
  stop stays confirmed, and every registration that succeeds is for another session.
\<close>
theorem snapshot_excludes_writers:
  assumes "reachable st" and "calls st k = Some f" and "frame_snap f = Some c"
    and "registerWriter st options = (Inr h, st')"
  shows "let a = c_writerRecord (capability_heap st c) in live st a \<and>
      w_state (writer_heap st a) = Consuming \<and> w_stopEstablished (writer_heap st a) \<and>
      w_session st a \<noteq> fld (fld options ''attachment'') ''sessionId''"
proof -
  have inv: "coord_inv st" by (rule reachable_inv [OF assms(1)])
  have link: "link_inv st" using inv by (simp add: coord_inv_def)
  define a where "a = c_writerRecord (capability_heap st c)"
  note fr = snap_frame_facts [OF inv assms(2,3)]
  have reg: "writers st a = Some a" using link_cap(2) [OF link fr(1) a_def] by simp
  have st: "w_state (writer_heap st a) = Consuming" using fr(3) by (simp add: a_def)
  then have "live st a" using reg by (simp add: live_def)
  moreover have "w_stopEstablished (writer_heap st a)" using row_at [OF inv reg] st by (simp add: row_def)
  moreover have "admissible st (fld options ''attachment'') (fld options ''canonicalLease'')"
    using assms(4) register_ok_iff by blast
  ultimately show ?thesis
    using st unfolding admissible_reachable [OF inv] by (auto simp: Let_def a_def [symmetric])
qed

text \<open>A writer that nothing can retire any more: its stop or its snapshot has no known outcome.\<close>

definition pinned :: "coordinator \<Rightarrow> nat \<Rightarrow> bool" where
  "pinned st a \<longleftrightarrow> writers st a = Some a \<and>
     (w_state (writer_heap st a) = Snapshot_uncertain \<or> w_state (writer_heap st a) = Stop_uncertain \<or>
      w_state (writer_heap st a) = Revoked \<and> \<not> w_stopEstablished (writer_heap st a) \<and> \<not> stop_pending st a)"







section \<open>Outcomes of the asynchronous operations\<close>

text \<open>
  The outcome of a stop. When the awaited stop settles with the confirmation token and the
  writer is still stopping, exactly one capability is issued for it, under a fresh handle; when it
  was revoked meanwhile, the call fails but the confirmed stop is recorded; any other settlement
  fails and leaves the stop not established. In every case the call ends.
\<close>
theorem stop_outcome:
  assumes "reachable st" and "calls st k = Some (Stop_awaiting a v)"
    and "stopAndIssueCapability_resumed st k a out = (res, st')"
  shows "calls st' k = None \<and>
    (if stop_confirmed out then
       w_stopEstablished (writer_heap st' a) \<and>
       (if w_state (writer_heap st a) = Stopping
        then res = Inr (JOpaque (next_addr st)) \<and> w_state (writer_heap st' a) = Issued \<and>
          capabilities st (next_addr st) = None \<and> capabilities st' (next_addr st) = Some (next_addr st) \<and>
          c_writerRecord (capability_heap st' (next_addr st)) = a
        else res = Inl Writer_state_conflict \<and> w_state (writer_heap st' a) = Revoked)
     else res = Inl Writer_stop_outcome_uncertain \<and> \<not> w_stopEstablished (writer_heap st' a) \<and>
       w_state (writer_heap st' a) \<in> {Stop_uncertain, Revoked})"
proof -
  have inv: "coord_inv st" by (rule reachable_inv [OF assms(1)])
  note fr = stop_frame_facts [OF inv assms(2), simplified]
  have fresh: "capabilities st (next_addr st) = None"
    using inv unfolding coord_inv_def addr_inv_def by (metis less_irrefl not_None_eq)
  have res: "res = (if \<not> stop_confirmed out then Inl Writer_stop_outcome_uncertain
      else if w_state (writer_heap st a) = Stopping then Inr (JOpaque (next_addr st))
      else Inl Writer_state_conflict)"
    using assms(3) by (auto simp: stopAndIssueCapability_resumed_def Let_def split: if_splits)
  show ?thesis
    using fr(3,4) fresh unfolding stop_resumed_state [OF assms(3)] res
    by (auto simp: stop_failed_def)
qed

text \<open>
  A writer whose snapshot, still running or already over, is not going to be accepted: revocation
  was requested while its capability is being consumed, or the outcome was uncertain.
\<close>

definition discarding :: "coordinator \<Rightarrow> nat \<Rightarrow> bool" where
  "discarding st a \<longleftrightarrow> writers st a = Some a \<and>
     (w_state (writer_heap st a) = Consuming \<and> w_revocationRequested (writer_heap st a) \<or>
      w_state (writer_heap st a) = Snapshot_uncertain)"

lemma discarding_upd:
  assumes "discarding st a" and "writers st' = writers st" and "writer_heap st' a = writer_heap st a"
  shows "discarding st' a"
  using assms by (simp add: discarding_def)

lemma discarding_failed:
  "discarding st a \<Longrightarrow> discarding (snapshot_failed (finish st k) c) a"
  by (auto simp: discarding_def snapshot_failed_move)

text \<open>The frames of another kind or of another writer do not touch it.\<close>

lemma discarding_not_stopping:
  assumes "coord_inv st" and "discarding st a" and "calls st k = Some f" and "frame_stop f = Some b"
  shows "b \<noteq> a"
  using stop_frame_facts(3) [OF assms(1,3,4)] assms(2) by (auto simp: discarding_def)

lemma discarding_resumed:
  assumes inv: "coord_inv st" and d: "discarding st a" and k: "calls st k = Some f"
    and f: "frame_snap f = Some c" and a: "c_writerRecord (capability_heap st c) = a"
    and run: "consumeCapability_resumed st k c out = (res, st')"
  shows "res = Inl Snapshot_outcome_uncertain \<and> st' = snapshot_failed (finish st k) c"
proof -
  have "w_revocationRequested (writer_heap st a)"
    using d snap_frame_facts(3) [OF inv k f] a by (auto simp: discarding_def)
  with run a show ?thesis by (auto simp: consumeCapability_resumed_def Let_def split: settlement.splits)
qed

lemma discarding_step:
  assumes inv: "coord_inv st" and d: "discarding st a" and step: "coord_step st st'"
  shows "discarding st' a"
proof -
  have addr: "addr_inv st" using inv by (simp add: coord_inv_def)
  have st: "w_state (writer_heap st a) \<in> {Consuming, Snapshot_uncertain}"
    using d by (auto simp: discarding_def)
  show ?thesis
    using step
  proof cases
    case (register options res)
    from inv register show ?thesis
    proof (cases rule: register_cases)
      case (registers att fence p w stop)
      have "a \<noteq> next_addr st" using d registers_parts(12) [OF registers(3)] by (auto simp: discarding_def)
      with d registers_sel(1,2) [OF registers(3)] show ?thesis by (simp add: discarding_def)
    qed (simp add: d)
  next
    case (stop_begin options res)
    show ?thesis
    proof (cases res)
      case (Inr x)
      obtain b op where b: "w_state (writer_heap st b) = Running"
        and st': "st' = snd (suspend (upd_writer st b (\<lambda>r. r\<lparr>w_state := Stopping, w_stopOperationId := op\<rparr>)) (Stop_calling b))"
        using stop_begin_result [OF addr stop_begin [unfolded Inr]] .
      have "b \<noteq> a" using b st by auto
      then show ?thesis by (intro discarding_upd [OF d]) (simp_all add: st')
    qed (use stop_begin stop_begin_error d in blast)
  next
    case (stop_returned k b ret res)
    have "b \<noteq> a" using discarding_not_stopping [OF inv d stop_returned(1)] by simp
    with stop_returned(2) show ?thesis
      by (intro discarding_upd [OF d])
        (auto simp: stopAndIssueCapability_returned_def stop_failed_def split: callback_return.splits if_splits)
  next
    case (stop_resumed k b v out res)
    have "b \<noteq> a" using discarding_not_stopping [OF inv d stop_resumed(1)] by simp
    then show ?thesis
      unfolding stop_resumed_state [OF stop_resumed(3)]
      by (intro discarding_upd [OF d]) (auto simp: stop_failed_def)
  next
    case (consume_begin options res)
    from addr consume_begin show ?thesis
    proof (cases rule: consume_begin_cases)
      case (reject c)
      then show ?thesis
        using issued_facts(1) [OF inv reject(1,2)] st by (intro discarding_upd [OF d]) auto
    next
      case (run c opts runSnapshot)
      then show ?thesis
        using issued_facts(1) [OF inv run(1,2)] st by (intro discarding_upd [OF d]) auto
    qed (simp add: d)
  next
    case (consume_returned k c ret res)
    have "discarding (st\<lparr>calls := (calls st)(k \<mapsto> Snapshot_awaiting c v)\<rparr>) a" for v
      by (intro discarding_upd [OF d]) simp_all
    with consume_returned(2) discarding_failed [OF d] show ?thesis
      by (auto simp: consumeCapability_returned_def split: callback_return.splits if_splits)
  next
    case (consume_resumed k c v out res)
    show ?thesis
    proof (cases "c_writerRecord (capability_heap st c) = a")
      case True
      from discarding_resumed [OF inv d consume_resumed(1) _ True consume_resumed(3)] discarding_failed [OF d]
      show ?thesis by simp
    next
      case False
      with consume_resumed_state [OF consume_resumed(3)] show ?thesis
        by (intro discarding_upd [OF d]) auto
    qed
  next
    case (revoke options res)
    from addr revoke show ?thesis
    proof (cases rule: revoke_cases)
      case (request b)
      with d show ?thesis by (auto simp: discarding_def)
    next
      case (revoke b)
      then show ?thesis using st by (intro discarding_upd [OF d]) (auto split: option.splits)
    qed (simp add: d)
  next
    case (retire options res)
    from inv retire show ?thesis
    proof (cases rule: retire_cases)
      case (retire b)
      have "a \<noteq> b" using st retire(4) by auto
      then show ?thesis by (intro discarding_upd [OF d]) (simp_all add: retire(5) retired_def)
    qed (simp add: d)
  next
    case (dispose argc res)
    have "live st a" using d by (auto simp: discarding_def live_def)
    then have "activeWriters st \<noteq> 0"
      using inv by (auto simp: coord_inv_def registry_inv_def count_inv_def)
    with dispose d show ?thesis by (auto simp: dispose_def split: option.splits)
  qed
qed

lemma discarding_reach: "coord_reach st st' \<Longrightarrow> coord_inv st \<Longrightarrow> discarding st a \<Longrightarrow> discarding st' a"
  by (induction rule: coord_reach.induct) (blast intro: discarding_step reach_inv)+

lemma writer_request_registered:
  assumes "coord_inv st" and "writer_request st options = Inr a"
  shows "writers st a = Some a"
proof -
  from assms(2) have "\<exists>w p q. authenticateWriter st w p q = Inr a" by (auto simp: writer_request_def)
  with auth_registered assms(1) show ?thesis by (auto simp: coord_inv_def)
qed

text \<open>
  C7: Revocation wins over a running snapshot. Let a revocation be asked for while the writer's
  capability is being consumed. It succeeds, and whatever the callback, the caller or any other
  operation does from then on, the writer is either still consuming or uncertain, never consumed: when
  the snapshot's call goes on, in any continuation and with any settlement, it ends without a result, and
  the writer is uncertain for good.
\<close>
theorem revocation_discards_snapshot:
  assumes "reachable st" and "writer_request st options = Inr a"
    and "w_state (writer_heap st a) = Consuming" and "revokeWriter st options = (res, st1)"
  shows "res = None \<and> (\<forall>st2. coord_reach st1 st2 \<longrightarrow>
    w_state (writer_heap st2 a) \<in> {Consuming, Snapshot_uncertain} \<and>
    (\<forall>k c v out r st3. calls st2 k = Some (Snapshot_awaiting c v) \<longrightarrow>
       c_writerRecord (capability_heap st2 c) = a \<longrightarrow>
       consumeCapability_resumed st2 k c out = (r, st3) \<longrightarrow>
         r = Inl Snapshot_outcome_uncertain \<and> calls st3 k = None \<and>
         w_state (writer_heap st3 a) = Snapshot_uncertain \<and> pinned st3 a))"
proof -
  have inv: "coord_inv st" by (rule reachable_inv [OF assms(1)])
  have a: "writers st a = Some a" by (rule writer_request_registered [OF inv assms(2)])
  have st1: "res = None" "st1 = upd_writer st a (\<lambda>r. r\<lparr>w_revocationRequested := True\<rparr>)"
    using assms(2-4) by (simp_all add: revokeWriter_def)
  have inv1: "coord_inv st1" by (rule revoke_inv [OF inv assms(4)])
  have d1: "discarding st1 a" using a assms(3) by (simp add: st1 discarding_def)
  show ?thesis
  proof (intro conjI allI impI)
    fix st2 assume reach: "coord_reach st1 st2"
    have inv2: "coord_inv st2" by (rule reach_inv [OF reach inv1])
    have d2: "discarding st2 a" by (rule discarding_reach [OF reach inv1 d1])
    then show "w_state (writer_heap st2 a) \<in> {Consuming, Snapshot_uncertain}" by (auto simp: discarding_def)
    fix k c v out r st3
    assume call: "calls st2 k = Some (Snapshot_awaiting c v)" "c_writerRecord (capability_heap st2 c) = a"
      "consumeCapability_resumed st2 k c out = (r, st3)"
    note over = discarding_resumed [OF inv2 d2 call(1) _ call(2,3), simplified]
    show "r = Inl Snapshot_outcome_uncertain" "calls st3 k = None"
      using over by (simp_all add: snapshot_failed_move)
    show "w_state (writer_heap st3 a) = Snapshot_uncertain" "pinned st3 a"
      using over d2 call(2) by (auto simp: snapshot_failed_move pinned_def discarding_def)
  qed (rule st1(1))
qed

lemma retire_ok_iff:
  assumes inv: "coord_inv st"
  shows "(\<exists>st'. retireWriter st options = (None, st')) \<longleftrightarrow>
    (\<exists>a. writer_request st options = Inr a \<and> (w_state (writer_heap st a) = Consumed \<or>
       w_state (writer_heap st a) = Revoked \<and> w_stopEstablished (writer_heap st a)))" (is "?l \<longleftrightarrow> ?r")
proof
  assume ?l
  then show ?r using retire_cases [OF inv] by (metis option.distinct(1))
next
  assume ?r
  then obtain a where a: "writer_request st options = Inr a" "w_state (writer_heap st a) = Consumed \<or>
      w_state (writer_heap st a) = Revoked \<and> w_stopEstablished (writer_heap st a)" by blast
  with writer_request_registered [OF inv a(1)] have "live st a" by (auto simp: live_def)
  then have "s_current (slot_of st a) = Some a" "activeWritersBySession st (w_session st a) = Some 1"
    using inv by (auto simp: coord_inv_def registry_inv_def slot_inv_def count_inv_def)
  with a show ?l by (auto simp: retireWriter_def Let_def slot_of_def w_session_def)
qed

lemma retire_effect:
  assumes inv: "coord_inv st" and "retireWriter st options = (None, st')"
    and "writer_request st options = Inr a"
  shows "st' = retired st a"
  using inv assms(2)
proof (cases rule: retire_cases)
  case (retire b)
  with assms(3) show ?thesis by simp
qed simp

text \<open>
  C8: Retirement is the only release. It succeeds exactly for an authenticated writer whose
  capability was consumed or that was revoked after a confirmed stop, and then the session is free
  and the writer's epoch is the slot's bar for the next one.
\<close>
theorem retirement_releases:
  assumes "reachable st"
  shows "((\<exists>st'. retireWriter st options = (None, st')) \<longleftrightarrow>
      (\<exists>a. writer_request st options = Inr a \<and> (w_state (writer_heap st a) = Consumed \<or>
        w_state (writer_heap st a) = Revoked \<and> w_stopEstablished (writer_heap st a)))) \<and>
    (retireWriter st options = (None, st') \<and> writer_request st options = Inr a \<longrightarrow>
      \<not> live st' a \<and> active_in_session st' (w_session st a) = 0 \<and>
      slot_of st' a = \<lparr>s_current = None, s_lastFencingEpoch = Some (w_epoch st a)\<rparr>)"
proof (intro conjI impI)
  note inv = reachable_inv [OF assms]
  show "(\<exists>st'. retireWriter st options = (None, st')) \<longleftrightarrow>
      (\<exists>a. writer_request st options = Inr a \<and> (w_state (writer_heap st a) = Consumed \<or>
        w_state (writer_heap st a) = Revoked \<and> w_stopEstablished (writer_heap st a)))"
    by (rule retire_ok_iff [OF inv])
  assume "retireWriter st options = (None, st') \<and> writer_request st options = Inr a"
  then have st': "st' = retired st a" using retire_effect [OF inv] by blast
  show "\<not> live st' a" "slot_of st' a = \<lparr>s_current = None, s_lastFencingEpoch = Some (w_epoch st a)\<rparr>"
    by (simp_all add: st' retired_sel)
  show "active_in_session st' (w_session st a) = 0"
    by (simp add: st' retired_def active_in_session_def)
qed

text \<open>
  C9: Disposal succeeds only when nothing is held: no writer is unretired and no call is suspended.
  Afterwards every operation is refused and leaves the state unchanged.
\<close>
theorem disposal_is_final:
  assumes "reachable st" and "dispose st argc = (None, st')"
  shows "(\<forall>a. \<not> live st a) \<and> (\<forall>k. calls st k = None) \<and>
    registerWriter st' o1 = (Inl Writer_state_conflict, st') \<and>
    stopAndIssueCapability_begin st' o2 = (Inl Writer_state_conflict, st') \<and>
    consumeCapability_begin st' o3 = (Inl Stopped_writer_capability_rejected, st') \<and>
    revokeWriter st' o4 = (Some Writer_state_conflict, st') \<and>
    retireWriter st' o5 = (Some Writer_state_conflict, st') \<and>
    assertWriterLaunchAvailable st' o6 = Some Writer_state_conflict \<and>
    dispose st' argc' = (Some Writer_state_conflict, st')"
proof -
  have inv: "coord_inv st" by (rule reachable_inv [OF assms(1)])
  have zero: "activeWriters st = 0" and d: "disposed st'"
    using assms(2) by (auto simp: dispose_def split: option.splits)
  then have none: "\<not> live st a" for a
    using inv by (auto simp: coord_inv_def registry_inv_def count_inv_def)
  then have "calls st k = None" for k
    using suspended_live [OF inv] by (metis option.exhaust)
  with none d show ?thesis
    by (simp add: registerWriter_def register_checked_def stopAndIssueCapability_begin_def
        consumeCapability_begin_def consume_found_def revokeWriter_def retireWriter_def writer_request_def
        assertWriterLaunchAvailable_def dispose_def check_defs first_err_Cons)
qed

text \<open>
  The await test is sound: a value that is not a promise and passes it can be awaited without
  running foreign code, since reading its \<open>then\<close> neither throws nor yields a function.
\<close>
theorem safe_await_runs_no_then:
  assumes "isSafeCoordinatorAwaitValue (Plain v)"
  shows "\<exists>t. js_get v (key ''then'') = Some t \<and> \<not> is_function t"
proof -
  have "then_walk w \<Longrightarrow> \<exists>t. js_get w (key ''then'') = Some t \<and> \<not> is_function t" for w
    by (induction w rule: then_walk.induct)
      (auto simp: desc_value_def split: option.splits jsdesc.splits)
  moreover have "then_walk v"
    using assms
    by (cases v) (auto simp: isSafeCoordinatorAwaitValue_def isSafeAsyncReturnValue_def split: if_splits)
  ultimately show ?thesis by blast
qed

end
