(* ===== verification/Writer_Liveness.thy ===== *)
theory Writer_Liveness
  imports Writer_Properties
begin

text \<open>
  Which registered writers can still be retired, and so free their session. A stop or a snapshot
  whose outcome became uncertain never can, by design; every other writer has a continuation of
  the history that retires it, in which each suspended call settles the way it still can.
\<close>

section \<open>Identities\<close>

text \<open>The identities a writer was registered with stay opaque identifiers, so requests can name it.\<close>

definition opaque_inv :: "coordinator \<Rightarrow> bool" where
  "opaque_inv st \<longleftrightarrow> (\<forall>a. writers st a = Some a \<longrightarrow>
     isOpaqueId (w_processIncarnationId (writer_heap st a)) \<and>
     isOpaqueId (w_writerIncarnationId (writer_heap st a)))"

lemma registers_opaque:
  assumes "registers st att fence st'"
  shows "isOpaqueId (w_processIncarnationId (writer_heap st' (next_addr st)))"
    and "isOpaqueId (w_writerIncarnationId (writer_heap st' (next_addr st)))"
proof -
  obtain options p w stop where r: "register_checked st options = Inr (att, fence, p, w, stop)"
      "st' = snd (insert_writer st att fence p w stop)"
    using assms unfolding registers_def by (metis snd_conv)
  from r(1) have "isOpaqueId p" "isOpaqueId w" by (auto simp: register_checked_def)
  then show "isOpaqueId (w_processIncarnationId (writer_heap st' (next_addr st)))"
    "isOpaqueId (w_writerIncarnationId (writer_heap st' (next_addr st)))"
    by (simp_all add: r(2) insert_eq)
qed

lemma opaque_step:
  assumes inv: "coord_inv st" and "opaque_inv st" and step: "coord_step st st'"
  shows "opaque_inv st'"
  using neutral_steps [OF inv step]
proof (elim disjE exE conjE)
  assume "same_registry st st'"
  with assms(2) show ?thesis by (simp add: same_registry_def opaque_inv_def)
next
  fix att fence assume r: "registers st att fence st'"
  show ?thesis
    using assms(2) registers_sel(1,2) [OF r] registers_opaque [OF r] unfolding opaque_inv_def by auto
next
  fix a assume "st' = retired st a"
  with assms(2) show ?thesis by (simp add: opaque_inv_def retired_def)
next
  fix a assume "st' = retired st a"
  with assms(2) show ?thesis by (simp add: opaque_inv_def retired_def)
next
  assume "disposed st'"
  moreover have "coord_inv st'" by (rule step_inv [OF step inv])
  ultimately show ?thesis by (simp add: coord_inv_def disposed_inv_def opaque_inv_def)
qed

definition good :: "coordinator \<Rightarrow> bool" where
  "good st \<longleftrightarrow> coord_inv st \<and> opaque_inv st"

lemma good_step: "coord_step st st' \<Longrightarrow> good st \<Longrightarrow> good st'"
  using step_inv opaque_step by (auto simp: good_def)

lemma good_reach: "coord_reach st st' \<Longrightarrow> good st \<Longrightarrow> good st'"
  by (induction rule: coord_reach.induct) (blast intro: good_step)+

lemma reachable_good: "reachable st \<Longrightarrow> good st"
  using good_reach coord_inv_init by (auto simp: good_def opaque_inv_def new_coordinator_def)

section \<open>Requests for a registered writer\<close>

lemma assertOpaqueIdW_ok: "isOpaqueId v \<Longrightarrow> assertOpaqueIdW v = Inr v"
  by simp

lemma opaque_self: "isOpaqueId v \<Longrightarrow> js_seq v v"
  by (cases v) (auto simp: isOpaqueId_def)

definition release_request :: "coordinator \<Rightarrow> nat \<Rightarrow> jsval" where
  "release_request st a = plain_obj
     [(''processIncarnationId'', w_processIncarnationId (writer_heap st a)), (''writer'', JOpaque a),
      (''writerIncarnationId'', w_writerIncarnationId (writer_heap st a))]"

definition stop_request :: "coordinator \<Rightarrow> nat \<Rightarrow> jsval" where
  "stop_request st a = plain_obj
     [(''processIncarnationId'', w_processIncarnationId (writer_heap st a)),
      (''stopOperationId'', w_processIncarnationId (writer_heap st a)), (''writer'', JOpaque a),
      (''writerIncarnationId'', w_writerIncarnationId (writer_heap st a))]"

lemma authenticated:
  assumes "good st" and "writers st a = Some a"
  shows "authenticateWriter st (JOpaque a) (w_processIncarnationId (writer_heap st a))
    (w_writerIncarnationId (writer_heap st a)) = Inr a"
proof -
  have "isOpaqueId (w_processIncarnationId (writer_heap st a))" "isOpaqueId (w_writerIncarnationId (writer_heap st a))"
    using assms by (auto simp: good_def opaque_inv_def)
  then show ?thesis
    using assms(2) opaque_self
    by (simp add: authenticateWriter_def weakMapGet_def rcatch_def assertOpaqueIdW_ok guarded_ok)
qed

lemma registered_not_disposed: "good st \<Longrightarrow> writers st a = Some a \<Longrightarrow> \<not> disposed st"
  using inv_not_disposed [of st a] by (auto simp: good_def coord_inv_def)

lemma release_found:
  assumes "good st" and "writers st a = Some a"
  shows "writer_request st (release_request st a) = Inr a"
proof -
  let ?ks = "[''processIncarnationId'', ''writer'', ''writerIncarnationId'']"
  have "exact_object (release_request st a) ?ks"
    unfolding release_request_def by (rule exact_plain_obj) simp_all
  then obtain opts where o: "assertExactOptions (release_request st a) ?ks = Inr opts"
    using exact_options_ok by blast
  have "fld opts k = fld (release_request st a) k" if "k \<in> set ?ks" for k
    by (rule exact_options_result(2) [OF o _ that]) simp
  then have "fld opts ''writer'' = JOpaque a"
    "fld opts ''processIncarnationId'' = w_processIncarnationId (writer_heap st a)"
    "fld opts ''writerIncarnationId'' = w_writerIncarnationId (writer_heap st a)"
    by (simp_all add: release_request_def fld_plain_obj)
  then show ?thesis
    using authenticated [OF assms] registered_not_disposed [OF assms]
    by (simp add: writer_request_def o guarded_ok)
qed

lemma stop_found:
  assumes "good st" and "writers st a = Some a" and "w_state (writer_heap st a) = Running"
  obtains res st' where "stopAndIssueCapability_begin st (stop_request st a) = (Inr res, st')"
    "st' = snd (suspend (upd_writer st a (\<lambda>r. r\<lparr>w_state := Stopping,
       w_stopOperationId := w_processIncarnationId r\<rparr>)) (Stop_calling a))"
proof -
  let ?ks = "[''processIncarnationId'', ''stopOperationId'', ''writer'', ''writerIncarnationId'']"
  have "exact_object (stop_request st a) ?ks"
    unfolding stop_request_def by (rule exact_plain_obj) simp_all
  then obtain opts where o: "assertExactOptions (stop_request st a) ?ks = Inr opts"
    using exact_options_ok by blast
  have "fld opts k = fld (stop_request st a) k" if "k \<in> set ?ks" for k
    by (rule exact_options_result(2) [OF o _ that]) simp
  then have f: "fld opts ''writer'' = JOpaque a"
    "fld opts ''processIncarnationId'' = w_processIncarnationId (writer_heap st a)"
    "fld opts ''stopOperationId'' = w_processIncarnationId (writer_heap st a)"
    "fld opts ''writerIncarnationId'' = w_writerIncarnationId (writer_heap st a)"
    by (simp_all add: stop_request_def fld_plain_obj)
  have "isOpaqueId (w_processIncarnationId (writer_heap st a))"
    using assms(1,2) by (simp add: good_def opaque_inv_def)
  then show thesis
    using that authenticated [OF assms(1,2)] registered_not_disposed [OF assms(1,2)] assms(3) f
    by (simp add: stopAndIssueCapability_begin_def o assertOpaqueIdW_ok guarded_ok Let_def suspend_def
        upd_writer_def)
qed

section \<open>What can still end well\<close>

text \<open>
  A suspended call can end well while its callback may still answer. Awaiting, a promise can still
  settle either way; any other value settles to itself, so it must be the confirmation already, or
  a value that passes as a snapshot's result.
\<close>

fun hopeful :: "frame \<Rightarrow> bool" where
  "hopeful (Stop_calling a) = True"
| "hopeful (Snapshot_calling c) = True"
| "hopeful (Stop_awaiting a v) = (case v of
     Promise_object _ \<Rightarrow> True
   | Generator_object _ \<Rightarrow> False
   | Plain x \<Rightarrow> js_seq x STOPPED_WRITER_STOP_CONFIRMED)"
| "hopeful (Snapshot_awaiting c v) = (case v of
     Promise_object _ \<Rightarrow> True
   | Generator_object _ \<Rightarrow> False
   | Plain x \<Rightarrow> \<not> is_proxy x \<and> isSafeAsyncReturnValue v)"

definition frame_writer :: "coordinator \<Rightarrow> frame \<Rightarrow> nat option" where
  "frame_writer st f = (case frame_snap f of
     Some c \<Rightarrow> Some (c_writerRecord (capability_heap st c)) | None \<Rightarrow> frame_stop f)"

definition hope :: "coordinator \<Rightarrow> nat \<Rightarrow> bool" where
  "hope st a \<longleftrightarrow> (\<exists>k f. calls st k = Some f \<and> frame_writer st f = Some a \<and> hopeful f)"

definition recoverable :: "coordinator \<Rightarrow> nat \<Rightarrow> bool" where
  "recoverable st a = (let r = writer_heap st a in case w_state r of
     Stop_uncertain \<Rightarrow> False
   | Snapshot_uncertain \<Rightarrow> False
   | Stopping \<Rightarrow> hope st a
   | Revoked \<Rightarrow> w_stopEstablished r \<or> hope st a
   | Consuming \<Rightarrow> \<not> w_revocationRequested r \<and> hope st a
   | _ \<Rightarrow> True)"

definition can_retire :: "coordinator \<Rightarrow> nat \<Rightarrow> bool" where
  "can_retire st a \<longleftrightarrow> (\<exists>st'. coord_reach st st' \<and> w_state (writer_heap st' a) = Retired)"

lemma reach_first: "coord_reach st1 st2 \<Longrightarrow> coord_step st st1 \<Longrightarrow> coord_reach st st2"
  by (induction rule: coord_reach.induct) (blast intro: coord_reach.intros)+

lemma retire_later: "coord_step st st1 \<Longrightarrow> can_retire st1 a \<Longrightarrow> can_retire st a"
  unfolding can_retire_def using reach_first by blast

section \<open>Every recoverable writer can be retired\<close>

lemma retire_now:
  assumes "good st" and "writers st a = Some a"
    and "w_state (writer_heap st a) = Consumed \<or>
      w_state (writer_heap st a) = Revoked \<and> w_stopEstablished (writer_heap st a)"
  shows "can_retire st a"
proof -
  have inv: "coord_inv st" using assms(1) by (simp add: good_def)
  note req = release_found [OF assms(1,2)]
  then obtain st' where r: "retireWriter st (release_request st a) = (None, st')"
    using retire_ok_iff [OF inv] assms(3) by blast
  then have "st' = retired st a" using retire_effect [OF inv] req by blast
  then have "w_state (writer_heap st' a) = Retired" by (simp add: retired_def)
  then show ?thesis
    using coord_step.retire [OF r] unfolding can_retire_def by (blast intro: coord_reach.intros)
qed

lemma issued_can_retire:
  assumes "good st" and "writers st a = Some a" and "w_state (writer_heap st a) = Issued"
  shows "can_retire st a"
proof -
  obtain res st' where r: "revokeWriter st (release_request st a) = (res, st')" by fastforce
  then have "w_state (writer_heap st' a) = Revoked"
    "w_stopEstablished (writer_heap st' a) = w_stopEstablished (writer_heap st a)" "writers st' = writers st"
    using release_found [OF assms(1,2)] assms(3)
    by (auto simp: revokeWriter_def Let_def split: option.splits if_splits)
  moreover have "w_stopEstablished (writer_heap st a)"
    using row_at [of st a] assms by (simp add: row_def good_def)
  ultimately have "can_retire st' a"
    using assms(2) by (intro retire_now good_step [OF coord_step.revoke [OF r] assms(1)]) simp_all
  with coord_step.revoke [OF r] show ?thesis by (rule retire_later)
qed

lemma stop_awaiting_can_retire:
  assumes g: "good st" and k: "calls st k = Some (Stop_awaiting a v)" and h: "hopeful (Stop_awaiting a v)"
  shows "can_retire st a"
proof -
  have inv: "coord_inv st" using g by (simp add: good_def)
  note fr = stop_frame_facts [OF inv k, simplified]
  obtain out where out: "settles v out" "stop_confirmed out"
  proof (cases v)
    case (Plain x)
    with h that [of "Fulfilled v"] show thesis by (simp add: stop_confirmed_def)
  next
    case (Promise_object p)
    with that [of "Fulfilled (Plain STOPPED_WRITER_STOP_CONFIRMED)"] show thesis
      by (simp add: stop_confirmed_def STOPPED_WRITER_STOP_CONFIRMED_def js_seq_def)
  qed (use h in simp)
  obtain res st' where r: "stopAndIssueCapability_resumed st k a out = (res, st')" by fastforce
  note step = coord_step.stop_resumed [OF k out(1) r]
  have "can_retire st' a"
  proof (cases "w_state (writer_heap st a) = Stopping")
    case True
    then show ?thesis using out(2) fr(1)
      by (intro issued_can_retire [OF good_step [OF step g]]) (simp_all add: stop_resumed_state [OF r])
  next
    case False
    then show ?thesis using out(2) fr(1,3)
      by (intro retire_now [OF good_step [OF step g]]) (simp_all add: stop_resumed_state [OF r])
  qed
  with step show ?thesis by (rule retire_later)
qed

lemma stop_calling_can_retire:
  assumes g: "good st" and k: "calls st k = Some (Stop_calling a)"
  shows "can_retire st a"
proof -
  let ?v = "Plain STOPPED_WRITER_STOP_CONFIRMED"
  let ?st = "st\<lparr>calls := (calls st)(k \<mapsto> Stop_awaiting a ?v)\<rparr>"
  have "stopAndIssueCapability_returned st k a (Callback_returned ?v) = (None, ?st)"
    by (simp add: stopAndIssueCapability_returned_def isSafeCoordinatorAwaitValue_def isSafeAsyncReturnValue_def
        STOPPED_WRITER_STOP_CONFIRMED_def)
  note step = coord_step.stop_returned [OF k this]
  have "can_retire ?st a"
    by (rule stop_awaiting_can_retire [OF good_step [OF step g], where v = ?v and k = k])
      (simp_all add: STOPPED_WRITER_STOP_CONFIRMED_def js_seq_def)
  with step show ?thesis by (rule retire_later)
qed

lemma running_can_retire:
  assumes g: "good st" and "writers st a = Some a" and "w_state (writer_heap st a) = Running"
  shows "can_retire st a"
proof -
  obtain res st' where r: "stopAndIssueCapability_begin st (stop_request st a) = (Inr res, st')"
    "st' = snd (suspend (upd_writer st a (\<lambda>r. r\<lparr>w_state := Stopping,
       w_stopOperationId := w_processIncarnationId r\<rparr>)) (Stop_calling a))"
    using stop_found [OF assms] .
  note step = coord_step.stop_begin [OF r(1)]
  have "can_retire st' a"
    by (rule stop_calling_can_retire [OF good_step [OF step g], of "next_addr st"]) (simp add: r(2))
  with step show ?thesis by (rule retire_later)
qed

lemma snapshot_awaiting_can_retire:
  assumes g: "good st" and k: "calls st k = Some (Snapshot_awaiting c v)" and h: "hopeful (Snapshot_awaiting c v)"
    and a: "a = c_writerRecord (capability_heap st c)" and "\<not> w_revocationRequested (writer_heap st a)"
  shows "can_retire st a"
proof -
  have inv: "coord_inv st" and link: "link_inv st" using g by (simp_all add: good_def coord_inv_def)
  note fr = snap_frame_facts [OF inv k, simplified]
  have reg: "writers st a = Some a" using link_cap(2) [OF link fr(1) a] by simp
  obtain w where w: "settles v (Fulfilled w)" "\<not> is_proxy (aw_view w)" "isSafeAsyncReturnValue w"
      "\<nexists>x. w = Generator_object x"
  proof (cases v)
    case (Plain x)
    with h that [of v] show thesis by simp
  next
    case (Promise_object p)
    with that [of "Plain JNull"] show thesis by (simp add: isSafeAsyncReturnValue_def)
  qed (use h in simp)
  then have r: "consumeCapability_resumed st k c (Fulfilled w) =
      (Inr w, move (finish st k) c C_consumed Consumed)"
    using assms(5) a by (cases w) (simp_all add: consumeCapability_resumed_def move_def Let_def)
  note step = coord_step.consume_resumed [OF k w(1) r]
  have "can_retire (move (finish st k) c C_consumed Consumed) a"
    by (rule retire_now [OF good_step [OF step g]]) (use reg a in simp_all)
  with step show ?thesis by (rule retire_later)
qed

lemma snapshot_calling_can_retire:
  assumes g: "good st" and k: "calls st k = Some (Snapshot_calling c)"
    and a: "a = c_writerRecord (capability_heap st c)" and "\<not> w_revocationRequested (writer_heap st a)"
  shows "can_retire st a"
proof -
  let ?st = "st\<lparr>calls := (calls st)(k \<mapsto> Snapshot_awaiting c (Plain JNull))\<rparr>"
  have "consumeCapability_returned st k c (Callback_returned (Plain JNull)) = (None, ?st)"
    by (simp add: consumeCapability_returned_def isSafeCoordinatorAwaitValue_def isSafeAsyncReturnValue_def)
  note step = coord_step.consume_returned [OF k this]
  have "can_retire ?st a"
    by (rule snapshot_awaiting_can_retire [OF good_step [OF step g], where v = "Plain JNull" and k = k])
      (use assms in \<open>simp_all add: isSafeAsyncReturnValue_def\<close>)
  with step show ?thesis by (rule retire_later)
qed

lemma recoverable_can_retire:
  assumes g: "good st" and reg: "writers st a = Some a" and r: "recoverable st a"
  shows "can_retire st a"
proof -
  have hope: "can_retire st a" if h: "hope st a" and "w_state (writer_heap st a) = Consuming \<Longrightarrow>
      \<not> w_revocationRequested (writer_heap st a)"
  proof -
    obtain k f where k: "calls st k = Some f" "frame_writer st f = Some a" "hopeful f"
      using h by (auto simp: hope_def)
    have inv: "coord_inv st" using g by (simp add: good_def)
    have "\<not> w_revocationRequested (writer_heap st a)" if "frame_snap f = Some c" for c
      using snap_frame_facts(3) [OF inv k(1) that] k(2) that \<open>_ \<Longrightarrow> \<not> w_revocationRequested _\<close>
      by (simp add: frame_writer_def)
    with k show ?thesis
      using stop_calling_can_retire [OF g] stop_awaiting_can_retire [OF g] snapshot_calling_can_retire [OF g]
        snapshot_awaiting_can_retire [OF g]
      by (cases f) (auto simp: frame_writer_def)
  qed
  show ?thesis
  proof (cases "w_state (writer_heap st a)")
    case Retired
    then show ?thesis unfolding can_retire_def by (blast intro: coord_reach.intros)
  qed (use r hope running_can_retire [OF g reg] issued_can_retire [OF g reg] retire_now [OF g reg]
      in \<open>auto simp: recoverable_def\<close>)
qed

section \<open>No other writer can\<close>

definition stuck :: "coordinator \<Rightarrow> nat \<Rightarrow> bool" where
  "stuck st a \<longleftrightarrow> live st a \<and> \<not> recoverable st a"

lemma frame_writer_cong:
  "(\<And>c. c_writerRecord (capability_heap st' c) = c_writerRecord (capability_heap st c)) \<Longrightarrow>
     frame_writer st' = frame_writer st"
  by (auto simp: frame_writer_def fun_eq_iff split: option.splits)

lemma frame_writer_simps [simp]:
  "frame_writer st (Stop_calling b) = Some b" "frame_writer st (Stop_awaiting b v) = Some b"
  "frame_writer st (Snapshot_calling c) = Some (c_writerRecord (capability_heap st c))"
  "frame_writer st (Snapshot_awaiting c v) = Some (c_writerRecord (capability_heap st c))"
  by (simp_all add: frame_writer_def)

lemma frame_writer_upd [simp]:
  "frame_writer (upd_writer st b g) = frame_writer st" "frame_writer (upd_capability st c cs) = frame_writer st"
  "frame_writer (finish st k) = frame_writer st" "frame_writer (snd (suspend st f)) = frame_writer st"
  "frame_writer (move st c cs ws) = frame_writer st" "frame_writer (stop_failed st b) = frame_writer st"
  "frame_writer (st\<lparr>calls := m\<rparr>) = frame_writer st"
  by (rule frame_writer_cong; simp add: stop_failed_def)+

lemma stop_failed_calls [simp]: "calls (stop_failed st b) = calls st"
  by (simp add: stop_failed_def)

lemma hope_from:
  assumes "hope st' a" and "\<And>k f. calls st' k = Some f \<Longrightarrow> frame_writer st' f = Some a \<Longrightarrow> hopeful f \<Longrightarrow>
    calls st k = Some f \<and> frame_writer st f = Some a"
  shows "hope st a"
  using assms unfolding hope_def by blast

lemma hopeI: "calls st k = Some f \<Longrightarrow> frame_writer st f = Some a \<Longrightarrow> hopeful f \<Longrightarrow> hope st a"
  by (auto simp: hope_def)

lemma stuck_keeps:
  assumes "stuck st a" and "writers st' a = writers st a" and "writer_heap st' a = writer_heap st a"
    and "hope st' a \<Longrightarrow> hope st a"
  shows "stuck st' a"
  using assms by (auto simp: stuck_def live_def recoverable_def Let_def split: wstate.splits)

lemma stuck_states:
  assumes "stuck st a"
  shows "writers st a = Some a" and "live st a"
    and "w_state (writer_heap st a) \<in> {Stopping, Stop_uncertain, Consuming, Snapshot_uncertain, Revoked}"
  using assms by (auto simp: stuck_def live_def recoverable_def split: wstate.splits)

text \<open>A hopeful call of a stuck writer is a consumption that a revocation already spoiled.\<close>

lemma stuck_call:
  assumes inv: "coord_inv st" and s: "stuck st a" and k: "calls st k = Some f" "frame_writer st f = Some a"
  shows "frame_snap f = None \<Longrightarrow> \<not> hopeful f"
    and "frame_snap f = Some c \<Longrightarrow> w_state (writer_heap st a) = Consuming \<and>
      (hopeful f \<longrightarrow> w_revocationRequested (writer_heap st a))"
proof -
  have hope: "hopeful f \<Longrightarrow> hope st a" using k by (auto simp: hope_def)
  show "\<not> hopeful f" if n: "frame_snap f = None"
  proof -
    have "frame_stop f = Some a" using k(2) n by (simp add: frame_writer_def)
    from stop_frame_facts(3) [OF inv k(1) this] s hope show ?thesis
      by (auto simp: stuck_def recoverable_def)
  qed
  show "w_state (writer_heap st a) = Consuming \<and> (hopeful f \<longrightarrow> w_revocationRequested (writer_heap st a))"
    if n: "frame_snap f = Some c"
    using snap_frame_facts(3) [OF inv k(1) n] k(2) n s hope
    by (auto simp: frame_writer_def stuck_def recoverable_def)
qed

lemma stuck_stop_returned:
  assumes inv: "coord_inv st" and s: "stuck st a" and k: "calls st k = Some (Stop_calling b)"
    and step: "stopAndIssueCapability_returned st k b ret = (res, st')"
  shows "stuck st' a"
proof -
  have ba: "b \<noteq> a"
    using stuck_call(1) [OF inv s k] by auto
  have "stuck (stop_failed (finish st k) b) a"
    by (rule stuck_keeps [OF s], use ba in \<open>simp_all add: stop_failed_def\<close>)
      (erule hope_from, auto split: if_splits)
  moreover have "stuck (st\<lparr>calls := (calls st)(k \<mapsto> Stop_awaiting b v)\<rparr>) a" for v
    by (rule stuck_keeps [OF s], simp_all)
      (erule hope_from, use ba in \<open>auto split: if_splits\<close>)
  ultimately show ?thesis
    using step by (auto simp: stopAndIssueCapability_returned_def split: callback_return.splits if_splits)
qed

lemma confirmed_hopeful: "settles v out \<Longrightarrow> stop_confirmed out \<Longrightarrow> hopeful (Stop_awaiting a v)"
  by (cases v; cases out) (auto simp: stop_confirmed_def split: awaitable.splits)

lemma stuck_stop_resumed:
  assumes inv: "coord_inv st" and s: "stuck st a" and k: "calls st k = Some (Stop_awaiting b v)"
    and "settles v out" and step: "stopAndIssueCapability_resumed st k b out = (res, st')"
  shows "stuck st' a"
proof (cases "b = a")
  case True
  note fr = stop_frame_facts [OF inv k, simplified]
  have "\<not> hopeful (Stop_awaiting b v)"
    using stuck_call(1) [OF inv s k] True by simp
  then have "\<not> stop_confirmed out" using confirmed_hopeful assms(4) by blast
  then have st': "st' = stop_failed (finish st k) a" using stop_resumed_state [OF step] True by simp
  have "hope st' a \<Longrightarrow> hope st a"
    unfolding st' by (erule hope_from) (auto split: if_splits)
  then show ?thesis
    using s fr(3,4) True by (auto simp: st' stuck_def live_def recoverable_def stop_failed_def)
next
  case False
  have own: "c \<noteq> next_addr st" if "calls st j = Some f" "frame_snap f = Some c" for j f c
    using snap_frame_facts(1) [OF inv that] inv unfolding coord_inv_def addr_inv_def by blast
  have "frame_writer st' f = frame_writer st f" if "calls st j = Some f" for j f
    using own [OF that]
    by (auto simp: stop_resumed_state [OF step] frame_writer_def [of "issue _ _"] frame_writer_def [of st]
        split: option.splits)
  then have "hope st' a \<Longrightarrow> hope st a"
    by (elim hope_from) (auto simp: stop_resumed_state [OF step] split: if_splits)
  then show ?thesis
    by (intro stuck_keeps [OF s])
      (use False in \<open>simp_all add: stop_resumed_state [OF step] stop_failed_def\<close>)
qed

lemma stuck_spoiled:
  assumes "stuck st a" and "w_state (writer_heap st' a) \<in> {Stop_uncertain, Snapshot_uncertain}"
    and "writers st' a = writers st a"
  shows "stuck st' a"
  using assms by (auto simp: stuck_def live_def recoverable_def)

lemma stuck_consume_returned:
  assumes inv: "coord_inv st" and s: "stuck st a" and k: "calls st k = Some (Snapshot_calling c)"
    and step: "consumeCapability_returned st k c ret = (res, st')"
  shows "stuck st' a"
proof -
  define b where "b = c_writerRecord (capability_heap st c)"
  have failed: "stuck (snapshot_failed (finish st k) c) a"
  proof (cases "b = a")
    case True
    then show ?thesis
      by (intro stuck_spoiled [OF s]) (simp_all add: snapshot_failed_move b_def)
  next
    case False
    then show ?thesis unfolding snapshot_failed_move
      by (intro stuck_keeps [OF s], simp_all add: b_def) (erule hope_from, auto split: if_splits)
  qed
  moreover have "stuck (st\<lparr>calls := (calls st)(k \<mapsto> Snapshot_awaiting c v)\<rparr>) a" for v
  proof (rule stuck_keeps [OF s])
    assume "hope (st\<lparr>calls := (calls st)(k \<mapsto> Snapshot_awaiting c v)\<rparr>) a"
    then show "hope st a"
      using hopeI [OF k, of a] by (cases "b = a") (auto simp: b_def elim!: hope_from split: if_splits)
  qed simp_all
  ultimately show ?thesis
    using step by (auto simp: consumeCapability_returned_def split: callback_return.splits if_splits)
qed

lemma answered_hopeful:
  assumes "consumeCapability_resumed st k c out = (Inr w, st')" and "settles v out"
  shows "hopeful (Snapshot_awaiting c v)"
    and "\<not> w_revocationRequested (writer_heap st (c_writerRecord (capability_heap st c)))"
  using assms
  by (cases v; auto simp: consumeCapability_resumed_def Let_def split: settlement.splits if_splits)+

lemma discarded:
  assumes "consumeCapability_resumed st k c out = (Inl e, st')"
  shows "st' = move (finish st k) c C_consumed Snapshot_uncertain"
  using assms unfolding consumeCapability_resumed_def snapshot_failed_move Let_def
  by (auto split: settlement.splits if_splits)

lemma stuck_consume_resumed:
  assumes inv: "coord_inv st" and s: "stuck st a" and k: "calls st k = Some (Snapshot_awaiting c v)"
    and "settles v out" and step: "consumeCapability_resumed st k c out = (res, st')"
  shows "stuck st' a"
proof (cases "c_writerRecord (capability_heap st c) = a")
  case True
  have "\<nexists>w. res = Inr w"
    using answered_hopeful [OF _ assms(4), of st k c] step stuck_call(2) [OF inv s k, of c] True by auto
  then obtain e where "res = Inl e" by (cases res) auto
  with step have "st' = move (finish st k) c C_consumed Snapshot_uncertain" using discarded by blast
  with True show ?thesis by (intro stuck_spoiled [OF s]) simp_all
next
  case False
  have "stuck (move (finish st k) c C_consumed ws) a" for ws
    using False by (intro stuck_keeps [OF s], simp_all) (erule hope_from, auto split: if_splits)
  with consume_resumed_state [OF step] show ?thesis by auto
qed

lemma stuck_revoke:
  assumes inv: "coord_inv st" and s: "stuck st a" and step: "revokeWriter st options = (res, st')"
  shows "stuck st' a"
proof -
  have addr: "addr_inv st" using inv by (simp add: coord_inv_def)
  have reg: "writers st a = Some a" by (rule stuck_states(1) [OF s])
  from addr step show ?thesis
  proof (cases rule: revoke_cases)
    case (request b)
    have "hope st' a \<Longrightarrow> hope st a" unfolding request(4) by (erule hope_from) auto
    then show ?thesis
      using s request(2)
      by (cases "b = a") (auto simp: request(4) stuck_def live_def recoverable_def Let_def split: wstate.splits)
  next
    case (revoke b)
    have h: "hope st' a \<Longrightarrow> hope st a"
      unfolding revoke(4) by (erule hope_from) (auto split: option.splits if_splits)
    show ?thesis
    proof (cases "b = a")
      case True
      have "\<not> hope st a" if "w_state (writer_heap st a) = Stop_uncertain"
        using row_at [OF inv reg] that stuck_call [OF inv s] stop_frame_facts(3) [OF inv]
        by (auto simp: hope_def row_def frame_writer_def split: option.splits) (metis wstate.distinct)+
      then show ?thesis
        using s h revoke(3) row_at [OF inv reg] True stuck_states(3) [OF s]
        by (auto simp: revoke(4) stuck_def live_def recoverable_def row_def split: option.splits)
    next
      case False
      then show ?thesis using h
        by (intro stuck_keeps [OF s]) (auto simp: revoke(4) split: option.splits)
    qed
  qed (simp add: s)
qed

lemma stuck_registers:
  assumes s: "stuck st a" and r: "registers st att fence st'"
  shows "stuck st' a"
proof -
  note sel = registers_sel [OF r]
  have "a \<noteq> next_addr st" using stuck_states(1) [OF s] registers_parts(12) [OF r] by auto
  moreover have "frame_writer st' = frame_writer st" by (rule frame_writer_cong) (simp add: sel)
  ultimately show ?thesis
    by (intro stuck_keeps [OF s]) (simp_all add: sel hope_def)
qed

lemma stuck_step:
  assumes inv: "coord_inv st" and s: "stuck st a" and step: "coord_step st st'"
  shows "stuck st' a"
  using step
proof cases
  case (register options res)
  from inv register show ?thesis
    by (cases rule: register_cases) (use s stuck_registers in blast)+
next
  case (stop_begin options res)
  have addr: "addr_inv st" using inv by (simp add: coord_inv_def)
  show ?thesis
  proof (cases res)
    case (Inl e)
    with stop_begin stop_begin_error s show ?thesis by blast
  next
    case (Inr x)
    obtain b op where b: "w_state (writer_heap st b) = Running"
      and st': "st' = snd (suspend (upd_writer st b (\<lambda>r. r\<lparr>w_state := Stopping, w_stopOperationId := op\<rparr>)) (Stop_calling b))"
      using stop_begin_result [OF addr stop_begin [unfolded Inr]] .
    have "b \<noteq> a" using b stuck_states(3) [OF s] by auto
    then show ?thesis
      by (intro stuck_keeps [OF s]) (auto simp: st' elim!: hope_from split: if_splits)
  qed
next
  case (consume_begin options res)
  have addr: "addr_inv st" using inv by (simp add: coord_inv_def)
  have other: "c_writerRecord (capability_heap st c) \<noteq> a"
    if "capabilities st c = Some c" "c_state (capability_heap st c) = C_issued" for c
    using issued_facts(1) [OF inv that] stuck_states(3) [OF s] by auto
  from addr consume_begin show ?thesis
  proof (cases rule: consume_begin_cases)
    case (reject c)
    then show ?thesis using other
      by (intro stuck_keeps [OF s]) (auto elim!: hope_from)
  next
    case (run c opts runSnapshot)
    then show ?thesis using other
      by (intro stuck_keeps [OF s]) (auto elim!: hope_from split: if_splits)
  qed (simp add: s)
next
  case (retire options res)
  from inv retire show ?thesis
  proof (cases rule: retire_cases)
    case (retire b)
    have "a \<noteq> b" using s retire(4) by (auto simp: stuck_def recoverable_def)
    moreover have "frame_writer st' = frame_writer st"
      by (rule frame_writer_cong) (simp add: retire(5) retired_def)
    ultimately show ?thesis
      by (intro stuck_keeps [OF s]) (auto simp: retire(5) retired_def hope_def)
  qed (simp add: s)
next
  case (dispose argc res)
  have "activeWriters st \<noteq> 0"
    using inv stuck_states(2) [OF s] by (auto simp: coord_inv_def registry_inv_def count_inv_def)
  with dispose s show ?thesis by (auto simp: dispose_def split: option.splits)
qed (use inv s in \<open>blast intro: stuck_stop_returned stuck_stop_resumed stuck_consume_returned
    stuck_consume_resumed stuck_revoke\<close>)+

lemma stuck_reach: "coord_reach st st' \<Longrightarrow> coord_inv st \<Longrightarrow> stuck st a \<Longrightarrow> stuck st' a"
  by (induction rule: coord_reach.induct) (blast intro: stuck_step reach_inv)+

text \<open>
  C10: A writer's session can be freed exactly while nothing about the writer has become uncertain.
  In any history, a registered and unretired writer has a continuation that retires it if and only
  if it is running, issued or consumed; or stopping or revoked with its stop confirmed or in a call
  that can still confirm it; or consuming, without a requested revocation, in a call that can still
  answer.
\<close>

theorem retirement_stays_possible:
  assumes "reachable st" and "live st a"
  shows "(\<exists>st'. coord_reach st st' \<and> w_state (writer_heap st' a) = Retired) \<longleftrightarrow> recoverable st a"
proof
  assume "\<exists>st'. coord_reach st st' \<and> w_state (writer_heap st' a) = Retired"
  then show "recoverable st a"
    using stuck_reach [OF _ reachable_inv [OF assms(1)]] assms(2) by (auto simp: stuck_def live_def)
next
  assume "recoverable st a"
  moreover have "writers st a = Some a" using assms(2) by (simp add: live_def)
  ultimately show "\<exists>st'. coord_reach st st' \<and> w_state (writer_heap st' a) = Retired"
    using recoverable_can_retire reachable_good [OF assms(1)] by (simp add: can_retire_def)
qed

end
