(* ===== verification/Writer_History.thy ===== *)
theory Writer_History
  imports Writer_Liveness Contract_Examples
begin

text \<open>
  One concrete history of the stopped-writer coordinator, from registration through a confirmed
  stop and a snapshot to retirement, with its variants in which the outcome stays uncertain. The
  guarantees of \<open>Writer_Properties\<close> are applied along it.
\<close>

section \<open>A concrete history\<close>

text \<open>The binding the coordinator keeps.\<close>

definition ex_binding :: "jsval \<times> jsval" where
  "ex_binding = (case normalizeBinding ex_attachment ex_canonical of Inr b \<Rightarrow> b | Inl _ \<Rightarrow> (JNull, JNull))"

lemma ex_binding_eq: "normalizeBinding ex_attachment ex_canonical = Inr ex_binding"
  using normalizeBinding_ok [of ex_attachment ex_canonical] ex_attachment_ok ex_canonical_ok ex_same_fence
  by (auto simp: ex_binding_def)

lemma ex_snapshot: "assertExactOptions ex_attachment attachment_keys = Inr (fst ex_binding)"
proof -
  obtain att f where b: "ex_binding = (att, f)" by (cases ex_binding)
  show ?thesis unfolding b fst_conv by (rule binding_snapshots [OF ex_binding_eq [unfolded b]])
qed

lemma ex_binding_flds:
  "k \<in> set attachment_keys \<Longrightarrow> fld (fst ex_binding) k = fld ex_attachment k"
  "fld (snd ex_binding) ''fencingEpoch'' = lit ''7''"
proof -
  show f: "k \<in> set attachment_keys \<Longrightarrow> fld (fst ex_binding) k = fld ex_attachment k" for k
    by (rule exact_options_result(2) [OF ex_snapshot attachment.keys_distinct])
  have "fld (snd ex_binding) ''fencingEpoch'' = fld (fst ex_binding) ''fencingEpoch''"
    by (rule binding_fields(1) [of ex_attachment ex_canonical]) (simp add: ex_binding_eq)
  also have "\<dots> = lit ''7''"
    by (simp add: f attachment_keys_def) (simp add: ex_attachment_def fld_plain_obj)
  finally show "fld (snd ex_binding) ''fencingEpoch'' = lit ''7''" .
qed

definition ex_register :: jsval where
  "ex_register = plain_obj [(''attachment'', ex_attachment), (''canonicalLease'', ex_canonical),
     (''processIncarnationId'', lit ''process-1''), (''stopWriter'', JFun 1 False),
     (''writerIncarnationId'', lit ''writer-1'')]"

definition ex_stop :: jsval where
  "ex_stop = plain_obj [(''processIncarnationId'', lit ''process-1''), (''stopOperationId'', lit ''stop-1''),
     (''writer'', JOpaque 1), (''writerIncarnationId'', lit ''writer-1'')]"

definition ex_release :: jsval where
  "ex_release = plain_obj [(''processIncarnationId'', lit ''process-1''), (''writer'', JOpaque 1),
     (''writerIncarnationId'', lit ''writer-1'')]"

definition ex_consume :: "nat \<Rightarrow> jsval" where
  "ex_consume c = plain_obj [(''attachment'', ex_attachment), (''canonicalLease'', ex_canonical),
     (''capability'', JOpaque c), (''processIncarnationId'', lit ''process-1''),
     (''runSnapshot'', JFun 2 False), (''stopOperationId'', lit ''stop-1''), (''writer'', JOpaque 1),
     (''writerIncarnationId'', lit ''writer-1'')]"

text \<open>The writer with address 1 in a reachable state.\<close>

definition ex_writer :: "coordinator \<Rightarrow> wstate \<Rightarrow> bool" where
  "ex_writer st s \<longleftrightarrow> reachable st \<and> writers st = [1 \<mapsto> 1] \<and> w_state (writer_heap st 1) = s \<and>
     \<not> w_revocationRequested (writer_heap st 1) \<and> w_processIncarnationId (writer_heap st 1) = lit ''process-1'' \<and>
     w_writerIncarnationId (writer_heap st 1) = lit ''writer-1'' \<and>
     (w_attachment (writer_heap st 1), w_writerFence (writer_heap st 1)) = ex_binding"

lemma exact_optionsE:
  assumes "exact_object v ks" and "distinct ks"
  obtains opts where "assertExactOptions v ks = Inr opts" "\<forall>k \<in> set ks. fld opts k = fld v k"
  using exact_options_ok exact_options_result(2) assms by metis

lemma ex_register_exact: "exact_object ex_register register_keys"
  unfolding ex_register_def by (rule exact_plain_obj) simp_all

lemma ex_admissible: "admissible new_coordinator ex_attachment ex_canonical"
  unfolding admissible_reachable [OF coord_inv_init]
  using ex_attachment_ok ex_canonical_ok ex_same_fence
  by (simp add: new_coordinator_def live_def)

lemma register_admit_binding:
  assumes "register_admit st a l = Inr (att, fence)"
  shows "normalizeBinding a l = Inr (att, fence)"
proof (cases "normalizeBinding a l")
  case (Inr b)
  with assms show ?thesis by (cases b) (simp add: register_admit_def Let_def)
qed (use assms in \<open>simp add: register_admit_def\<close>)

lemma ex_running: "\<exists>st. ex_writer st Running \<and> registerWriter new_coordinator ex_register = (Inr (JOpaque 1), st)"
proof -
  have f: "fld ex_register k = (case map_of [(''attachment'', ex_attachment), (''canonicalLease'', ex_canonical),
     (''processIncarnationId'', lit ''process-1''), (''stopWriter'', JFun 1 False),
     (''writerIncarnationId'', lit ''writer-1'')] k of Some v \<Rightarrow> v | None \<Rightarrow> JUndefined)" for k
    unfolding ex_register_def by (rule fld_plain_obj)
  have "\<exists>h st'. registerWriter new_coordinator ex_register = (Inr h, st')"
    unfolding register_ok_iff using ex_register_exact ex_admissible by (simp add: f)
  then obtain h st where r: "registerWriter new_coordinator ex_register = (Inr h, st)" by blast
  have "reachable st" by (rule reach_step [OF reach_start register [OF r]])
  moreover obtain att fence p w stop where c: "register_checked new_coordinator ex_register =
      Inr (att, fence, p, w, stop)" "h = JOpaque 1" "registers new_coordinator att fence st"
    using coord_inv_init r by (cases rule: register_cases) (auto simp: new_coordinator_def)
  from c(1) have "register_admit new_coordinator ex_attachment ex_canonical = Inr (att, fence)"
      "p = lit ''process-1''" "w = lit ''writer-1''"
  proof -
    obtain opts where o: "assertExactOptions ex_register register_keys = Inr opts"
      using ex_register_exact exact_options_ok by blast
    have "fld opts k = fld ex_register k" if "k \<in> set register_keys" for k
      by (rule exact_options_result(2) [OF o _ that]) simp
    with c(1) o show "register_admit new_coordinator ex_attachment ex_canonical = Inr (att, fence)"
      "p = lit ''process-1''" "w = lit ''writer-1''"
      by (simp_all add: register_checked_def f split: prod.splits)
  qed
  then have b: "(att, fence) = ex_binding" "p = lit ''process-1''" "w = lit ''writer-1''"
    using ex_binding_eq register_admit_binding by simp_all
  from r c(1) have "st = snd (insert_writer new_coordinator att fence p w stop)"
    by (simp add: registerWriter_def split: prod.splits)
  with b have "ex_writer st Running" using \<open>reachable st\<close>
    by (simp add: ex_writer_def insert_eq) (simp add: new_coordinator_def)
  with r c(2) show ?thesis by blast
qed

lemma ex_auth:
  "ex_writer st s \<Longrightarrow> authenticateWriter st (JOpaque 1) (lit ''process-1'') (lit ''writer-1'') = Inr 1"
  by (simp add: ex_writer_def authenticateWriter_def weakMapGet_def)

lemma ex_not_disposed: "ex_writer st s \<Longrightarrow> \<not> disposed st"
  using reachable_inv inv_not_disposed [of st 1] by (auto simp: ex_writer_def coord_inv_def)

lemma ex_stopping:
  assumes w: "ex_writer st Running"
  shows "\<exists>k run b st'. stopAndIssueCapability_begin st ex_stop = (Inr (k, run, b), st') \<and>
    ex_writer st' Stopping \<and> calls st' k = Some (Stop_calling 1) \<and>
    w_stopOperationId (writer_heap st' 1) = lit ''stop-1''"
proof -
  let ?ks = "[''processIncarnationId'', ''stopOperationId'', ''writer'', ''writerIncarnationId'']"
  have "exact_object ex_stop ?ks" unfolding ex_stop_def by (rule exact_plain_obj) simp_all
  then obtain opts where o: "assertExactOptions ex_stop ?ks = Inr opts"
    "\<forall>k \<in> set ?ks. fld opts k = fld ex_stop k"
    by (rule exact_optionsE) simp_all
  have f: "fld ex_stop ''writer'' = JOpaque 1" "fld ex_stop ''processIncarnationId'' = lit ''process-1''"
    "fld ex_stop ''stopOperationId'' = lit ''stop-1''" "fld ex_stop ''writerIncarnationId'' = lit ''writer-1''"
    by (simp_all add: ex_stop_def fld_plain_obj)
  have st: "w_state (writer_heap st 1) = Running" using w by (simp add: ex_writer_def)
  define st1 where "st1 = upd_writer st 1 (\<lambda>r. r\<lparr>w_state := Stopping, w_stopOperationId := lit ''stop-1''\<rparr>)"
  define st2 where "st2 = snd (suspend st1 (Stop_calling 1))"
  have "stopAndIssueCapability_begin st ex_stop = (Inr (next_addr st, w_stopWriter (writer_heap st2 1),
      frozenCallbackBinding (writer_heap st2 1)), st2)"
    using ex_not_disposed [OF w] st ex_auth [OF w]
    by (simp add: assertOpaqueIdW_ok stopAndIssueCapability_begin_def o f guarded_ok st1_def st2_def Let_def suspend_def)
  moreover from stop_begin [OF this] have "reachable st2"
    using w by (auto simp: ex_writer_def intro: reach_step)
  moreover have "calls st2 (next_addr st) = Some (Stop_calling 1)" by (simp add: st2_def st1_def)
  ultimately show ?thesis
    using w by (intro exI conjI) (assumption | simp add: ex_writer_def st2_def st1_def)+
qed

lemma ex_stop_awaiting:
  assumes w: "ex_writer st Stopping" and k: "calls st k = Some (Stop_calling 1)"
    and safe: "isSafeCoordinatorAwaitValue v"
  shows "\<exists>st'. ex_writer st' Stopping \<and> writer_heap st' = writer_heap st \<and>
    calls st' k = Some (Stop_awaiting 1 v)"
proof -
  let ?st = "st\<lparr>calls := (calls st)(k \<mapsto> Stop_awaiting 1 v)\<rparr>"
  have "stopAndIssueCapability_returned st k 1 (Callback_returned v) = (None, ?st)"
    using safe by (simp add: stopAndIssueCapability_returned_def)
  then have "reachable ?st" using w stop_returned [OF k] by (auto simp: ex_writer_def intro: reach_step)
  with w show ?thesis by (intro exI [of _ ?st]) (simp add: ex_writer_def)
qed

lemma ex_safe_token: "isSafeCoordinatorAwaitValue (Plain STOPPED_WRITER_STOP_CONFIRMED)"
  by (simp add: isSafeCoordinatorAwaitValue_def isSafeAsyncReturnValue_def STOPPED_WRITER_STOP_CONFIRMED_def)

lemma ex_confirmed: "stop_confirmed (Fulfilled (Plain STOPPED_WRITER_STOP_CONFIRMED))"
  by (simp add: stop_confirmed_def STOPPED_WRITER_STOP_CONFIRMED_def js_seq_def)

lemma ex_awaiting:
  "\<exists>st k. ex_writer st Stopping \<and> calls st k = Some (Stop_awaiting 1 (Plain STOPPED_WRITER_STOP_CONFIRMED)) \<and>
     w_stopOperationId (writer_heap st 1) = lit ''stop-1''"
proof -
  obtain st where "ex_writer st Running" using ex_running by blast
  then obtain k st' where "ex_writer st' Stopping" "calls st' k = Some (Stop_calling 1)"
    "w_stopOperationId (writer_heap st' 1) = lit ''stop-1''" using ex_stopping by blast
  then show ?thesis using ex_stop_awaiting [OF _ _ ex_safe_token, of st' k] by metis
qed

lemma ex_issued:
  "\<exists>st c. ex_writer st Issued \<and> capabilities st c = Some c \<and> c_state (capability_heap st c) = C_issued \<and>
     c_writerRecord (capability_heap st c) = 1 \<and> w_stopOperationId (writer_heap st 1) = lit ''stop-1''"
proof -
  obtain st k where w: "ex_writer st Stopping" and
    k: "calls st k = Some (Stop_awaiting 1 (Plain STOPPED_WRITER_STOP_CONFIRMED))"
    "w_stopOperationId (writer_heap st 1) = lit ''stop-1''" using ex_awaiting by blast
  obtain res st' where r: "stopAndIssueCapability_resumed st k 1
      (Fulfilled (Plain STOPPED_WRITER_STOP_CONFIRMED)) = (res, st')" by force
  have st': "st' = issue (finish st k) 1"
    using stop_resumed_state [OF r] w ex_confirmed by (simp add: ex_writer_def)
  have "reachable st'" using w stop_resumed [OF k(1) _ r] by (auto simp: ex_writer_def intro: reach_step)
  with w k(2) show ?thesis
    by (intro exI [of _ st'] exI [of _ "next_addr st"]) (simp add: ex_writer_def st')
qed

lemma sameFlatRecord_refl:
  assumes ex: "exact_object v ks" and d: "distinct ks" and r: "\<forall>k \<in> set ks. js_seq (fld v k) (fld v k)"
  shows "sameFlatRecord v v"
  unfolding sameFlatRecord_def list_all_iff
proof (intro conjI ballI)
  fix k assume "k \<in> set (object_keys v)"
  then have "k \<in> set (own_keys v)" by (simp add: object_keys_def)
  then obtain s where s: "s \<in> set ks" "k = key s" using exact_own_keys [OF ex d] by auto
  note desc = exact_own_desc [OF ex d s(1)]
  then have "js_get v k = Some (fld v s)" using s(2)
    by (cases v) (auto simp: desc_value_def split: if_splits)
  with desc s r show "own_desc v k \<noteq> None"
    "case (js_get v k, js_get v k) of (Some x, Some y) \<Rightarrow> js_seq x y | _ \<Rightarrow> False" by auto
qed simp

lemma ex_same_binding: "sameFlatRecord (fst ex_binding) (fst ex_binding)" "sameFence (snd ex_binding) (snd ex_binding)"
proof -
  have "js_seq (fld ex_attachment k) (fld ex_attachment k)" if "k \<in> set attachment_keys" for k
    using that by (auto simp: attachment_keys_def ex_attachment_def fld_plain_obj)
  then show "sameFlatRecord (fst ex_binding) (fst ex_binding)"
    by (intro sameFlatRecord_refl [OF exact_options_result(1) [OF ex_snapshot attachment.keys_distinct]
          attachment.keys_distinct]) (simp add: ex_binding_flds)
  obtain att f where b: "ex_binding = (att, f)" by (cases ex_binding)
  obtain l' where l': "assertExactOptions ex_canonical lease_keys = Inr l'"
      "f = plain_obj (map (\<lambda>k. (k, fld l' k)) FENCE_KEYS)"
    using ex_binding_eq [unfolded b] by (blast elim: binding_snapshots)
  have "fld l' k = fld ex_canonical k" if "k \<in> set lease_keys" for k
    by (rule exact_options_result(2) [OF l'(1) lease.keys_distinct that])
  then have "js_seq (fld f k) (fld f k)" if "k \<in> set FENCE_KEYS" for k
    using that by (auto simp: l'(2) FENCE_KEYS_def lease_keys_def ex_lease_def fld_plain_obj)
  then show "sameFence (snd ex_binding) (snd ex_binding)"
    by (simp add: sameFence_def same_fields_def list_all_iff b)
qed

lemma ex_consuming:
  "\<exists>st0 c res st k. ex_writer st0 Issued \<and> consumeCapability_begin st0 (ex_consume c) = (Inr res, st) \<and>
     ex_writer st Consuming \<and> calls st k = Some (Snapshot_calling c) \<and> c_writerRecord (capability_heap st c) = 1"
proof -
  obtain st c where w: "ex_writer st Issued" and c: "capabilities st c = Some c"
    "c_state (capability_heap st c) = C_issued" "c_writerRecord (capability_heap st c) = 1"
    "w_stopOperationId (writer_heap st 1) = lit ''stop-1''" using ex_issued by blast
  let ?ks = "[''attachment'', ''canonicalLease'', ''capability'', ''processIncarnationId'', ''runSnapshot'',
         ''stopOperationId'', ''writer'', ''writerIncarnationId'']"
  have "exact_object (ex_consume c) ?ks" unfolding ex_consume_def by (rule exact_plain_obj) simp_all
  then obtain opts where o: "assertExactOptions (ex_consume c) ?ks = Inr opts"
    "\<forall>k \<in> set ?ks. fld opts k = fld (ex_consume c) k"
    by (rule exact_optionsE) simp_all
  have f: "fld opts ''writer'' = JOpaque 1" "fld opts ''processIncarnationId'' = lit ''process-1''"
    "fld opts ''stopOperationId'' = lit ''stop-1''" "fld opts ''writerIncarnationId'' = lit ''writer-1''"
    "fld opts ''capability'' = JOpaque c" "fld opts ''runSnapshot'' = JFun 2 False"
    "fld opts ''attachment'' = ex_attachment" "fld opts ''canonicalLease'' = ex_canonical"
    using o(2) by (simp_all add: ex_consume_def fld_plain_obj)
  have found: "consume_found st (ex_consume c) = Inr (opts, c)"
    using ex_not_disposed [OF w] c by (simp add: consume_found_def o(1) f weakMapGet_def)
  have inv: "coord_inv st" using w reachable_inv by (simp add: ex_writer_def)
  have "writers st 1 = Some 1" using w by (simp add: ex_writer_def)
  then have h: "w_handle (writer_heap st 1) = JOpaque 1"
    using inv unfolding coord_inv_def addr_inv_def by blast
  obtain att fe where b: "ex_binding = (att, fe)" by (cases ex_binding)
  have "consume_checked st opts c = Inr (JFun 2 False)"
    using w h c ex_same_binding ex_binding_eq unfolding ex_writer_def
    by (simp add: consume_checked_def f Let_def weakMapGet_def b trusted_iff js_seq_def)
  then obtain res st' where s: "consumeCapability_begin st (ex_consume c) = (Inr res, st')"
    using found by (simp add: consumeCapability_begin_def Let_def suspend_def)
  obtain k run bi where res: "res = (k, run, bi)" by (cases res)
  obtain d where d: "fld (ex_consume c) ''capability'' = JOpaque d"
      "st' = snd (suspend (move st d C_consuming Consuming) (Snapshot_calling d))"
    using consume_begin_run [OF inv s [unfolded res]] by metis
  then have st': "st' = snd (suspend (move st c C_consuming Consuming) (Snapshot_calling c))"
    by (simp add: ex_consume_def fld_plain_obj)
  have "reachable st'" using w consume_begin [OF s] by (auto simp: ex_writer_def intro: reach_step)
  with w s c show ?thesis
    by (intro exI [of _ st] exI [of _ c] exI [of _ res] exI [of _ st'] exI [of _ "next_addr st"])
      (simp add: ex_writer_def st')
qed

lemma ex_snapshot_awaiting:
  "\<exists>st c k. ex_writer st Consuming \<and> calls st k = Some (Snapshot_awaiting c (Plain JNull)) \<and>
     c_writerRecord (capability_heap st c) = 1"
proof -
  obtain st c k where w: "ex_writer st Consuming" and k: "calls st k = Some (Snapshot_calling c)"
    "c_writerRecord (capability_heap st c) = 1" using ex_consuming by blast
  let ?st = "st\<lparr>calls := (calls st)(k \<mapsto> Snapshot_awaiting c (Plain JNull))\<rparr>"
  have "consumeCapability_returned st k c (Callback_returned (Plain JNull)) = (None, ?st)"
    by (simp add: consumeCapability_returned_def isSafeCoordinatorAwaitValue_def isSafeAsyncReturnValue_def)
  then have "reachable ?st" using w consume_returned [OF k(1)] by (auto simp: ex_writer_def intro: reach_step)
  with w k show ?thesis
    by (intro exI [of _ ?st] exI [of _ c] exI [of _ k]) (simp add: ex_writer_def)
qed

lemma ex_request: "ex_writer st s \<Longrightarrow> writer_request st ex_release = Inr 1"
proof -
  assume w: "ex_writer st s"
  let ?ks = "[''processIncarnationId'', ''writer'', ''writerIncarnationId'']"
  have "exact_object ex_release ?ks" unfolding ex_release_def by (rule exact_plain_obj) simp_all
  then obtain opts where o: "assertExactOptions ex_release ?ks = Inr opts"
    "\<forall>k \<in> set ?ks. fld opts k = fld ex_release k"
    by (rule exact_optionsE) simp_all
  have "fld ex_release ''writer'' = JOpaque 1" "fld ex_release ''processIncarnationId'' = lit ''process-1''"
    "fld ex_release ''writerIncarnationId'' = lit ''writer-1''"
    by (simp_all add: ex_release_def fld_plain_obj)
  with w o ex_auth [OF w] ex_not_disposed [OF w] show ?thesis by (simp add: writer_request_def)
qed

lemma ex_consumed: "\<exists>st. ex_writer st Consumed"
proof -
  obtain st c k where w: "ex_writer st Consuming" and k: "calls st k = Some (Snapshot_awaiting c (Plain JNull))"
    "c_writerRecord (capability_heap st c) = 1" using ex_snapshot_awaiting by blast
  let ?st = "move (finish st k) c C_consumed Consumed"
  have "consumeCapability_resumed st k c (Fulfilled (Plain JNull)) = (Inr (Plain JNull), ?st)"
    using w k(2)
    by (simp add: consumeCapability_resumed_def isSafeAsyncReturnValue_def move_def ex_writer_def)
  from consume_resumed [OF k(1) _ this] have "reachable ?st"
    using w by (auto simp: ex_writer_def intro: reach_step)
  with w k show ?thesis by (intro exI [of _ ?st]) (simp add: ex_writer_def)
qed

lemma ex_retired:
  "\<exists>st st'. ex_writer st Consumed \<and> retireWriter st ex_release = (None, st') \<and> reachable st' \<and> st' = retired st 1"
proof -
  obtain st where w: "ex_writer st Consumed" using ex_consumed by blast
  have inv: "coord_inv st" using w reachable_inv by (simp add: ex_writer_def)
  obtain st' where r: "retireWriter st ex_release = (None, st')"
    using retire_ok_iff [OF inv] ex_request [OF w] w unfolding ex_writer_def by blast
  moreover have "reachable st'" using w retire [OF r] by (auto simp: ex_writer_def intro: reach_step)
  ultimately show ?thesis using w retire_effect [OF inv r ex_request [OF w]] by blast
qed

lemma ex_pinned: "\<exists>st. ex_writer st Stop_uncertain \<and> pinned st 1"
proof -
  obtain st where "ex_writer st Running" using ex_running by blast
  then obtain k st' where w: "ex_writer st' Stopping" and k: "calls st' k = Some (Stop_calling 1)"
    using ex_stopping by blast
  let ?st = "stop_failed (finish st' k) 1"
  have "stopAndIssueCapability_returned st' k 1 Callback_threw = (Some Writer_stop_outcome_uncertain, ?st)"
    by (simp add: stopAndIssueCapability_returned_def)
  from stop_returned [OF k this] have "reachable ?st" using w by (auto simp: ex_writer_def intro: reach_step)
  with w show ?thesis
    by (intro exI [of _ ?st]) (simp add: ex_writer_def pinned_def stop_failed_def)
qed

section \<open>The guarantees along it\<close>

theorem one_writer_per_session_witness:
  "\<exists>st. live st 1 \<and> activeWriters st = int (card {a. live st a})"
proof -
  obtain st where w: "ex_writer st Running" using ex_running by blast
  then have "reachable st" "live st 1" by (simp_all add: ex_writer_def live_def)
  then show ?thesis using one_writer_per_session by blast
qed

theorem registration_admission_witness:
  "\<exists>st. reachable st \<and> live st 1 \<and> \<not> (\<exists>h st'. registerWriter st ex_register = (Inr h, st'))"
proof -
  obtain st where w: "ex_writer st Running" using ex_running by blast
  have "w_session st 1 = ex_session"
  proof -
    have "w_attachment (writer_heap st 1) = fst ex_binding" using w by (metis ex_writer_def fst_conv)
    then have "w_session st 1 = fld ex_attachment ''sessionId''"
      by (simp add: w_session_def ex_binding_flds attachment_keys_def)
    then show ?thesis by (simp add: ex_attachment_def fld_plain_obj)
  qed
  moreover have "fld (fld ex_register ''attachment'') ''sessionId'' = ex_session"
    by (simp add: ex_register_def ex_attachment_def fld_plain_obj)
  ultimately show ?thesis
    using w registration_admission [of st ex_register]
    by (intro exI [of _ st]) (auto simp: ex_writer_def live_def)
qed

theorem preflight_agrees_witness:
  "assertWriterLaunchAvailable new_coordinator
     (plain_obj [(''attachment'', ex_attachment), (''canonicalLease'', ex_canonical)]) = None"
proof -
  let ?p = "plain_obj [(''attachment'', ex_attachment), (''canonicalLease'', ex_canonical)]"
  have "exact_object ?p [''attachment'', ''canonicalLease'']" by (rule exact_plain_obj) simp_all
  then have "assertWriterLaunchAvailable new_coordinator ?p = None \<longleftrightarrow>
      (\<exists>h st'. registerWriter new_coordinator ex_register = (Inr h, st'))"
    by (intro preflight_agrees [where i = 1] ex_register_exact)
      (simp_all add: ex_register_def fld_plain_obj)
  with ex_running show ?thesis by blast
qed

theorem capability_runs_once_witness:
  "\<exists>st c res st1. consumeCapability_begin st (ex_consume c) = (Inr res, st1) \<and>
     \<not> (\<exists>res2 st2. consumeCapability_begin st1 (ex_consume c) = (Inr res2, st2))"
proof -
  obtain st c res st1 where w: "ex_writer st Issued" "consumeCapability_begin st (ex_consume c) = (Inr res, st1)"
    using ex_consuming by blast
  have "\<not> (\<exists>res2 st2. consumeCapability_begin st1 (ex_consume c) = (Inr res2, st2))"
    using capability_runs_once [OF _ w(2) reach_start, of "ex_consume c"] w(1)
    unfolding ex_writer_def by blast
  with w(2) show ?thesis by blast
qed

theorem snapshot_only_when_stopped_witness:
  "\<exists>st c k run binding st1. consumeCapability_begin st (ex_consume c) = (Inr (k, run, binding), st1) \<and>
     run = fld (ex_consume c) ''runSnapshot''"
proof -
  obtain st c res st1 where w: "ex_writer st Issued" "consumeCapability_begin st (ex_consume c) = (Inr res, st1)"
    using ex_consuming by blast
  obtain k run b where r: "res = (k, run, b)" by (cases res)
  show ?thesis
    using snapshot_only_when_stopped [OF _ w(2) [unfolded r]] w r unfolding ex_writer_def by blast
qed

text \<open>A second writer for the same slot, after the first is retired.\<close>

definition ex_attachment8 :: jsval where
  "ex_attachment8 = plain_obj [(''attachmentId'', lit ''attachment-1''), (''backendId'', lit ''backend-1''),
     (''contractVersion'', JInt 1), (''fencingEpoch'', lit ''8''), (''holderId'', lit ''holder-1''),
     (''kind'', lit ''directory''), (''leaseId'', lit ''lease-1''), (''mode'', lit ''read-write''),
     (''operationId'', lit ''operation-1''), (''proofId'', lit ''proof-1''), (''rootPath'', lit ''/srv/s1''),
     (''sessionId'', ex_session), (''storageId'', lit ''storage-1'')]"

definition ex_register8 :: jsval where
  "ex_register8 = plain_obj [(''attachment'', ex_attachment8), (''canonicalLease'', ex_lease8),
     (''processIncarnationId'', lit ''process-1''), (''stopWriter'', JFun 1 False),
     (''writerIncarnationId'', lit ''writer-1'')]"

lemma ex_second_ok:
  "assertSessionAttachment ex_attachment8 = Inr ex_attachment8" "assertLeaseGrant ex_lease8 = Inr ex_lease8"
  "same_fields fence_fields ex_attachment8 ex_lease8"
proof -
  show "assertSessionAttachment ex_attachment8 = Inr ex_attachment8"
    unfolding assertSessionAttachment_def
    by (simp add: ex_attachment8_def attachment_keys_def attachment_checks_def exact_plain_obj clone_plain_obj
        fld_plain_obj defensiveClone_def STORAGE_CONTRACT_VERSION_def guarded_ok)
  show "assertLeaseGrant ex_lease8 = Inr ex_lease8" by (rule ex_lease8_ok)
  show "same_fields fence_fields ex_attachment8 ex_lease8"
    by (simp add: same_fields_def ex_attachment8_def ex_lease8_def fld_plain_obj)
qed

lemma ex_epoch_nums: "epoch_num (lit ''7'') = 7" "epoch_num (lit ''8'') = 8"
  by (simp_all add: epoch_num_def str_of_def dec_val_def digit_val_def js_def)

lemma ex_writer_fields:
  assumes "ex_writer st s"
  shows "w_attachment (writer_heap st 1) = fst ex_binding" and "w_epoch st 1 = lit ''7''"
proof -
  have "(w_attachment (writer_heap st 1), w_writerFence (writer_heap st 1)) = ex_binding"
    using assms by (simp add: ex_writer_def)
  then have "w_attachment (writer_heap st 1) = fst ex_binding \<and> w_writerFence (writer_heap st 1) = snd ex_binding"
    by (metis fst_conv snd_conv)
  then show "w_attachment (writer_heap st 1) = fst ex_binding" "w_epoch st 1 = lit ''7''"
    by (simp_all add: w_epoch_def ex_binding_flds)
qed

lemma ex_second:
  "\<exists>st b. reachable st \<and> writers st 1 = Some 1 \<and> writers st b = Some b \<and> 1 < b \<and>
     same_slot_key (w_attachment (writer_heap st 1)) (w_attachment (writer_heap st b)) \<and>
     w_epoch st 1 = lit ''7''"
proof -
  obtain st st' where w: "ex_writer st Consumed" and r: "reachable st'" "st' = retired st 1"
    using ex_retired by blast
  have inv: "coord_inv st'" using r(1) by (rule reachable_inv)
  have ws: "writers st' = [1 \<mapsto> 1]" using w by (simp add: r(2) retired_sel ex_writer_def)
  have ep: "w_epoch st' 1 = lit ''7''" "\<not> live st' 1" "\<not> disposed st'"
    using ex_writer_fields(2) [OF w] ex_not_disposed [OF w] by (simp_all add: r(2) retired_sel) (simp add: retired_def)
  have l: "\<not> live st' b" for b using ws ep(2) by (cases "b = 1") (auto simp: live_def)
  have "fld ex_attachment8 ''fencingEpoch'' = lit ''8''" by (simp add: ex_attachment8_def fld_plain_obj)
  with ws ep l ex_second_ok ex_epoch_nums have "admissible st' ex_attachment8 ex_lease8"
    unfolding admissible_reachable [OF inv] by (auto split: if_splits)
  moreover have "exact_object ex_register8 register_keys"
    unfolding ex_register8_def by (rule exact_plain_obj) simp_all
  ultimately obtain h st2 where s: "registerWriter st' ex_register8 = (Inr h, st2)"
    using register_ok_iff [of st' ex_register8] by (auto simp: ex_register8_def fld_plain_obj)
  have reach: "reachable st2" by (rule reach_step [OF r(1) register [OF s]])
  from inv s obtain att fence p q stop where g: "registers st' att fence st2"
    and ch: "register_checked st' ex_register8 = Inr (att, fence, p, q, stop)"
    by (cases rule: register_cases) auto
  obtain opts where o: "assertExactOptions ex_register8 register_keys = Inr opts"
    "\<forall>k \<in> set register_keys. fld opts k = fld ex_register8 k"
    using \<open>exact_object ex_register8 register_keys\<close> by (rule exact_optionsE) simp_all
  then have "fld opts ''attachment'' = ex_attachment8" "fld opts ''canonicalLease'' = ex_lease8"
    by (simp_all add: ex_register8_def fld_plain_obj)
  with ch o(1) have "register_admit st' ex_attachment8 ex_lease8 = Inr (att, fence)"
    by (simp add: register_checked_def split: prod.splits)
  then have "normalizeBinding ex_attachment8 ex_lease8 = Inr (att, fence)" by (rule register_admit_binding)
  then obtain "assertExactOptions ex_attachment8 attachment_keys = Inr att" by (rule binding_snapshots)
  then have att: "fld att k = fld ex_attachment8 k" if "k \<in> set attachment_keys" for k
    using exact_options_result(2) attachment.keys_distinct that by blast
  have "same_slot_key (fst ex_binding) att"
    unfolding same_slot_key_def
    by (simp add: att ex_binding_flds attachment_keys_def)
      (simp add: ex_attachment_def ex_attachment8_def fld_plain_obj)
  moreover have "writers st' 1 = Some 1" by (simp add: ws)
  then have "1 < next_addr st'" using inv unfolding coord_inv_def addr_inv_def by blast
  moreover have "w_attachment (writer_heap st' 1) = fst ex_binding"
    using ex_writer_fields(1) [OF w] by (simp add: r(2) retired_sel)
  ultimately show ?thesis
    using reach ws ep(1) registers_sel [OF g] registers_live(3) [OF g, of 1]
    by (intro exI [of _ st2] exI [of _ "next_addr st'"]) simp
qed

theorem fencing_epochs_increase_witness:
  "\<exists>st b. writers st b = Some b \<and> 1 < b \<and> 7 < epoch_num (w_epoch st b)"
proof -
  obtain st b where s: "reachable st" "writers st 1 = Some 1" "writers st b = Some b" "1 < b"
     "same_slot_key (w_attachment (writer_heap st 1)) (w_attachment (writer_heap st b))"
     "w_epoch st 1 = lit ''7''" using ex_second by blast
  from fencing_epochs_increase [OF s(1-5)] s show ?thesis by (auto simp: ex_epoch_nums)
qed

theorem snapshot_excludes_writers_witness:
  "\<exists>st k c. calls st k = Some (Snapshot_calling c) \<and>
     \<not> (\<exists>h st'. registerWriter st ex_register = (Inr h, st'))"
proof -
  obtain st c k where w: "ex_writer st Consuming" and k: "calls st k = Some (Snapshot_calling c)"
    "c_writerRecord (capability_heap st c) = 1" using ex_consuming by blast
  have "w_session st 1 = fld (fld ex_register ''attachment'') ''sessionId''"
    using ex_writer_fields(1) [OF w]
    by (simp add: w_session_def ex_binding_flds attachment_keys_def ex_register_def fld_plain_obj)
  with w k show ?thesis
    using snapshot_excludes_writers [of st k "Snapshot_calling c" c ex_register]
    by (intro exI [of _ st] exI [of _ k] exI [of _ c]) (auto simp: ex_writer_def Let_def)
qed


theorem stop_outcome_witness:
  "\<exists>st k st'. stopAndIssueCapability_resumed st k 1 (Fulfilled (Plain STOPPED_WRITER_STOP_CONFIRMED)) =
     (Inr (JOpaque (next_addr st)), st') \<and> w_state (writer_heap st' 1) = Issued"
proof -
  obtain st k where w: "ex_writer st Stopping" and
    k: "calls st k = Some (Stop_awaiting 1 (Plain STOPPED_WRITER_STOP_CONFIRMED))" using ex_awaiting by blast
  obtain res st' where r: "stopAndIssueCapability_resumed st k 1
      (Fulfilled (Plain STOPPED_WRITER_STOP_CONFIRMED)) = (res, st')" by force
  with w k show ?thesis
    using stop_outcome [OF _ k r] ex_confirmed unfolding ex_writer_def by (metis (no_types, lifting))
qed

theorem revocation_discards_snapshot_witness:
  "\<exists>st st1 k c st2. revokeWriter st ex_release = (None, st1) \<and> w_state (writer_heap st 1) = Consuming \<and>
     consumeCapability_resumed st1 k c (Fulfilled (Plain JNull)) = (Inl Snapshot_outcome_uncertain, st2) \<and>
     pinned st2 1"
proof -
  obtain st c k where w: "ex_writer st Consuming" and k: "calls st k = Some (Snapshot_awaiting c (Plain JNull))"
    "c_writerRecord (capability_heap st c) = 1" using ex_snapshot_awaiting by blast
  obtain res st1 where r: "revokeWriter st ex_release = (res, st1)" by force
  obtain q st2 where q: "consumeCapability_resumed st1 k c (Fulfilled (Plain JNull)) = (q, st2)" by force
  have st: "reachable st" "w_state (writer_heap st 1) = Consuming" using w by (auto simp: ex_writer_def)
  note claim = revocation_discards_snapshot [OF st(1) ex_request [OF w] st(2) r]
  have "st1 = upd_writer st 1 (\<lambda>r. r\<lparr>w_revocationRequested := True\<rparr>)"
    using r ex_request [OF w] st(2) by (simp add: revokeWriter_def)
  then have "calls st1 k = Some (Snapshot_awaiting c (Plain JNull))" "c_writerRecord (capability_heap st1 c) = 1"
    using k by simp_all
  with claim q reach_start [of st1] have "res = None" "q = Inl Snapshot_outcome_uncertain" "pinned st2 1" by blast+
  with q r st(2) show ?thesis by blast
qed

theorem retirement_releases_witness:
  "\<exists>st st'. retireWriter st ex_release = (None, st') \<and> \<not> live st' 1 \<and>
     active_in_session st' (w_session st 1) = 0"
proof -
  obtain st st' where w: "ex_writer st Consumed" "retireWriter st ex_release = (None, st')"
    using ex_retired by blast
  then show ?thesis
    using retirement_releases [of st ex_release st' 1] ex_request [OF w(1)]
    by (intro exI [of _ st] exI [of _ st']) (auto simp: ex_writer_def)
qed

theorem disposal_is_final_witness:
  "\<exists>st'. dispose new_coordinator 0 = (None, st') \<and>
     registerWriter st' ex_register = (Inl Writer_state_conflict, st')"
proof -
  obtain st' where d: "dispose new_coordinator 0 = (None, st')"
    by (simp add: dispose_def new_coordinator_def first_err_Cons)
  from disposal_is_final [OF reach_start d] d show ?thesis by blast
qed

theorem safe_await_runs_no_then_witness:
  "\<exists>t. js_get (plain_obj [(''then'', JInt 1)]) (key ''then'') = Some t \<and> \<not> is_function t"
  by (rule safe_await_runs_no_then)
    (simp add: isSafeCoordinatorAwaitValue_def isSafeAsyncReturnValue_def plain_obj_def)

theorem retirement_stays_possible_witness:
  "(\<exists>st st'. ex_writer st Running \<and> coord_reach st st' \<and> w_state (writer_heap st' 1) = Retired) \<and>
   (\<exists>st. ex_writer st Stop_uncertain \<and> (\<forall>st'. coord_reach st st' \<longrightarrow> w_state (writer_heap st' 1) \<noteq> Retired))"
proof
  obtain st where w: "ex_writer st Running" using ex_running by blast
  then have "reachable st" "live st 1" "recoverable st 1" by (auto simp: ex_writer_def live_def recoverable_def)
  with w show "\<exists>st st'. ex_writer st Running \<and> coord_reach st st' \<and> w_state (writer_heap st' 1) = Retired"
    using retirement_stays_possible by blast
  obtain su where u: "ex_writer su Stop_uncertain" using ex_pinned by blast
  then have "reachable su" "live su 1" "\<not> recoverable su 1" by (auto simp: ex_writer_def live_def recoverable_def)
  with u show "\<exists>st. ex_writer st Stop_uncertain \<and>
      (\<forall>st'. coord_reach st st' \<longrightarrow> w_state (writer_heap st' 1) \<noteq> Retired)"
    using retirement_stays_possible by blast
qed

end
