(* ===== verification/Js_Path.thy ===== *)
theory Js_Path
  imports Js_Text
begin

text \<open>
  POSIX \<open>node:path\<close> on strings, and the bytes of a string in UTF-8. A path in normal form below the
  root is a non-empty list of proper segments, each after a slash; the lemmas give its parent, its
  last segment and its children.
\<close>

section \<open>Parents, names and prefixes\<close>

text \<open>\<open>path.basename\<close> and \<open>path.dirname\<close>.\<close>

definition path_basename :: "jsstr \<Rightarrow> jsstr" where
  "path_basename s = rev (takeWhile (\<lambda>c. c \<noteq> 47) (dropWhile (\<lambda>c. c = 47) (rev s)))"

definition path_dirname :: "jsstr \<Rightarrow> jsstr" where
  "path_dirname s = (case s of [] \<Rightarrow> [46] | c # rest \<Rightarrow>
     (case dropWhile (\<lambda>c. c \<noteq> 47) (dropWhile (\<lambda>c. c = 47) (rev rest)) of
        [] \<Rightarrow> if c = 47 then [47] else [46]
      | _ # before \<Rightarrow> if c = 47 \<and> before = [] then [47, 47] else c # rev before))"

text \<open>\<open>path.join(parent, child)\<close> for an absolute parent: normalized, a trailing slash kept.\<close>

definition path_join :: "jsstr \<Rightarrow> jsstr \<Rightarrow> jsstr" where
  "path_join parent child =
     (let s = (if child = [] then parent else parent @ 47 # child); p = path_resolve s in
      if p \<noteq> [47] \<and> last s = 47 then p @ [47] else p)"

definition str_starts :: "jsstr \<Rightarrow> jsstr \<Rightarrow> bool" where
  "str_starts s p \<longleftrightarrow> take (length p) s = p"

text \<open>\<open>p\<close> is \<open>dir\<close> or lies below it.\<close>

definition under :: "jsstr \<Rightarrow> jsstr \<Rightarrow> bool" where
  "under p dir \<longleftrightarrow> p = dir \<or> str_starts p (dir @ [47])"

lemma str_starts_iff: "str_starts s p \<longleftrightarrow> (\<exists>t. s = p @ t)"
  by (auto simp: str_starts_def) (metis append_take_drop_id)

lemma under_iff: "under p dir \<longleftrightarrow> (\<exists>t. p @ [47] = dir @ 47 # t)"
proof
  assume "under p dir"
  then consider "p = dir" | t where "p = dir @ 47 # t" by (auto simp: under_def str_starts_iff)
  then show "\<exists>t. p @ [47] = dir @ 47 # t" by cases auto
next
  assume "\<exists>t. p @ [47] = dir @ 47 # t"
  then obtain t where t: "p @ [47] = dir @ 47 # t" by blast
  show "under p dir"
  proof (cases t rule: rev_cases)
    case Nil
    with t show ?thesis by (simp add: under_def)
  next
    case (snoc u x)
    with t have "p = dir @ 47 # u" by simp
    then show ?thesis by (auto simp: under_def str_starts_iff)
  qed
qed

lemma under_child: "under (r @ 47 # g) r"
  by (auto simp: under_def str_starts_iff)

lemma under_trans: "under p q \<Longrightarrow> under q r \<Longrightarrow> under p r"
  by (auto simp: under_def str_starts_iff)

text \<open>Two directories that neither contain each other share no path.\<close>

lemma apart_roots:
  assumes "under p a" and "under p b"
  shows "under a b \<or> under b a"
proof -
  obtain t u where "p @ [47] = (a @ [47]) @ t" "p @ [47] = (b @ [47]) @ u"
    using assms by (auto simp: under_iff)
  then have eq: "(a @ [47]) @ t = (b @ [47]) @ u" by simp
  then consider w where "a @ [47] = (b @ [47]) @ w" | w where "b @ [47] = (a @ [47]) @ w"
    using append_eq_append_conv2 [of "a @ [47]" t "b @ [47]" u] by metis
  then show ?thesis by cases (auto simp: under_iff)
qed

section \<open>Paths in normal form\<close>

lemma normal_path_snoc:
  assumes "normal_path d"
  obtains r g where "d = r @ 47 # g" "proper_seg g" "r = [] \<or> normal_path r"
proof -
  obtain gs where gs: "gs \<noteq> []" "list_all proper_seg gs" "d = concat (map (\<lambda>g. 47 # g) gs)"
    using assms by (auto simp: normal_path_def)
  then obtain hs g where h: "gs = hs @ [g]" by (cases gs rule: rev_cases) auto
  show thesis
  proof (rule that)
    show "d = concat (map (\<lambda>g. 47 # g) hs) @ 47 # g" "proper_seg g" using gs by (simp_all add: h)
    show "concat (map (\<lambda>g. 47 # g) hs) = [] \<or> normal_path (concat (map (\<lambda>g. 47 # g) hs))"
      using gs(2) by (auto simp: h normal_path_def)
  qed
qed

lemma normal_child:
  assumes "normal_path r" and "proper_seg g"
  shows "normal_path (r @ 47 # g)"
proof -
  obtain gs where "gs \<noteq> []" "list_all proper_seg gs" "r = concat (map (\<lambda>g. 47 # g) gs)"
    using assms(1) by (auto simp: normal_path_def)
  then have "gs @ [g] \<noteq> [] \<and> list_all proper_seg (gs @ [g]) \<and> r @ 47 # g = concat (map (\<lambda>g. 47 # g) (gs @ [g]))"
    using assms(2) by simp
  then show ?thesis unfolding normal_path_def by blast
qed

lemma normal_path_facts:
  assumes "normal_path r"
  shows "path_is_absolute r" and "path_resolve r = r" and "r \<noteq> [47]" and "r \<noteq> []" and "last r \<noteq> 47"
proof -
  show abs: "path_is_absolute r" and "path_resolve r = r" and "r \<noteq> [47]" using assms resolve_fixed_iff by blast+
  then show "r \<noteq> []" by (auto simp: path_is_absolute_def)
  obtain r' g where "r = r' @ 47 # g" "proper_seg g" using assms by (rule normal_path_snoc)
  then show "last r \<noteq> 47" by (metis last_ConsR last_appendR last_in_set list.distinct(1) proper_seg_def)
qed

lemma join_child:
  assumes "normal_path r" and "proper_seg g"
  shows "path_join r g = r @ 47 # g"
  using normal_path_facts [OF normal_child [OF assms]] assms(2)
  by (auto simp: path_join_def proper_seg_def)

lemma dropWhile_seg:
  assumes "proper_seg g"
  shows "dropWhile (\<lambda>c. c = 47) (rev g @ x) = rev g @ x"
    and "takeWhile (\<lambda>c. c \<noteq> 47) (rev g @ 47 # x) = rev g"
    and "dropWhile (\<lambda>c. c \<noteq> 47) (rev g @ x) = dropWhile (\<lambda>c. c \<noteq> 47) x"
proof -
  have g: "g \<noteq> []" "\<forall>x \<in> set (rev g). x \<noteq> 47" using assms by (auto simp: proper_seg_def)
  then obtain c h where c: "rev g = c # h" by (cases "rev g") auto
  with g(2) show "dropWhile (\<lambda>c. c = 47) (rev g @ x) = rev g @ x" by simp
  show "takeWhile (\<lambda>c. c \<noteq> 47) (rev g @ 47 # x) = rev g"
    using g(2) by (simp add: takeWhile_append)
  show "dropWhile (\<lambda>c. c \<noteq> 47) (rev g @ x) = dropWhile (\<lambda>c. c \<noteq> 47) x"
    using g(2) by (simp add: dropWhile_append)
qed

lemma basename_child: "proper_seg g \<Longrightarrow> path_basename (r @ 47 # g) = g"
  by (simp add: path_basename_def dropWhile_seg)

lemma dirname_child:
  assumes "normal_path r" and "proper_seg g"
  shows "path_dirname (r @ 47 # g) = r"
proof -
  obtain t where t: "r = 47 # t"
    using normal_path_facts(1) [OF assms(1)] by (cases r) (simp_all add: path_is_absolute_def)
  then have "t \<noteq> []" using normal_path_facts(3) [OF assms(1)] by auto
  moreover have "dropWhile (\<lambda>c. c \<noteq> 47) (dropWhile (\<lambda>c. c = 47) (rev (t @ 47 # g))) = 47 # rev t"
    using assms(2) by (simp add: dropWhile_seg)
  ultimately show ?thesis
    unfolding path_dirname_def t append_Cons list.case by simp
qed

lemma dirname_top: "proper_seg g \<Longrightarrow> path_dirname (47 # g) = [47]"
proof -
  assume g: "proper_seg g"
  have "dropWhile (\<lambda>c. c \<noteq> 47) (rev g) = []" using g by (auto simp: proper_seg_def dropWhile_eq_Nil_conv)
  moreover have "dropWhile (\<lambda>c. c = 47) (rev g) = rev g" using dropWhile_seg(1) [OF g, of "[]"] by simp
  ultimately show "path_dirname (47 # g) = [47]" unfolding path_dirname_def list.case by (simp only:) simp
qed

lemma dirname_normal:
  assumes "normal_path d" and "path_dirname d = r" and "normal_path r"
  shows "\<exists>g. proper_seg g \<and> d = r @ 47 # g"
proof -
  obtain r' g where d: "d = r' @ 47 # g" "proper_seg g" "r' = [] \<or> normal_path r'"
    using assms(1) by (rule normal_path_snoc)
  have "r' \<noteq> []"
    using dirname_top [OF d(2)] d(1) assms(2,3) normal_path_facts(3) [of r] by auto
  with d assms(2) dirname_child [of r' g] show ?thesis by auto
qed

section \<open>UTF-8\<close>

lemma to_scalars_append:
  "\<not> lo_surrogate c \<Longrightarrow> to_scalars (s @ c # t) = to_scalars s @ to_scalars (c # t)"
proof (induction s rule: to_scalars.induct)
  case (2 h s)
  then show ?case by (cases s) (auto simp del: to_scalars.simps(2) simp: to_scalars.simps(2) [of h])
qed simp

lemma utf8_append:
  assumes "\<not> lo_surrogate c"
  shows "utf8_length (s @ c # t) = utf8_length s + utf8_length (c # t)"
    and "utf8_roundtrip (s @ c # t) = utf8_roundtrip s @ utf8_roundtrip (c # t)"
  unfolding utf8_length_def utf8_roundtrip_def to_scalars_append [OF assms] by simp_all

text \<open>\<open>Buffer.from(s, "utf8")\<close>.\<close>

definition utf8_scalar_bytes :: "nat \<Rightarrow> 8 word list" where
  "utf8_scalar_bytes n = map of_nat
     (if n < 128 then [n]
      else if n < 2048 then [192 + n div 64, 128 + n mod 64]
      else if n < 65536 then [224 + n div 4096, 128 + n div 64 mod 64, 128 + n mod 64]
      else [240 + n div 262144, 128 + n div 4096 mod 64, 128 + n div 64 mod 64, 128 + n mod 64])"

definition utf8_bytes :: "jsstr \<Rightarrow> 8 word list" where
  "utf8_bytes s = concat (map utf8_scalar_bytes (to_scalars s))"

lemma utf8_bytes_length: "length (utf8_bytes s) = utf8_length s"
  unfolding utf8_bytes_def utf8_length_def
  by (induction "to_scalars s" arbitrary: s)
    (auto simp: length_concat comp_def utf8_scalar_bytes_def utf8_width_def intro!: arg_cong [where f = sum_list])

lemma utf8_bytes_ascii:
  assumes "list_all (\<lambda>c. c < 128) s"
  shows "utf8_bytes s = map (\<lambda>c. of_nat (unat c)) s"
  using assms unfolding utf8_bytes_def to_scalars_ascii [OF assms]
  by (induction s) (auto simp: utf8_scalar_bytes_def word_less_nat_alt)

lemma utf8_ascii_inj:
  assumes "list_all (\<lambda>c. c < 128) s" and "list_all (\<lambda>c. c < 128) t" and "utf8_bytes s = utf8_bytes t"
  shows "s = t"
proof -
  have inj: "c = d" if "c < 128" "d < 128" "(of_nat (unat c) :: 8 word) = of_nat (unat d)" for c d :: unit16
  proof -
    have "unat c < 256" "unat d < 256" using that(1,2) by (simp_all add: word_less_nat_alt)
    moreover have "unat (of_nat n :: 8 word) = n mod 256" for n by (simp add: unat_of_nat)
    ultimately have "unat c = unat d" using that(3) by (metis mod_less)
    then show "c = d" by (rule word_unat_eq_iff [THEN iffD2])
  qed
  have "list_all2 (\<lambda>c d. c = d) s t"
    using assms unfolding utf8_bytes_ascii [OF assms(1)] utf8_bytes_ascii [OF assms(2)]
    by (auto simp: list_all2_conv_all_nth list_all_length intro!: inj dest: arg_cong [of _ _ length] nth_equalityI)
      (metis length_map nth_map)+
  then show ?thesis by (simp add: list.rel_eq)
qed

end
