(* ===== verification/Restore_Plan.thy ===== *)
theory Restore_Plan
  imports Writer_Binding Js_Json Js_Store Js_Path
begin

text \<open>
  The detached-restore plan of \<open>postgres-detached-restore-plan.mjs\<close>: canonical inputs, identities
  derived from a hash of all of them, and the rebuilding of a plan from a persisted document. Plans
  are frozen objects that a module-private \<open>WeakSet\<close> remembers by identity; here a store maps
  identities to records and only ever grows. SHA-256 of \<open>node:crypto\<close> is a parameter that maps the
  parts fed to the hash to its hexadecimal digest.
\<close>

datatype plan_error = Invalid_plan

text \<open>\<open>exactDataObject\<close>: exactly these own enumerable data properties, copied.\<close>

definition exactDataObject :: "jsval \<Rightarrow> string list \<Rightarrow> plan_error + jsval" where
  "exactDataObject v ks = guarded
     [ensure (is_object v \<and> \<not> is_proxy v \<and> \<not> is_array v) Invalid_plan,
      ensure ((proto_of v = JObjectPrototype \<or> proto_of v = JNull) \<and> length (own_keys v) = length ks) Invalid_plan,
      ensure (list_all (\<lambda>k. list_ex (\<lambda>s. k = key s) ks \<and> enumerable_data v k) (own_keys v)) Invalid_plan]
     (Inr (JObj JNull (map (\<lambda>k. (k, DataDesc True (own_value v k))) (own_keys v))))"

section \<open>Canonical fields\<close>

definition opaqueId :: "jsval \<Rightarrow> plan_error + jsval" where
  "opaqueId v = guarded [ensure (str_matches OPAQUE_ID_PATTERN v) Invalid_plan] (Inr v)"

definition canonicalUuid :: "jsval \<Rightarrow> plan_error + jsval" where
  "canonicalUuid v = guarded [ensure (str_matches UUID_PATTERN v) Invalid_plan] (Inr v)"

definition canonicalFencingEpoch :: "jsval \<Rightarrow> plan_error + jsval" where
  "canonicalFencingEpoch v = (case v of
     JStr s \<Rightarrow> guarded
       [ensure (1 \<le> length s \<and> length s \<le> 20 \<and> 49 \<le> s ! 0 \<and> s ! 0 \<le> 57) Invalid_plan,
        ensure (list_all (\<lambda>c. 48 \<le> c \<and> c \<le> 57) (drop 1 s)) Invalid_plan,
        ensure (dec_val s \<le> UINT64_MAX) Invalid_plan]
       (Inr v)
   | _ \<Rightarrow> Inl Invalid_plan)"

definition canonicalTimestamp :: "jsval \<Rightarrow> plan_error + jsval" where
  "canonicalTimestamp v = (case v of
     JStr s \<Rightarrow> (case date_parse s of
        Some t \<Rightarrow> guarded [ensure (to_iso_string t = s) Invalid_plan] (Inr v)
      | None \<Rightarrow> Inl Invalid_plan)
   | _ \<Rightarrow> Inl Invalid_plan)"

definition REQUEST_KEYS :: "string list" where
  "REQUEST_KEYS = [''backendId'', ''contractVersion'', ''fencingEpoch'', ''holderId'', ''leaseId'', ''operation'',
     ''operationId'', ''sessionId'', ''storageId'', ''target'']"

definition TARGET_KEYS :: "string list" where
  "TARGET_KEYS = [''artifactId'', ''checkpointId'', ''kind'']"

definition canonicalRequest :: "jsval \<Rightarrow> plan_error + jsval" where
  "canonicalRequest v =
     rbind (exactDataObject v REQUEST_KEYS) (\<lambda>request.
     rbind (exactDataObject (fld request ''target'') TARGET_KEYS) (\<lambda>target.
     guarded
       [ensure (js_seq (fld request ''contractVersion'') (JInt 1) \<and>
                js_seq (fld request ''operation'') (lit ''restore'') \<and>
                js_seq (fld target ''kind'') (lit ''checkpoint'')) Invalid_plan]
     (rbind (opaqueId (fld target ''artifactId'')) (\<lambda>artifactId.
      rbind (opaqueId (fld target ''checkpointId'')) (\<lambda>checkpointId.
      rbind (opaqueId (fld request ''backendId'')) (\<lambda>backendId.
      rbind (canonicalFencingEpoch (fld request ''fencingEpoch'')) (\<lambda>fencingEpoch.
      rbind (opaqueId (fld request ''holderId'')) (\<lambda>holderId.
      rbind (opaqueId (fld request ''leaseId'')) (\<lambda>leaseId.
      rbind (opaqueId (fld request ''operationId'')) (\<lambda>operationId.
      rbind (canonicalUuid (fld request ''sessionId'')) (\<lambda>sessionId.
      rbind (opaqueId (fld request ''storageId'')) (\<lambda>storageId.
      Inr (exactFrozenRecord
        [(''backendId'', backendId), (''contractVersion'', JInt 1), (''fencingEpoch'', fencingEpoch),
         (''holderId'', holderId), (''leaseId'', leaseId), (''operation'', lit ''restore''),
         (''operationId'', operationId), (''sessionId'', sessionId), (''storageId'', storageId),
         (''target'', exactFrozenRecord [(''artifactId'', artifactId), (''checkpointId'', checkpointId),
            (''kind'', lit ''checkpoint'')])]))))))))))))) "

section \<open>Directories\<close>

definition canonicalDirectory :: "jsval \<Rightarrow> plan_error + jsstr" where
  "canonicalDirectory v = (case v of
     JStr s \<Rightarrow> guarded
       [ensure (0 \<notin> set s \<and> path_is_absolute s \<and> path_resolve s = s \<and> s \<noteq> [47]) Invalid_plan] (Inr s)
   | _ \<Rightarrow> Inl Invalid_plan)"

definition directPathPlan :: "jsval \<Rightarrow> jsval \<Rightarrow> plan_error + jsstr \<times> jsstr" where
  "directPathPlan directoryValue ownedRootValue =
     rbind (canonicalDirectory directoryValue) (\<lambda>directory.
     rbind (canonicalDirectory ownedRootValue) (\<lambda>ownedRoot.
     let name = path_basename directory in guarded
       [ensure (path_dirname directory = ownedRoot \<and> name \<noteq> [] \<and> name \<noteq> [46] \<and> name \<noteq> [46, 46] \<and>
          path_basename name = name) Invalid_plan]
       (Inr (directory, ownedRoot))))"

definition pathsAreDisjoint :: "jsstr \<Rightarrow> jsstr \<Rightarrow> bool" where
  "pathsAreDisjoint left right \<longleftrightarrow>
     left \<noteq> right \<and> \<not> str_starts left (right @ [47]) \<and> \<not> str_starts right (left @ [47])"

section \<open>The canonical input\<close>

definition MAX_WRITER_LEASE_DURATION_MILLISECONDS :: int where
  "MAX_WRITER_LEASE_DURATION_MILLISECONDS = 86400000"

definition PLAN_KEYS :: "string list" where
  "PLAN_KEYS = [''captureCreatedAt'', ''destinationDirectory'', ''destinationOwnedRoot'', ''detachMode'',
     ''holderId'', ''imagePlanId'', ''leaseDurationMilliseconds'', ''sourceArtifactDirectory'',
     ''sourceArtifactOwnedRoot'']"

definition lease_duration_ok :: "jsval \<Rightarrow> bool" where
  "lease_duration_ok v \<longleftrightarrow> (case v of
     JNum n \<Rightarrow> num_is_safe_integer n \<and> num_less (JFin 0) n \<and>
       (num_less n (JFin (of_int MAX_WRITER_LEASE_DURATION_MILLISECONDS)) \<or>
        num_eq n (JFin (of_int MAX_WRITER_LEASE_DURATION_MILLISECONDS)))
   | _ \<Rightarrow> False)"

definition canonicalPlanInput :: "jsval \<Rightarrow> plan_error + jsval" where
  "canonicalPlanInput v =
     rbind (exactDataObject v PLAN_KEYS) (\<lambda>plan.
     rbind (directPathPlan (fld plan ''sourceArtifactDirectory'') (fld plan ''sourceArtifactOwnedRoot''))
       (\<lambda>(sourceDirectory, sourceRoot).
     rbind (directPathPlan (fld plan ''destinationDirectory'') (fld plan ''destinationOwnedRoot''))
       (\<lambda>(destinationDirectory, destinationRoot).
     guarded
       [ensure (pathsAreDisjoint sourceRoot destinationRoot) Invalid_plan,
        ensure (js_seq (fld plan ''detachMode'') (lit ''release'') \<or>
                js_seq (fld plan ''detachMode'') (lit ''force-fence'')) Invalid_plan,
        ensure (lease_duration_ok (fld plan ''leaseDurationMilliseconds'')) Invalid_plan]
     (rbind (canonicalTimestamp (fld plan ''captureCreatedAt'')) (\<lambda>captureCreatedAt.
      rbind (opaqueId (fld plan ''holderId'')) (\<lambda>holderId.
      rbind (opaqueId (fld plan ''imagePlanId'')) (\<lambda>imagePlanId.
      Inr (exactFrozenRecord
        [(''captureCreatedAt'', captureCreatedAt), (''destinationDirectory'', JStr destinationDirectory),
         (''destinationOwnedRoot'', JStr destinationRoot), (''detachMode'', fld plan ''detachMode''),
         (''holderId'', holderId), (''imagePlanId'', imagePlanId),
         (''leaseDurationMilliseconds'', fld plan ''leaseDurationMilliseconds''),
         (''sourceArtifactDirectory'', JStr sourceDirectory),
         (''sourceArtifactOwnedRoot'', JStr sourceRoot)])))))))) "

section \<open>Hashes and derived identities\<close>

definition canonicalSerialize :: "jsval \<Rightarrow> plan_error + jsstr" where
  "canonicalSerialize v = (case JSON_stringify 0 v of Some s \<Rightarrow> Inr s | None \<Rightarrow> Inl Invalid_plan)"

definition SHA256_PATTERN :: rx where
  "SHA256_PATTERN = rx_rep 64 (RCls hex_cls)"

definition sha256Parts :: "(jsstr list \<Rightarrow> jsstr) \<Rightarrow> jsstr list \<Rightarrow> plan_error + jsstr" where
  "sha256Parts H parts = guarded [ensure (rx_match SHA256_PATTERN (H parts)) Invalid_plan] (Inr (H parts))"

definition PLAN_INPUT_DOMAIN :: jsstr where
  "PLAN_INPUT_DOMAIN = js ''portable-codex-runtime:postgres-detached-restore-plan-input:v1''"

definition PLAN_ID_DOMAIN :: jsstr where
  "PLAN_ID_DOMAIN = js ''portable-codex-runtime:postgres-detached-restore-plan-id:v1''"

definition PLAN_SHA256_DOMAIN :: jsstr where
  "PLAN_SHA256_DOMAIN = js ''portable-codex-runtime:postgres-detached-restore-plan:v1''"

definition planInputSha256 :: "(jsstr list \<Rightarrow> jsstr) \<Rightarrow> jsval \<Rightarrow> plan_error + jsstr" where
  "planInputSha256 H input = rbind (canonicalSerialize input) (\<lambda>text.
     sha256Parts H [PLAN_INPUT_DOMAIN, [0], text, [10]])"

definition derivedDigest :: "(jsstr list \<Rightarrow> jsstr) \<Rightarrow> jsstr \<Rightarrow> jsstr \<Rightarrow> plan_error + jsstr" where
  "derivedDigest H seed role = sha256Parts H [PLAN_ID_DOMAIN, [0], role, [0], seed, [10]]"

definition deterministicOpaqueId ::
    "(jsstr list \<Rightarrow> jsstr) \<Rightarrow> jsstr \<Rightarrow> string \<Rightarrow> string \<Rightarrow> plan_error + jsval" where
  "deterministicOpaqueId H seed role tag =
     rbind (derivedDigest H seed (js role)) (\<lambda>digest. Inr (JStr (js tag @ digest)))"

definition rootPlanSha256 :: "(jsstr list \<Rightarrow> jsstr) \<Rightarrow> jsval \<Rightarrow> plan_error + jsstr" where
  "rootPlanSha256 H v = rbind (canonicalSerialize v) (\<lambda>text.
     sha256Parts H [PLAN_SHA256_DOMAIN, [0], text, [10]])"

section \<open>Creating and rehydrating a plan\<close>

text \<open>The identities in the order the code derives them: field, role and prefix.\<close>

definition identity_table :: "(string \<times> string \<times> string) list" where
  "identity_table =
     [(''renewalOperationId'', ''lease-renewal-operation'', ''restore-renewal:''),
      (''captureOperationId'', ''checkpoint-capture-operation'', ''restore-capture:''),
      (''captureArtifactId'', ''checkpoint-capture-artifact'', ''restore-artifact:''),
      (''captureCheckpointId'', ''checkpoint-capture-checkpoint'', ''restore-checkpoint:''),
      (''generationId'', ''restore-generation'', ''restore-generation:''),
      (''destinationIsolationProofId'', ''destination-isolation-proof'', ''restore-destination-proof:''),
      (''detachOperationId'', ''writer-detach-operation'', ''restore-detach:''),
      (''activationOperationId'', ''attachment-activation-operation'', ''restore-activation:''),
      (''launchAttemptId'', ''writer-launch-attempt'', ''restore-launch:'')]"

fun derive_identities ::
    "(jsstr list \<Rightarrow> jsstr) \<Rightarrow> jsstr \<Rightarrow> (string \<times> string \<times> string) list \<Rightarrow> plan_error + (string \<times> jsval) list" where
  "derive_identities H seed [] = Inr []"
| "derive_identities H seed ((k, role, tag) # rest) =
     rbind (deterministicOpaqueId H seed role tag) (\<lambda>v.
     rbind (derive_identities H seed rest) (\<lambda>kvs. Inr ((k, v) # kvs)))"

text \<open>The fields of the plan that come from the input, after contract version and request.\<close>

definition plan_fields :: "string list" where
  "plan_fields = [''captureCreatedAt'', ''destinationDirectory'', ''destinationOwnedRoot'', ''detachMode'',
     ''holderId'', ''imagePlanId'', ''leaseDurationMilliseconds'', ''sourceArtifactDirectory'',
     ''sourceArtifactOwnedRoot'']"

definition plan_record :: "(jsstr list \<Rightarrow> jsstr) \<Rightarrow> jsval \<Rightarrow> plan_error + jsval" where
  "plan_record H options =
     rbind (exactDataObject options [''plan'', ''request'']) (\<lambda>normalized.
     rbind (canonicalRequest (fld normalized ''request'')) (\<lambda>request.
     rbind (canonicalPlanInput (fld normalized ''plan'')) (\<lambda>plan.
     let input = [(''contractVersion'', JInt 1), (''request'', request)] @
           map (\<lambda>k. (k, fld plan k)) plan_fields in
     rbind (planInputSha256 H (exactFrozenRecord input)) (\<lambda>seedSha256.
     rbind (derive_identities H seedSha256 identity_table) (\<lambda>identities.
     rbind (rootPlanSha256 H (exactFrozenRecord (input @ identities))) (\<lambda>planSha256.
     Inr (exactFrozenRecord (input @ identities @ [(''planSha256'', JStr planSha256)]))))))))"

definition createPostgresDetachedRestorePlan ::
    "(jsstr list \<Rightarrow> jsstr) \<Rightarrow> jsval store \<Rightarrow> jsval \<Rightarrow> plan_error + jsval store \<times> nat" where
  "createPostgresDetachedRestorePlan H planBrands options =
     rbind (plan_record H options) (\<lambda>result. Inr (brand planBrands result))"

definition isPostgresDetachedRestorePlan :: "jsval store \<Rightarrow> nat \<Rightarrow> bool" where
  "isPostgresDetachedRestorePlan planBrands v \<longleftrightarrow> branded planBrands v \<noteq> None"

definition PERSISTED_PLAN_KEYS :: "string list" where
  "PERSISTED_PLAN_KEYS = [''contractVersion'', ''request'', ''captureCreatedAt'', ''destinationDirectory'',
     ''destinationOwnedRoot'', ''detachMode'', ''holderId'', ''imagePlanId'', ''leaseDurationMilliseconds'',
     ''sourceArtifactDirectory'', ''sourceArtifactOwnedRoot'', ''renewalOperationId'', ''captureOperationId'',
     ''captureArtifactId'', ''captureCheckpointId'', ''generationId'', ''destinationIsolationProofId'',
     ''detachOperationId'', ''activationOperationId'', ''launchAttemptId'', ''planSha256'']"

text \<open>
  The rebuilt plan is branded before it is compared, so a mismatch leaves a brand that nothing
  refers to.
\<close>

definition rehydratePostgresDetachedRestorePlan ::
    "(jsstr list \<Rightarrow> jsstr) \<Rightarrow> jsval store \<Rightarrow> jsval \<Rightarrow> plan_error + jsval store \<times> nat" where
  "rehydratePostgresDetachedRestorePlan H planBrands document =
     rbind (exactDataObject document PERSISTED_PLAN_KEYS) (\<lambda>persisted.
     rbind (createPostgresDetachedRestorePlan H planBrands
         (plain_obj [(''plan'', pick plan_fields persisted), (''request'', fld persisted ''request'')]))
       (\<lambda>(brands, rebuilt).
     let r = (case branded brands rebuilt of Some r \<Rightarrow> r | None \<Rightarrow> JUndefined) in
     guarded
       (ensure (js_seq (fld persisted ''contractVersion'') (fld r ''contractVersion'')) Invalid_plan #
        map (\<lambda>k. ensure (js_seq (fld persisted k) (fld r k)) Invalid_plan) (drop 2 PERSISTED_PLAN_KEYS))
       (Inr (brands, rebuilt))))"

section \<open>Frozen records are exact data objects\<close>

lemma exactDataObject_literal:
  assumes "distinct (map fst kvs)" and "length ks = length kvs" and "set (map fst kvs) \<subseteq> set ks"
    and "p = JObjectPrototype \<or> p = JNull"
  shows "exactDataObject (JObj p (map (\<lambda>(k, v). (key k, DataDesc True v)) kvs)) ks = Inr (exactFrozenRecord kvs)"
proof -
  let ?ps = "map (\<lambda>(k, v). (key k, DataDesc True v)) kvs"
  have "distinct (map fst ?ps)" using assms(1) by (simp add: distinct_map inj_on_def comp_def split_beta)
  then have keys: "own_keys (JObj p ?ps) = map (\<lambda>(k, v). key k) kvs"
    by (simp add: distinct_remdups_id comp_def split_beta)
  have get: "own_desc (JObj p ?ps) (key k) = Some (DataDesc True v)" if "(k, v) \<in> set kvs" for k v
  proof -
    have "map_of kvs k = Some v" using assms(1) that by simp
    then show ?thesis by (simp, induction kvs) auto
  qed
  have "enumerable_data (JObj p ?ps) (key k)" if "(k, v) \<in> set kvs" for k v
    using get [OF that] by (simp add: enumerable_data_def)
  moreover have "own_value (JObj p ?ps) (key k) = v" if "(k, v) \<in> set kvs" for k v
    using get [OF that] by (simp add: own_value_def)
  moreover have "list_ex (\<lambda>s. k = s) ks" if "(k, v) \<in> set kvs" for k v
    using assms(3) that by (auto simp: list_ex_iff)
  ultimately show ?thesis
    unfolding exactDataObject_def keys
    by (auto simp: guarded_ok list_all_iff assms(2,4) exactFrozenRecord_def split_beta)
qed

lemma exactDataObject_frozen:
  "distinct (map fst kvs) \<Longrightarrow> length ks = length kvs \<Longrightarrow> set (map fst kvs) \<subseteq> set ks \<Longrightarrow>
     exactDataObject (exactFrozenRecord kvs) ks = Inr (exactFrozenRecord kvs)"
  "distinct (map fst kvs) \<Longrightarrow> length ks = length kvs \<Longrightarrow> set (map fst kvs) \<subseteq> set ks \<Longrightarrow>
     exactDataObject (plain_obj kvs) ks = Inr (exactFrozenRecord kvs)"
  unfolding exactFrozenRecord_def [of kvs] plain_obj_def
  by (simp_all add: exactDataObject_literal) (simp_all add: exactFrozenRecord_def)

lemma opaqueId_Inr [simp]: "opaqueId v = Inr w \<longleftrightarrow> w = v \<and> str_matches OPAQUE_ID_PATTERN v"
  by (auto simp: opaqueId_def)

lemma canonicalUuid_Inr [simp]: "canonicalUuid v = Inr w \<longleftrightarrow> w = v \<and> str_matches UUID_PATTERN v"
  by (auto simp: canonicalUuid_def)

lemma canonicalFencingEpoch_Inr [simp]:
  "canonicalFencingEpoch v = Inr w \<longleftrightarrow> w = v \<and> (\<exists>n. parseFencingEpochForRecord v Invalid_fence = Inr n)"
  by (auto simp: canonicalFencingEpoch_def parseFencingEpochForRecord_def split: jsval.splits)

lemma canonicalTimestamp_Inr [simp]:
  "canonicalTimestamp v = Inr w \<longleftrightarrow> w = v \<and> (\<exists>t. assertIsoTimestamp v Invalid_fence = Inr t)"
  by (auto simp: canonicalTimestamp_def assertIsoTimestamp_def split: jsval.splits option.splits)

lemma canonicalRequest_Inr:
  assumes "canonicalRequest v = Inr q"
  obtains request target where "q = exactFrozenRecord
        [(''backendId'', fld request ''backendId''), (''contractVersion'', JInt 1),
         (''fencingEpoch'', fld request ''fencingEpoch''), (''holderId'', fld request ''holderId''),
         (''leaseId'', fld request ''leaseId''), (''operation'', lit ''restore''),
         (''operationId'', fld request ''operationId''), (''sessionId'', fld request ''sessionId''),
         (''storageId'', fld request ''storageId''),
         (''target'', exactFrozenRecord [(''artifactId'', fld target ''artifactId''),
            (''checkpointId'', fld target ''checkpointId''), (''kind'', lit ''checkpoint'')])]"
    "list_all (\<lambda>k. str_matches OPAQUE_ID_PATTERN (fld request k))
        [''backendId'', ''holderId'', ''leaseId'', ''operationId'', ''storageId'']"
    "str_matches OPAQUE_ID_PATTERN (fld target ''artifactId'')"
    "str_matches OPAQUE_ID_PATTERN (fld target ''checkpointId'')"
    "str_matches UUID_PATTERN (fld request ''sessionId'')"
    "\<exists>n. parseFencingEpochForRecord (fld request ''fencingEpoch'') Invalid_fence = Inr n"
  using assms that by (auto simp: canonicalRequest_def)

lemma canonicalRequest_idempotent:
  assumes "canonicalRequest v = Inr q"
  shows "canonicalRequest q = Inr q"
  using assms
proof (rule canonicalRequest_Inr)
  fix request target
  assume q: "q = exactFrozenRecord
        [(''backendId'', fld request ''backendId''), (''contractVersion'', JInt 1),
         (''fencingEpoch'', fld request ''fencingEpoch''), (''holderId'', fld request ''holderId''),
         (''leaseId'', fld request ''leaseId''), (''operation'', lit ''restore''),
         (''operationId'', fld request ''operationId''), (''sessionId'', fld request ''sessionId''),
         (''storageId'', fld request ''storageId''),
         (''target'', exactFrozenRecord [(''artifactId'', fld target ''artifactId''),
            (''checkpointId'', fld target ''checkpointId''), (''kind'', lit ''checkpoint'')])]"
    and ids: "list_all (\<lambda>k. str_matches OPAQUE_ID_PATTERN (fld request k))
        [''backendId'', ''holderId'', ''leaseId'', ''operationId'', ''storageId'']"
      "str_matches OPAQUE_ID_PATTERN (fld target ''artifactId'')"
      "str_matches OPAQUE_ID_PATTERN (fld target ''checkpointId'')"
      "str_matches UUID_PATTERN (fld request ''sessionId'')"
      "\<exists>n. parseFencingEpochForRecord (fld request ''fencingEpoch'') Invalid_fence = Inr n"
  show ?thesis
    using ids unfolding q
    by (simp add: canonicalRequest_def exactDataObject_frozen REQUEST_KEYS_def TARGET_KEYS_def fld_frozen guarded_ok)
qed

lemma canonicalDirectory_Inr [simp]:
  "canonicalDirectory v = Inr s \<longleftrightarrow> v = JStr s \<and> 0 \<notin> set s \<and> normal_path s"
  by (auto simp: canonicalDirectory_def resolve_fixed_iff [symmetric] split: jsval.splits)

lemma directPathPlan_Inr [simp]:
  "directPathPlan d r = Inr x \<longleftrightarrow> (\<exists>s t. x = (s, t) \<and> d = JStr s \<and> r = JStr t \<and> 0 \<notin> set s \<and> 0 \<notin> set t \<and>
     normal_path s \<and> normal_path t \<and> path_dirname s = t \<and> path_basename s \<notin> {[], [46], [46, 46]} \<and>
     path_basename (path_basename s) = path_basename s)"
  by (auto simp: directPathPlan_def Let_def)

lemma canonicalPlanInput_Inr:
  assumes "canonicalPlanInput v = Inr plan"
  obtains p s sr d dr where "exactDataObject v PLAN_KEYS = Inr p"
    "directPathPlan (JStr s) (JStr sr) = Inr (s, sr)" "directPathPlan (JStr d) (JStr dr) = Inr (d, dr)"
    "pathsAreDisjoint sr dr" "fld p ''detachMode'' \<in> {lit ''release'', lit ''force-fence''}"
    "lease_duration_ok (fld p ''leaseDurationMilliseconds'')"
    "\<exists>t. assertIsoTimestamp (fld p ''captureCreatedAt'') Invalid_fence = Inr t"
    "str_matches OPAQUE_ID_PATTERN (fld p ''holderId'')" "str_matches OPAQUE_ID_PATTERN (fld p ''imagePlanId'')"
    "plan = exactFrozenRecord
        [(''captureCreatedAt'', fld p ''captureCreatedAt''), (''destinationDirectory'', JStr d),
         (''destinationOwnedRoot'', JStr dr), (''detachMode'', fld p ''detachMode''),
         (''holderId'', fld p ''holderId''), (''imagePlanId'', fld p ''imagePlanId''),
         (''leaseDurationMilliseconds'', fld p ''leaseDurationMilliseconds''),
         (''sourceArtifactDirectory'', JStr s), (''sourceArtifactOwnedRoot'', JStr sr)]"
  using assms that unfolding canonicalPlanInput_def by auto

lemma canonicalPlanInput_idempotent:
  assumes "canonicalPlanInput v = Inr plan"
  shows "canonicalPlanInput (plain_obj (map (\<lambda>k. (k, fld plan k)) plan_fields)) = Inr plan"
proof -
  obtain p s sr d dr where ok:
    "directPathPlan (JStr s) (JStr sr) = Inr (s, sr)" "directPathPlan (JStr d) (JStr dr) = Inr (d, dr)"
    "pathsAreDisjoint sr dr" "fld p ''detachMode'' \<in> {lit ''release'', lit ''force-fence''}"
    "lease_duration_ok (fld p ''leaseDurationMilliseconds'')"
    "\<exists>t. assertIsoTimestamp (fld p ''captureCreatedAt'') Invalid_fence = Inr t"
    "str_matches OPAQUE_ID_PATTERN (fld p ''holderId'')" "str_matches OPAQUE_ID_PATTERN (fld p ''imagePlanId'')"
    and plan: "plan = exactFrozenRecord
        [(''captureCreatedAt'', fld p ''captureCreatedAt''), (''destinationDirectory'', JStr d),
         (''destinationOwnedRoot'', JStr dr), (''detachMode'', fld p ''detachMode''),
         (''holderId'', fld p ''holderId''), (''imagePlanId'', fld p ''imagePlanId''),
         (''leaseDurationMilliseconds'', fld p ''leaseDurationMilliseconds''),
         (''sourceArtifactDirectory'', JStr s), (''sourceArtifactOwnedRoot'', JStr sr)]"
    using assms by (rule canonicalPlanInput_Inr)
  have fields: "map (\<lambda>k. (k, fld plan k)) plan_fields =
        [(''captureCreatedAt'', fld p ''captureCreatedAt''), (''destinationDirectory'', JStr d),
         (''destinationOwnedRoot'', JStr dr), (''detachMode'', fld p ''detachMode''),
         (''holderId'', fld p ''holderId''), (''imagePlanId'', fld p ''imagePlanId''),
         (''leaseDurationMilliseconds'', fld p ''leaseDurationMilliseconds''),
         (''sourceArtifactDirectory'', JStr s), (''sourceArtifactOwnedRoot'', JStr sr)]"
    by (simp add: plan_fields_def plan fld_frozen)
  show ?thesis
    unfolding fields using ok
    by (auto simp: canonicalPlanInput_def exactDataObject_frozen PLAN_KEYS_def fld_frozen plan guarded_ok
        simp del: directPathPlan_Inr)
qed

section \<open>A plan is rebuilt from its record\<close>

definition self_equal :: "jsval \<Rightarrow> bool" where
  "self_equal v \<longleftrightarrow> (\<exists>s. v = JStr s) \<or> (\<exists>q. v = JNum (JFin q))"

lemma self_equal_seq: "self_equal v \<Longrightarrow> js_seq u v \<longleftrightarrow> u = v"
  by (auto simp: self_equal_def)

lemma self_equal_string: "str_matches r v \<Longrightarrow> self_equal v"
  by (cases v) (simp_all add: str_matches_def self_equal_def)

lemma planInput_fields:
  assumes "canonicalPlanInput v = Inr plan" and "k \<in> set plan_fields"
  shows "self_equal (fld plan k)"
proof -
  obtain p s sr d dr where ok: "fld p ''detachMode'' \<in> {lit ''release'', lit ''force-fence''}"
    "lease_duration_ok (fld p ''leaseDurationMilliseconds'')"
    "\<exists>t. assertIsoTimestamp (fld p ''captureCreatedAt'') Invalid_fence = Inr t"
    "str_matches OPAQUE_ID_PATTERN (fld p ''holderId'')" "str_matches OPAQUE_ID_PATTERN (fld p ''imagePlanId'')"
    and plan: "plan = exactFrozenRecord
        [(''captureCreatedAt'', fld p ''captureCreatedAt''), (''destinationDirectory'', JStr d),
         (''destinationOwnedRoot'', JStr dr), (''detachMode'', fld p ''detachMode''),
         (''holderId'', fld p ''holderId''), (''imagePlanId'', fld p ''imagePlanId''),
         (''leaseDurationMilliseconds'', fld p ''leaseDurationMilliseconds''),
         (''sourceArtifactDirectory'', JStr s), (''sourceArtifactOwnedRoot'', JStr sr)]"
    using assms(1) by (rule canonicalPlanInput_Inr)
  have "self_equal (fld p ''leaseDurationMilliseconds'')"
    using ok(2) by (auto simp: lease_duration_ok_def self_equal_def num_is_safe_integer_def split: jsval.splits jsnum.splits)
  moreover have "self_equal (fld p ''captureCreatedAt'')" using ok(3) by (auto simp: iso_iff self_equal_def)
  moreover have "self_equal (fld p ''detachMode'')" using ok(1) by (auto simp: self_equal_def)
  moreover have "self_equal (JStr x)" for x by (simp add: self_equal_def)
  ultimately show ?thesis
    using assms(2) ok(4,5) [THEN self_equal_string] by (auto simp: plan_fields_def plan fld_frozen)
qed

lemma derive_identities_fields:
  "derive_identities H seed t = Inr ids \<Longrightarrow> map fst ids = map fst t \<and> (\<forall>kv \<in> set ids. self_equal (snd kv))"
proof (induction H seed t arbitrary: ids rule: derive_identities.induct)
  case (2 H seed k role tag rest)
  then obtain digest kvs where "ids = (k, JStr (js tag @ digest)) # kvs" "derive_identities H seed rest = Inr kvs"
    by (auto simp: deterministicOpaqueId_def)
  with 2(1) show ?case by (simp add: self_equal_def deterministicOpaqueId_def)
qed simp

lemma plan_record_Inr:
  assumes "plan_record H options = Inr r"
  obtains normalized request plan input seed ids sha where
    "exactDataObject options [''plan'', ''request''] = Inr normalized"
    "canonicalRequest (fld normalized ''request'') = Inr request"
    "canonicalPlanInput (fld normalized ''plan'') = Inr plan"
    "input = [(''contractVersion'', JInt 1), (''request'', request)] @ map (\<lambda>k. (k, fld plan k)) plan_fields"
    "planInputSha256 H (exactFrozenRecord input) = Inr seed"
    "derive_identities H seed identity_table = Inr ids"
    "rootPlanSha256 H (exactFrozenRecord (input @ ids)) = Inr sha"
    "r = exactFrozenRecord (input @ ids @ [(''planSha256'', JStr sha)])"
  using assms that by (auto simp: plan_record_def Let_def)

lemma plan_record_fields:
  assumes "plan_record H options = Inr r"
  obtains request plan kvs where "canonicalRequest request = Inr request"
    "canonicalPlanInput (plain_obj (map (\<lambda>k. (k, fld plan k)) plan_fields)) = Inr plan"
    "r = exactFrozenRecord kvs" "map fst kvs = PERSISTED_PLAN_KEYS" "fld r ''request'' = request"
    "fld r ''contractVersion'' = JInt 1" "\<forall>k \<in> set plan_fields. fld r k = fld plan k"
    "\<forall>k \<in> set (drop 2 PERSISTED_PLAN_KEYS). self_equal (fld r k)"
    "plan_record H (plain_obj [(''plan'', plain_obj (map (\<lambda>k. (k, fld plan k)) plan_fields)), (''request'', request)]) = Inr r"
proof -
  obtain normalized request plan input seed ids sha where
    req: "canonicalRequest (fld normalized ''request'') = Inr request"
    and plan: "canonicalPlanInput (fld normalized ''plan'') = Inr plan"
    and input: "input = [(''contractVersion'', JInt 1), (''request'', request)] @ map (\<lambda>k. (k, fld plan k)) plan_fields"
    and h: "planInputSha256 H (exactFrozenRecord input) = Inr seed"
      "derive_identities H seed identity_table = Inr ids" "rootPlanSha256 H (exactFrozenRecord (input @ ids)) = Inr sha"
    and r: "r = exactFrozenRecord (input @ ids @ [(''planSha256'', JStr sha)])"
    using assms by (rule plan_record_Inr)
  let ?kvs = "input @ ids @ [(''planSha256'', JStr sha)]"
  note ids = derive_identities_fields [OF h(2)] and rq = canonicalRequest_idempotent [OF req]
    and pl = canonicalPlanInput_idempotent [OF plan]
  have keys: "map fst ?kvs = PERSISTED_PLAN_KEYS"
    using ids by (simp add: input plan_fields_def identity_table_def PERSISTED_PLAN_KEYS_def)
  then have d: "distinct (map fst ?kvs)" by (simp only: keys) (simp add: PERSISTED_PLAN_KEYS_def)
  have get: "fld r k = v" if "(k, v) \<in> set ?kvs" for k v
    using map_of_is_SomeI [OF d that] by (simp add: r fld_frozen)
  have rb: "plan_record H (plain_obj [(''plan'', plain_obj (map (\<lambda>k. (k, fld plan k)) plan_fields)),
      (''request'', request)]) = Inr r"
    using rq pl h by (simp add: plan_record_def exactDataObject_frozen fld_frozen Let_def input r)
  have f: "\<forall>k \<in> set plan_fields. fld r k = fld plan k" using get by (auto simp: input)
  have "self_equal (fld r k)" if "k \<in> set (drop 2 PERSISTED_PLAN_KEYS)" for k
  proof -
    have "k \<in> set (map fst (drop 2 ?kvs))" using that keys drop_map [of 2 fst ?kvs] by metis
    then obtain v where "(k, v) \<in> set (drop 2 ?kvs)" unfolding set_map by (auto simp del: drop_append)
    moreover from this have "self_equal v"
      using ids planInput_fields [OF plan] by (auto simp: input self_equal_def)
    ultimately show ?thesis using get by (metis in_set_dropD)
  qed
  moreover have "fld r ''request'' = request" "fld r ''contractVersion'' = JInt 1"
    using get by (simp_all add: input)
  ultimately show thesis using that [OF rq pl r keys _ _ f _ rb] by blast
qed

lemma rehydrate_created:
  assumes "wf_store st" and "plan_record H options = Inr r"
  shows "rehydratePostgresDetachedRestorePlan H st r = Inr (brand st r)"
proof -
  obtain request plan kvs where p: "canonicalRequest request = Inr request"
    "canonicalPlanInput (plain_obj (map (\<lambda>k. (k, fld plan k)) plan_fields)) = Inr plan"
    "r = exactFrozenRecord kvs" "map fst kvs = PERSISTED_PLAN_KEYS" "fld r ''request'' = request"
    "fld r ''contractVersion'' = JInt 1" "\<forall>k \<in> set plan_fields. fld r k = fld plan k"
    "\<forall>k \<in> set (drop 2 PERSISTED_PLAN_KEYS). self_equal (fld r k)"
    "plan_record H (plain_obj [(''plan'', plain_obj (map (\<lambda>k. (k, fld plan k)) plan_fields)), (''request'', request)]) = Inr r"
    using assms(2) by (rule plan_record_fields)
  have "distinct (map fst kvs)" by (simp add: p(4) PERSISTED_PLAN_KEYS_def)
  then have e: "exactDataObject r PERSISTED_PLAN_KEYS = Inr r"
    using exactDataObject_frozen(1) [of kvs PERSISTED_PLAN_KEYS] p(3,4) by (metis length_map order_refl)
  have "pick plan_fields r = plain_obj (map (\<lambda>k. (k, fld plan k)) plan_fields)"
    using p(7) by (simp add: pick_def plain_obj_def)
  moreover obtain st' i where b: "brand st r = (st', i)" by (cases "brand st r")
  moreover have "branded st' i = Some r" by (rule brands.issue_look [OF assms(1) b])
  ultimately show ?thesis
    using p(5,6,8,9) e
    by (auto simp: rehydratePostgresDetachedRestorePlan_def createPostgresDetachedRestorePlan_def guarded_ok
        list_all_iff self_equal_seq)
qed

section \<open>Which plans are created\<close>

definition serializable :: "jsval \<Rightarrow> bool" where
  "serializable v \<longleftrightarrow> \<not> json_absent v \<and> (\<exists>j. to_json v = Some j \<and> printable j)"

lemma serializable_prims [simp]: "serializable (JStr s)" "num_is_safe_integer n \<Longrightarrow> serializable (JNum n)"
  by (auto simp: serializable_def num_is_safe_integer_def num_is_finite_def split: jsnum.splits)

lemma serializable_matches: "str_matches r v \<Longrightarrow> serializable v"
  by (cases v) (simp_all add: str_matches_def)

lemma serializable_frozen:
  assumes "\<forall>kv \<in> set kvs. serializable (snd kv)"
  shows "serializable (exactFrozenRecord kvs)"
proof -
  have "\<exists>js'. to_members (map (\<lambda>(k, v). (key k, DataDesc True v)) kvs) = Some js' \<and> (\<forall>kv \<in> set js'. printable (snd kv))"
    using assms
  proof (induction kvs)
    case (Cons kv kvs)
    obtain k v where kv: "kv = (k, v)" by (cases kv)
    obtain j where "\<not> json_absent v" "to_json v = Some j" "printable j"
      using Cons.prems by (auto simp: kv serializable_def)
    moreover obtain js' where "to_members (map (\<lambda>(k, v). (key k, DataDesc True v)) kvs) = Some js'"
      "\<forall>kv \<in> set js'. printable (snd kv)" using Cons by auto
    ultimately show ?case by (auto simp: kv)
  qed simp
  then show ?thesis by (auto simp: serializable_def exactFrozenRecord_def)
qed

lemma canonicalSerialize_ok: "serializable v \<Longrightarrow> \<exists>s. canonicalSerialize v = Inr s"
  by (auto simp: serializable_def canonicalSerialize_def JSON_stringify_def)

lemma one_safe: "num_is_safe_integer (JFin 1)"
  by (simp add: num_is_safe_integer_def)

lemma serializable_request:
  assumes "canonicalRequest v = Inr q"
  shows "serializable q"
proof -
  have epoch: "serializable x" if "parseFencingEpochForRecord x e = Inr n" for x e n
    using that by (simp add: parseFencingEpoch_dec_of)
  from assms show ?thesis
    by (rule canonicalRequest_Inr)
      (auto simp: one_safe intro!: serializable_frozen dest!: serializable_matches epoch)
qed

lemma serializable_input:
  assumes "canonicalPlanInput v = Inr plan" and "k \<in> set plan_fields"
  shows "serializable (fld plan k)"
proof -
  obtain p s sr d dr where ok: "fld p ''detachMode'' \<in> {lit ''release'', lit ''force-fence''}"
    "lease_duration_ok (fld p ''leaseDurationMilliseconds'')"
    "\<exists>t. assertIsoTimestamp (fld p ''captureCreatedAt'') Invalid_fence = Inr t"
    "str_matches OPAQUE_ID_PATTERN (fld p ''holderId'')" "str_matches OPAQUE_ID_PATTERN (fld p ''imagePlanId'')"
    and plan: "plan = exactFrozenRecord
        [(''captureCreatedAt'', fld p ''captureCreatedAt''), (''destinationDirectory'', JStr d),
         (''destinationOwnedRoot'', JStr dr), (''detachMode'', fld p ''detachMode''),
         (''holderId'', fld p ''holderId''), (''imagePlanId'', fld p ''imagePlanId''),
         (''leaseDurationMilliseconds'', fld p ''leaseDurationMilliseconds''),
         (''sourceArtifactDirectory'', JStr s), (''sourceArtifactOwnedRoot'', JStr sr)]"
    using assms(1) by (rule canonicalPlanInput_Inr)
  have "serializable (fld p ''leaseDurationMilliseconds'')"
    using ok(2) by (auto simp: lease_duration_ok_def split: jsval.splits)
  moreover have "serializable (fld p ''captureCreatedAt'')" using ok(3) by (auto simp: iso_iff)
  moreover have "serializable (fld p ''detachMode'')" using ok(1) by auto
  ultimately show ?thesis
    using assms(2) ok(4,5) [THEN serializable_matches] by (auto simp: plan_fields_def plan fld_frozen)
qed

lemma derive_identities_total:
  assumes "\<forall>ps. rx_match SHA256_PATTERN (H ps)"
  shows "\<exists>ids. derive_identities H seed t = Inr ids \<and> (\<forall>kv \<in> set ids. serializable (snd kv))"
proof (induction t)
  case (Cons x t)
  obtain k role tag where x: "x = (k, role, tag)" by (cases x)
  from Cons show ?case
    using assms by (auto simp: x deterministicOpaqueId_def derivedDigest_def sha256Parts_def guarded_ok)
qed simp

lemma plan_record_total:
  assumes H: "\<forall>ps. rx_match SHA256_PATTERN (H ps)"
    and "exactDataObject options [''plan'', ''request''] = Inr normalized"
    and req: "canonicalRequest (fld normalized ''request'') = Inr request"
    and plan: "canonicalPlanInput (fld normalized ''plan'') = Inr plan"
  shows "\<exists>r. plan_record H options = Inr r"
proof -
  let ?input = "[(''contractVersion'', JInt 1), (''request'', request)] @ map (\<lambda>k. (k, fld plan k)) plan_fields"
  have i: "\<forall>kv \<in> set ?input. serializable (snd kv)"
    using serializable_request [OF req] serializable_input [OF plan] by (auto simp: one_safe)
  then obtain txt1 where "canonicalSerialize (exactFrozenRecord ?input) = Inr txt1"
    using canonicalSerialize_ok serializable_frozen by blast
  then obtain seed where seed: "planInputSha256 H (exactFrozenRecord ?input) = Inr seed"
    using H by (simp add: planInputSha256_def sha256Parts_def guarded_ok)
  obtain ids where ids: "derive_identities H seed identity_table = Inr ids" "\<forall>kv \<in> set ids. serializable (snd kv)"
    using derive_identities_total [OF H] by blast
  have "serializable (exactFrozenRecord (?input @ ids))"
    using i ids(2) by (intro serializable_frozen) auto
  then obtain txt2 where "canonicalSerialize (exactFrozenRecord (?input @ ids)) = Inr txt2"
    using canonicalSerialize_ok by blast
  then obtain sha where sha: "rootPlanSha256 H (exactFrozenRecord (?input @ ids)) = Inr sha"
    using H by (simp add: rootPlanSha256_def sha256Parts_def guarded_ok)
  show ?thesis
    using assms(2) req plan seed ids(1) sha by (simp add: plan_record_def Let_def)
qed

section \<open>Source and destination do not overlap\<close>

lemma disjoint_roots: "pathsAreDisjoint a b \<Longrightarrow> \<not> (under p a \<and> under p b)"
  using apart_roots [of p a b] by (auto simp: pathsAreDisjoint_def under_def)

section \<open>Guarantees\<close>

text \<open>
  With a hash that returns SHA-256 digests, a plan is created exactly when the options hold a
  canonical restore request and a canonical plan input; nothing else can make the creation fail.
\<close>
theorem plan_created_iff_canonical:
  assumes "\<forall>ps. rx_match SHA256_PATTERN (H ps)"
  shows "(\<exists>x. createPostgresDetachedRestorePlan H st options = Inr x) \<longleftrightarrow>
    (\<exists>n request plan. exactDataObject options [''plan'', ''request''] = Inr n \<and>
       canonicalRequest (fld n ''request'') = Inr request \<and> canonicalPlanInput (fld n ''plan'') = Inr plan)"
  (is "?created \<longleftrightarrow> ?canonical")
proof
  assume ?created
  then obtain r where "plan_record H options = Inr r" by (auto simp: createPostgresDetachedRestorePlan_def)
  then show ?canonical by (rule plan_record_Inr) blast
next
  assume ?canonical
  with plan_record_total [OF assms] show ?created
    by (fastforce simp: createPostgresDetachedRestorePlan_def)
qed

text \<open>
  C35: A created plan survives persistence: rebuilding it from a document with its fields succeeds
  and gives a plan with the same record, request, identities and hash, while every plan that was
  branded before stays branded.
\<close>
theorem plan_rehydrates:
  assumes "wf_store st" and "createPostgresDetachedRestorePlan H st options = Inr (st', i)"
    and "branded st' i = Some r"
  shows "\<exists>st'' j. rehydratePostgresDetachedRestorePlan H st' r = Inr (st'', j) \<and> branded st'' j = Some r \<and>
    branded st'' i = Some r \<and> wf_store st''"
proof -
  obtain q where q: "plan_record H options = Inr q" "brand st q = (st', i)"
    using assms(2) by (auto simp: createPostgresDetachedRestorePlan_def)
  have wf: "wf_store st'" by (rule brands.issue_valid [OF assms(1) q(2)])
  have "r = q" using brands.issue_look [OF assms(1) q(2)] assms(3) by simp
  then have "rehydratePostgresDetachedRestorePlan H st' r = Inr (brand st' r)"
    using rehydrate_created [OF wf q(1)] by simp
  moreover obtain st'' j where b: "brand st' r = (st'', j)" by (cases "brand st' r")
  ultimately show ?thesis
    using brands.issued_apart [OF assms(1) q(2) b [unfolded \<open>r = q\<close>]] \<open>r = q\<close> b by auto
qed

text \<open>
  A document is accepted only if it is the record its own canonical input produces: every
  persisted field, the nine derived identities and the plan hash included, equals the recomputed
  one. A document whose derived part was altered is refused.
\<close>
theorem rehydrated_plan_is_recomputed:
  assumes "wf_store st" and "rehydratePostgresDetachedRestorePlan H st document = Inr (st', i)"
  shows "\<exists>d r. exactDataObject document PERSISTED_PLAN_KEYS = Inr d \<and> branded st' i = Some r \<and>
    plan_record H (plain_obj [(''plan'', pick plan_fields d), (''request'', fld d ''request'')]) = Inr r \<and>
    (\<forall>k \<in> set PERSISTED_PLAN_KEYS - {''request''}. fld d k = fld r k)"
proof -
  let ?o = "\<lambda>d. plain_obj [(''plan'', pick plan_fields d), (''request'', fld d ''request'')]"
  obtain d r where d: "exactDataObject document PERSISTED_PLAN_KEYS = Inr d"
    and r: "plan_record H (?o d) = Inr r" "brand st r = (st', i)"
    and c: "js_seq (fld d ''contractVersion'') (fld (case branded st' i of Some r \<Rightarrow> r | None \<Rightarrow> JUndefined) ''contractVersion'')"
    and eq: "list_all (\<lambda>k. js_seq (fld d k) (fld (case branded st' i of Some r \<Rightarrow> r | None \<Rightarrow> JUndefined) k))
        (drop 2 PERSISTED_PLAN_KEYS)"
    using assms(2)
    by (auto simp: rehydratePostgresDetachedRestorePlan_def createPostgresDetachedRestorePlan_def Let_def list_all_iff)
  note b = brands.issue_look [OF assms(1) r(2)]
  have "fld d k = fld r k" if "k \<in> set PERSISTED_PLAN_KEYS - {''request''}" for k
  proof (cases "k = ''contractVersion''")
    case True
    obtain request where "fld r ''contractVersion'' = JInt 1" using r(1) by (rule plan_record_fields)
    with True c b show ?thesis by simp
  next
    case False
    with that have k: "k \<in> set (drop 2 PERSISTED_PLAN_KEYS)" by (auto simp: PERSISTED_PLAN_KEYS_def)
    have "self_equal (fld r k)" using r(1) by (rule plan_record_fields) (use k in blast)
    moreover have "js_seq (fld d k) (fld r k)" using eq k b by (simp add: list_all_iff)
    ultimately show ?thesis by (simp add: self_equal_seq)
  qed
  with d b r(1) show ?thesis by blast
qed

text \<open>
  C36: The source artifact and the destination of a created plan never overlap: each directory is a
  direct child of its owned root, and no path lies below both owned roots.
\<close>
theorem plan_directories_are_disjoint:
  assumes "plan_record H options = Inr r"
  shows "\<exists>s sr d dr g h. fld r ''sourceArtifactDirectory'' = JStr s \<and> fld r ''sourceArtifactOwnedRoot'' = JStr sr \<and>
    fld r ''destinationDirectory'' = JStr d \<and> fld r ''destinationOwnedRoot'' = JStr dr \<and>
    s = sr @ 47 # g \<and> proper_seg g \<and> d = dr @ 47 # h \<and> proper_seg h \<and>
    (\<forall>p. \<not> (under p sr \<and> under p dr))"
proof -
  obtain plan where plan: "canonicalPlanInput (plain_obj (map (\<lambda>k. (k, fld plan k)) plan_fields)) = Inr plan"
    and f: "\<forall>k \<in> set plan_fields. fld r k = fld plan k"
    using assms by (rule plan_record_fields)
  obtain p s sr d dr where ok: "directPathPlan (JStr s) (JStr sr) = Inr (s, sr)"
    "directPathPlan (JStr d) (JStr dr) = Inr (d, dr)" "pathsAreDisjoint sr dr"
    and e: "plan = exactFrozenRecord
        [(''captureCreatedAt'', fld p ''captureCreatedAt''), (''destinationDirectory'', JStr d),
         (''destinationOwnedRoot'', JStr dr), (''detachMode'', fld p ''detachMode''),
         (''holderId'', fld p ''holderId''), (''imagePlanId'', fld p ''imagePlanId''),
         (''leaseDurationMilliseconds'', fld p ''leaseDurationMilliseconds''),
         (''sourceArtifactDirectory'', JStr s), (''sourceArtifactOwnedRoot'', JStr sr)]"
    using plan by (rule canonicalPlanInput_Inr)
  have "\<exists>g. proper_seg g \<and> s = sr @ 47 # g" "\<exists>g. proper_seg g \<and> d = dr @ 47 # g"
    using ok(1,2) by (auto intro: dirname_normal)
  moreover have "fld r ''sourceArtifactDirectory'' = JStr s" "fld r ''sourceArtifactOwnedRoot'' = JStr sr"
    "fld r ''destinationDirectory'' = JStr d" "fld r ''destinationOwnedRoot'' = JStr dr"
    using f by (simp_all add: plan_fields_def e fld_frozen)
  ultimately show ?thesis using disjoint_roots [OF ok(3)] by blast
qed

end
