(* ===== verification/Lease_Budget.thy ===== *)
theory Lease_Budget
  imports Restore_Plan
begin

text \<open>
  The operational lease budget of \<open>postgres-detached-restore-operational-lease-budget.mjs\<close>: the
  settlement policies of all collaborators are added up into the two windows a restore must hold
  its lease through, every addition bounded by one day, and only a lease that covers the longer
  window gets a budget. Budgets are frozen objects a module-private \<open>WeakSet\<close> remembers, as plans
  are. The number of arguments of the entry points is fixed by their types.
\<close>

datatype budget_error = Invalid_budget_options | Operational_lease_required

definition MAX_MILLISECONDS :: int where
  "MAX_MILLISECONDS = 86400000"

definition FACTORY_OPTION_KEYS :: "string list" where
  "FACTORY_OPTION_KEYS = [''databaseRequestMilliseconds'', ''imagePlanProviderSettlement'',
     ''leaseDurationMilliseconds'', ''lifecycleBackendSettlement'', ''publicationSettlement'',
     ''resolveRestoreDestinationSettlement'', ''safetyMarginMilliseconds'', ''supervisorSettlement'']"

definition POLICY_KEYS :: "string list" where
  "POLICY_KEYS = [''deadlineMilliseconds'', ''settlementGraceMilliseconds'']"

definition IMAGE_KEYS :: "string list" where
  "IMAGE_KEYS = [''inspectCodex'', ''resolveImagePlan'']"

definition SUPERVISOR_KEYS :: "string list" where
  "SUPERVISOR_KEYS = [''launchWriter'', ''reconcileWriterLaunch'', ''stopWriter'']"

definition LIFECYCLE_KEYS :: "string list" where
  "LIFECYCLE_KEYS = [''captureCheckpoint'', ''destroySession'', ''detachAttachment'', ''forceFence'',
     ''prepareRestoreAttachment'', ''prepareWritableAttachment'', ''provisionSession'',
     ''reconcileRestoreAttachment'', ''restoreCheckpoint'']"

definition PUBLICATION_KEYS :: "string list" where
  "PUBLICATION_KEYS = [''publishFreshCheckpointArtifact'', ''publishRestoreDestination'',
     ''verifyCommittedCheckpointArtifact'', ''verifyCommittedRestoreDestination'']"

section \<open>Reading the options\<close>

text \<open>
  This module's \<open>exactDataObject\<close> copies the properties in the order of the expected keys.
\<close>

definition exactDataObjectB :: "jsval \<Rightarrow> string list \<Rightarrow> budget_error \<Rightarrow> budget_error + jsval" where
  "exactDataObjectB v expectedKeys code = guarded
     [ensure (is_object v \<and> \<not> is_proxy v) code,
      ensure (proto_of v = JNull \<or> proto_of v = JObjectPrototype) code,
      ensure (length (own_keys v) = length expectedKeys) code,
      ensure (list_all (\<lambda>k. enumerable_data v (key k)) expectedKeys) code]
     (Inr (exactFrozenRecord (map (\<lambda>k. (k, own_value v (key k))) expectedKeys)))"

definition safe_int :: "int \<Rightarrow> bool" where
  "safe_int i \<longleftrightarrow> \<bar>i\<bar> \<le> 9007199254740991"

definition milliseconds :: "jsval \<Rightarrow> budget_error \<Rightarrow> budget_error + int" where
  "milliseconds v code = (case v of
     JNum n \<Rightarrow> guarded
       [ensure (num_is_safe_integer n \<and> \<not> num_less n (JFin 1) \<and> \<not> num_less (JFin (of_int MAX_MILLISECONDS)) n) code]
       (case n of JFin q \<Rightarrow> Inr \<lfloor>q\<rfloor> | _ \<Rightarrow> Inl code)
   | _ \<Rightarrow> Inl code)"

definition checkedAdd :: "int \<Rightarrow> int \<Rightarrow> budget_error \<Rightarrow> budget_error + int" where
  "checkedAdd left right code = guarded
     [ensure (safe_int left \<and> safe_int right \<and> 0 \<le> left \<and> 0 \<le> right \<and> left \<le> MAX_MILLISECONDS - right) code]
     (Inr (left + right))"

definition policyDuration :: "jsval \<Rightarrow> budget_error \<Rightarrow> budget_error + int" where
  "policyDuration v code =
     rbind (exactDataObjectB v POLICY_KEYS code) (\<lambda>policy.
     rbind (milliseconds (fld policy ''deadlineMilliseconds'') code) (\<lambda>deadline.
     rbind (milliseconds (fld policy ''settlementGraceMilliseconds'') code) (\<lambda>grace.
     guarded [ensure (safe_int (deadline + grace) \<and> 0 < deadline + grace) code] (Inr (deadline + grace)))))"

fun durations_of :: "jsval \<Rightarrow> string list \<Rightarrow> budget_error \<Rightarrow> budget_error + (string \<times> int) list" where
  "durations_of policies [] code = Inr []"
| "durations_of policies (k # ks) code =
     rbind (policyDuration (fld policies k) code) (\<lambda>d.
     rbind (durations_of policies ks code) (\<lambda>ds. Inr ((k, d) # ds)))"

definition policyDurations :: "jsval \<Rightarrow> string list \<Rightarrow> budget_error \<Rightarrow> budget_error + (string \<times> int) list" where
  "policyDurations v ks code = rbind (exactDataObjectB v ks code) (\<lambda>policies. durations_of policies ks code)"

text \<open>The duration of one operation; every policy table holds all its keys.\<close>

definition duration :: "(string \<times> int) list \<Rightarrow> string \<Rightarrow> int" where
  "duration ds k = (case map_of ds k of Some d \<Rightarrow> d | None \<Rightarrow> 0)"

fun add_terms_from :: "int \<Rightarrow> int list \<Rightarrow> budget_error \<Rightarrow> budget_error + int" where
  "add_terms_from acc [] code = Inr acc"
| "add_terms_from acc (t # ts) code =
     rbind (checkedAdd acc t code) (\<lambda>acc'. add_terms_from acc' ts code)"

definition addTerms :: "int list \<Rightarrow> budget_error \<Rightarrow> budget_error + int" where
  "addTerms terms code = add_terms_from 0 terms code"

section \<open>The budget\<close>

record budget_terms =
  t_database :: int
  t_lease :: int
  t_margin :: int
  t_image :: "(string \<times> int) list"
  t_supervisor :: "(string \<times> int) list"
  t_lifecycle :: "(string \<times> int) list"
  t_publication :: "(string \<times> int) list"
  t_resolver :: int

definition read_terms :: "jsval \<Rightarrow> budget_error + budget_terms" where
  "read_terms v =
     rbind (exactDataObjectB v FACTORY_OPTION_KEYS Invalid_budget_options) (\<lambda>options.
     rbind (milliseconds (fld options ''databaseRequestMilliseconds'') Invalid_budget_options) (\<lambda>database.
     rbind (milliseconds (fld options ''leaseDurationMilliseconds'') Invalid_budget_options) (\<lambda>lease.
     rbind (milliseconds (fld options ''safetyMarginMilliseconds'') Invalid_budget_options) (\<lambda>margin.
     rbind (policyDurations (fld options ''imagePlanProviderSettlement'') IMAGE_KEYS Invalid_budget_options) (\<lambda>image.
     rbind (policyDurations (fld options ''supervisorSettlement'') SUPERVISOR_KEYS Invalid_budget_options) (\<lambda>supervisor.
     rbind (policyDurations (fld options ''lifecycleBackendSettlement'') LIFECYCLE_KEYS Invalid_budget_options) (\<lambda>lifecycle.
     rbind (policyDurations (fld options ''publicationSettlement'') PUBLICATION_KEYS Invalid_budget_options) (\<lambda>publication.
     rbind (policyDuration (fld options ''resolveRestoreDestinationSettlement'') Invalid_budget_options) (\<lambda>resolver.
     Inr \<lparr>t_database = database, t_lease = lease, t_margin = margin, t_image = image,
       t_supervisor = supervisor, t_lifecycle = lifecycle, t_publication = publication,
       t_resolver = resolver\<rparr>)))))))))"

text \<open>The two windows: (activation to launch claim, renewal to generation claim).\<close>

definition budget_windows :: "budget_terms \<Rightarrow> budget_error + int \<times> int" where
  "budget_windows t =
     rbind (addTerms [t_database t, t_margin t] Invalid_budget_options) (\<lambda>databaseAndMargin.
     rbind (addTerms
        [duration (t_supervisor t) ''stopWriter'',
         duration (t_publication t) ''publishFreshCheckpointArtifact'',
         duration (t_publication t) ''verifyCommittedCheckpointArtifact'',
         databaseAndMargin] Invalid_budget_options) (\<lambda>renewalToGenerationClaim.
     rbind (addTerms
        [t_resolver t,
         duration (t_publication t) ''verifyCommittedRestoreDestination'',
         duration (t_lifecycle t) ''reconcileRestoreAttachment''] Invalid_budget_options) (\<lambda>activationCommon.
     rbind (addTerms
        [activationCommon,
         duration (t_lifecycle t) ''prepareRestoreAttachment'',
         duration (t_image t) ''resolveImagePlan'',
         duration (t_image t) ''inspectCodex'',
         duration (t_image t) ''inspectCodex'',
         databaseAndMargin] Invalid_budget_options) (\<lambda>activationToLaunchClaim.
     Inr (activationToLaunchClaim, renewalToGenerationClaim)))))"

definition budget_record :: "jsval \<Rightarrow> budget_error + jsval" where
  "budget_record v =
     rbind (read_terms v) (\<lambda>t.
     rbind (budget_windows t) (\<lambda>(activationToLaunchClaim, renewalToGenerationClaim).
     let minimum = max renewalToGenerationClaim activationToLaunchClaim in
     guarded [ensure (minimum \<le> t_lease t) Invalid_budget_options]
     (Inr (exactFrozenRecord
       [(''contractVersion'', JInt 1),
        (''databaseRequestMilliseconds'', JInt (t_database t)),
        (''leaseDurationMilliseconds'', JInt (t_lease t)),
        (''minimumLeaseDurationMilliseconds'', JInt minimum),
        (''safetyMarginMilliseconds'', JInt (t_margin t)),
        (''windows'', exactFrozenRecord
          [(''activationToLaunchClaimMilliseconds'', JInt activationToLaunchClaim),
           (''renewalToGenerationClaimMilliseconds'', JInt renewalToGenerationClaim)])]))))"

definition createPostgresDetachedRestoreOperationalLeaseBudget ::
    "jsval store \<Rightarrow> jsval \<Rightarrow> budget_error + jsval store \<times> nat" where
  "createPostgresDetachedRestoreOperationalLeaseBudget budgetBrands options =
     rbind (budget_record options) (\<lambda>budget. Inr (brand budgetBrands budget))"

definition isPostgresDetachedRestoreOperationalLeaseBudget :: "jsval store \<Rightarrow> nat \<Rightarrow> bool" where
  "isPostgresDetachedRestoreOperationalLeaseBudget budgetBrands v \<longleftrightarrow> branded budgetBrands v \<noteq> None"

text \<open>\<open>a \<ge> b\<close> on values that passed \<open>===\<close> with a number.\<close>

definition value_ge :: "jsval \<Rightarrow> jsval \<Rightarrow> bool" where
  "value_ge a b \<longleftrightarrow> (case (a, b) of
     (JNum m, JNum n) \<Rightarrow> num_less n m \<or> num_eq n m | _ \<Rightarrow> False)"

lemma value_ge_JInt: "value_ge (JInt a) (JInt b) \<longleftrightarrow> b \<le> a"
  by (auto simp: value_ge_def)

definition the_record :: "jsval store \<Rightarrow> nat \<Rightarrow> jsval" where
  "the_record st i = (case branded st i of Some r \<Rightarrow> r | None \<Rightarrow> JUndefined)"

definition assertPostgresDetachedRestoreOperationalLeasePlan ::
    "jsval store \<Rightarrow> jsval store \<Rightarrow> nat \<Rightarrow> nat \<Rightarrow> budget_error + nat" where
  "assertPostgresDetachedRestoreOperationalLeasePlan budgetBrands planBrands budget plan =
     (let b = the_record budgetBrands budget; p = the_record planBrands plan in guarded
     [ensure (isPostgresDetachedRestoreOperationalLeaseBudget budgetBrands budget \<and>
        isPostgresDetachedRestorePlan planBrands plan \<and>
        js_seq (fld p ''leaseDurationMilliseconds'') (fld b ''leaseDurationMilliseconds'') \<and>
        value_ge (fld p ''leaseDurationMilliseconds'') (fld b ''minimumLeaseDurationMilliseconds''))
        Operational_lease_required]
     (Inr plan))"

definition assertPostgresDetachedRestoreOperationalLeaseDuration ::
    "jsval store \<Rightarrow> nat \<Rightarrow> jsval \<Rightarrow> budget_error + jsval" where
  "assertPostgresDetachedRestoreOperationalLeaseDuration budgetBrands budget leaseDurationMilliseconds =
     (let b = the_record budgetBrands budget in guarded
     [ensure (isPostgresDetachedRestoreOperationalLeaseBudget budgetBrands budget \<and>
        (case leaseDurationMilliseconds of JNum n \<Rightarrow> num_is_safe_integer n | _ \<Rightarrow> False) \<and>
        js_seq leaseDurationMilliseconds (fld b ''leaseDurationMilliseconds'') \<and>
        value_ge leaseDurationMilliseconds (fld b ''minimumLeaseDurationMilliseconds''))
        Operational_lease_required]
     (Inr leaseDurationMilliseconds))"

section \<open>Bounded sums\<close>

lemma checkedAdd_iff:
  "checkedAdd a b c = Inr s \<longleftrightarrow> 0 \<le> a \<and> 0 \<le> b \<and> a + b \<le> MAX_MILLISECONDS \<and> s = a + b"
  by (auto simp: checkedAdd_def safe_int_def MAX_MILLISECONDS_def)

lemma add_terms_from_iff:
  "\<forall>t \<in> set ts. 0 \<le> t \<Longrightarrow> 0 \<le> a \<Longrightarrow> a \<le> MAX_MILLISECONDS \<Longrightarrow>
     add_terms_from a ts c = Inr s \<longleftrightarrow> s = a + sum_list ts \<and> s \<le> MAX_MILLISECONDS"
proof (induction ts arbitrary: a)
  case (Cons t ts)
  have "0 \<le> sum_list ts" using Cons.prems(1) by (intro sum_list_nonneg) simp
  then show ?case using Cons by (auto simp: checkedAdd_iff)
qed auto

lemma addTerms_iff:
  "\<forall>t \<in> set ts. 0 \<le> t \<Longrightarrow> addTerms ts c = Inr s \<longleftrightarrow> s = sum_list ts \<and> s \<le> MAX_MILLISECONDS"
  using add_terms_from_iff [of ts 0] by (auto simp: addTerms_def MAX_MILLISECONDS_def)

section \<open>What the options hold\<close>

lemma milliseconds_Inr: "milliseconds v c = Inr i \<Longrightarrow> v = JInt i \<and> 1 \<le> i \<and> i \<le> MAX_MILLISECONDS"
proof -
  assume "milliseconds v c = Inr i"
  then obtain q where q: "v = JNum (JFin q)" "of_int \<lfloor>q\<rfloor> = q" "\<not> q < 1" "\<not> of_int MAX_MILLISECONDS < q" "i = \<lfloor>q\<rfloor>"
    by (auto simp: milliseconds_def num_is_safe_integer_def split: jsval.splits jsnum.splits)
  then have "q = of_int i" by metis
  with q(1,3,4) show ?thesis by simp
qed

lemma policyDuration_pos: "policyDuration v c = Inr d \<Longrightarrow> 2 \<le> d"
  by (auto simp: policyDuration_def dest!: milliseconds_Inr)

lemma durations_of_pos: "durations_of p ks c = Inr ds \<Longrightarrow> \<forall>kd \<in> set ds. 2 \<le> snd kd"
proof (induction p ks c arbitrary: ds rule: durations_of.induct)
  case (2 p k ks c)
  then obtain d ds' where d: "policyDuration (fld p k) c = Inr d" "durations_of p ks c = Inr ds'" "ds = (k, d) # ds'"
    by auto
  with 2(1) [OF d(2)] policyDuration_pos [OF d(1)] show ?case by simp
qed simp

lemma duration_nonneg: "\<forall>kd \<in> set ds. 2 \<le> snd kd \<Longrightarrow> 0 \<le> duration ds k"
  by (auto simp: duration_def split: option.splits dest!: map_of_SomeD)

lemma policyDurations_nonneg: "policyDurations v ks c = Inr ds \<Longrightarrow> 0 \<le> duration ds k"
  by (auto simp: policyDurations_def dest!: durations_of_pos intro: duration_nonneg)

lemma read_terms_bounds:
  assumes "read_terms v = Inr t"
  shows "1 \<le> t_database t" "1 \<le> t_margin t" "t_lease t \<le> MAX_MILLISECONDS" "0 \<le> t_resolver t"
    "0 \<le> duration (t_image t) k" "0 \<le> duration (t_supervisor t) k" "0 \<le> duration (t_lifecycle t) k"
    "0 \<le> duration (t_publication t) k"
  using assms
  by (auto simp: read_terms_def dest!: milliseconds_Inr policyDuration_pos intro: policyDurations_nonneg)

section \<open>The windows in closed form\<close>

text \<open>What must fit between the lease renewal and the claim of the next generation.\<close>

definition renewal_window :: "budget_terms \<Rightarrow> int" where
  "renewal_window t = duration (t_supervisor t) ''stopWriter'' +
     duration (t_publication t) ''publishFreshCheckpointArtifact'' +
     duration (t_publication t) ''verifyCommittedCheckpointArtifact'' + (t_database t + t_margin t)"

text \<open>What must fit between the activation and the claim of the launch; the image is inspected twice.\<close>

definition activation_window :: "budget_terms \<Rightarrow> int" where
  "activation_window t = t_resolver t + duration (t_publication t) ''verifyCommittedRestoreDestination'' +
     duration (t_lifecycle t) ''reconcileRestoreAttachment'' + duration (t_lifecycle t) ''prepareRestoreAttachment'' +
     duration (t_image t) ''resolveImagePlan'' + 2 * duration (t_image t) ''inspectCodex'' + (t_database t + t_margin t)"

lemma budget_windows_iff:
  assumes "read_terms v = Inr t"
  shows "budget_windows t = Inr w \<longleftrightarrow> w = (activation_window t, renewal_window t) \<and>
    activation_window t \<le> MAX_MILLISECONDS \<and> renewal_window t \<le> MAX_MILLISECONDS"
proof -
  note b = read_terms_bounds [OF assms]
  have sum2: "0 \<le> t_database t + t_margin t" using b(1,2) by simp
  have common: "0 \<le> t_resolver t + duration (t_publication t) ''verifyCommittedRestoreDestination'' +
     duration (t_lifecycle t) ''reconcileRestoreAttachment''" using b by (simp add: add_nonneg_nonneg)
  have nonneg: "0 \<le> t_resolver t" "0 \<le> duration (t_publication t) ''verifyCommittedRestoreDestination''"
    "0 \<le> duration (t_lifecycle t) ''reconcileRestoreAttachment''"
    "0 \<le> duration (t_lifecycle t) ''prepareRestoreAttachment''"
    "0 \<le> duration (t_image t) ''resolveImagePlan''" "0 \<le> duration (t_image t) ''inspectCodex''"
    "0 \<le> duration (t_supervisor t) ''stopWriter''" "0 \<le> duration (t_publication t) ''publishFreshCheckpointArtifact''"
    "0 \<le> duration (t_publication t) ''verifyCommittedCheckpointArtifact''"
    using b by blast+
  show ?thesis
    using b(1,2) sum2 common nonneg
    by (cases w)
      (auto simp: budget_windows_def addTerms_iff renewal_window_def activation_window_def)
qed

definition budget_of :: "budget_terms \<Rightarrow> jsval" where
  "budget_of t = exactFrozenRecord
     [(''contractVersion'', JInt 1), (''databaseRequestMilliseconds'', JInt (t_database t)),
      (''leaseDurationMilliseconds'', JInt (t_lease t)),
      (''minimumLeaseDurationMilliseconds'', JInt (max (renewal_window t) (activation_window t))),
      (''safetyMarginMilliseconds'', JInt (t_margin t)),
      (''windows'', exactFrozenRecord
        [(''activationToLaunchClaimMilliseconds'', JInt (activation_window t)),
         (''renewalToGenerationClaimMilliseconds'', JInt (renewal_window t))])]"

lemma budget_record_iff:
  "budget_record v = Inr r \<longleftrightarrow> (\<exists>t. read_terms v = Inr t \<and> renewal_window t \<le> t_lease t \<and>
     activation_window t \<le> t_lease t \<and> r = budget_of t)"
proof
  assume "budget_record v = Inr r"
  then obtain t a n where t: "read_terms v = Inr t" "budget_windows t = Inr (a, n)" "max n a \<le> t_lease t"
    and r: "r = exactFrozenRecord
       [(''contractVersion'', JInt 1), (''databaseRequestMilliseconds'', JInt (t_database t)),
        (''leaseDurationMilliseconds'', JInt (t_lease t)), (''minimumLeaseDurationMilliseconds'', JInt (max n a)),
        (''safetyMarginMilliseconds'', JInt (t_margin t)),
        (''windows'', exactFrozenRecord [(''activationToLaunchClaimMilliseconds'', JInt a),
           (''renewalToGenerationClaimMilliseconds'', JInt n)])]"
    by (auto simp: budget_record_def Let_def)
  have "(a, n) = (activation_window t, renewal_window t)" using t(2) budget_windows_iff [OF t(1)] by blast
  with t r show "\<exists>t. read_terms v = Inr t \<and> renewal_window t \<le> t_lease t \<and> activation_window t \<le> t_lease t \<and> r = budget_of t"
    by (intro exI [of _ t]) (simp add: budget_of_def)
next
  assume "\<exists>t. read_terms v = Inr t \<and> renewal_window t \<le> t_lease t \<and> activation_window t \<le> t_lease t \<and> r = budget_of t"
  then obtain t where t: "read_terms v = Inr t" "renewal_window t \<le> t_lease t" "activation_window t \<le> t_lease t"
    "r = budget_of t" by blast
  moreover have "budget_windows t = Inr (activation_window t, renewal_window t)"
    using t(2,3) read_terms_bounds(3) [OF t(1)] by (simp add: budget_windows_iff [OF t(1)])
  ultimately show "budget_record v = Inr r" by (simp add: budget_record_def guarded_ok budget_of_def)
qed

section \<open>Guarantees\<close>

text \<open>
  C37: A budget is created exactly when the options are well formed and the lease covers both
  windows, each the plain sum of its terms; none of the bounded partial sums refuses a budget that
  the comparison with the lease would accept.
\<close>
theorem lease_budget_admission:
  "(\<exists>x. createPostgresDetachedRestoreOperationalLeaseBudget st options = Inr x) \<longleftrightarrow>
     (\<exists>t. read_terms options = Inr t \<and> renewal_window t \<le> t_lease t \<and> activation_window t \<le> t_lease t)"
proof -
  have "(\<exists>x. createPostgresDetachedRestoreOperationalLeaseBudget st options = Inr x) \<longleftrightarrow>
      (\<exists>r. budget_record options = Inr r)"
    by (simp add: createPostgresDetachedRestoreOperationalLeaseBudget_def brand_def)
  then show ?thesis unfolding budget_record_iff by iprover
qed

text \<open>
  Against a created budget, a created plan is accepted exactly when it asks for the lease
  duration of the budget; the accepted lease then covers both windows. An identity that was not
  branded by the plan module is refused.
\<close>
theorem lease_plan_covers_windows:
  assumes "wf_store bs" and "createPostgresDetachedRestoreOperationalLeaseBudget bs options = Inr (bs', b)"
    and "read_terms options = Inr t"
  shows "renewal_window t \<le> t_lease t \<and> activation_window t \<le> t_lease t \<and>
    (assertPostgresDetachedRestoreOperationalLeasePlan bs' ps b p = Inr q \<longleftrightarrow>
      q = p \<and> isPostgresDetachedRestorePlan ps p \<and>
      fld (the_record ps p) ''leaseDurationMilliseconds'' = JInt (t_lease t))"
proof -
  obtain u where u: "read_terms options = Inr u" "renewal_window u \<le> t_lease u" "activation_window u \<le> t_lease u"
    and b: "brand bs (budget_of u) = (bs', b)"
    using assms(2) by (auto simp: createPostgresDetachedRestoreOperationalLeaseBudget_def budget_record_iff)
  have t: "u = t" using u(1) assms(3) by simp
  have "branded bs' b = Some (budget_of t)" using brands.issue_look [OF assms(1) b] t by simp
  then have r: "the_record bs' b = budget_of t" "isPostgresDetachedRestoreOperationalLeaseBudget bs' b"
    by (simp_all add: the_record_def isPostgresDetachedRestoreOperationalLeaseBudget_def)
  have f: "fld (budget_of t) ''leaseDurationMilliseconds'' = JInt (t_lease t)"
    "fld (budget_of t) ''minimumLeaseDurationMilliseconds'' = JInt (max (renewal_window t) (activation_window t))"
    by (simp_all add: budget_of_def fld_frozen)
  have "max (renewal_window t) (activation_window t) \<le> t_lease t" using u t by simp
  then have ge: "value_ge (JInt (t_lease t)) (JInt (max (renewal_window t) (activation_window t)))"
    by (simp only: value_ge_JInt)
  have "assertPostgresDetachedRestoreOperationalLeasePlan bs' ps b p = Inr q \<longleftrightarrow>
      q = p \<and> isPostgresDetachedRestorePlan ps p \<and>
      fld (the_record ps p) ''leaseDurationMilliseconds'' = JInt (t_lease t)"
    unfolding assertPostgresDetachedRestoreOperationalLeasePlan_def Let_def r(1) f
    using ge r(2) by (auto simp only: ensure_None guarded_Inr list.pred_inject js_seq_fin simp_thms sum.inject)
  with u t show ?thesis by simp
qed

end
