(* ===== verification/Restore_Examples.thy ===== *)
theory Restore_Examples
  imports Lease_Budget Contract_Examples
begin

text \<open>
  A concrete restore: a checkpoint below \<open>/srv/a\<close> restored to a directory below \<open>/srv/b\<close>, under a
  hash that returns one fixed digest. The guarantees of \<open>Restore_Plan\<close> are applied to it.
\<close>

definition ex_hash :: "jsstr list \<Rightarrow> jsstr" where
  "ex_hash ps = replicate 64 48"

lemma ex_hash_ok: "\<forall>ps. rx_match SHA256_PATTERN (ex_hash ps)"
  by (simp add: SHA256_PATTERN_def ex_hash_def rx_match_lang lang_rep_cls hex_cls_def isLowerHex_def list_all_iff)

definition ex_target :: jsval where
  "ex_target = plain_obj [(''artifactId'', lit ''artifact-1''), (''checkpointId'', lit ''checkpoint-1''),
     (''kind'', lit ''checkpoint'')]"

definition ex_restore_request :: jsval where
  "ex_restore_request = plain_obj [(''backendId'', lit ''backend-1''), (''contractVersion'', JInt 1),
     (''fencingEpoch'', lit ''7''), (''holderId'', lit ''holder-1''), (''leaseId'', lit ''lease-1''),
     (''operation'', lit ''restore''), (''operationId'', lit ''operation-1''), (''sessionId'', ex_session),
     (''storageId'', lit ''storage-1''), (''target'', ex_target)]"

definition ex_plan_input :: jsval where
  "ex_plan_input = plain_obj [(''captureCreatedAt'', lit ''2026-08-01T12:00:00.000Z''),
     (''destinationDirectory'', lit ''/srv/b/y''), (''destinationOwnedRoot'', lit ''/srv/b''),
     (''detachMode'', lit ''release''), (''holderId'', lit ''holder-1''), (''imagePlanId'', lit ''image-1''),
     (''leaseDurationMilliseconds'', JInt 60000),
     (''sourceArtifactDirectory'', lit ''/srv/a/x''), (''sourceArtifactOwnedRoot'', lit ''/srv/a'')]"

definition ex_plan_options :: jsval where
  "ex_plan_options = plain_obj [(''plan'', ex_plan_input), (''request'', ex_restore_request)]"

lemma ex_restore_ids [simp]: "isOpaqueId (lit ''artifact-1'')" "isOpaqueId (lit ''checkpoint-1'')" "isOpaqueId (lit ''image-1'')"
  by (simp_all add: isOpaqueId_def isAsciiAlphaNumeric_def js_def)

lemma ex_request_canonical: "\<exists>q. canonicalRequest ex_restore_request = Inr q"
  unfolding canonicalRequest_def
  by (simp add: ex_restore_request_def ex_target_def exactDataObject_frozen REQUEST_KEYS_def TARGET_KEYS_def
      fld_frozen guarded_ok opaqueW uuidW)

lemma ex_directories:
  "directPathPlan (lit ''/srv/a/x'') (lit ''/srv/a'') = Inr (js ''/srv/a/x'', js ''/srv/a'')"
  "directPathPlan (lit ''/srv/b/y'') (lit ''/srv/b'') = Inr (js ''/srv/b/y'', js ''/srv/b'')"
  "pathsAreDisjoint (js ''/srv/a'') (js ''/srv/b'')"
  by code_simp+

lemma ex_input_canonical: "\<exists>p. canonicalPlanInput ex_plan_input = Inr p"
  unfolding canonicalPlanInput_def
  by (simp add: ex_plan_input_def exactDataObject_frozen PLAN_KEYS_def fld_frozen guarded_ok opaqueW
      ex_directories lease_duration_ok_def num_is_safe_integer_def MAX_WRITER_LEASE_DURATION_MILLISECONDS_def
      del: directPathPlan_Inr)

lemma ex_options_canonical:
  "\<exists>n request plan. exactDataObject ex_plan_options [''plan'', ''request''] = Inr n \<and>
     canonicalRequest (fld n ''request'') = Inr request \<and> canonicalPlanInput (fld n ''plan'') = Inr plan"
  using ex_request_canonical ex_input_canonical
  by (simp add: ex_plan_options_def exactDataObject_frozen fld_frozen)

lemma ex_plan_record: "\<exists>r. plan_record ex_hash ex_plan_options = Inr r"
  using ex_options_canonical plan_record_total [OF ex_hash_ok] by blast

lemma ex_plan_created:
  "\<exists>st i r. createPostgresDetachedRestorePlan ex_hash [] ex_plan_options = Inr (st, i) \<and> branded st i = Some r \<and>
     wf_store st \<and> plan_record ex_hash ex_plan_options = Inr r"
proof -
  obtain r where r: "plan_record ex_hash ex_plan_options = Inr r" using ex_plan_record by blast
  obtain st i where b: "brand [] r = (st, i)" by (cases "brand [] r")
  show ?thesis
    using r b brands.issue_valid [OF wf_empty b] brands.issue_look [OF wf_empty b] by (simp add: createPostgresDetachedRestorePlan_def)
qed

theorem plan_created_iff_canonical_witness:
  "\<exists>x. createPostgresDetachedRestorePlan ex_hash [] ex_plan_options = Inr x"
  using plan_created_iff_canonical [OF ex_hash_ok, of "[]" ex_plan_options] ex_options_canonical by blast

theorem plan_rehydrates_witness:
  "\<exists>st i r st' j. createPostgresDetachedRestorePlan ex_hash [] ex_plan_options = Inr (st, i) \<and>
     branded st i = Some r \<and> rehydratePostgresDetachedRestorePlan ex_hash st r = Inr (st', j) \<and>
     branded st' j = Some r"
  using ex_plan_created plan_rehydrates [OF wf_empty] by metis

theorem rehydrated_plan_is_recomputed_witness:
  "\<exists>st i r st' j d. createPostgresDetachedRestorePlan ex_hash [] ex_plan_options = Inr (st, i) \<and>
     branded st i = Some r \<and> rehydratePostgresDetachedRestorePlan ex_hash st r = Inr (st', j) \<and>
     exactDataObject r PERSISTED_PLAN_KEYS = Inr d"
proof -
  obtain st i r where p: "createPostgresDetachedRestorePlan ex_hash [] ex_plan_options = Inr (st, i)"
    "branded st i = Some r" "wf_store st" "plan_record ex_hash ex_plan_options = Inr r"
    using ex_plan_created by blast
  obtain st' j where j: "rehydratePostgresDetachedRestorePlan ex_hash st r = Inr (st', j)"
    using rehydrate_created [OF p(3,4)] by (cases "brand st r") simp
  show ?thesis using p(1,2) j rehydrated_plan_is_recomputed [OF p(3) j] by blast
qed

theorem plan_directories_are_disjoint_witness:
  "\<exists>r s sr d dr. plan_record ex_hash ex_plan_options = Inr r \<and>
     fld r ''sourceArtifactOwnedRoot'' = JStr sr \<and> fld r ''destinationOwnedRoot'' = JStr dr \<and>
     fld r ''sourceArtifactDirectory'' = JStr s \<and> fld r ''destinationDirectory'' = JStr d \<and> \<not> (under s sr \<and> under s dr)"
  using ex_plan_record plan_directories_are_disjoint by metis

section \<open>A lease budget\<close>

text \<open>Every collaborator settles within two milliseconds; the lease of the plan covers the sums.\<close>

definition ex_policy :: jsval where
  "ex_policy = plain_obj [(''deadlineMilliseconds'', JInt 1), (''settlementGraceMilliseconds'', JInt 1)]"

definition ex_policies :: "string list \<Rightarrow> jsval" where
  "ex_policies ks = plain_obj (map (\<lambda>k. (k, ex_policy)) ks)"

definition ex_budget_options :: jsval where
  "ex_budget_options = plain_obj [(''databaseRequestMilliseconds'', JInt 5),
     (''imagePlanProviderSettlement'', ex_policies IMAGE_KEYS), (''leaseDurationMilliseconds'', JInt 60000),
     (''lifecycleBackendSettlement'', ex_policies LIFECYCLE_KEYS),
     (''publicationSettlement'', ex_policies PUBLICATION_KEYS),
     (''resolveRestoreDestinationSettlement'', ex_policy), (''safetyMarginMilliseconds'', JInt 5),
     (''supervisorSettlement'', ex_policies SUPERVISOR_KEYS)]"

lemma exactDataObjectB_literal:
  assumes "distinct (map fst kvs)" and "ks = map fst kvs"
  shows "exactDataObjectB (plain_obj kvs) ks c = Inr (exactFrozenRecord kvs)"
proof -
  let ?ps = "map (\<lambda>(k, v). (key k, DataDesc True v)) kvs"
  have obj: "plain_obj kvs = JObj JObjectPrototype ?ps" by (simp add: plain_obj_def)
  have "distinct (map fst ?ps)" using assms(1) by (simp add: distinct_map inj_on_def comp_def split_beta)
  then have keys: "length (own_keys (plain_obj kvs)) = length ks"
    by (simp add: obj distinct_remdups_id comp_def split_beta assms(2))
  have get: "own_desc (plain_obj kvs) (key k) = Some (DataDesc True v)" if "(k, v) \<in> set kvs" for k v
  proof -
    have "map_of kvs k = Some v" using assms(1) that by simp
    then show ?thesis unfolding obj by (simp, induction kvs) auto
  qed
  have e: "list_all (\<lambda>k. enumerable_data (plain_obj kvs) (key k)) ks"
    using get by (force simp: list_all_iff enumerable_data_def assms(2))
  have "map (\<lambda>k. (k, own_value (plain_obj kvs) (key k))) ks = kvs"
    unfolding assms(2) map_map by (rule map_idI) (auto simp: own_value_def get)
  then show ?thesis
    using keys e by (simp add: exactDataObjectB_def guarded_ok) (simp add: obj)
qed

lemma ex_milliseconds: "1 \<le> i \<Longrightarrow> i \<le> MAX_MILLISECONDS \<Longrightarrow> milliseconds (JInt i) c = Inr i"
  by (simp add: milliseconds_def num_is_safe_integer_def MAX_MILLISECONDS_def guarded_ok)

lemma ex_policy_duration: "policyDuration ex_policy c = Inr 2"
  by (simp add: policyDuration_def ex_policy_def exactDataObjectB_literal POLICY_KEYS_def fld_frozen
      ex_milliseconds [of 1, simplified] MAX_MILLISECONDS_def safe_int_def guarded_ok)

lemma ex_policy_durations:
  assumes "distinct ks"
  shows "policyDurations (ex_policies ks) ks c = Inr (map (\<lambda>k. (k, 2)) ks)"
proof -
  have f: "fld (exactFrozenRecord (map (\<lambda>k. (k, ex_policy)) ks)) k = ex_policy" if "k \<in> set ks" for k
    using that by (simp add: fld_frozen map_of_map_restrict [unfolded comp_def] restrict_map_def)
  have "durations_of (exactFrozenRecord (map (\<lambda>k. (k, ex_policy)) ks)) us c = Inr (map (\<lambda>k. (k, 2)) us)"
    if "set us \<subseteq> set ks" for us
    using that by (induction us) (simp_all add: f ex_policy_duration)
  then show ?thesis
    using assms by (simp add: policyDurations_def ex_policies_def exactDataObjectB_literal comp_def)
qed

definition ex_terms :: budget_terms where
  "ex_terms = \<lparr>t_database = 5, t_lease = 60000, t_margin = 5, t_image = map (\<lambda>k. (k, 2)) IMAGE_KEYS,
     t_supervisor = map (\<lambda>k. (k, 2)) SUPERVISOR_KEYS, t_lifecycle = map (\<lambda>k. (k, 2)) LIFECYCLE_KEYS,
     t_publication = map (\<lambda>k. (k, 2)) PUBLICATION_KEYS, t_resolver = 2\<rparr>"

lemma ex_read_terms: "read_terms ex_budget_options = Inr ex_terms"
proof -
  have d: "distinct IMAGE_KEYS" "distinct SUPERVISOR_KEYS" "distinct LIFECYCLE_KEYS" "distinct PUBLICATION_KEYS"
    by (simp_all add: IMAGE_KEYS_def SUPERVISOR_KEYS_def LIFECYCLE_KEYS_def PUBLICATION_KEYS_def)
  have m: "milliseconds (JInt 5) c = Inr 5" "milliseconds (JInt 60000) c = Inr 60000" for c
    by (simp_all only: ex_milliseconds MAX_MILLISECONDS_def)
  show ?thesis
    unfolding read_terms_def ex_budget_options_def
    by (simp add: exactDataObjectB_literal FACTORY_OPTION_KEYS_def fld_frozen m [simplified] ex_policy_durations d
        ex_policy_duration ex_terms_def)
qed

lemma ex_windows: "renewal_window ex_terms = 16" "activation_window ex_terms = 24"
  by (simp_all add: renewal_window_def activation_window_def ex_terms_def duration_def IMAGE_KEYS_def
      SUPERVISOR_KEYS_def LIFECYCLE_KEYS_def PUBLICATION_KEYS_def)

lemma ex_budget_created:
  "\<exists>bs b. createPostgresDetachedRestoreOperationalLeaseBudget [] ex_budget_options = Inr (bs, b)"
proof -
  have "budget_record ex_budget_options = Inr (budget_of ex_terms)"
    using ex_read_terms ex_windows by (simp add: budget_record_iff) (simp add: ex_terms_def)
  then show ?thesis by (simp add: createPostgresDetachedRestoreOperationalLeaseBudget_def brand_def)
qed

theorem lease_plan_covers_windows_witness:
  "\<exists>bs b ps p. createPostgresDetachedRestoreOperationalLeaseBudget [] ex_budget_options = Inr (bs, b) \<and>
     createPostgresDetachedRestorePlan ex_hash [] ex_plan_options = Inr (ps, p) \<and>
     assertPostgresDetachedRestoreOperationalLeasePlan bs ps b p = Inr p"
proof -
  obtain bs b where b: "createPostgresDetachedRestoreOperationalLeaseBudget [] ex_budget_options = Inr (bs, b)"
    using ex_budget_created by blast
  obtain ps p r where p: "createPostgresDetachedRestorePlan ex_hash [] ex_plan_options = Inr (ps, p)"
    "branded ps p = Some r" "plan_record ex_hash ex_plan_options = Inr r"
    using ex_plan_created by blast
  obtain plan where plan: "exactDataObject ex_plan_options [''plan'', ''request''] =
      Inr (exactFrozenRecord [(''plan'', ex_plan_input), (''request'', ex_restore_request)])"
    "canonicalPlanInput ex_plan_input = Inr plan" "fld r ''leaseDurationMilliseconds'' = fld plan ''leaseDurationMilliseconds''"
  proof -
    obtain n q pl input seed ids sha where e: "exactDataObject ex_plan_options [''plan'', ''request''] = Inr n"
      "canonicalPlanInput (fld n ''plan'') = Inr pl"
      "input = [(''contractVersion'', JInt 1), (''request'', q)] @ map (\<lambda>k. (k, fld pl k)) plan_fields"
      "r = exactFrozenRecord (input @ ids @ [(''planSha256'', JStr sha)])"
      using p(3) by (rule plan_record_Inr)
    have x: "exactDataObject ex_plan_options [''plan'', ''request''] =
      Inr (exactFrozenRecord [(''plan'', ex_plan_input), (''request'', ex_restore_request)])"
      by (simp add: ex_plan_options_def exactDataObject_frozen)
    show ?thesis
      by (rule that [OF x, of pl]) (use e x in \<open>auto simp: fld_frozen plan_fields_def\<close>)
  qed
  have "fld plan ''leaseDurationMilliseconds'' = JInt 60000"
    using plan(2)
  proof (rule canonicalPlanInput_Inr)
    fix q s sr d dr
    assume "exactDataObject ex_plan_input PLAN_KEYS = Inr q"
      and e: "plan = exactFrozenRecord
        [(''captureCreatedAt'', fld q ''captureCreatedAt''), (''destinationDirectory'', JStr d),
         (''destinationOwnedRoot'', JStr dr), (''detachMode'', fld q ''detachMode''),
         (''holderId'', fld q ''holderId''), (''imagePlanId'', fld q ''imagePlanId''),
         (''leaseDurationMilliseconds'', fld q ''leaseDurationMilliseconds''),
         (''sourceArtifactDirectory'', JStr s), (''sourceArtifactOwnedRoot'', JStr sr)]"
    then have "fld q ''leaseDurationMilliseconds'' = JInt 60000"
      by (auto simp: ex_plan_input_def exactDataObject_frozen PLAN_KEYS_def fld_frozen)
    then show ?thesis by (simp add: e fld_frozen)
  qed
  then have "fld (the_record ps p) ''leaseDurationMilliseconds'' = JInt (t_lease ex_terms)"
    using plan(3) p(2) by (simp add: the_record_def ex_terms_def)
  moreover have "isPostgresDetachedRestorePlan ps p" using p(2) by (simp add: isPostgresDetachedRestorePlan_def)
  ultimately show ?thesis
    using lease_plan_covers_windows [OF wf_empty b ex_read_terms, of ps p p] b p(1) by blast
qed

end
