(* ===== verification/Rollout_Content.thy ===== *)
theory Rollout_Content
  imports Writer_Binding Js_Json
begin

text \<open>
  The parts of \<open>rollout-tail-repair.mjs\<close> that touch no file: request validation, the strict UTF-8
  and JSON check of a line, the analysis of a rollout and its repair, the aggregate byte budget and
  the bounded directory enumeration. Code that is not under \<open>src/\<close>, SHA-256 and the reader of a
  directory, is a parameter.
\<close>

type_synonym byte = "8 word"

datatype rollout_error = Invalid_request | Repair_failed | Repair_outcome_uncertain | Rollout_content_invalid
  | Rollout_set_invalid | Runtime_identity_mismatch | Unsafe_filesystem | Unsupported_rollout_object

text \<open>What a call can throw: an error of this module, or anything else.\<close>

datatype thrown = Internal rollout_error | Foreign

definition PINNED_CODEX_VERSION :: string where "PINNED_CODEX_VERSION = ''codex-cli 0.144.1''"
definition PINNED_ROLLOUT_CLI_VERSION :: string where "PINNED_ROLLOUT_CLI_VERSION = ''0.144.1''"
definition PINNED_SOURCE_COMMIT :: string where
  "PINNED_SOURCE_COMMIT = ''db887d03e1f907467e33271572dffb73bceecd6b''"
definition MAX_FILE_BYTES :: int where "MAX_FILE_BYTES = 67108864"
definition MAX_TOTAL_BYTES :: int where "MAX_TOTAL_BYTES = 268435456"
definition MAX_ROLLOUT_FILES :: nat where "MAX_ROLLOUT_FILES = 256"
definition MAX_DIRECTORIES :: nat where "MAX_DIRECTORIES = 1024"
definition MAX_DIRECTORY_DEPTH :: nat where "MAX_DIRECTORY_DEPTH = 8"
definition MAX_ENUMERATED_ENTRIES :: nat where "MAX_ENUMERATED_ENTRIES = MAX_DIRECTORIES + MAX_ROLLOUT_FILES"
definition MAX_ENUMERATED_NAME_BYTES :: int where "MAX_ENUMERATED_NAME_BYTES = 1048576"

definition DIGEST_PATTERN :: rx where
  "DIGEST_PATTERN = rx_rep 64 (RCls hex_cls)"

section \<open>The request\<close>

definition exactPlainObject :: "jsval \<Rightarrow> string list \<Rightarrow> rollout_error \<Rightarrow> rollout_error + jsval" where
  "exactPlainObject v ks code = guarded
     [ensure (is_object v \<and> \<not> is_array v \<and> \<not> is_proxy v) code,
      ensure (proto_of v = JObjectPrototype \<or> proto_of v = JNull) code,
      ensure (length (own_keys v) = length ks \<and> list_all (\<lambda>k. list_ex (\<lambda>s. k = key s) ks) (own_keys v)) code,
      ensure (list_all (enumerable_data v) (own_keys v)) code]
     (Inr (JObj JNull (map (\<lambda>k. (k, DataDesc True
        (case own_desc v k of Some (DataDesc _ x) \<Rightarrow> x | _ \<Rightarrow> JUndefined))) (own_keys v))))"

record repair_request =
  codexHome :: jsstr
  rootSessionId :: jsval
  codexBinarySha256 :: jsval

definition normalizeRequest :: "jsval \<Rightarrow> rollout_error + repair_request" where
  "normalizeRequest options =
     rbind (exactPlainObject options [''codexHome'', ''rootSessionId'', ''runtimeIdentity''] Invalid_request) (\<lambda>request.
     case fld request ''codexHome'' of
       JStr home \<Rightarrow> guarded
         [ensure (home \<noteq> [] \<and> 0 \<notin> set home \<and> path_is_absolute home) Invalid_request,
          ensure (str_matches UUID_PATTERN (fld request ''rootSessionId'')) Invalid_request]
         (rbind (exactPlainObject (fld request ''runtimeIdentity'')
             [''codexBinarySha256'', ''codexVersion'', ''sourceAnalysisCommit''] Invalid_request) (\<lambda>runtime.
          guarded
            [ensure (js_seq (fld runtime ''codexVersion'') (lit PINNED_CODEX_VERSION) \<and>
               js_seq (fld runtime ''sourceAnalysisCommit'') (lit PINNED_SOURCE_COMMIT) \<and>
               str_matches DIGEST_PATTERN (fld runtime ''codexBinarySha256'')) Runtime_identity_mismatch]
            (Inr \<lparr>codexHome = path_resolve home, rootSessionId = fld request ''rootSessionId'',
               codexBinarySha256 = fld runtime ''codexBinarySha256''\<rparr>)))
     | _ \<Rightarrow> Inl Invalid_request)"

section \<open>A line of a rollout\<close>

text \<open>The UTF-8 decoder with \<open>fatal: true\<close>: the scalar values, or nothing for ill-formed bytes.\<close>

definition continuation :: "nat \<Rightarrow> bool" where
  "continuation b \<longleftrightarrow> 128 \<le> b \<and> b \<le> 191"

fun utf8_scalars :: "nat list \<Rightarrow> nat list option" where
  "utf8_scalars [] = Some []"
| "utf8_scalars (b # bs) = (if b < 128 then map_option ((#) b) (utf8_scalars bs)
     else if 194 \<le> b \<and> b \<le> 223 then (case bs of
         c # r \<Rightarrow> if continuation c
           then map_option ((#) ((b - 192) * 64 + (c - 128))) (utf8_scalars r) else None
       | _ \<Rightarrow> None)
     else if 224 \<le> b \<and> b \<le> 239 then (case bs of
         c # d # r \<Rightarrow> if (if b = 224 then 160 else 128) \<le> c \<and> c \<le> (if b = 237 then 159 else 191) \<and> continuation d
           then map_option ((#) ((b - 224) * 4096 + (c - 128) * 64 + (d - 128))) (utf8_scalars r) else None
       | _ \<Rightarrow> None)
     else if 240 \<le> b \<and> b \<le> 244 then (case bs of
         c # d # e # r \<Rightarrow> if (if b = 240 then 144 else 128) \<le> c \<and> c \<le> (if b = 244 then 143 else 191) \<and>
             continuation d \<and> continuation e
           then map_option ((#) ((b - 240) * 262144 + (c - 128) * 4096 + (d - 128) * 64 + (e - 128))) (utf8_scalars r)
           else None
       | _ \<Rightarrow> None)
     else None)"

definition utf8_decode :: "byte list \<Rightarrow> jsstr option" where
  "utf8_decode bytes = map_option (\<lambda>ns. concat (map of_scalar ns)) (utf8_scalars (map unat bytes))"

definition jsonValue :: "byte list \<Rightarrow> jsval option" where
  "jsonValue bytes = (if take 3 bytes = [239, 187, 191] then None
     else case utf8_decode bytes of None \<Rightarrow> None
     | Some txt \<Rightarrow> if txt = [] then None else JSON_parse txt)"

record session_meta =
  sessionId :: jsval
  threadId :: jsval

definition assertSessionMeta :: "jsval \<Rightarrow> rollout_error + session_meta" where
  "assertSessionMeta v = (let payload = fld v ''payload'' in guarded
     [ensure (is_object v \<and> \<not> is_array v \<and> js_seq (fld v ''type'') (lit ''session_meta'') \<and>
        is_object payload \<and> \<not> is_array payload) Rollout_content_invalid,
      ensure (js_seq (fld payload ''cli_version'') (lit PINNED_ROLLOUT_CLI_VERSION) \<and>
        str_matches UUID_PATTERN (fld payload ''id'') \<and>
        str_matches UUID_PATTERN (fld payload ''session_id'')) Rollout_content_invalid]
     (Inr \<lparr>sessionId = fld payload ''session_id'', threadId = fld payload ''id''\<rparr>))"

section \<open>Analysis of a rollout\<close>

datatype repair_action = Unchanged | Append_lf | Truncate_partial_tail

record rollout_analysis =
  action :: repair_action
  after :: "byte list"
  meta :: session_meta
  removedBytes :: nat

text \<open>The loop over the complete part: every line up to a line feed is a JSON text.\<close>

fun parse_lines :: "byte list \<Rightarrow> byte list \<Rightarrow> rollout_error + jsval list" where
  "parse_lines line [] = Inr []"
| "parse_lines line (b # bs) = (if b \<noteq> 10 then parse_lines (line @ [b]) bs
     else case jsonValue line of
       None \<Rightarrow> Inl Rollout_content_invalid
     | Some v \<Rightarrow> rbind (parse_lines [] bs) (\<lambda>vs. Inr (v # vs)))"

text \<open>\<open>finalLf + 1\<close>, which is 0 without a line feed.\<close>

definition complete_end :: "byte list \<Rightarrow> nat" where
  "complete_end bytes = length (dropWhile (\<lambda>b. b \<noteq> 10) (rev bytes))"

definition terminated :: "byte list \<Rightarrow> bool" where
  "terminated bytes \<longleftrightarrow> bytes \<noteq> [] \<and> last bytes = 10"

definition repaired :: "byte list \<Rightarrow> jsval list \<Rightarrow> rollout_error + repair_action \<times> byte list \<times> jsval list \<times> nat" where
  "repaired bytes completeLines =
     (if terminated bytes then Inr (Unchanged, bytes, completeLines, 0)
      else let tail = drop (complete_end bytes) bytes in case jsonValue tail of
        Some v \<Rightarrow> Inr (Append_lf, bytes @ [10], completeLines @ [v], 0)
      | None \<Rightarrow> guarded
          [ensure (completeLines \<noteq> []) Rollout_content_invalid,
           ensure (0 < length tail) Rollout_content_invalid]
          (Inr (Truncate_partial_tail, take (complete_end bytes) bytes, completeLines, length tail)))"

definition analyzeBytes :: "byte list \<Rightarrow> rollout_error + rollout_analysis" where
  "analyzeBytes bytes =
     rbind (parse_lines [] (take (if terminated bytes then length bytes else complete_end bytes) bytes)) (\<lambda>lines0.
     rbind (repaired bytes lines0) (\<lambda>(act, bytes', completeLines, removed).
     guarded
       [ensure (completeLines \<noteq> []) Rollout_content_invalid,
        ensure (int (length bytes') \<le> MAX_FILE_BYTES) Rollout_content_invalid]
     (rbind (assertSessionMeta (hd completeLines)) (\<lambda>m.
      Inr \<lparr>action = act, after = bytes', meta = m, removedBytes = removed\<rparr>))))"

record proof_state =
  ps_sha256 :: jsstr
  ps_size :: nat

definition proofState :: "(byte list \<Rightarrow> jsstr) \<Rightarrow> byte list \<Rightarrow> rollout_error + proof_state" where
  "proofState sha256 bytes = guarded [ensure (rx_match DIGEST_PATTERN (sha256 bytes)) Repair_outcome_uncertain]
     (Inr \<lparr>ps_sha256 = sha256 bytes, ps_size = length bytes\<rparr>)"

text \<open>\<open>path.relative\<close> between absolute paths, then the segments joined by slashes.\<close>

fun common_segs :: "jsstr list \<Rightarrow> jsstr list \<Rightarrow> nat" where
  "common_segs (g # gs) (h # hs) = (if g = h then Suc (common_segs gs hs) else 0)"
| "common_segs _ _ = 0"

definition path_relative :: "jsstr \<Rightarrow> jsstr \<Rightarrow> jsstr" where
  "path_relative p q =
     (let from = normalize_segs [] (split_slash p); to = normalize_segs [] (split_slash q);
          c = common_segs from to
      in join_with [47] (replicate (length from - c) [46, 46] @ drop c to))"

definition relativeRolloutPath :: "jsstr \<Rightarrow> jsstr \<Rightarrow> rollout_error + jsstr" where
  "relativeRolloutPath sessionsPath path = (let candidate = path_relative sessionsPath path in guarded
     [ensure (candidate \<noteq> [] \<and> take 3 candidate \<noteq> [46, 46, 47] \<and> candidate \<noteq> [46, 46] \<and>
        \<not> path_is_absolute candidate) Unsafe_filesystem]
     (Inr (join_with [47] (split_slash candidate))))"

section \<open>Budgets\<close>

text \<open>
  \<open>readWithinAggregateBudget\<close> runs the reader only for an admitted size; the size is a \<open>bigint\<close>
  and the remaining bytes a safe integer by their origin.
\<close>

definition readWithinAggregateBudget :: "int \<Rightarrow> int \<Rightarrow> (nat \<Rightarrow> 'w \<Rightarrow> (thrown + 'a) \<times> 'w) \<Rightarrow> 'w \<Rightarrow> (thrown + 'a) \<times> 'w" where
  "readWithinAggregateBudget byteCount remainingBytes reader w =
     (if 0 \<le> byteCount \<and> 0 \<le> remainingBytes \<and> remainingBytes \<le> 9007199254740991 \<and> byteCount \<le> remainingBytes
      then reader (nat byteCount) w else (Inl (Internal Rollout_set_invalid), w))"

record enum_budget =
  entries :: nat
  nameBytes :: nat

definition createEnumerationBudget :: enum_budget where
  "createEnumerationBudget = \<lparr>entries = 0, nameBytes = 0\<rparr>"

definition entry_ok :: "jsval \<Rightarrow> bool" where
  "entry_ok e \<longleftrightarrow> is_object e \<and> (case fld e ''name'' of
     JStr n \<Rightarrow> n \<noteq> [] \<and> n \<noteq> [46] \<and> n \<noteq> [46, 46] | _ \<Rightarrow> False)"

definition entry_name :: "jsval \<Rightarrow> jsstr" where
  "entry_name e = (case fld e ''name'' of JStr n \<Rightarrow> n | _ \<Rightarrow> [])"

function collectBoundedDirectoryEntries ::
    "('w \<Rightarrow> jsval option \<times> 'w) \<Rightarrow> jsval list \<Rightarrow> 'w \<times> enum_budget \<Rightarrow> (thrown + jsval list) \<times> 'w \<times> enum_budget" where
  "collectBoundedDirectoryEntries readNext acc (w, budget) = (case readNext w of
     (None, w') \<Rightarrow> (Inl Foreign, w', budget)
   | (Some e, w') \<Rightarrow>
       if e = JNull then (Inr acc, w', budget)
       else if \<not> entry_ok e then (Inl (Internal Unsafe_filesystem), w', budget)
       else if \<not> (entries budget < MAX_ENUMERATED_ENTRIES \<and>
           int (utf8_length (entry_name e)) \<le> MAX_ENUMERATED_NAME_BYTES - int (nameBytes budget))
         then (Inl (Internal Rollout_set_invalid), w', budget)
       else collectBoundedDirectoryEntries readNext (acc @ [e])
         (w', \<lparr>entries = entries budget + 1, nameBytes = nameBytes budget + utf8_length (entry_name e)\<rparr>))"
  by pat_completeness auto
termination
  by (relation "measure (\<lambda>(_, _, _, b). MAX_ENUMERATED_ENTRIES - entries b)") auto

section \<open>Lines\<close>

lemma complete_end_split:
  "10 \<notin> set (drop (complete_end b) b) \<and> (take (complete_end b) b = [] \<or> last (take (complete_end b) b) = 10)"
proof -
  let ?d = "dropWhile (\<lambda>x. x \<noteq> 10) (rev b)" and ?t = "takeWhile (\<lambda>x. x \<noteq> 10) (rev b)"
  have "rev b = ?t @ ?d" by simp
  then have b: "b = rev ?d @ rev ?t" by (metis rev_append rev_rev_ident)
  have n: "complete_end b = length (rev ?d)" by (simp add: complete_end_def)
  have d: "drop (complete_end b) b = rev ?t" unfolding n by (subst b) simp
  have t: "take (complete_end b) b = rev ?d" unfolding n by (subst b) simp
  have "10 \<notin> set (rev ?t)" by (auto dest: set_takeWhileD)
  moreover have "rev ?d = [] \<or> last (rev ?d) = 10"
  proof (cases "?d = []")
    case False
    then show ?thesis using hd_dropWhile [OF False] by (simp add: last_rev)
  qed simp
  ultimately show ?thesis unfolding d t by blast
qed

lemma complete_end_terminated: "terminated b \<Longrightarrow> complete_end b = length b"
  by (cases b rule: rev_cases) (simp_all add: terminated_def complete_end_def)

lemma parse_lines_tail: "10 \<notin> set t \<Longrightarrow> parse_lines line t = Inr []"
  by (induction t arbitrary: line) auto

lemma parse_lines_line:
  "10 \<notin> set t \<Longrightarrow> parse_lines line (t @ 10 # r) = (case jsonValue (line @ t) of
     None \<Rightarrow> Inl Rollout_content_invalid | Some v \<Rightarrow> rbind (parse_lines [] r) (\<lambda>vs. Inr (v # vs)))"
  by (induction t arbitrary: line) auto

lemma parse_lines_append:
  "C \<noteq> [] \<Longrightarrow> last C = 10 \<Longrightarrow> parse_lines line C = Inr vs \<Longrightarrow>
     parse_lines line (C @ D) = rbind (parse_lines [] D) (\<lambda>ws. Inr (vs @ ws))"
proof (induction C arbitrary: line vs)
  case (Cons b C)
  show ?case
  proof (cases "b = 10")
    case False
    with Cons have "C \<noteq> []" by auto
    with Cons False show ?thesis by simp
  next
    case True
    with Cons.prems(3) obtain v ws where v: "jsonValue line = Some v" "parse_lines [] C = Inr ws" "vs = v # ws"
      by (auto split: option.splits)
    show ?thesis
    proof (cases "C = []")
      case True
      with v \<open>b = 10\<close> show ?thesis by simp
    next
      case False
      have "parse_lines [] (C @ D) = rbind (parse_lines [] D) (\<lambda>us. Inr (ws @ us))"
        using Cons.IH [OF False _ v(2)] Cons.prems(2) False by simp
      with v \<open>b = 10\<close> show ?thesis by (cases "parse_lines [] D") simp_all
    qed
  qed
qed simp

section \<open>What the analysis returns\<close>

lemma analyzeBytes_Inr:
  assumes "analyzeBytes b = Inr a"
  obtains lines0 lines m where
    "parse_lines [] (take (complete_end b) b) = Inr lines0"
    "repaired b lines0 = Inr (action a, after a, lines, removedBytes a)" "lines \<noteq> []"
    "int (length (after a)) \<le> MAX_FILE_BYTES" "assertSessionMeta (hd lines) = Inr (meta a)"
proof -
  have "(if terminated b then length b else complete_end b) = complete_end b"
    by (simp add: complete_end_terminated)
  with assms that show thesis by (auto simp: analyzeBytes_def)
qed

lemma analyzeBytes_terminated:
  assumes "terminated b" and "parse_lines [] b = Inr lines" and "lines \<noteq> []" and "int (length b) \<le> MAX_FILE_BYTES"
    and "assertSessionMeta (hd lines) = Inr m"
  shows "analyzeBytes b = Inr \<lparr>action = Unchanged, after = b, meta = m, removedBytes = 0\<rparr>"
  using assms by (simp add: analyzeBytes_def repaired_def guarded_ok)

text \<open>How the repaired bytes come from the given ones.\<close>

definition repair_of :: "byte list \<Rightarrow> byte list \<Rightarrow> rollout_analysis \<Rightarrow> bool" where
  "repair_of C tail a \<longleftrightarrow> (case action a of
     Unchanged \<Rightarrow> tail = [] \<and> after a = C \<and> removedBytes a = 0
   | Append_lf \<Rightarrow> jsonValue tail \<noteq> None \<and> after a = C @ tail @ [10] \<and> removedBytes a = 0
   | Truncate_partial_tail \<Rightarrow> tail \<noteq> [] \<and> jsonValue tail = None \<and> after a = C \<and> removedBytes a = length tail)"

text \<open>
  C32: The analysis splits a rollout into its complete lines and an unterminated tail. A terminated
  rollout stays as it is, a tail that is a JSON text gets its line feed, any other tail is cut off;
  the complete lines are kept byte for byte. Analysing the result again changes nothing more and
  finds the same session metadata.
\<close>
theorem repair_is_stable:
  assumes "analyzeBytes b = Inr a"
  shows "\<exists>C tail. b = C @ tail \<and> 10 \<notin> set tail \<and> (C = [] \<or> last C = 10) \<and> repair_of C tail a \<and>
    analyzeBytes (after a) = Inr (a\<lparr>action := Unchanged, removedBytes := 0\<rparr>)"
proof -
  let ?C = "take (complete_end b) b" and ?t = "drop (complete_end b) b"
  obtain lines0 lines where p: "parse_lines [] ?C = Inr lines0"
    and r: "repaired b lines0 = Inr (action a, after a, lines, removedBytes a)"
    and l: "lines \<noteq> []" "int (length (after a)) \<le> MAX_FILE_BYTES" "assertSessionMeta (hd lines) = Inr (meta a)"
    using assms by (rule analyzeBytes_Inr)
  have split: "10 \<notin> set ?t" "?C = [] \<or> last ?C = 10" using complete_end_split by blast+
  have again: "analyzeBytes (after a) = Inr (a\<lparr>action := Unchanged, removedBytes := 0\<rparr>)"
    if "terminated (after a)" "parse_lines [] (after a) = Inr lines"
    using analyzeBytes_terminated [OF that l] by simp
  have "repair_of ?C ?t a \<and> terminated (after a) \<and> parse_lines [] (after a) = Inr lines"
  proof (cases "terminated b")
    case True
    then have "?C = b" "?t = []" by (simp_all add: complete_end_terminated)
    with True r p show ?thesis by (simp add: repaired_def repair_of_def)
  next
    case False
    show ?thesis
    proof (cases "jsonValue ?t")
      case (Some v)
      then have a: "action a = Append_lf" "after a = b @ [10]" "lines = lines0 @ [v]" "removedBytes a = 0"
        using r False by (auto simp: repaired_def Let_def)
      have tl: "parse_lines [] (?t @ [10]) = Inr [v]" using Some by (simp add: parse_lines_line [OF split(1)])
      have "parse_lines [] (?C @ ?t @ [10]) = Inr (lines0 @ [v])"
      proof (cases "?C = []")
        case True
        then have "lines0 = []" using p unfolding True by simp
        with tl show ?thesis unfolding True by simp
      next
        case False
        then show ?thesis using parse_lines_append [OF False _ p, of "?t @ [10]"] split(2) tl by simp
      qed
      moreover have e: "?C @ ?t @ [10] = b @ [10]" by (metis append.assoc append_take_drop_id)
      ultimately have "parse_lines [] (b @ [10]) = Inr (lines0 @ [v])" by metis
      with e a Some show ?thesis by (simp add: repair_of_def terminated_def)
    next
      case None
      then have a: "action a = Truncate_partial_tail" "after a = ?C" "lines = lines0" "removedBytes a = length ?t" "?t \<noteq> []"
        using r False by (auto simp: repaired_def Let_def)
      moreover have "?C \<noteq> []" using p l(1) a(3) by (cases "?C = []") simp_all
      ultimately show ?thesis using None p split(2) by (simp add: repair_of_def terminated_def)
    qed
  qed
  moreover have "b = ?C @ ?t" by simp
  ultimately show ?thesis using split again by blast
qed

section \<open>The enumeration ends\<close>

text \<open>A reader together with the number of its calls.\<close>

definition counted :: "('w \<Rightarrow> 'r \<times> 'w) \<Rightarrow> nat \<times> 'w \<Rightarrow> 'r \<times> (nat \<times> 'w)" where
  "counted m = (\<lambda>(n, w). case m w of (r, w') \<Rightarrow> (r, (n + 1, w')))"

lemma counted_apply: "m w = (r, w') \<Longrightarrow> counted m (n, w) = (r, (n + 1, w'))"
  by (simp add: counted_def)

declare collectBoundedDirectoryEntries.simps [simp del]

lemma collect_bounds:
  assumes "collectBoundedDirectoryEntries (counted readNext) acc ((n, w), b) = (r, (n', w'), b')"
    and "entries b \<le> MAX_ENUMERATED_ENTRIES" and "int (nameBytes b) \<le> MAX_ENUMERATED_NAME_BYTES"
  shows "n' + entries b \<le> n + MAX_ENUMERATED_ENTRIES + 1 \<and> entries b' \<le> MAX_ENUMERATED_ENTRIES \<and>
    int (nameBytes b') \<le> MAX_ENUMERATED_NAME_BYTES \<and>
    (\<forall>es. r = Inr es \<longrightarrow> length es + entries b = length acc + entries b' \<and>
       (\<exists>new. es = acc @ new \<and> sum_list (map (\<lambda>e. utf8_length (entry_name e)) new) + nameBytes b = nameBytes b'))"
  using assms
proof (induction "MAX_ENUMERATED_ENTRIES - entries b" arbitrary: acc n w b rule: less_induct)
  case less
  obtain q u where rd: "readNext w = (q, u)" by (cases "readNext w")
  note unf = collectBoundedDirectoryEntries.simps [of "counted readNext" acc "(n, w)" b]
  show ?case
  proof (cases "\<exists>e. q = Some e \<and> e \<noteq> JNull \<and> entry_ok e \<and> entries b < MAX_ENUMERATED_ENTRIES \<and>
      int (utf8_length (entry_name e)) \<le> MAX_ENUMERATED_NAME_BYTES - int (nameBytes b)")
    case False
    then have "n' = n + 1 \<and> b' = b \<and> (\<forall>es. r = Inr es \<longrightarrow> es = acc)"
      using less.prems(1) by (auto simp: unf counted_apply [of readNext, OF rd] split: option.splits if_splits)
    with less.prems(2,3) show ?thesis by auto
  next
    case True
    then obtain e where e: "q = Some e" "e \<noteq> JNull" "entry_ok e" "entries b < MAX_ENUMERATED_ENTRIES"
      "int (utf8_length (entry_name e)) \<le> MAX_ENUMERATED_NAME_BYTES - int (nameBytes b)" by blast
    let ?b = "\<lparr>entries = entries b + 1, nameBytes = nameBytes b + utf8_length (entry_name e)\<rparr>"
    have "collectBoundedDirectoryEntries (counted readNext) (acc @ [e]) ((n + 1, u), ?b) = (r, (n', w'), b')"
      using less.prems(1) e by (simp add: unf counted_apply [of readNext, OF rd])
    note c = this
    have "MAX_ENUMERATED_ENTRIES - entries ?b < MAX_ENUMERATED_ENTRIES - entries b" using e(4) by simp
    moreover have "entries ?b \<le> MAX_ENUMERATED_ENTRIES" "int (nameBytes ?b) \<le> MAX_ENUMERATED_NAME_BYTES" using e(4,5) by simp_all
    ultimately have "n' + entries ?b \<le> (n + 1) + MAX_ENUMERATED_ENTRIES + 1 \<and> entries b' \<le> MAX_ENUMERATED_ENTRIES \<and>
        int (nameBytes b') \<le> MAX_ENUMERATED_NAME_BYTES \<and>
        (\<forall>es. r = Inr es \<longrightarrow> length es + entries ?b = length (acc @ [e]) + entries b' \<and>
          (\<exists>new. es = (acc @ [e]) @ new \<and> sum_list (map (\<lambda>e. utf8_length (entry_name e)) new) + nameBytes ?b = nameBytes b'))"
      using less.hyps [OF _ c] by blast
    then show ?thesis by fastforce
  qed
qed

lemma collect_endless:
  assumes "\<forall>w. \<exists>e w'. readNext w = (Some e, w') \<and> e \<noteq> JNull"
  shows "\<exists>c. fst (collectBoundedDirectoryEntries readNext acc (w, b)) = Inl (Internal c)"
proof (induction "MAX_ENUMERATED_ENTRIES - entries b" arbitrary: acc w b rule: less_induct)
  case less
  obtain e w' where e: "readNext w = (Some e, w')" "e \<noteq> JNull" using assms by blast
  then show ?case
    using less.hyps [of "\<lparr>entries = Suc (entries b), nameBytes = nameBytes b + utf8_length (entry_name e)\<rparr>" "acc @ [e]" w']
    by (auto simp: collectBoundedDirectoryEntries.simps [of readNext acc w b])
qed

text \<open>
  C34: Whatever the directory reader answers, an enumeration from a fresh budget ends after at most
  1281 reads, returns at most 1280 entries whose names take at most one mebibyte, and leaves the
  budget at exactly what it returned. A reader that never reports the end is answered with an
  error of the module.
\<close>
theorem enumeration_ends:
  fixes readNext :: "'w \<Rightarrow> jsval option \<times> 'w"
  assumes "collectBoundedDirectoryEntries (counted readNext) [] ((0, w), createEnumerationBudget) = (r, (n, w'), b)"
  shows "n \<le> 1281 \<and> entries b \<le> 1280 \<and> nameBytes b \<le> 1048576 \<and>
    (\<forall>es. r = Inr es \<longrightarrow> length es = entries b \<and> sum_list (map (\<lambda>e. utf8_length (entry_name e)) es) = nameBytes b) \<and>
    ((\<forall>v. \<exists>e v'. readNext v = (Some e, v') \<and> e \<noteq> JNull) \<longrightarrow> (\<exists>c. r = Inl (Internal c)))"
proof -
  have m: "MAX_ENUMERATED_ENTRIES = 1280" "MAX_ENUMERATED_NAME_BYTES = 1048576"
    by (simp_all add: MAX_ENUMERATED_ENTRIES_def MAX_DIRECTORIES_def MAX_ROLLOUT_FILES_def MAX_ENUMERATED_NAME_BYTES_def)
  have "\<exists>c. r = Inl (Internal c)" if a: "\<forall>v. \<exists>e v'. readNext v = (Some e, v') \<and> e \<noteq> JNull"
  proof -
    have "\<forall>x. \<exists>e x'. counted readNext x = (Some e, x') \<and> e \<noteq> JNull"
    proof
      fix x :: "nat \<times> 'w"
      obtain k v where x: "x = (k, v)" by (cases x)
      obtain e v' where "readNext v = (Some e, v')" "e \<noteq> JNull" using a by blast
      then show "\<exists>e x'. counted readNext x = (Some e, x') \<and> e \<noteq> JNull" by (simp add: counted_def x)
    qed
    from collect_endless [OF this] show ?thesis using assms by (metis fst_conv)
  qed
  moreover have "n \<le> 1281 \<and> entries b \<le> 1280 \<and> nameBytes b \<le> 1048576 \<and>
    (\<forall>es. r = Inr es \<longrightarrow> length es = entries b \<and> sum_list (map (\<lambda>e. utf8_length (entry_name e)) es) = nameBytes b)"
    using collect_bounds [OF assms] by (auto simp: createEnumerationBudget_def m)
  ultimately show ?thesis by blast
qed

end
