(* ===== verification/Rollout_Files.thy ===== *)
theory Rollout_Files
  imports Rollout_Content
begin

text \<open>
  The file operations of \<open>rollout-tail-repair.mjs\<close>: fingerprints, the checks on owner, type and
  mode, the pinning of directories and files, bounded reads and the verification passes. The file
  system, the process and the hooks are a record of functions over a world of any type, each of
  which may fail and may change the world arbitrarily; a computation passes the world on and returns
  a value or throws.
\<close>

unbundle bit_operations_syntax

section \<open>Computations over a world\<close>

type_synonym ('w, 'a) io = "'w \<Rightarrow> (thrown + 'a) \<times> 'w"

definition ok :: "'a \<Rightarrow> ('w, 'a) io" where
  "ok x w = (Inr x, w)"

definition throw :: "thrown \<Rightarrow> ('w, 'a) io" where
  "throw e w = (Inl e, w)"

definition and_then :: "('w, 'a) io \<Rightarrow> ('a \<Rightarrow> ('w, 'b) io) \<Rightarrow> ('w, 'b) io" where
  "and_then m f w = (case m w of (Inl e, w') \<Rightarrow> (Inl e, w') | (Inr x, w') \<Rightarrow> f x w')"

definition check :: "bool \<Rightarrow> rollout_error \<Rightarrow> ('w, unit) io" where
  "check b code = (if b then ok () else throw (Internal code))"

definition from_sum :: "rollout_error + 'a \<Rightarrow> ('w, 'a) io" where
  "from_sum r = (case r of Inl c \<Rightarrow> throw (Internal c) | Inr x \<Rightarrow> ok x)"

text \<open>A call that leaves this module: no answer means that it throws.\<close>

definition call :: "('w \<Rightarrow> 'a option \<times> 'w) \<Rightarrow> ('w, 'a) io" where
  "call f w = (case f w of (None, w') \<Rightarrow> (Inl Foreign, w') | (Some x, w') \<Rightarrow> (Inr x, w'))"

text \<open>\<open>.catch(() => {})\<close> and \<open>Promise.allSettled\<close>.\<close>

definition quietly :: "('w, 'a) io \<Rightarrow> ('w, unit) io" where
  "quietly m w = (Inr (), snd (m w))"

text \<open>\<open>try { m } catch (error) { h; throw error; }\<close> for an \<open>h\<close> that does not throw.\<close>

definition on_error :: "('w, 'a) io \<Rightarrow> ('w, unit) io \<Rightarrow> ('w, 'a) io" where
  "on_error m h w = (case m w of (Inl e, w') \<Rightarrow> (Inl e, snd (h w')) | (Inr x, w') \<Rightarrow> (Inr x, w'))"

text \<open>\<open>try { return m } finally { k }\<close>: an error of \<open>k\<close> replaces the outcome.\<close>

definition ensuring :: "('w, 'a) io \<Rightarrow> ('w, unit) io \<Rightarrow> ('w, 'a) io" where
  "ensuring m k w = (case m w of (r, w') \<Rightarrow>
     (case k w' of (Inl e, w'') \<Rightarrow> (Inl e, w'') | (Inr _, w'') \<Rightarrow> (r, w'')))"

fun for_each :: "('a \<Rightarrow> ('w, unit) io) \<Rightarrow> 'a list \<Rightarrow> ('w, unit) io" where
  "for_each f [] = ok ()"
| "for_each f (x # xs) = and_then (f x) (\<lambda>_. for_each f xs)"

text \<open>A world together with local variables.\<close>

definition outer :: "('w, 'a) io \<Rightarrow> ('w \<times> 's, 'a) io" where
  "outer m = (\<lambda>(w, s). case m w of (r, w') \<Rightarrow> (r, (w', s)))"

definition update :: "('s \<Rightarrow> 's) \<Rightarrow> ('w \<times> 's, unit) io" where
  "update f = (\<lambda>(w, s). (Inr (), (w, f s)))"

definition local :: "('w \<times> 's, 's) io" where
  "local = (\<lambda>(w, s). (Inr s, (w, s)))"

section \<open>Metadata and fingerprints\<close>

datatype file_type = Directory_type | Regular_type | Symlink_type | Other_type

datatype stat_type = Stat_directory | Stat_file | Stat_other

record metadata =
  m_ctimeNs :: int  m_dev :: int  m_gid :: int  m_ino :: int  m_mode :: int
  m_mtimeNs :: int  m_nlink :: int  m_size :: int  m_type :: file_type  m_uid :: int

record fingerprint =
  fp_ctimeNs :: int  fp_dev :: int  fp_gid :: int  fp_ino :: int  fp_mode :: int
  fp_mtimeNs :: int  fp_nlink :: int  fp_size :: int  fp_type :: stat_type  fp_uid :: int

definition statType :: "metadata \<Rightarrow> stat_type" where
  "statType m = (case m_type m of Directory_type \<Rightarrow> Stat_directory | Regular_type \<Rightarrow> Stat_file | _ \<Rightarrow> Stat_other)"

definition fingerprint :: "metadata \<Rightarrow> fingerprint" where
  "fingerprint m = \<lparr>fp_ctimeNs = m_ctimeNs m, fp_dev = m_dev m, fp_gid = m_gid m, fp_ino = m_ino m,
     fp_mode = m_mode m, fp_mtimeNs = m_mtimeNs m, fp_nlink = m_nlink m, fp_size = m_size m,
     fp_type = statType m, fp_uid = m_uid m\<rparr>"

definition sameFingerprint :: "fingerprint \<Rightarrow> fingerprint \<Rightarrow> bool" where
  "sameFingerprint l r \<longleftrightarrow> fp_ctimeNs l = fp_ctimeNs r \<and> fp_dev l = fp_dev r \<and> fp_gid l = fp_gid r \<and>
     fp_ino l = fp_ino r \<and> fp_mode l = fp_mode r \<and> fp_mtimeNs l = fp_mtimeNs r \<and>
     fp_nlink l = fp_nlink r \<and> fp_size l = fp_size r \<and> fp_type l = fp_type r \<and> fp_uid l = fp_uid r"

definition sameFingerprintAfterModeTightening :: "fingerprint \<Rightarrow> fingerprint \<Rightarrow> bool" where
  "sameFingerprintAfterModeTightening l r \<longleftrightarrow> fp_dev l = fp_dev r \<and> fp_gid l = fp_gid r \<and>
     fp_ino l = fp_ino r \<and> fp_mtimeNs l = fp_mtimeNs r \<and> fp_nlink l = fp_nlink r \<and>
     fp_size l = fp_size r \<and> fp_type l = fp_type r \<and> fp_uid l = fp_uid r"

definition sameDirectoryAuthority :: "fingerprint \<Rightarrow> fingerprint \<Rightarrow> bool" where
  "sameDirectoryAuthority l r \<longleftrightarrow> fp_dev l = fp_dev r \<and> fp_gid l = fp_gid r \<and> fp_ino l = fp_ino r \<and>
     fp_mode l = fp_mode r \<and> fp_nlink l = fp_nlink r \<and> fp_type l = fp_type r \<and> fp_uid l = fp_uid r"

definition sameDirectoryIdentityWhileEditing :: "fingerprint \<Rightarrow> fingerprint \<Rightarrow> bool" where
  "sameDirectoryIdentityWhileEditing l r \<longleftrightarrow> fp_dev l = fp_dev r \<and> fp_gid l = fp_gid r \<and>
     fp_ino l = fp_ino r \<and> fp_mode l = fp_mode r \<and> fp_type l = fp_type r \<and> fp_uid l = fp_uid r"

text \<open>The four admission checks; every failure has the same code. In octal, 4095 is 7777, 3584 is 7000,
  448 is 700, 384 is 600, 73 is 111 and 18 is 022.\<close>

definition assertSafeDirectory :: "metadata \<Rightarrow> int \<Rightarrow> bool" where
  "assertSafeDirectory m u \<longleftrightarrow> m_type m = Directory_type \<and> m_uid m = u \<and> m_mode m AND 4095 = 448"

definition assertTightenableDirectory :: "metadata \<Rightarrow> int \<Rightarrow> bool" where
  "assertTightenableDirectory m u \<longleftrightarrow> m_type m = Directory_type \<and> m_uid m = u \<and>
     (let mode = m_mode m AND 4095 in
      mode AND 3584 = 0 \<and> mode AND 448 = 448 \<and> mode AND 18 = 0)"

definition assertSafeFile :: "metadata \<Rightarrow> int \<Rightarrow> bool" where
  "assertSafeFile m u \<longleftrightarrow> m_type m = Regular_type \<and> m_uid m = u \<and> m_nlink m = 1 \<and> m_mode m AND 4095 = 384"

definition assertTightenableFile :: "metadata \<Rightarrow> int \<Rightarrow> bool" where
  "assertTightenableFile m u \<longleftrightarrow> m_type m = Regular_type \<and> m_uid m = u \<and> m_nlink m = 1 \<and>
     (let mode = m_mode m AND 4095 in
      mode AND 3584 = 0 \<and> mode AND 448 = 384 \<and> mode AND 73 = 0 \<and> mode AND 18 = 0)"

section \<open>What the module calls\<close>

text \<open>
  Node's file system, the process, SHA-256, the collation of \<open>localeCompare\<close> (\<open>compareNames a b\<close>:
  \<open>a\<close> does not sort after \<open>b\<close>) and the hooks.
\<close>

record 'w node =
  lstat :: "jsstr \<Rightarrow> 'w \<Rightarrow> metadata option \<times> 'w"
  fstat :: "nat \<Rightarrow> 'w \<Rightarrow> metadata option \<times> 'w"
  chmod :: "nat \<Rightarrow> int \<Rightarrow> 'w \<Rightarrow> unit option \<times> 'w"
  fsync :: "nat \<Rightarrow> 'w \<Rightarrow> unit option \<times> 'w"
  close_handle :: "nat \<Rightarrow> 'w \<Rightarrow> unit option \<times> 'w"
  open_directory :: "jsstr \<Rightarrow> 'w \<Rightarrow> nat option \<times> 'w"
  open_file :: "jsstr \<Rightarrow> 'w \<Rightarrow> nat option \<times> 'w"
  create_file :: "jsstr \<Rightarrow> 'w \<Rightarrow> nat option \<times> 'w"
  read_at :: "nat \<Rightarrow> nat \<Rightarrow> nat \<Rightarrow> 'w \<Rightarrow> byte list option \<times> 'w"
  write_file :: "nat \<Rightarrow> byte list \<Rightarrow> 'w \<Rightarrow> unit option \<times> 'w"
  realpath :: "jsstr \<Rightarrow> 'w \<Rightarrow> jsstr option \<times> 'w"
  rename :: "jsstr \<Rightarrow> jsstr \<Rightarrow> 'w \<Rightarrow> unit option \<times> 'w"
  unlink :: "jsstr \<Rightarrow> 'w \<Rightarrow> unit option \<times> 'w"
  opendir :: "jsstr \<Rightarrow> 'w \<Rightarrow> nat option \<times> 'w"
  read_entry :: "nat \<Rightarrow> 'w \<Rightarrow> jsval option \<times> 'w"
  close_directory :: "nat \<Rightarrow> 'w \<Rightarrow> unit option \<times> 'w"
  randomUUID :: "'w \<Rightarrow> jsstr option \<times> 'w"
  geteuid :: "int option"
  sha256 :: "byte list \<Rightarrow> jsstr"
  compareNames :: "jsstr \<Rightarrow> jsstr \<Rightarrow> bool"
  afterRename :: "'w \<Rightarrow> unit option \<times> 'w"
  afterDirectoryRead :: "'w \<Rightarrow> unit option \<times> 'w"
  beforeHomeOpen :: "'w \<Rightarrow> unit option \<times> 'w"
  beforeRename :: "'w \<Rightarrow> unit option \<times> 'w"
  inspectAcl :: "jsstr \<Rightarrow> 'w \<Rightarrow> jsval option \<times> 'w"
  syncDirectory :: "nat \<Rightarrow> 'w \<Rightarrow> unit option \<times> 'w"

text \<open>\<open>Array.prototype.sort\<close> with a comparator: stable.\<close>

fun insert_by :: "('a \<Rightarrow> 'a \<Rightarrow> bool) \<Rightarrow> 'a \<Rightarrow> 'a list \<Rightarrow> 'a list" where
  "insert_by le x [] = [x]"
| "insert_by le x (y # ys) = (if le x y then x # y # ys else y # insert_by le x ys)"

definition sort_by :: "('a \<Rightarrow> 'a \<Rightarrow> bool) \<Rightarrow> 'a list \<Rightarrow> 'a list" where
  "sort_by le xs = foldr (insert_by le) xs []"

text \<open>\<open>path.join\<close> of an absolute path and a nonempty name.\<close>

definition path_join :: "jsstr \<Rightarrow> jsstr \<Rightarrow> jsstr" where
  "path_join dir name = (let p = path_resolve (dir @ 47 # name) in
     if last name = 47 \<and> p \<noteq> [47] then p @ [47] else p)"

definition currentUid :: "'w node \<Rightarrow> rollout_error + int" where
  "currentUid N = (case geteuid N of
     Some uid \<Rightarrow> if \<bar>uid\<bar> \<le> 9007199254740991 \<and> 0 \<le> uid then Inr uid else Inl Unsafe_filesystem
   | None \<Rightarrow> Inl Unsafe_filesystem)"

section \<open>Pinning\<close>

definition tightenPinnedMode ::
    "'w node \<Rightarrow> (metadata \<Rightarrow> int \<Rightarrow> bool) \<Rightarrow> int \<Rightarrow> nat \<Rightarrow> metadata \<Rightarrow> jsstr \<Rightarrow> int \<Rightarrow> ('w, fingerprint) io" where
  "tightenPinnedMode N assertSafe exactMode handle opened path uid =
     (let openedFingerprint = fingerprint opened;
          modeChanged = m_mode opened AND 4095 \<noteq> exactMode;
          matchesOpened = (if modeChanged then sameFingerprintAfterModeTightening else sameFingerprint) in
      and_then (if modeChanged then and_then (call (chmod N handle exactMode)) (\<lambda>_. call (fsync N handle)) else ok ()) (\<lambda>_.
      and_then (call (lstat N path)) (\<lambda>pathMetadata.
      and_then (call (fstat N handle)) (\<lambda>handleMetadata.
      and_then (check (assertSafe pathMetadata uid) Unsafe_filesystem) (\<lambda>_.
      and_then (check (assertSafe handleMetadata uid) Unsafe_filesystem) (\<lambda>_.
      and_then (check (matchesOpened openedFingerprint (fingerprint pathMetadata) \<and>
          matchesOpened openedFingerprint (fingerprint handleMetadata) \<and>
          sameFingerprint (fingerprint pathMetadata) (fingerprint handleMetadata)) Unsafe_filesystem) (\<lambda>_.
      and_then (call (inspectAcl N path)) (\<lambda>acl.
      and_then (check (acl = JBool False) Unsafe_filesystem) (\<lambda>_.
      and_then (call (lstat N path)) (\<lambda>finalPath.
      and_then (call (fstat N handle)) (\<lambda>finalHandle.
      and_then (check (assertSafe finalPath uid) Unsafe_filesystem) (\<lambda>_.
      and_then (check (assertSafe finalHandle uid) Unsafe_filesystem) (\<lambda>_.
      and_then (check (sameFingerprint (fingerprint handleMetadata) (fingerprint finalPath) \<and>
          sameFingerprint (fingerprint handleMetadata) (fingerprint finalHandle) \<and>
          sameFingerprint (fingerprint finalPath) (fingerprint finalHandle)) Unsafe_filesystem) (\<lambda>_.
      ok (fingerprint finalHandle)))))))))))))))"

record pinned_dir =
  d_entries :: "jsstr list option"
  d_fingerprint :: fingerprint
  d_handle :: nat
  d_path :: jsstr
  d_preTightening :: fingerprint

definition openPinnedDirectory :: "'w node \<Rightarrow> jsstr \<Rightarrow> int \<Rightarrow> int option \<Rightarrow> ('w, pinned_dir) io" where
  "openPinnedDirectory N path uid expectedDev =
     and_then (call (lstat N path)) (\<lambda>earlier.
     and_then (check (assertTightenableDirectory earlier uid) Unsafe_filesystem) (\<lambda>_.
     and_then (check (case expectedDev of Some d \<Rightarrow> m_dev earlier = d | None \<Rightarrow> True) Unsafe_filesystem) (\<lambda>_.
     and_then (call (open_directory N path)) (\<lambda>handle.
     on_error
       (and_then (call (fstat N handle)) (\<lambda>opened.
        and_then (check (assertTightenableDirectory opened uid) Unsafe_filesystem) (\<lambda>_.
        and_then (check (case expectedDev of Some d \<Rightarrow> m_dev opened = d | None \<Rightarrow> True) Unsafe_filesystem) (\<lambda>_.
        and_then (check (sameFingerprint (fingerprint earlier) (fingerprint opened)) Unsafe_filesystem) (\<lambda>_.
        and_then (tightenPinnedMode N assertSafeDirectory 448 handle opened path uid) (\<lambda>tightened.
        ok \<lparr>d_entries = None, d_fingerprint = tightened, d_handle = handle, d_path = path,
          d_preTightening = fingerprint opened\<rparr>))))))
       (quietly (call (close_handle N handle)))))))"

text \<open>
  The loop of \<open>readExactBytes\<close>: a read returns at most the bytes asked for, an empty one fails.
\<close>

function read_loop :: "'w node \<Rightarrow> nat \<Rightarrow> nat \<Rightarrow> byte list \<Rightarrow> ('w, byte list) io" where
  "read_loop N handle count acc w =
     (if count \<le> length acc then (Inr acc, w)
      else case read_at N handle (count - length acc) (length acc) w of
        (None, w') \<Rightarrow> (Inl Foreign, w')
      | (Some chunk, w') \<Rightarrow>
          if chunk = [] then (Inl (Internal Unsafe_filesystem), w')
          else read_loop N handle count (acc @ take (count - length acc) chunk) w')"
  by pat_completeness auto
termination
proof (relation "measure (\<lambda>(_, _, count, acc, _). count - length acc)")
  show "wf (measure (\<lambda>(_ :: 'w node, _ :: nat, count, acc :: byte list, _ :: 'w). count - length acc))" by simp
next
  fix N :: "'w node" and handle count and acc chunk :: "byte list" and x w w' and q
  assume "\<not> count \<le> length acc" "chunk \<noteq> []"
  moreover from this obtain n where "length chunk = Suc n" by (cases chunk) simp_all
  ultimately show "((N, handle, count, acc @ take (count - length acc) chunk, w'), (N, handle, count, acc, w))
      \<in> measure (\<lambda>(_, _, count, acc, _). count - length acc)"
    by (simp add: min_def) linarith
qed

declare read_loop.simps [simp del]

definition readExactBytes :: "'w node \<Rightarrow> nat \<Rightarrow> nat \<Rightarrow> ('w, byte list) io" where
  "readExactBytes N handle count =
     and_then (read_loop N handle count []) (\<lambda>bytes.
     and_then (call (read_at N handle 1 count)) (\<lambda>extra.
     and_then (check (extra = []) Unsafe_filesystem) (\<lambda>_. ok bytes)))"

record pinned_bytes =
  b_bytes :: "byte list"
  b_fingerprint :: fingerprint
  b_handle :: nat

definition readPinnedFile :: "'w node \<Rightarrow> jsstr \<Rightarrow> int \<Rightarrow> int \<Rightarrow> int \<Rightarrow> ('w, pinned_bytes) io" where
  "readPinnedFile N path uid expectedDev remainingBytes =
     and_then (call (lstat N path)) (\<lambda>earlier.
     and_then (check (assertTightenableFile earlier uid) Unsafe_filesystem) (\<lambda>_.
     and_then (check (m_dev earlier = expectedDev) Unsafe_filesystem) (\<lambda>_.
     and_then (call (open_file N path)) (\<lambda>handle.
     on_error
       (and_then (call (fstat N handle)) (\<lambda>opened.
        and_then (check (assertTightenableFile opened uid) Unsafe_filesystem) (\<lambda>_.
        and_then (check (m_dev opened = expectedDev) Unsafe_filesystem) (\<lambda>_.
        and_then (check (sameFingerprint (fingerprint earlier) (fingerprint opened)) Unsafe_filesystem) (\<lambda>_.
        and_then (tightenPinnedMode N assertSafeFile 384 handle opened path uid) (\<lambda>tightened.
        and_then (check (0 < fp_size tightened \<and> fp_size tightened \<le> MAX_FILE_BYTES) Rollout_content_invalid) (\<lambda>_.
        and_then (readWithinAggregateBudget (fp_size tightened) remainingBytes (readExactBytes N handle)) (\<lambda>bytes.
        and_then (call (fstat N handle)) (\<lambda>after.
        and_then (check (sameFingerprint tightened (fingerprint after)) Unsafe_filesystem) (\<lambda>_.
        ok \<lparr>b_bytes = bytes, b_fingerprint = fingerprint after, b_handle = handle\<rparr>))))))))))
       (quietly (call (close_handle N handle)))))))"

section \<open>Verification\<close>

definition readBoundedDirectory :: "'w node \<Rightarrow> jsstr \<Rightarrow> ('w \<times> enum_budget, jsval list) io" where
  "readBoundedDirectory N path =
     and_then (outer (call (opendir N path))) (\<lambda>directory.
     ensuring (collectBoundedDirectoryEntries (read_entry N directory) [])
       (outer (call (close_directory N directory))))"

definition sort_names :: "'w node \<Rightarrow> jsstr list \<Rightarrow> jsstr list" where
  "sort_names N = sort_by (compareNames N)"

definition verifyDirectory ::
    "'w node \<Rightarrow> pinned_dir \<Rightarrow> int \<Rightarrow> jsstr option \<Rightarrow> bool \<Rightarrow> ('w \<times> enum_budget, unit) io" where
  "verifyDirectory N directory uid expectedExtraEntry includeTimestamps =
     (let compare = (if includeTimestamps then sameFingerprint
            else if expectedExtraEntry = None then sameDirectoryAuthority
            else sameDirectoryIdentityWhileEditing) in
      and_then (outer (call (lstat N (d_path directory)))) (\<lambda>pathMetadata.
      and_then (outer (call (fstat N (d_handle directory)))) (\<lambda>handleMetadata.
      and_then (check (assertSafeDirectory pathMetadata uid) Unsafe_filesystem) (\<lambda>_.
      and_then (check (assertSafeDirectory handleMetadata uid) Unsafe_filesystem) (\<lambda>_.
      and_then (check (compare (d_fingerprint directory) (fingerprint pathMetadata)) Unsafe_filesystem) (\<lambda>_.
      and_then (check (compare (d_fingerprint directory) (fingerprint handleMetadata)) Unsafe_filesystem) (\<lambda>_.
      and_then (check (sameFingerprint (fingerprint pathMetadata) (fingerprint handleMetadata)) Unsafe_filesystem) (\<lambda>_.
      and_then (outer (call (inspectAcl N (d_path directory)))) (\<lambda>acl.
      and_then (check (acl = JBool False) Unsafe_filesystem) (\<lambda>_.
      and_then (outer (call (lstat N (d_path directory)))) (\<lambda>finalPath.
      and_then (outer (call (fstat N (d_handle directory)))) (\<lambda>finalHandle.
      and_then (check (assertSafeDirectory finalPath uid) Unsafe_filesystem) (\<lambda>_.
      and_then (check (assertSafeDirectory finalHandle uid) Unsafe_filesystem) (\<lambda>_.
      and_then (check (sameFingerprint (fingerprint pathMetadata) (fingerprint finalPath) \<and>
          sameFingerprint (fingerprint handleMetadata) (fingerprint finalHandle) \<and>
          sameFingerprint (fingerprint finalPath) (fingerprint finalHandle)) Unsafe_filesystem) (\<lambda>_.
      case d_entries directory of None \<Rightarrow> ok ()
      | Some recorded \<Rightarrow>
          and_then (readBoundedDirectory N (d_path directory)) (\<lambda>es.
          and_then (outer (call (afterDirectoryRead N))) (\<lambda>_.
          and_then (check (sort_names N (map entry_name es) = (case expectedExtraEntry of
                None \<Rightarrow> recorded | Some extra \<Rightarrow> sort_names N (recorded @ [extra]))) Unsafe_filesystem) (\<lambda>_.
          and_then (outer (call (lstat N (d_path directory)))) (\<lambda>listedPath.
          and_then (outer (call (fstat N (d_handle directory)))) (\<lambda>listedHandle.
          and_then (check (assertSafeDirectory listedPath uid) Unsafe_filesystem) (\<lambda>_.
          and_then (check (assertSafeDirectory listedHandle uid) Unsafe_filesystem) (\<lambda>_.
          check (sameFingerprint (fingerprint finalPath) (fingerprint listedPath) \<and>
            sameFingerprint (fingerprint finalHandle) (fingerprint listedHandle) \<and>
            sameFingerprint (fingerprint listedPath) (fingerprint listedHandle)) Unsafe_filesystem))))))))))))))))))))))"

record pinned_file =
  f_bytes :: "byte list"
  f_fingerprint :: fingerprint
  f_handle :: "nat option"
  f_path :: jsstr
  f_parent :: pinned_dir
  f_relativePath :: jsstr

definition verifyFile :: "'w node \<Rightarrow> pinned_file \<Rightarrow> int \<Rightarrow> ('w, unit) io" where
  "verifyFile N file uid =
     (let expected = f_fingerprint file in
      and_then (call (lstat N (f_path file))) (\<lambda>pathMetadata.
      and_then (check (assertSafeFile pathMetadata uid) Unsafe_filesystem) (\<lambda>_.
      and_then (check (sameFingerprint expected (fingerprint pathMetadata)) Unsafe_filesystem) (\<lambda>_.
      and_then (case f_handle file of None \<Rightarrow> ok None
         | Some h \<Rightarrow>
             and_then (call (fstat N h)) (\<lambda>handleMetadata.
             and_then (check (assertSafeFile handleMetadata uid) Unsafe_filesystem) (\<lambda>_.
             and_then (check (sameFingerprint expected (fingerprint handleMetadata) \<and>
                sameFingerprint (fingerprint pathMetadata) (fingerprint handleMetadata)) Unsafe_filesystem) (\<lambda>_.
             ok (Some (h, fingerprint handleMetadata)))))) (\<lambda>pinned.
      and_then (call (inspectAcl N (f_path file))) (\<lambda>acl.
      and_then (check (acl = JBool False) Unsafe_filesystem) (\<lambda>_.
      and_then (call (lstat N (f_path file))) (\<lambda>finalPath.
      and_then (check (assertSafeFile finalPath uid) Unsafe_filesystem) (\<lambda>_.
      and_then (check (sameFingerprint (fingerprint pathMetadata) (fingerprint finalPath) \<and>
          sameFingerprint expected (fingerprint finalPath)) Unsafe_filesystem) (\<lambda>_.
      case pinned of None \<Rightarrow> ok ()
      | Some (h, handleFingerprint) \<Rightarrow>
          and_then (call (fstat N h)) (\<lambda>finalHandle.
          and_then (check (assertSafeFile finalHandle uid) Unsafe_filesystem) (\<lambda>_.
          check (sameFingerprint handleFingerprint (fingerprint finalHandle) \<and>
            sameFingerprint (fingerprint finalPath) (fingerprint finalHandle)) Unsafe_filesystem))))))))))))"

definition safelyUnlinkTemporary :: "'w node \<Rightarrow> jsstr \<Rightarrow> fingerprint \<Rightarrow> ('w, unit) io" where
  "safelyUnlinkTemporary N path handleFingerprint = quietly
     (and_then (call (lstat N path)) (\<lambda>m.
      if sameFingerprint handleFingerprint (fingerprint m) then call (unlink N path) else ok ()))"

end
