(* ===== verification/Rollout_Repair.thy ===== *)
theory Rollout_Repair
  imports Rollout_Files
begin

text \<open>
  Scanning the rollout tree, replacing a repaired file and the repair of a whole session, with the
  errors each step reports. The world of \<open>Rollout_Files\<close> is paired with the local variables of the
  functions, which an error leaves as they were.
\<close>

section \<open>Scanning the tree\<close>

record scan =
  sc_directories :: "pinned_dir list"
  sc_files :: "pinned_file list"
  sc_budget :: enum_budget
  sc_totalBytes :: nat

definition with_budget :: "('w \<times> enum_budget, 'a) io \<Rightarrow> ('w \<times> scan, 'a) io" where
  "with_budget m = (\<lambda>(w, s). case m (w, sc_budget s) of (r, w', b) \<Rightarrow> (r, w', s\<lparr>sc_budget := b\<rparr>))"

text \<open>A directory's names, sorted, recorded in the directory with the given index.\<close>

definition list_names :: "'w node \<Rightarrow> nat \<Rightarrow> jsstr \<Rightarrow> ('w \<times> scan, jsstr list) io" where
  "list_names N i path =
     and_then (with_budget (readBoundedDirectory N path)) (\<lambda>es.
     let names = sort_names N (map entry_name es) in
     and_then (update (\<lambda>s. s\<lparr>sc_directories := (sc_directories s)
        [i := (sc_directories s ! i)\<lparr>d_entries := Some names\<rparr>]\<rparr>)) (\<lambda>_. ok names))"

definition JSONL_SUFFIX :: jsstr where
  "JSONL_SUFFIX = js ''.jsonl''"

definition ends_with :: "jsstr \<Rightarrow> jsstr \<Rightarrow> bool" where
  "ends_with s t \<longleftrightarrow> length t \<le> length s \<and> drop (length s - length t) s = t"

definition scan_file :: "'w node \<Rightarrow> int \<Rightarrow> int \<Rightarrow> jsstr \<Rightarrow> nat \<Rightarrow> jsstr \<Rightarrow> ('w \<times> scan, unit) io" where
  "scan_file N uid dev sessionsPath i path =
     and_then local (\<lambda>s.
     and_then (check (length (sc_files s) < MAX_ROLLOUT_FILES) Rollout_set_invalid) (\<lambda>_.
     and_then (outer (readPinnedFile N path uid dev (MAX_TOTAL_BYTES - int (sc_totalBytes s)))) (\<lambda>b.
     and_then (from_sum (relativeRolloutPath sessionsPath path)) (\<lambda>rel.
     and_then (update (\<lambda>s. s\<lparr>sc_files := sc_files s @ [\<lparr>f_bytes = b_bytes b, f_fingerprint = b_fingerprint b,
          f_handle = Some (b_handle b), f_path = path, f_parent = sc_directories s ! i, f_relativePath = rel\<rparr>],
        sc_totalBytes := sc_totalBytes s + length (b_bytes b)\<rparr>)) (\<lambda>_.
     and_then local (\<lambda>s.
     check (int (sc_totalBytes s) \<le> MAX_TOTAL_BYTES) Rollout_set_invalid))))))"

text \<open>
  \<open>visit\<close> counts the levels that are left, \<open>MAX_DIRECTORY_DEPTH + 1 - depth\<close>; its loop over the
  names is \<open>visit_names\<close>.
\<close>

function visit :: "'w node \<Rightarrow> int \<Rightarrow> int \<Rightarrow> jsstr \<Rightarrow> nat \<Rightarrow> nat \<Rightarrow> jsstr \<Rightarrow> ('w \<times> scan, unit) io"
  and visit_names :: "'w node \<Rightarrow> int \<Rightarrow> int \<Rightarrow> jsstr \<Rightarrow> nat \<Rightarrow> nat \<Rightarrow> jsstr \<Rightarrow> jsstr list \<Rightarrow> ('w \<times> scan, unit) io" where
  "visit N uid dev sessionsPath 0 i dir = throw (Internal Rollout_set_invalid)"
| "visit N uid dev sessionsPath (Suc n) i dir =
     and_then (list_names N i dir) (\<lambda>names. visit_names N uid dev sessionsPath n i dir names)"
| "visit_names N uid dev sessionsPath n i dir [] = ok ()"
| "visit_names N uid dev sessionsPath n i dir (name # names) =
     (let path = path_join dir name in
      and_then (outer (call (lstat N path))) (\<lambda>m.
      and_then (check (m_type m \<noteq> Symlink_type) Unsafe_filesystem) (\<lambda>_.
      and_then
        (if m_type m = Directory_type then
           and_then local (\<lambda>s.
           and_then (check (length (sc_directories s) < MAX_DIRECTORIES) Rollout_set_invalid) (\<lambda>_.
           and_then (outer (openPinnedDirectory N path uid (Some dev))) (\<lambda>child.
           and_then (update (\<lambda>s. s\<lparr>sc_directories := sc_directories s @ [child]\<rparr>)) (\<lambda>_.
           visit N uid dev sessionsPath n (length (sc_directories s)) path))))
         else
           and_then (check (m_type m = Regular_type) Unsupported_rollout_object) (\<lambda>_.
           and_then (check (ends_with name JSONL_SUFFIX) Unsupported_rollout_object) (\<lambda>_.
           scan_file N uid dev sessionsPath i path))) (\<lambda>_.
      visit_names N uid dev sessionsPath n i dir names))))"
  by pat_completeness auto
termination
  by (relation "measures [\<lambda>x. case x of Inl (_, _, _, _, n, _) \<Rightarrow> 2 * n | Inr (_, _, _, _, n, _) \<Rightarrow> 2 * n + 1,
      \<lambda>x. case x of Inl _ \<Rightarrow> 0 | Inr (_, _, _, _, _, _, _, names) \<Rightarrow> length names]") auto

definition scan_body :: "'w node \<Rightarrow> jsstr \<Rightarrow> int \<Rightarrow> ('w \<times> scan, unit) io" where
  "scan_body N home uid =
     and_then (outer (call (lstat N home))) (\<lambda>requestedHome.
     and_then (check (m_type requestedHome \<noteq> Symlink_type) Unsafe_filesystem) (\<lambda>_.
     and_then (outer (call (realpath N home))) (\<lambda>canonicalHome.
     and_then (outer (call (beforeHomeOpen N))) (\<lambda>_.
     and_then (outer (openPinnedDirectory N canonicalHome uid None)) (\<lambda>homeDirectory.
     and_then (update (\<lambda>s. s\<lparr>sc_directories := sc_directories s @ [homeDirectory]\<rparr>)) (\<lambda>_.
     and_then (check (sameFingerprint (fingerprint requestedHome) (d_preTightening homeDirectory)) Unsafe_filesystem) (\<lambda>_.
     let dev = fp_dev (d_fingerprint homeDirectory); sessionsPath = path_join canonicalHome (js ''sessions'') in
     and_then (outer (call (realpath N sessionsPath))) (\<lambda>real.
     and_then (check (real = sessionsPath) Unsafe_filesystem) (\<lambda>_.
     and_then (outer (openPinnedDirectory N sessionsPath uid (Some dev))) (\<lambda>sessions.
     and_then (update (\<lambda>s. s\<lparr>sc_directories := sc_directories s @ [sessions]\<rparr>)) (\<lambda>_.
     and_then (visit N uid dev sessionsPath (MAX_DIRECTORY_DEPTH + 1) 1 sessionsPath) (\<lambda>_.
     and_then local (\<lambda>s.
     check (sc_files s \<noteq> []) Rollout_set_invalid)))))))))))))"

definition new_scan :: scan where
  "new_scan = \<lparr>sc_directories = [], sc_files = [], sc_budget = createEnumerationBudget, sc_totalBytes = 0\<rparr>"

definition closeScan :: "'w node \<Rightarrow> pinned_file list \<Rightarrow> pinned_dir list \<Rightarrow> ('w, unit) io" where
  "closeScan N files directories =
     and_then (for_each (\<lambda>f. case f_handle f of None \<Rightarrow> ok () | Some h \<Rightarrow> quietly (call (close_handle N h))) files) (\<lambda>_.
     for_each (\<lambda>d. quietly (call (close_handle N (d_handle d)))) directories)"

definition scanTree :: "'w node \<Rightarrow> jsstr \<Rightarrow> int \<Rightarrow> ('w, scan) io" where
  "scanTree N home uid w = (case scan_body N home uid (w, new_scan) of
     (Inr _, w', s) \<Rightarrow> (Inr s, w')
   | (Inl e, w', s) \<Rightarrow> (Inl e, snd (closeScan N (sc_files s) (sc_directories s) w')))"

section \<open>Replacing a file\<close>

record replacing =
  rp_temporaryHandle :: "nat option"
  rp_temporaryFingerprint :: "fingerprint option"
  rp_publicationAttempted :: bool
  rp_file :: pinned_file

definition fresh_budget :: "('w \<times> enum_budget, 'a) io \<Rightarrow> ('w, 'a) io" where
  "fresh_budget m w = (case m (w, createEnumerationBudget) of (r, w', _) \<Rightarrow> (r, w'))"

text \<open>From \<open>publicationAttempted = true\<close> on.\<close>

definition publish :: "'w node \<Rightarrow> rollout_analysis \<Rightarrow> int \<Rightarrow> jsstr \<Rightarrow> nat \<Rightarrow> pinned_file \<Rightarrow> ('w \<times> replacing, unit) io" where
  "publish N analysis uid temporaryPath handle file =
     and_then (outer (call (rename N temporaryPath (f_path file)))) (\<lambda>_.
     and_then (outer (call (afterRename N))) (\<lambda>_.
     and_then (outer (call (syncDirectory N (d_handle (f_parent file))))) (\<lambda>_.
     and_then (outer (call (close_handle N handle))) (\<lambda>_.
     and_then (update (\<lambda>s. s\<lparr>rp_temporaryHandle := None\<rparr>)) (\<lambda>_.
     and_then (case f_handle file of None \<Rightarrow> throw Foreign | Some h \<Rightarrow> outer (call (close_handle N h))) (\<lambda>_.
     and_then (update (\<lambda>s. s\<lparr>rp_file := file\<lparr>f_handle := None\<rparr>\<rparr>)) (\<lambda>_.
     and_then (outer (readPinnedFile N (f_path file) uid (fp_dev (f_fingerprint file)) MAX_TOTAL_BYTES)) (\<lambda>replacement.
     and_then (on_error
        (check (length (b_bytes replacement) = length (after analysis) \<and>
           sha256 N (b_bytes replacement) = sha256 N (after analysis)) Repair_outcome_uncertain)
        (outer (quietly (call (close_handle N (b_handle replacement)))))) (\<lambda>_.
     update (\<lambda>s. s\<lparr>rp_file := file\<lparr>f_fingerprint := b_fingerprint replacement,
        f_handle := Some (b_handle replacement)\<rparr>\<rparr>))))))))))"

definition replace_body :: "'w node \<Rightarrow> rollout_analysis \<Rightarrow> int \<Rightarrow> jsstr \<Rightarrow> jsstr \<Rightarrow> pinned_file \<Rightarrow> ('w \<times> replacing, unit) io" where
  "replace_body N analysis uid temporaryPath temporaryName file =
     and_then (outer (call (create_file N temporaryPath))) (\<lambda>handle.
     and_then (update (\<lambda>s. s\<lparr>rp_temporaryHandle := Some handle\<rparr>)) (\<lambda>_.
     and_then (outer (call (chmod N handle 384))) (\<lambda>_.
     and_then (outer (call (fsync N handle))) (\<lambda>_.
     and_then (outer (call (fstat N handle))) (\<lambda>emptyTemporary.
     and_then (check (assertSafeFile emptyTemporary uid) Unsafe_filesystem) (\<lambda>_.
     and_then (check (m_dev emptyTemporary = fp_dev (d_fingerprint (f_parent file))) Unsafe_filesystem) (\<lambda>_.
     and_then (outer (tightenPinnedMode N assertSafeFile 384 handle emptyTemporary temporaryPath uid)) (\<lambda>_.
     and_then (outer (call (write_file N handle (after analysis)))) (\<lambda>_.
     and_then (outer (call (fsync N handle))) (\<lambda>_.
     and_then (outer (call (fstat N handle))) (\<lambda>temporary.
     and_then (check (assertSafeFile temporary uid) Unsafe_filesystem) (\<lambda>_.
     and_then (check (m_size temporary = int (length (after analysis))) Repair_failed) (\<lambda>_.
     and_then (outer (readExactBytes N handle (length (after analysis)))) (\<lambda>temporaryBytes.
     and_then (check (sha256 N temporaryBytes = sha256 N (after analysis)) Repair_failed) (\<lambda>_.
     and_then (outer (call (fstat N handle))) (\<lambda>readback.
     and_then (check (sameFingerprint (fingerprint temporary) (fingerprint readback)) Repair_failed) (\<lambda>_.
     and_then (update (\<lambda>s. s\<lparr>rp_temporaryFingerprint := Some (fingerprint readback)\<rparr>)) (\<lambda>_.
     and_then (outer (call (beforeRename N))) (\<lambda>_.
     and_then (outer (verifyFile N file uid)) (\<lambda>_.
     and_then (outer (fresh_budget (verifyDirectory N (f_parent file) uid (Some temporaryName) False))) (\<lambda>_.
     and_then (outer (tightenPinnedMode N assertSafeFile 384 handle readback temporaryPath uid)) (\<lambda>_.
     and_then (update (\<lambda>s. s\<lparr>rp_publicationAttempted := True\<rparr>)) (\<lambda>_.
     publish N analysis uid temporaryPath handle file)))))))))))))))))))))))"

text \<open>The catch clause: close the temporary file, remove it before a publication, and report.\<close>

definition replace_failed :: "'w node \<Rightarrow> jsstr \<Rightarrow> thrown \<Rightarrow> replacing \<Rightarrow> ('w, unit) io" where
  "replace_failed N temporaryPath e s =
     and_then (case rp_temporaryHandle s of
         None \<Rightarrow> ok (rp_temporaryFingerprint s)
       | Some h \<Rightarrow>
           and_then (case rp_temporaryFingerprint s of
               Some fp \<Rightarrow> ok (Some fp)
             | None \<Rightarrow> (\<lambda>w. case fstat N h w of
                 (None, w') \<Rightarrow> (Inr None, w') | (Some m, w') \<Rightarrow> (Inr (Some (fingerprint m)), w'))) (\<lambda>fp.
           and_then (quietly (call (close_handle N h))) (\<lambda>_. ok fp))) (\<lambda>fp.
     and_then (case fp of
         Some fp \<Rightarrow> if \<not> rp_publicationAttempted s then safelyUnlinkTemporary N temporaryPath fp else ok ()
       | None \<Rightarrow> ok ()) (\<lambda>_.
     if e = Internal Repair_outcome_uncertain then throw e
     else throw (Internal (if rp_publicationAttempted s then Repair_outcome_uncertain else Repair_failed))))"

definition temporary_name :: "jsstr \<Rightarrow> jsstr" where
  "temporary_name uuid = js ''.rollout-tail-repair-'' @ uuid @ js ''.tmp''"

definition replaceFile :: "'w node \<Rightarrow> rollout_analysis \<Rightarrow> int \<Rightarrow> ('w \<times> pinned_file, unit) io" where
  "replaceFile N analysis uid = (\<lambda>(w, file).
     (case randomUUID N w of
        (None, w') \<Rightarrow> (Inl Foreign, w', file)
      | (Some uuid, w') \<Rightarrow>
          (let name = temporary_name uuid; temporaryPath = path_join (d_path (f_parent file)) name in
           case replace_body N analysis uid temporaryPath name file
              (w', \<lparr>rp_temporaryHandle = None, rp_temporaryFingerprint = None, rp_publicationAttempted = False,
                 rp_file = file\<rparr>) of
             (Inr _, w'', s) \<Rightarrow> (Inr (), w'', rp_file s)
           | (Inl e, w'', s) \<Rightarrow> (case replace_failed N temporaryPath e s w'' of (r, w3) \<Rightarrow> (r, w3, rp_file s)))))"

section \<open>Repairing a session\<close>

record file_proof =
  p_action :: repair_action
  p_after :: proof_state
  p_before :: proof_state
  p_relativePath :: jsstr
  p_removedBytes :: nat

record repair_result =
  res_codexBinarySha256 :: jsval
  res_codexVersion :: jsval
  res_sourceAnalysisCommit :: jsval
  res_files :: "file_proof list"
  res_rootSessionId :: jsval

text \<open>The local variables of \<open>repairWithHooks\<close> after the scan.\<close>

record repairing =
  rw_files :: "pinned_file list"
  rw_published :: bool
  rw_proofs :: "file_proof list"

text \<open>Analysis of all files, then the checks on the set of threads.\<close>

fun analyze_all :: "pinned_file list \<Rightarrow> rollout_error + rollout_analysis list" where
  "analyze_all [] = Inr []"
| "analyze_all (f # fs) = rbind (analyzeBytes (f_bytes f)) (\<lambda>a. rbind (analyze_all fs) (\<lambda>as. Inr (a # as)))"

fun threads_ok :: "jsval \<Rightarrow> jsval list \<Rightarrow> rollout_analysis list \<Rightarrow> bool" where
  "threads_ok rootId seen [] = True"
| "threads_ok rootId seen (a # as) \<longleftrightarrow> sessionId (meta a) = rootId \<and> threadId (meta a) \<notin> set seen \<and>
     threads_ok rootId (threadId (meta a) # seen) as"

definition rollout_set_ok :: "jsval \<Rightarrow> rollout_analysis list \<Rightarrow> bool" where
  "rollout_set_ok rootId as \<longleftrightarrow> (case filter (\<lambda>a. threadId (meta a) = rootId) as of
     [r] \<Rightarrow> sessionId (meta r) = rootId | _ \<Rightarrow> False) \<and> threads_ok rootId [] as"

text \<open>One file of the repair loop: its index, and its analysis.\<close>

definition replace_at :: "'w node \<Rightarrow> rollout_analysis \<Rightarrow> int \<Rightarrow> nat \<Rightarrow> ('w \<times> repairing, unit) io" where
  "replace_at N analysis uid i = (\<lambda>(w, s).
     (case replaceFile N analysis uid (w, rw_files s ! i) of
        (r, w', file) \<Rightarrow> (case r of
            Inl e \<Rightarrow> (Inl e, w', s\<lparr>rw_files := (rw_files s)[i := file]\<rparr>)
          | Inr _ \<Rightarrow> (Inr (), w', s\<lparr>rw_files := (rw_files s)[i := file], rw_published := True\<rparr>))))"

definition repair_file :: "'w node \<Rightarrow> int \<Rightarrow> nat \<times> rollout_analysis \<Rightarrow> ('w \<times> repairing, unit) io" where
  "repair_file N uid = (\<lambda>(i, analysis).
     and_then local (\<lambda>s. let file = rw_files s ! i in
     and_then (from_sum (proofState (sha256 N) (f_bytes file))) (\<lambda>earlier.
     and_then (from_sum (proofState (sha256 N) (after analysis))) (\<lambda>after'.
     and_then
       (if action analysis = Unchanged then outer (verifyFile N file uid)
        else and_then (outer (fresh_budget (verifyDirectory N (f_parent file) uid None False))) (\<lambda>_.
          replace_at N analysis uid i)) (\<lambda>_.
     update (\<lambda>s. s\<lparr>rw_proofs := rw_proofs s @ [\<lparr>p_action = action analysis, p_after = after', p_before = earlier,
        p_relativePath = f_relativePath file, p_removedBytes = removedBytes analysis\<rparr>]\<rparr>))))))"

definition verify_directories :: "'w node \<Rightarrow> int \<Rightarrow> bool \<Rightarrow> pinned_dir list \<Rightarrow> ('w, unit) io" where
  "verify_directories N uid includeTimestamps directories =
     fresh_budget (for_each (\<lambda>d. verifyDirectory N d uid None includeTimestamps) directories)"

text \<open>The \<open>try\<close> block after the analysis of the files.\<close>

definition repair_analyzed ::
    "'w node \<Rightarrow> repair_request \<Rightarrow> int \<Rightarrow> scan \<Rightarrow> rollout_analysis list \<Rightarrow> ('w \<times> repairing, repair_result) io" where
  "repair_analyzed N request uid scan analyzed =
     and_then (check (rollout_set_ok (rootSessionId request) analyzed) Rollout_set_invalid) (\<lambda>_.
     and_then (outer (verify_directories N uid True (sc_directories scan))) (\<lambda>_.
     and_then (outer (for_each (\<lambda>f. verifyFile N f uid) (sc_files scan))) (\<lambda>_.
     and_then (for_each (repair_file N uid) (enumerate 0 analyzed)) (\<lambda>_.
     and_then (outer (verify_directories N uid False (sc_directories scan))) (\<lambda>_.
     and_then local (\<lambda>s.
     and_then (outer (for_each (\<lambda>f. verifyFile N f uid) (rw_files s))) (\<lambda>_.
     ok \<lparr>res_codexBinarySha256 = codexBinarySha256 request, res_codexVersion = lit PINNED_CODEX_VERSION,
       res_sourceAnalysisCommit = lit PINNED_SOURCE_COMMIT,
       res_files = sort_by (\<lambda>p q. compareNames N (p_relativePath p) (p_relativePath q)) (rw_proofs s),
       res_rootSessionId = rootSessionId request\<rparr>)))))))"

definition repair_scanned :: "'w node \<Rightarrow> repair_request \<Rightarrow> int \<Rightarrow> scan \<Rightarrow> ('w \<times> repairing, repair_result) io" where
  "repair_scanned N request uid scan =
     and_then (from_sum (analyze_all (sc_files scan))) (repair_analyzed N request uid scan)"

text \<open>The catch clause of \<open>repairWithHooks\<close>.\<close>

definition repair_error :: "bool \<Rightarrow> thrown \<Rightarrow> thrown" where
  "repair_error published e = (case e of
     Internal c \<Rightarrow> if published \<and> c \<noteq> Repair_outcome_uncertain then Internal Repair_outcome_uncertain else e
   | Foreign \<Rightarrow> Internal (if published then Repair_outcome_uncertain else Unsafe_filesystem))"

definition repairWithHooks :: "'w node \<Rightarrow> jsval \<Rightarrow> ('w, repair_result) io" where
  "repairWithHooks N options =
     and_then (from_sum (normalizeRequest options)) (\<lambda>request.
     and_then (from_sum (currentUid N)) (\<lambda>uid.
     (\<lambda>w. case scanTree N (codexHome request) uid w of
        (Inl e, w') \<Rightarrow> (Inl (repair_error False e), w')
      | (Inr scan, w') \<Rightarrow>
          (case repair_scanned N request uid scan
              (w', \<lparr>rw_files = sc_files scan, rw_published = False, rw_proofs = []\<rparr>) of
             (r, w'', s) \<Rightarrow>
               ((case r of Inl e \<Rightarrow> Inl (repair_error (rw_published s) e) | Inr x \<Rightarrow> Inr x),
                snd (closeScan N (rw_files s) (sc_directories scan) w''))))))"

definition no_hook :: "'w \<Rightarrow> unit option \<times> 'w" where
  "no_hook w = (Some (), w)"

definition repairStoppedRolloutTails :: "'w node \<Rightarrow> (jsstr \<Rightarrow> 'w \<Rightarrow> jsval option \<times> 'w) \<Rightarrow> jsval \<Rightarrow> ('w, repair_result) io" where
  "repairStoppedRolloutTails N recoveryPathHasExtendedAcl options = repairWithHooks
     (N\<lparr>afterRename := no_hook, afterDirectoryRead := no_hook, beforeHomeOpen := no_hook, beforeRename := no_hook,
        inspectAcl := recoveryPathHasExtendedAcl, syncDirectory := fsync N\<rparr>) options"

end
