(* ===== verification/Rollout_Safety.thy ===== *)
theory Rollout_Safety
  imports Rollout_Repair
begin

text \<open>
  What a repair guarantees over any file system: predicates on the world that every call but the
  renaming keeps, the errors after a publication, what a scan has seen of the tree, and the account a
  successful repair gives of the files of its scan.
\<close>

section \<open>Kept predicates\<close>

named_theorems kept

definition keeps :: "('w \<Rightarrow> bool) \<Rightarrow> ('w, 'a) io \<Rightarrow> bool" where
  "keeps P m \<longleftrightarrow> (\<forall>w. P w \<longrightarrow> P (snd (m w)))"

definition stays :: "('w \<Rightarrow> bool) \<Rightarrow> ('w \<Rightarrow> 'r \<times> 'w) \<Rightarrow> bool" where
  "stays P f \<longleftrightarrow> (\<forall>w. P w \<longrightarrow> P (snd (f w)))"

text \<open>A predicate on local variables, or else one on the world.\<close>

definition either :: "('s \<Rightarrow> bool) \<Rightarrow> ('w \<Rightarrow> bool) \<Rightarrow> 'w \<times> 's \<Rightarrow> bool" where
  "either Q P = (\<lambda>(w, s). Q s \<or> P w)"

lemma keepsD: "keeps P m \<Longrightarrow> P w \<Longrightarrow> m w = (r, w') \<Longrightarrow> P w'"
  by (auto simp: keeps_def)

lemma keepsI: "(\<And>w. P w \<Longrightarrow> P (snd (m w))) \<Longrightarrow> keeps P m"
  by (simp add: keeps_def)

lemma keeps_never [kept]: "keeps (\<lambda>_. False) m"
  by (simp add: keeps_def)

lemma keeps_ok [kept]: "keeps P (ok x)"
  by (simp add: keeps_def ok_def)

lemma keeps_throw [kept]: "keeps P (throw e)"
  by (simp add: keeps_def throw_def)

lemma keeps_check [kept]: "keeps P (check b c)"
  by (simp add: check_def keeps_ok keeps_throw)

lemma keeps_from_sum [kept]: "keeps P (from_sum r)"
  by (simp add: from_sum_def keeps_ok keeps_throw split: sum.splits)

lemma keeps_call [kept]: "stays P f \<Longrightarrow> keeps P (call f)"
  unfolding keeps_def stays_def call_def by (fastforce split: prod.splits option.splits)

lemma keeps_then [kept]: "keeps P m \<Longrightarrow> (\<And>x. keeps P (f x)) \<Longrightarrow> keeps P (and_then m f)"
  unfolding keeps_def and_then_def by (fastforce split: prod.splits sum.splits)

lemma keeps_quietly [kept]: "keeps P m \<Longrightarrow> keeps P (quietly m)"
  by (simp add: keeps_def quietly_def)

lemma keeps_on_error [kept]: "keeps P m \<Longrightarrow> keeps P h \<Longrightarrow> keeps P (on_error m h)"
  unfolding keeps_def on_error_def by (fastforce split: prod.splits sum.splits)

lemma keeps_ensuring [kept]: "keeps P m \<Longrightarrow> keeps P k \<Longrightarrow> keeps P (ensuring m k)"
  unfolding keeps_def ensuring_def by (fastforce split: prod.splits sum.splits)

lemma keeps_for_each [kept]: "(\<And>x. keeps P (f x)) \<Longrightarrow> keeps P (for_each f xs)"
  by (induction xs) (simp_all add: keeps_ok keeps_then)

lemma keeps_if [kept]: "(b \<Longrightarrow> keeps P m) \<Longrightarrow> (\<not> b \<Longrightarrow> keeps P n) \<Longrightarrow> keeps P (if b then m else n)"
  by simp

lemma keeps_option [kept]: "keeps P m \<Longrightarrow> (\<And>x. keeps P (f x)) \<Longrightarrow> keeps P (case v of None \<Rightarrow> m | Some x \<Rightarrow> f x)"
  by (simp split: option.splits)

lemma keeps_pair [kept]: "(\<And>x y. keeps P (f x y)) \<Longrightarrow> keeps P (case v of (x, y) \<Rightarrow> f x y)"
  by (simp split: prod.splits)

lemma keeps_outer [kept]: "keeps P m \<Longrightarrow> keeps (either Q P) (outer m)"
  unfolding keeps_def outer_def either_def by (fastforce split: prod.splits)

lemma keeps_update [kept]: "(\<And>s. Q s \<Longrightarrow> Q (f s)) \<Longrightarrow> keeps (either Q P) (update f)"
  by (auto simp: keeps_def update_def either_def)

lemma keeps_local [kept]: "keeps P local"
  by (auto simp: keeps_def local_def)

text \<open>The same for the world alone.\<close>

abbreviation world :: "('w \<Rightarrow> bool) \<Rightarrow> 'w \<times> 's \<Rightarrow> bool" where
  "world P \<equiv> either (\<lambda>_. False) P"

lemma world_iff: "world P (w, s) \<longleftrightarrow> P w"
  by (simp add: either_def)

lemma keeps_world: "keeps (world P) m \<Longrightarrow> P w \<Longrightarrow> m (w, s) = (r, w', s') \<Longrightarrow> P w'"
  using keepsD [of "world P" m "(w, s)" r "(w', s')"] by (simp add: world_iff)

lemma keeps_fresh_budget [kept]: "keeps (world P) m \<Longrightarrow> keeps P (fresh_budget m)"
  by (rule keepsI) (auto simp: fresh_budget_def split: prod.splits dest: keeps_world)

lemma keeps_with_budget [kept]: "keeps (world P) m \<Longrightarrow> keeps (world P) (with_budget m)"
  by (rule keepsI) (auto simp: with_budget_def world_iff split: prod.splits dest: keeps_world)

lemma keeps_collect [kept]:
  assumes "stays P readNext"
  shows "keeps (world P) (collectBoundedDirectoryEntries readNext acc)"
proof -
  have "P w \<Longrightarrow> P (fst (snd (collectBoundedDirectoryEntries readNext acc (w, b))))" for w b
  proof (induction "MAX_ENUMERATED_ENTRIES - entries b" arbitrary: acc w b rule: less_induct)
    case less
    obtain q u where q: "readNext w = (q, u)" by (cases "readNext w")
    with less.prems assms have u: "P u" unfolding stays_def by (metis snd_conv)
    have "P (fst (snd (collectBoundedDirectoryEntries readNext (acc @ [e])
        (u, \<lparr>entries = Suc (entries b), nameBytes = nameBytes b + utf8_length (entry_name e)\<rparr>))))"
      if "entries b < MAX_ENUMERATED_ENTRIES" for e
      using that u by (intro less.hyps) simp_all
    with u show ?case
      by (simp add: collectBoundedDirectoryEntries.simps [of readNext acc w b] q split: option.splits)
  qed
  then show ?thesis unfolding keeps_def either_def by (simp add: split_beta)
qed

section \<open>A world that only the renaming changes\<close>

text \<open>Every call before a publication keeps \<open>P\<close>; the renaming and the two calls after it may not.\<close>

definition quiet :: "('w \<Rightarrow> bool) \<Rightarrow> 'w node \<Rightarrow> bool" where
  "quiet P N \<longleftrightarrow> (\<forall>p. stays P (lstat N p)) \<and> (\<forall>h. stays P (fstat N h)) \<and> (\<forall>h m. stays P (chmod N h m)) \<and>
     (\<forall>h. stays P (fsync N h)) \<and> (\<forall>h. stays P (close_handle N h)) \<and> (\<forall>p. stays P (open_directory N p)) \<and>
     (\<forall>p. stays P (open_file N p)) \<and> (\<forall>p. stays P (create_file N p)) \<and> (\<forall>h n k. stays P (read_at N h n k)) \<and>
     (\<forall>h b. stays P (write_file N h b)) \<and> (\<forall>p. stays P (realpath N p)) \<and> (\<forall>p. stays P (unlink N p)) \<and>
     (\<forall>p. stays P (opendir N p)) \<and> (\<forall>h. stays P (read_entry N h)) \<and> (\<forall>h. stays P (close_directory N h)) \<and>
     stays P (randomUUID N) \<and> stays P (afterDirectoryRead N) \<and> stays P (beforeHomeOpen N) \<and>
     stays P (beforeRename N) \<and> (\<forall>p. stays P (inspectAcl N p))"

text \<open>The calls that a scan makes: they keep \<open>P\<close> in a tree that nobody changes during the scan.\<close>

definition still :: "('w \<Rightarrow> bool) \<Rightarrow> 'w node \<Rightarrow> bool" where
  "still P N \<longleftrightarrow> (\<forall>p. stays P (lstat N p)) \<and> (\<forall>h. stays P (fstat N h)) \<and> (\<forall>h m. stays P (chmod N h m)) \<and>
     (\<forall>h. stays P (fsync N h)) \<and> (\<forall>h. stays P (close_handle N h)) \<and> (\<forall>p. stays P (open_directory N p)) \<and>
     (\<forall>p. stays P (open_file N p)) \<and> (\<forall>h n k. stays P (read_at N h n k)) \<and> (\<forall>p. stays P (realpath N p)) \<and>
     (\<forall>p. stays P (opendir N p)) \<and> (\<forall>h. stays P (read_entry N h)) \<and> (\<forall>h. stays P (close_directory N h)) \<and>
     stays P (beforeHomeOpen N) \<and> (\<forall>p. stays P (inspectAcl N p))"

lemma stillD [kept]:
  assumes "still P N"
  shows "stays P (lstat N p)" "stays P (fstat N h)" "stays P (chmod N h m)" "stays P (fsync N h)"
    "stays P (close_handle N h)" "stays P (open_directory N p)" "stays P (read_at N h n k)" "stays P (open_file N p)"
    "stays P (realpath N p)" "stays P (opendir N p)" "stays P (read_entry N h)" "stays P (close_directory N h)"
    "stays P (beforeHomeOpen N)" "stays P (inspectAcl N p)"
  using assms by (simp_all add: still_def)

lemma quiet_still: "quiet P N \<Longrightarrow> still P N"
  by (simp add: quiet_def still_def)

lemma quietD [kept]:
  assumes "quiet P N"
  shows "stays P (create_file N p)" "stays P (write_file N h b)" "stays P (unlink N p)" "stays P (randomUUID N)"
    "stays P (afterDirectoryRead N)" "stays P (beforeRename N)"
  using assms by (simp_all add: quiet_def)

lemma keeps_tighten [kept]: "still P N \<Longrightarrow> keeps P (tightenPinnedMode N safe x h opened path uid)"
  unfolding tightenPinnedMode_def Let_def by (intro kept)

lemma keeps_open_directory [kept]: "still P N \<Longrightarrow> keeps P (openPinnedDirectory N path uid dev)"
  unfolding openPinnedDirectory_def by (intro kept)

lemma keeps_read_loop:
  assumes "still P N"
  shows "P w \<Longrightarrow> P (snd (read_loop N h count acc w))"
proof (induction "count - length acc" arbitrary: acc w rule: less_induct)
  case less
  show ?case
  proof (cases "count \<le> length acc")
    case False
    obtain q u where q: "read_at N h (count - length acc) (length acc) w = (q, u)" by fastforce
    have u: "P u" using stillD(7) [OF assms] less.prems q unfolding stays_def by (metis snd_conv)
    have s: "count - length (acc @ take (count - length acc) chunk) < count - length acc" if "chunk \<noteq> []" for chunk
      using that False by (cases chunk) (simp_all add: min_def, linarith)
    show ?thesis
      using u less.hyps [OF s u] False
      by (simp add: read_loop.simps [of N h count acc w] q split: option.splits)
  qed (use less.prems in \<open>simp add: read_loop.simps [of N h count acc w]\<close>)
qed

lemma keeps_read_exact [kept]: "still P N \<Longrightarrow> keeps P (readExactBytes N h count)"
  unfolding readExactBytes_def by (intro kept) (simp add: keeps_def keeps_read_loop)

lemma keeps_within_budget [kept]: "(\<And>n. keeps P (reader n)) \<Longrightarrow> keeps P (readWithinAggregateBudget c r reader)"
  by (simp add: keeps_def readWithinAggregateBudget_def)

lemma keeps_read_file [kept]: "still P N \<Longrightarrow> keeps P (readPinnedFile N path uid dev rem)"
  unfolding readPinnedFile_def by (intro kept)

lemma keeps_read_directory [kept]: "still P N \<Longrightarrow> keeps (world P) (readBoundedDirectory N path)"
  unfolding readBoundedDirectory_def by (intro kept)

lemma keeps_verify_directory [kept]: "quiet P N \<Longrightarrow> keeps (world P) (verifyDirectory N d uid x t)"
  unfolding verifyDirectory_def Let_def by (intro kept) (simp_all add: quiet_still)

lemma keeps_verify_file [kept]: "still P N \<Longrightarrow> keeps P (verifyFile N f uid)"
  unfolding verifyFile_def Let_def by (intro kept)

lemma keeps_unlink [kept]: "quiet P N \<Longrightarrow> keeps P (safelyUnlinkTemporary N path fp)"
  unfolding safelyUnlinkTemporary_def by (intro kept) (simp_all add: quiet_still)

lemma keeps_close_scan [kept]: "still P N \<Longrightarrow> keeps P (closeScan N fs ds)"
  unfolding closeScan_def by (intro kept)

section \<open>The scan\<close>

lemma keeps_list_names [kept]: "still P N \<Longrightarrow> keeps (world P) (list_names N i path)"
  unfolding list_names_def Let_def by (intro kept)

lemma keeps_scan_file [kept]: "still P N \<Longrightarrow> keeps (world P) (scan_file N uid dev sp i path)"
  unfolding scan_file_def by (intro kept)

lemma keeps_visit [kept]:
  "still P N \<Longrightarrow> keeps (world P) (visit N uid dev sp n i dir)"
  "still P N \<Longrightarrow> keeps (world P) (visit_names N uid dev sp n i dir names)"
proof (induction N uid dev sp n i dir and N uid dev sp n i dir names rule: visit_visit_names.induct)
  case (2 N uid dev sp n i dir)
  then show ?case unfolding visit.simps by (intro kept)
next
  case (4 N uid dev sp n i dir name names)
  then show ?case unfolding visit_names.simps Let_def by (intro kept) simp_all
qed (simp_all add: keeps_throw keeps_ok)

lemma keeps_scan_body [kept]: "still P N \<Longrightarrow> keeps (world P) (scan_body N home uid)"
  unfolding scan_body_def Let_def by (intro kept)

lemma keeps_scan_tree [kept]:
  assumes "still P N"
  shows "keeps P (scanTree N home uid)"
proof (rule keepsI)
  fix w
  assume "P w"
  obtain r w' s where b: "scan_body N home uid (w, new_scan) = (r, w', s)" by (metis prod.collapse)
  have "P w'" using keeps_world [OF keeps_scan_body [OF assms] \<open>P w\<close> b] .
  moreover from this have "P (snd (closeScan N (sc_files s) (sc_directories s) w'))"
    using keeps_close_scan [OF assms] by (simp add: keeps_def)
  ultimately show "P (snd (scanTree N home uid w))"
    by (simp add: scanTree_def b split: sum.splits)
qed

section \<open>Publication\<close>

lemma keeps_publish: "keeps (either rp_publicationAttempted (\<lambda>_. False)) (publish N a uid tp h f)"
  unfolding publish_def by (intro kept) simp_all

lemma keeps_published:
  assumes "keeps (either Q (\<lambda>_. False)) m" and "\<And>s. Q (f s)"
  shows "keeps (either Q P) (and_then (update f) (\<lambda>_. m))"
proof (rule keepsI)
  fix x :: "'a \<times> 'b"
  obtain w s where x: "x = (w, s)" by (cases x)
  have "either Q (\<lambda>_. False) (snd (m (w, f s)))" using assms unfolding keeps_def either_def by simp
  then show "either Q P (snd (and_then (update f) (\<lambda>_. m) x))"
    by (auto simp: and_then_def update_def x either_def split: prod.splits)
qed

lemma keeps_replace_body: "quiet P N \<Longrightarrow> keeps (either rp_publicationAttempted P) (replace_body N a uid tp tn f)"
  unfolding replace_body_def by (intro kept keeps_published keeps_publish) (simp_all add: quiet_still)

lemma replace_failed_error: "fst (replace_failed N tp e s w) =
    Inl (if e = Internal Repair_outcome_uncertain then e
      else Internal (if rp_publicationAttempted s then Repair_outcome_uncertain else Repair_failed))"
  by (simp add: replace_failed_def and_then_def quietly_def ok_def throw_def safelyUnlinkTemporary_def
      split: option.splits prod.splits sum.splits)

lemma keeps_replace_failed: "quiet P N \<Longrightarrow> keeps P (replace_failed N tp e s)"
proof -
  assume q: "quiet P N"
  have "keeps P (\<lambda>w. case fstat N h w of (None, w') \<Rightarrow> (Inr None, w') | (Some m, w') \<Rightarrow> (Inr (Some (fingerprint m)), w'))" for h
  proof (rule keepsI)
    fix w
    assume "P w"
    then have "P (snd (fstat N h w))" using stillD(2) [OF quiet_still [OF q]] by (simp add: stays_def)
    then show "P (snd (case fstat N h w of (None, w') \<Rightarrow> (Inr None, w') | (Some m, w') \<Rightarrow> (Inr (Some (fingerprint m)), w')))"
      by (cases "fstat N h w") (simp split: option.splits)
  qed
  then show ?thesis unfolding replace_failed_def using q by (intro kept) (simp_all add: quiet_still)
qed

lemma replaceFile_error:
  assumes "quiet P N" and "P w" and "replaceFile N a uid (w, f) = (Inl e, w', f')"
  shows "e = Internal Repair_outcome_uncertain \<or> P w'"
proof (cases "randomUUID N w")
  case (Pair q u)
  have u: "P u" using quietD(4) [OF assms(1)] assms(2) Pair unfolding stays_def by (metis snd_conv)
  show ?thesis
  proof (cases q)
    case None
    with assms(3) Pair u show ?thesis by (simp add: replaceFile_def)
  next
    case (Some uuid)
    let ?name = "temporary_name uuid" and ?s = "\<lparr>rp_temporaryHandle = None, rp_temporaryFingerprint = None,
        rp_publicationAttempted = False, rp_file = f\<rparr>"
    let ?path = "path_join (d_path (f_parent f)) ?name"
    obtain r v s where b: "replace_body N a uid ?path ?name f (u, ?s) = (r, v, s)" by (metis prod.collapse)
    have k: "rp_publicationAttempted s \<or> P v"
      using keepsD [OF keeps_replace_body [OF assms(1)] _ b] u by (simp add: either_def)
    show ?thesis
    proof (cases r)
      case (Inr x)
      with assms(3) b show ?thesis by (simp add: replaceFile_def Pair Some Let_def)
    next
      case (Inl d)
      obtain y z where f: "replace_failed N ?path d s v = (y, z)" by (metis prod.collapse)
      have "y = Inl e" "w' = z" using assms(3) b f by (simp_all add: replaceFile_def Pair Some Let_def Inl)
      moreover have "y = Inl (if d = Internal Repair_outcome_uncertain then d
          else Internal (if rp_publicationAttempted s then Repair_outcome_uncertain else Repair_failed))"
        using replace_failed_error [of N ?path d s v] f by simp
      moreover have "P v \<Longrightarrow> P z" using keepsD [OF keeps_replace_failed [OF assms(1)] _ f] by blast
      ultimately show ?thesis using k by (auto split: if_splits)
    qed
  qed
qed

section \<open>The repair loop\<close>

text \<open>
  \<open>survives J m\<close>: \<open>J\<close> holds after \<open>m\<close>, unless \<open>m\<close> throws the error for an uncertain outcome.
\<close>

definition survives :: "('w \<Rightarrow> bool) \<Rightarrow> ('w, 'a) io \<Rightarrow> bool" where
  "survives J m \<longleftrightarrow> (\<forall>w. J w \<longrightarrow> fst (m w) = Inl (Internal Repair_outcome_uncertain) \<or> J (snd (m w)))"

lemma survives_keeps: "keeps J m \<Longrightarrow> survives J m"
  by (simp add: survives_def keeps_def)

lemma survives_then: "survives J m \<Longrightarrow> (\<And>x. survives J (f x)) \<Longrightarrow> survives J (and_then m f)"
  unfolding survives_def and_then_def by (fastforce split: prod.splits sum.splits)

lemma survives_for_each: "(\<And>x. survives J (f x)) \<Longrightarrow> survives J (for_each f xs)"
  by (induction xs) (simp_all add: survives_then survives_keeps keeps_ok)

definition changed :: "repairing \<Rightarrow> bool" where
  "changed s \<longleftrightarrow> (\<exists>p \<in> set (rw_proofs s). p_action p \<noteq> Unchanged)"

text \<open>A publication is recorded, in the flag and in the proofs; without one the world still has \<open>P\<close>.\<close>

definition recorded :: "('w \<Rightarrow> bool) \<Rightarrow> 'w \<times> repairing \<Rightarrow> bool" where
  "recorded P = (\<lambda>(w, s). (rw_published s \<longleftrightarrow> changed s) \<and> (rw_published s \<or> P w))"

lemma recorded_outer: "keeps P m \<Longrightarrow> keeps (recorded P) (outer m)"
  unfolding keeps_def outer_def recorded_def by (fastforce split: prod.splits)

lemma recorded_push: "p_action p = Unchanged \<Longrightarrow> keeps (recorded P) (update (\<lambda>s. s\<lparr>rw_proofs := rw_proofs s @ [p]\<rparr>))"
  by (auto simp: keeps_def update_def recorded_def changed_def)

lemma survives_replace_at:
  assumes "quiet P N" and "p_action p \<noteq> Unchanged"
  shows "survives (recorded P) (and_then (replace_at N a uid i) (\<lambda>_. update (\<lambda>s. s\<lparr>rw_proofs := rw_proofs s @ [p]\<rparr>)))"
    (is "survives _ ?m")
  unfolding survives_def
proof (intro allI impI)
  fix ws :: "'a \<times> repairing"
  obtain w s where ws: "ws = (w, s)" by (cases ws)
  assume "recorded P ws"
  then have J: "rw_published s \<longleftrightarrow> changed s" "rw_published s \<or> P w" by (auto simp: recorded_def ws)
  obtain r v f where r: "replaceFile N a uid (w, rw_files s ! i) = (r, v, f)" by (metis prod.collapse)
  show "fst (?m ws) = Inl (Internal Repair_outcome_uncertain) \<or> recorded P (snd (?m ws))"
  proof (cases r)
    case (Inl e)
    then have "P w \<Longrightarrow> e = Internal Repair_outcome_uncertain \<or> P v" using replaceFile_error [OF assms(1) _ r [unfolded Inl]] by blast
    with J Inl r show ?thesis by (auto simp: ws and_then_def replace_at_def recorded_def changed_def)
  next
    case (Inr x)
    with assms(2) r show ?thesis by (simp add: ws and_then_def replace_at_def recorded_def changed_def update_def)
  qed
qed

lemma and_then_assoc: "and_then (and_then m f) g = and_then m (\<lambda>x. and_then (f x) g)"
  by (rule ext) (simp add: and_then_def split: prod.splits sum.splits)

lemma survives_repair_file:
  assumes "quiet P N"
  shows "survives (recorded P) (repair_file N uid x)"
proof (cases x)
  case (Pair i a)
  show ?thesis
  proof (cases "action a = Unchanged")
    case True
    then show ?thesis
      unfolding repair_file_def Pair Let_def prod.case
      by (simp only: if_True simp_thms)
        (intro survives_then survives_keeps recorded_outer recorded_push kept quietD quiet_still [OF assms] assms, simp)
  next
    case False
    then show ?thesis
      unfolding repair_file_def Pair Let_def prod.case
      by (simp only: if_False simp_thms and_then_assoc)
        (intro survives_then [of _ local] survives_then [of _ "from_sum _"] survives_then [of _ "outer _"]
          survives_replace_at survives_keeps recorded_outer kept assms, simp)
  qed
qed

lemma survives_repair_scanned:
  assumes "quiet P N"
  shows "survives (recorded P) (repair_scanned N request uid scan)"
  unfolding repair_scanned_def repair_analyzed_def verify_directories_def
  by (intro survives_then survives_for_each survives_repair_file assms)
    (intro survives_keeps recorded_outer kept quiet_still [OF assms] assms)+

lemma sort_by_set: "set (sort_by le xs) = set xs"
proof -
  have ins: "set (insert_by le x ys) = insert x (set ys)" for x ys by (induction ys) auto
  show ?thesis unfolding sort_by_def by (induction xs) (simp_all add: ins)
qed

section \<open>The account of a repair\<close>

lemma and_then_Inr: "and_then m f w = (Inr y, w') \<longleftrightarrow> (\<exists>x v. m w = (Inr x, v) \<and> f x v = (Inr y, w'))"
  by (auto simp: and_then_def split: prod.splits sum.splits)

lemma outer_iff: "outer m (w, s) = (r, w', s') \<longleftrightarrow> m w = (r, w') \<and> s' = s"
  by (auto simp: outer_def split: prod.splits)

lemma check_Inr: "check b c w = (Inr u, w') \<longleftrightarrow> b \<and> w' = w"
  by (auto simp: check_def ok_def throw_def)

lemma from_sum_Inr: "from_sum q w = (Inr u, w') \<longleftrightarrow> q = Inr u \<and> w' = w"
  by (auto simp: from_sum_def ok_def throw_def split: sum.splits)

lemma local_iff: "local ws = (r, ws') \<longleftrightarrow> r = Inr (snd ws) \<and> ws' = ws"
  by (auto simp: local_def split: prod.splits)

lemma update_iff: "update f (w, s) = (r, w', s') \<longleftrightarrow> r = Inr () \<and> w' = w \<and> s' = f s"
  by (auto simp: update_def)

lemma ok_iff: "ok x w = (Inr y, w') \<longleftrightarrow> y = x \<and> w' = w"
  by (auto simp: ok_def)

lemmas run_simps = and_then_Inr outer_iff check_Inr from_sum_Inr local_iff update_iff ok_iff

text \<open>What a proof takes from a scanned file, and the proof that follows from it.\<close>

definition content :: "pinned_file \<Rightarrow> byte list \<times> jsstr" where
  "content f = (f_bytes f, f_relativePath f)"

definition proof_of :: "'w node \<Rightarrow> byte list \<times> jsstr \<Rightarrow> rollout_analysis \<Rightarrow> file_proof" where
  "proof_of N c a = \<lparr>p_action = action a,
     p_after = \<lparr>ps_sha256 = sha256 N (after a), ps_size = length (after a)\<rparr>,
     p_before = \<lparr>ps_sha256 = sha256 N (fst c), ps_size = length (fst c)\<rparr>,
     p_relativePath = snd c, p_removedBytes = removedBytes a\<rparr>"

lemma replaceFile_content:
  assumes "replaceFile N a uid (w, f) = (r, w', f')"
  shows "content f' = content f"
proof -
  have k: "content (rp_file s') = content f"
    if "content (rp_file s) = content f" and b: "replace_body N a uid tp tn f (v, s) = (q, v', s')" for tp tn v s q v' s'
  proof -
    have "keeps (either (\<lambda>s. content (rp_file s) = content f) (\<lambda>_. False)) (replace_body N a uid tp tn f)"
      unfolding replace_body_def publish_def by (intro kept) (simp_all add: content_def)
    from keepsD [OF this _ b] that(1) show ?thesis by (simp add: either_def)
  qed
  show ?thesis
    using assms by (auto simp: replaceFile_def Let_def split: prod.splits option.splits sum.splits dest: k [rotated])
qed

lemma repair_file_Inr:
  assumes "repair_file N uid (i, a) (w, s) = (Inr u, w', s')" and "i < length (rw_files s)"
  shows "rw_proofs s' = rw_proofs s @ [proof_of N (content (rw_files s ! i)) a] \<and>
    map content (rw_files s') = map content (rw_files s)"
proof -
  let ?f = "rw_files s ! i"
  obtain pa pb v s1 where p: "proofState (sha256 N) (f_bytes ?f) = Inr pb" "proofState (sha256 N) (after a) = Inr pa"
    and m: "(if action a = Unchanged then outer (verifyFile N ?f uid)
        else and_then (outer (fresh_budget (verifyDirectory N (f_parent ?f) uid None False))) (\<lambda>_. replace_at N a uid i))
        (w, s) = (Inr (), v, s1)"
    and s': "s' = s1\<lparr>rw_proofs := rw_proofs s1 @ [\<lparr>p_action = action a, p_after = pa, p_before = pb,
        p_relativePath = f_relativePath ?f, p_removedBytes = removedBytes a\<rparr>]\<rparr>"
    using assms(1) by (auto simp: repair_file_def Let_def run_simps)
  have "rw_proofs s1 = rw_proofs s \<and> map content (rw_files s1) = map content (rw_files s)"
  proof (cases "action a = Unchanged")
    case True
    with m show ?thesis by (simp add: run_simps)
  next
    case False
    then obtain x y where r: "replace_at N a uid i (x, s) = (Inr (), v, s1)" using m by (auto simp: run_simps)
    obtain q z f where f: "replaceFile N a uid (x, ?f) = (q, z, f)" by (metis prod.collapse)
    have "s1 = s\<lparr>rw_files := (rw_files s)[i := f], rw_published := True\<rparr>"
      using r f by (auto simp: replace_at_def split: sum.splits)
    moreover have "map content ((rw_files s)[i := f]) = map content (rw_files s)"
      using replaceFile_content [OF f] by (metis list_update_id map_update)
    ultimately show ?thesis by simp
  qed
  moreover have "pb = \<lparr>ps_sha256 = sha256 N (f_bytes ?f), ps_size = length (f_bytes ?f)\<rparr>"
    "pa = \<lparr>ps_sha256 = sha256 N (after a), ps_size = length (after a)\<rparr>"
    using p by (auto simp: proofState_def)
  ultimately show ?thesis by (simp add: s' proof_of_def content_def)
qed

lemma repair_loop_Inr:
  "for_each (repair_file N uid) (enumerate i as) (w, s) = (Inr u, w', s') \<Longrightarrow> length (rw_files s) = i + length as \<Longrightarrow>
     rw_proofs s' = rw_proofs s @ map2 (proof_of N) (drop i (map content (rw_files s))) as \<and>
     map content (rw_files s') = map content (rw_files s)"
proof (induction as arbitrary: i w s)
  case Nil
  then show ?case by (simp add: run_simps)
next
  case (Cons a as)
  obtain v s1 where r: "repair_file N uid (i, a) (w, s) = (Inr (), v, s1)"
    and rest: "for_each (repair_file N uid) (enumerate (Suc i) as) (v, s1) = (Inr u, w', s')"
    using Cons.prems(1) by (auto simp: run_simps)
  have i: "i < length (rw_files s)" using Cons.prems(2) by simp
  note one = repair_file_Inr [OF r i]
  have len: "length (rw_files s1) = Suc i + length as"
    using arg_cong [OF conjunct2 [OF one], of length] Cons.prems(2) by simp
  have "drop i (map content (rw_files s)) = content (rw_files s ! i) # drop (Suc i) (map content (rw_files s))"
    using i by (simp add: Cons_nth_drop_Suc [symmetric] drop_map)
  with Cons.IH [OF rest len] one show ?case by simp
qed

lemma analyze_all_length: "analyze_all fs = Inr as \<Longrightarrow> list_all2 (\<lambda>f a. analyzeBytes (f_bytes f) = Inr a) fs as"
  by (induction fs arbitrary: as) auto

lemma repair_scanned_Inr:
  assumes "repair_scanned N request uid scan (w, \<lparr>rw_files = sc_files scan, rw_published = False, rw_proofs = []\<rparr>) = (Inr r, w', s)"
  obtains as where "analyze_all (sc_files scan) = Inr as" "rollout_set_ok (rootSessionId request) as"
    "rw_proofs s = map2 (proof_of N) (map content (sc_files scan)) as"
    "res_files r = sort_by (\<lambda>p q. compareNames N (p_relativePath p) (p_relativePath q)) (rw_proofs s)"
    "res_rootSessionId r = rootSessionId request"
proof -
  let ?s = "\<lparr>rw_files = sc_files scan, rw_published = False, rw_proofs = []\<rparr>"
  obtain as v v' s1 u where as: "analyze_all (sc_files scan) = Inr as" "rollout_set_ok (rootSessionId request) as"
    and loop: "for_each (repair_file N uid) (enumerate 0 as) (v, ?s) = (Inr u, v', s)"
    and r: "r = \<lparr>res_codexBinarySha256 = codexBinarySha256 request, res_codexVersion = lit PINNED_CODEX_VERSION,
       res_sourceAnalysisCommit = lit PINNED_SOURCE_COMMIT,
       res_files = sort_by (\<lambda>p q. compareNames N (p_relativePath p) (p_relativePath q)) (rw_proofs s),
       res_rootSessionId = rootSessionId request\<rparr>"
    using assms by (auto simp: repair_scanned_def repair_analyzed_def run_simps)
  have "length (rw_files ?s) = 0 + length as" using list_all2_lengthD [OF analyze_all_length [OF as(1)]] by simp
  from repair_loop_Inr [OF loop this] have "rw_proofs s = map2 (proof_of N) (map content (sc_files scan)) as" by simp
  with as r show thesis by (intro that) simp_all
qed

section \<open>Bounds of the scan\<close>

definition bounded_scan :: "'w \<times> scan \<Rightarrow> bool" where
  "bounded_scan = (\<lambda>(w, s). length (sc_files s) \<le> MAX_ROLLOUT_FILES \<and>
     sc_totalBytes s = sum_list (map (\<lambda>f. length (f_bytes f)) (sc_files s)) \<and> int (sc_totalBytes s) \<le> MAX_TOTAL_BYTES)"

text \<open>\<open>confirms J m\<close>: \<open>J\<close> holds after \<open>m\<close>, if \<open>m\<close> returns.\<close>

definition confirms :: "('w \<Rightarrow> bool) \<Rightarrow> ('w, 'a) io \<Rightarrow> bool" where
  "confirms J m \<longleftrightarrow> (\<forall>w x w'. J w \<longrightarrow> m w = (Inr x, w') \<longrightarrow> J w')"

named_theorems confirmed

lemma confirms_then [confirmed]: "confirms J m \<Longrightarrow> (\<And>x. confirms J (f x)) \<Longrightarrow> confirms J (and_then m f)"
  unfolding confirms_def and_then_Inr by blast

lemma confirms_simple [confirmed]: "confirms J (check b c)" "confirms J local" "confirms J (from_sum r)" "confirms J (ok x)"
  "confirms J (throw e)"
  by (auto simp: confirms_def run_simps throw_def)

lemma confirms_if [confirmed]: "(b \<Longrightarrow> confirms J m) \<Longrightarrow> (\<not> b \<Longrightarrow> confirms J n) \<Longrightarrow> confirms J (if b then m else n)"
  by simp

lemma confirms_outer [confirmed]: "confirms bounded_scan (outer m)"
  by (auto simp: confirms_def outer_iff bounded_scan_def)

lemma confirms_directories [confirmed]: "confirms bounded_scan (update (\<lambda>s. s\<lparr>sc_directories := g s\<rparr>))"
  by (auto simp: confirms_def update_iff bounded_scan_def)

lemma confirms_with_budget [confirmed]: "confirms bounded_scan (with_budget m)"
  by (auto simp: confirms_def with_budget_def bounded_scan_def split: prod.splits)

lemma confirms_scan_file [confirmed]: "confirms bounded_scan (scan_file N uid dev sp i path)"
  unfolding confirms_def
proof (intro allI impI)
  fix ws x ws'
  assume "bounded_scan ws" and run: "scan_file N uid dev sp i path ws = (Inr x, ws')"
  obtain w s where ws: "ws = (w, s)" by (cases ws)
  obtain w' s' where ws': "ws' = (w', s')" by (cases ws')
  show "bounded_scan ws'"
    using \<open>bounded_scan ws\<close> run unfolding ws ws'
    by (auto simp: scan_file_def run_simps bounded_scan_def)
qed

lemma confirms_visit [confirmed]:
  "confirms bounded_scan (visit N uid dev sp n i dir)" "confirms bounded_scan (visit_names N uid dev sp n i dir names)"
proof (induction N uid dev sp n i dir and N uid dev sp n i dir names rule: visit_visit_names.induct)
  case (2 N uid dev sp n i dir)
  then show ?case unfolding visit.simps list_names_def Let_def by (intro confirmed)
next
  case (4 N uid dev sp n i dir name names)
  then show ?case unfolding visit_names.simps Let_def by (intro confirmed) simp_all
qed (simp_all add: confirms_simple)

lemma scanTree_bounds:
  assumes "scanTree N home uid w = (Inr s, w')"
  shows "sc_files s \<noteq> [] \<and> length (sc_files s) \<le> MAX_ROLLOUT_FILES \<and>
    int (sum_list (map (\<lambda>f. length (f_bytes f)) (sc_files s))) \<le> MAX_TOTAL_BYTES"
proof -
  obtain u where b: "scan_body N home uid (w, new_scan) = (Inr u, w', s)"
    using assms by (auto simp: scanTree_def split: prod.splits sum.splits)
  have "confirms bounded_scan (scan_body N home uid)"
    unfolding scan_body_def Let_def by (intro confirmed)
  moreover have "bounded_scan (w, new_scan)" by (simp add: bounded_scan_def new_scan_def MAX_TOTAL_BYTES_def)
  ultimately have "bounded_scan (w', s)" using b unfolding confirms_def by blast
  moreover have "sc_files s \<noteq> []" using b by (auto simp: scan_body_def Let_def run_simps)
  ultimately show ?thesis by (auto simp: bounded_scan_def)
qed

section \<open>What a scan has seen\<close>

text \<open>
  The statements are about the answers the file system gave during the scan, in worlds where \<open>P\<close> held.
  \<open>lists\<close>: the directory was read to its end and has these names. \<open>entry_scanned\<close>: an entry is a
  directory that was scanned as well, or a rollout file that was taken.
\<close>

definition lists :: "('w \<Rightarrow> bool) \<Rightarrow> 'w node \<Rightarrow> jsstr \<Rightarrow> jsstr list \<Rightarrow> bool" where
  "lists P N path names \<longleftrightarrow> (\<exists>w b es w' b'. P w \<and> readBoundedDirectory N path (w, b) = (Inr es, w', b') \<and>
     names = sort_names N (map entry_name es))"

definition entry_scanned :: "('w \<Rightarrow> bool) \<Rightarrow> 'w node \<Rightarrow> scan \<Rightarrow> jsstr \<Rightarrow> jsstr \<Rightarrow> bool" where
  "entry_scanned P N s name path \<longleftrightarrow> (\<exists>w m w'. P w \<and> lstat N path w = (Some m, w') \<and>
     (m_type m = Directory_type \<and> (\<exists>d \<in> set (tl (sc_directories s)). d_path d = path) \<or>
      m_type m = Regular_type \<and> ends_with name JSONL_SUFFIX \<and> (\<exists>f \<in> set (sc_files s). f_path f = path)))"

definition directory_scanned :: "('w \<Rightarrow> bool) \<Rightarrow> 'w node \<Rightarrow> scan \<Rightarrow> pinned_dir \<Rightarrow> bool" where
  "directory_scanned P N s d \<longleftrightarrow> (\<exists>names. d_entries d = Some names \<and> lists P N (d_path d) names \<and>
     (\<forall>name \<in> set names. entry_scanned P N s name (path_join (d_path d) name)))"

definition file_scanned :: "('w \<Rightarrow> bool) \<Rightarrow> 'w node \<Rightarrow> int \<Rightarrow> jsstr \<Rightarrow> scan \<Rightarrow> pinned_file \<Rightarrow> bool" where
  "file_scanned P N uid sessionsPath s f \<longleftrightarrow> f_parent f \<in> set (tl (sc_directories s)) \<and>
     (\<exists>names name. d_entries (f_parent f) = Some names \<and> name \<in> set names \<and>
        f_path f = path_join (d_path (f_parent f)) name) \<and>
     relativeRolloutPath sessionsPath (f_path f) = Inr (f_relativePath f) \<and>
     (\<exists>w dev left b w'. P w \<and> readPinnedFile N (f_path f) uid dev left w = (Inr b, w') \<and> f_bytes f = b_bytes b)"

text \<open>
  The scan of a home: its first directories are the home, by its real path, and the sessions directory,
  the only one below the home that is looked at; every directory but the home was read and each of its
  entries was taken, and every file comes from an entry of its parent and was read from the disk.
\<close>

definition scan_complete :: "('w \<Rightarrow> bool) \<Rightarrow> 'w node \<Rightarrow> jsstr \<Rightarrow> int \<Rightarrow> scan \<Rightarrow> bool" where
  "scan_complete P N home uid s \<longleftrightarrow> (\<exists>h sessions below. sc_directories s = h # sessions # below \<and>
     (\<exists>w w'. P w \<and> realpath N home w = (Some (d_path h), w')) \<and>
     d_path sessions = path_join (d_path h) (js ''sessions'') \<and>
     (\<forall>d \<in> set (sessions # below). directory_scanned P N s d) \<and>
     (\<forall>f \<in> set (sc_files s). file_scanned P N uid (d_path sessions) s f))"

text \<open>\<open>grown\<close>: the scan went from \<open>s\<close>, its directories updated to \<open>ds\<close>, to \<open>t\<close>.\<close>

definition grown :: "('w \<Rightarrow> bool) \<Rightarrow> 'w node \<Rightarrow> int \<Rightarrow> jsstr \<Rightarrow> pinned_dir list \<Rightarrow> scan \<Rightarrow> scan \<Rightarrow> bool" where
  "grown P N uid sp ds s t \<longleftrightarrow> (\<exists>new fs. sc_directories t = ds @ new \<and> sc_files t = sc_files s @ fs \<and>
     (\<forall>d \<in> set new. directory_scanned P N t d) \<and> (\<forall>f \<in> set fs. file_scanned P N uid sp t f))"

lemma entry_scanned_mono:
  assumes "entry_scanned P N s name path" and "d_path ` set (tl (sc_directories s)) \<subseteq> d_path ` set (tl (sc_directories t))"
    and "set (sc_files s) \<subseteq> set (sc_files t)"
  shows "entry_scanned P N t name path"
  using assms unfolding entry_scanned_def by (fastforce simp: image_subset_iff image_iff)

lemma directory_scanned_mono:
  assumes "directory_scanned P N s d" and "d_path ` set (tl (sc_directories s)) \<subseteq> d_path ` set (tl (sc_directories t))"
    and "set (sc_files s) \<subseteq> set (sc_files t)"
  shows "directory_scanned P N t d"
  using assms(1) entry_scanned_mono [OF _ assms(2,3)] unfolding directory_scanned_def by blast

lemma file_scanned_mono:
  "file_scanned P N uid sp s f \<Longrightarrow> set (tl (sc_directories s)) \<subseteq> set (tl (sc_directories t)) \<Longrightarrow> file_scanned P N uid sp t f"
  unfolding file_scanned_def by blast

lemma grown_refl: "grown P N uid sp (sc_directories s) s s"
  by (simp add: grown_def)

lemma grown_trans:
  assumes "grown P N uid sp ds s t" and "grown P N uid sp (sc_directories t) t u" and "ds \<noteq> []"
  shows "grown P N uid sp ds s u"
proof -
  obtain new fs where t: "sc_directories t = ds @ new" "sc_files t = sc_files s @ fs"
    "\<forall>d \<in> set new. directory_scanned P N t d" "\<forall>f \<in> set fs. file_scanned P N uid sp t f"
    using assms(1) unfolding grown_def by blast
  obtain new2 fs2 where u: "sc_directories u = sc_directories t @ new2" "sc_files u = sc_files t @ fs2"
    "\<forall>d \<in> set new2. directory_scanned P N u d" "\<forall>f \<in> set fs2. file_scanned P N uid sp u f"
    using assms(2) unfolding grown_def by blast
  have sub: "set (tl (sc_directories t)) \<subseteq> set (tl (sc_directories u))" "set (sc_files t) \<subseteq> set (sc_files u)"
    using assms(3) by (auto simp: t(1) u(1,2))
  then have "directory_scanned P N u d" if "d \<in> set new" for d
    using directory_scanned_mono [of P N t d u] t(3) that by blast
  moreover have "file_scanned P N uid sp u f" if "f \<in> set fs" for f
    using file_scanned_mono [of P N uid sp t f u] t(4) that sub(1) by blast
  ultimately show ?thesis
    using t(1,2) u unfolding grown_def by (intro exI [of _ "new @ new2"] exI [of _ "fs @ fs2"]) auto
qed

lemma call_Inr: "call f w = (Inr x, w') \<longleftrightarrow> f w = (Some x, w')"
  by (auto simp: call_def split: prod.splits option.splits)

lemma on_error_Inr: "on_error m h w = (Inr x, w') \<longleftrightarrow> m w = (Inr x, w')"
  by (auto simp: on_error_def split: prod.splits sum.splits)

lemma openPinnedDirectory_path:
  "openPinnedDirectory N path uid dev w = (Inr d, w') \<Longrightarrow> d_path d = path"
  by (auto simp: openPinnedDirectory_def run_simps on_error_Inr)

text \<open>Reading one directory and taking one file.\<close>

lemma listsI:
  "P w \<Longrightarrow> readBoundedDirectory N path (w, b) = (Inr es, w', b') \<Longrightarrow> lists P N path (sort_names N (map entry_name es))"
  unfolding lists_def by blast

lemma list_names_lists:
  assumes "list_names N i path (w, s) = (Inr names, w', s')" and "still P N" and "P w"
  shows "P w'" and "lists P N path names" and "sc_files s' = sc_files s"
    and "sc_directories s' = (sc_directories s)[i := (sc_directories s ! i)\<lparr>d_entries := Some names\<rparr>]"
proof -
  show "P w'" by (rule keeps_world [OF keeps_list_names [OF assms(2)] assms(3,1)])
  show "lists P N path names" "sc_files s' = sc_files s"
    "sc_directories s' = (sc_directories s)[i := (sc_directories s ! i)\<lparr>d_entries := Some names\<rparr>]"
    using assms(1,3)
    by (auto simp: list_names_def Let_def run_simps with_budget_def split: prod.splits intro: listsI)
qed

lemma scan_file_grown:
  assumes run: "scan_file N uid dev sp i path (w, s) = (Inr u, w', s')" and still: "still P N" and "P w"
    and i: "0 < i" "i < length (sc_directories s)"
    and name: "d_entries (sc_directories s ! i) = Some names" "name \<in> set names"
      "path = path_join (d_path (sc_directories s ! i)) name"
  shows "P w' \<and> grown P N uid sp (sc_directories s) s s' \<and> (\<exists>f \<in> set (sc_files s'). f_path f = path)"
proof -
  have "P w'" by (rule keeps_world [OF keeps_scan_file [OF still] \<open>P w\<close> run])
  obtain b rel v where read: "readPinnedFile N path uid dev (MAX_TOTAL_BYTES - int (sc_totalBytes s)) w = (Inr b, v)"
    and rel: "relativeRolloutPath sp path = Inr rel" and s': "sc_directories s' = sc_directories s"
      "sc_files s' = sc_files s @ [\<lparr>f_bytes = b_bytes b, f_fingerprint = b_fingerprint b, f_handle = Some (b_handle b),
         f_path = path, f_parent = sc_directories s ! i, f_relativePath = rel\<rparr>]"
    using run by (auto simp: scan_file_def run_simps)
  have "sc_directories s ! i = tl (sc_directories s) ! (i - 1)" "i - 1 < length (tl (sc_directories s))"
    using i by (simp_all add: nth_tl)
  then have "sc_directories s ! i \<in> set (tl (sc_directories s))" by (metis nth_mem)
  moreover have "\<exists>w dev left b' w'. P w \<and> readPinnedFile N path uid dev left w = (Inr b', w') \<and> b_bytes b = b_bytes b'"
    using read \<open>P w\<close> by blast
  moreover have "\<exists>names' name'. d_entries (sc_directories s ! i) = Some names' \<and> name' \<in> set names' \<and>
      path = path_join (d_path (sc_directories s ! i)) name'" using name by blast
  ultimately have "\<forall>f \<in> set [\<lparr>f_bytes = b_bytes b, f_fingerprint = b_fingerprint b, f_handle = Some (b_handle b),
         f_path = path, f_parent = sc_directories s ! i, f_relativePath = rel\<rparr>]. file_scanned P N uid sp s' f"
    using rel unfolding file_scanned_def s'(1) by simp
  with s' \<open>P w'\<close> show ?thesis unfolding grown_def by simp
qed

text \<open>A child directory that was appended and visited.\<close>

lemma child_grown:
  assumes "lstat N path w = (Some m, v)" and "m_type m = Directory_type" and "P w"
    and ne: "sc_directories s \<noteq> []" and child: "d_path child = path"
    and g: "P x \<and> (\<exists>es. grown P N uid sp (sc_directories s @ [child\<lparr>d_entries := Some es\<rparr>])
        (s\<lparr>sc_directories := sc_directories s @ [child]\<rparr>) t \<and>
      directory_scanned P N t (child\<lparr>d_entries := Some es\<rparr>))"
  shows "P x \<and> grown P N uid sp (sc_directories s) s t \<and> entry_scanned P N t name path"
proof -
  obtain es new fs where t: "sc_directories t = sc_directories s @ child\<lparr>d_entries := Some es\<rparr> # new"
    "sc_files t = sc_files s @ fs" "\<forall>d \<in> set new. directory_scanned P N t d" "\<forall>f \<in> set fs. file_scanned P N uid sp t f"
    "directory_scanned P N t (child\<lparr>d_entries := Some es\<rparr>)"
    using g unfolding grown_def by auto
  then have "grown P N uid sp (sc_directories s) s t" unfolding grown_def by simp
  moreover have "\<exists>d \<in> set (tl (sc_directories t)). d_path d = path"
    using ne child by (cases "sc_directories s") (auto simp: t(1))
  ultimately show ?thesis using g assms(1-3) unfolding entry_scanned_def by blast
qed

text \<open>
  The tree below a directory: a visit of the directory at index \<open>i\<close> records its names there and scans
  everything below it, and the loop over its names scans each of them.
\<close>

lemma visit_grown:
  shows "visit N uid dev sp n i dir (w, s) = (Inr u, w', s') \<Longrightarrow> still P N \<Longrightarrow> P w \<Longrightarrow> 0 < i \<Longrightarrow>
      i < length (sc_directories s) \<Longrightarrow> d_path (sc_directories s ! i) = dir \<Longrightarrow>
      P w' \<and> (\<exists>names. let ds = (sc_directories s)[i := (sc_directories s ! i)\<lparr>d_entries := Some names\<rparr>] in
        grown P N uid sp ds s s' \<and> directory_scanned P N s' (ds ! i))"
    and "visit_names N uid dev sp n i dir names (w, s) = (Inr u, w', s') \<Longrightarrow> still P N \<Longrightarrow> P w \<Longrightarrow> 0 < i \<Longrightarrow>
      i < length (sc_directories s) \<Longrightarrow> d_path (sc_directories s ! i) = dir \<Longrightarrow>
      d_entries (sc_directories s ! i) = Some all \<Longrightarrow> set names \<subseteq> set all \<Longrightarrow>
      P w' \<and> grown P N uid sp (sc_directories s) s s' \<and>
      (\<forall>name \<in> set names. entry_scanned P N s' name (path_join dir name))"
proof (induction N uid dev sp n i dir and N uid dev sp n i dir names
    arbitrary: w s u w' s' and w s u w' s' all rule: visit_visit_names.induct)
  case (1 N uid dev sp i dir)
  then show ?case by (simp add: throw_def)
next
  case (2 N uid dev sp n i dir)
  obtain names v t where l: "list_names N i dir (w, s) = (Inr names, v, t)"
    and r: "visit_names N uid dev sp n i dir names (v, t) = (Inr u, w', s')"
    using "2.prems"(1) by (auto simp: run_simps)
  note ls = list_names_lists [OF l "2.prems"(2,3)]
  let ?d = "(sc_directories s ! i)\<lparr>d_entries := Some names\<rparr>"
  have t: "sc_directories t ! i = ?d" "length (sc_directories t) = length (sc_directories s)"
    using ls(4) "2.prems"(5) by simp_all
  have "P w' \<and> grown P N uid sp (sc_directories t) t s' \<and>
      (\<forall>name \<in> set names. entry_scanned P N s' name (path_join dir name))"
    by (rule "2.IH" [OF r _ ls(1), of names]) (use "2.prems"(2,4,5,6) t in simp_all)
  moreover from this have "directory_scanned P N s' ?d"
    using ls(2) "2.prems"(6) by (auto simp: directory_scanned_def)
  ultimately show ?case
    using ls(3,4) t(1) by (intro conjI exI [of _ names]) (simp_all add: Let_def grown_def)
next
  case (3 N uid dev sp n i dir)
  then show ?case by (auto simp: run_simps grown_refl)
next
  case (4 N uid dev sp n i dir name names)
  let ?path = "path_join dir name"
  obtain m v x t where m: "lstat N ?path w = (Some m, v)" and ty: "m_type m \<noteq> Symlink_type"
    and entry: "(if m_type m = Directory_type then
           and_then local (\<lambda>s.
           and_then (check (length (sc_directories s) < MAX_DIRECTORIES) Rollout_set_invalid) (\<lambda>_.
           and_then (outer (openPinnedDirectory N ?path uid (Some dev))) (\<lambda>child.
           and_then (update (\<lambda>s. s\<lparr>sc_directories := sc_directories s @ [child]\<rparr>)) (\<lambda>_.
           visit N uid dev sp n (length (sc_directories s)) ?path))))
         else
           and_then (check (m_type m = Regular_type) Unsupported_rollout_object) (\<lambda>_.
           and_then (check (ends_with name JSONL_SUFFIX) Unsupported_rollout_object) (\<lambda>_.
           scan_file N uid dev sp i ?path))) (v, s) = (Inr (), x, t)"
    and rest: "visit_names N uid dev sp n i dir names (x, t) = (Inr u, w', s')"
    using "4.prems"(1) by (auto simp: Let_def run_simps call_Inr simp del: if_split)
  have v: "P v" using stillD(1) [OF "4.prems"(2)] "4.prems"(3) m unfolding stays_def by (metis snd_conv)
  have e: "P x \<and> grown P N uid sp (sc_directories s) s t \<and> entry_scanned P N t name ?path"
  proof (cases "m_type m = Directory_type")
    case True
    obtain child v2 where c: "openPinnedDirectory N ?path uid (Some dev) v = (Inr child, v2)"
      and r: "visit N uid dev sp n (length (sc_directories s)) ?path (v2, s\<lparr>sc_directories := sc_directories s @ [child]\<rparr>) =
        (Inr (), x, t)"
      using entry True by (auto simp: run_simps)
    have v2: "P v2" by (rule keepsD [OF keeps_open_directory [OF "4.prems"(2)] v c])
    have ne: "sc_directories s \<noteq> []" using "4.prems"(5) by auto
    show ?thesis
      by (rule child_grown [of N _ w m v P s child, OF m True "4.prems"(3) ne openPinnedDirectory_path [OF c]])
        (use "4.IH"(1) [OF refl True r "4.prems"(2) v2] ne openPinnedDirectory_path [OF c] in \<open>simp add: Let_def\<close>)
  next
    case False
    then have r: "scan_file N uid dev sp i ?path (v, s) = (Inr (), x, t)" and reg: "m_type m = Regular_type" "ends_with name JSONL_SUFFIX"
      using entry by (auto simp: run_simps)
    have "P x \<and> grown P N uid sp (sc_directories s) s t \<and> (\<exists>f \<in> set (sc_files t). f_path f = ?path)"
      by (rule scan_file_grown [OF r "4.prems"(2) v "4.prems"(4,5,7)]) (use "4.prems"(6,8) in simp_all)
    with m reg "4.prems"(3) show ?thesis unfolding entry_scanned_def by blast
  qed
  obtain new where t: "sc_directories t = sc_directories s @ new"
    using e unfolding grown_def by blast
  have g: "P w' \<and> grown P N uid sp (sc_directories t) t s' \<and>
      (\<forall>name \<in> set names. entry_scanned P N s' name (path_join dir name))"
    by (rule "4.IH"(2) [OF refl rest "4.prems"(2), where all = all])
      (use "4.prems"(4-8) e in \<open>simp_all add: t nth_append\<close>)
  moreover have "entry_scanned P N s' name ?path"
    by (rule entry_scanned_mono [of P N t])
      (use e g "4.prems"(5) t in \<open>cases "sc_directories s"; auto simp: grown_def\<close>)+
  moreover have "grown P N uid sp (sc_directories s) s s'"
    by (rule grown_trans) (use e g "4.prems"(5) in auto)
  ultimately show ?case by auto
qed

lemma scanTree_complete:
  assumes "scanTree N home uid w = (Inr s, w')" and still: "still P N" and "P w"
  shows "scan_complete P N home uid s"
proof -
  obtain m w1 h w2 w3 hd1 w4 real w5 sd w6 where
    m: "lstat N home w = (Some m, w1)" and h: "realpath N home w1 = (Some h, w2)"
    and b: "beforeHomeOpen N w2 = (Some (), w3)" and o: "openPinnedDirectory N h uid None w3 = (Inr hd1, w4)"
    and re: "realpath N (path_join h (js ''sessions'')) w4 = (Some real, w5)"
    and so: "openPinnedDirectory N (path_join h (js ''sessions'')) uid (Some (fp_dev (d_fingerprint hd1))) w5 = (Inr sd, w6)"
    and v: "visit N uid (fp_dev (d_fingerprint hd1)) (path_join h (js ''sessions'')) (MAX_DIRECTORY_DEPTH + 1) 1
      (path_join h (js ''sessions'')) (w6, new_scan\<lparr>sc_directories := [hd1, sd]\<rparr>) = (Inr (), w', s)"
    using assms(1)
    by (auto simp: scanTree_def scan_body_def Let_def run_simps call_Inr new_scan_def split: prod.splits sum.splits)
  have w1: "P w1" using stillD(1) [OF still] \<open>P w\<close> m unfolding stays_def by (metis snd_conv)
  have w2: "P w2" using stillD(9) [OF still] w1 h unfolding stays_def by (metis snd_conv)
  have w3: "P w3" using stillD(13) [OF still] w2 b unfolding stays_def by (metis snd_conv)
  have w4: "P w4" by (rule keepsD [OF keeps_open_directory [OF still] w3 o])
  have w5: "P w5" using stillD(9) [OF still] w4 re unfolding stays_def by (metis snd_conv)
  have w6: "P w6" by (rule keepsD [OF keeps_open_directory [OF still] w5 so])
  note path = openPinnedDirectory_path [OF o] openPinnedDirectory_path [OF so]
  obtain names where g: "grown P N uid (path_join h (js ''sessions'')) [hd1, sd\<lparr>d_entries := Some names\<rparr>]
      (new_scan\<lparr>sc_directories := [hd1, sd]\<rparr>) s" "directory_scanned P N s (sd\<lparr>d_entries := Some names\<rparr>)"
    using visit_grown(1) [OF v still w6] path by (auto simp: Let_def)
  then obtain new where new: "sc_directories s = hd1 # sd\<lparr>d_entries := Some names\<rparr> # new"
    "\<forall>d \<in> set new. directory_scanned P N s d"
    "\<forall>f \<in> set (sc_files s). file_scanned P N uid (path_join h (js ''sessions'')) s f"
    by (auto simp: grown_def new_scan_def)
  have "\<exists>w w'. P w \<and> realpath N home w = (Some (d_path hd1), w')" using w1 h path(1) by blast
  with g(2) new path show ?thesis
    unfolding scan_complete_def by (intro exI [of _ hd1] exI [of _ "sd\<lparr>d_entries := Some names\<rparr>"] exI [of _ new]) simp
qed

section \<open>Guarantees\<close>

lemma threads_ok_iff:
  "threads_ok r seen as \<longleftrightarrow> (\<forall>a \<in> set as. sessionId (meta a) = r) \<and> distinct (map (\<lambda>a. threadId (meta a)) as) \<and>
     (\<forall>a \<in> set as. threadId (meta a) \<notin> set seen)"
  by (induction r seen as rule: threads_ok.induct) (auto simp: image_iff)

text \<open>
  C31: Take any property of the world that every call but the renaming of a temporary file keeps. A
  repair that fails, wherever it fails, either reports that its outcome is uncertain or leaves the
  property as it was; a repair that returns a result without a changed file leaves it too. So an
  error other than the uncertain one means that nothing was published.
\<close>
theorem publication_is_reported:
  assumes "quiet P N" and "P w" and "repairWithHooks N options w = (r, w')"
  shows "case r of
     Inl e \<Rightarrow> e = Internal Repair_outcome_uncertain \<or> (\<exists>c. e = Internal c) \<and> P w'
   | Inr result \<Rightarrow> (\<exists>p \<in> set (res_files result). p_action p \<noteq> Unchanged) \<or> P w'"
proof (cases "normalizeRequest options")
  case (Inl c)
  with assms(2,3) show ?thesis by (auto simp: repairWithHooks_def and_then_def from_sum_def throw_def)
next
  case (Inr request)
  note n = this
  show ?thesis
  proof (cases "currentUid N")
    case (Inl c)
    with n assms(2,3) show ?thesis by (auto simp: repairWithHooks_def and_then_def from_sum_def throw_def ok_def)
  next
    case (Inr uid)
    obtain t v where t: "scanTree N (codexHome request) uid w = (t, v)" by (metis prod.collapse)
    have v: "P v" using keepsD [OF keeps_scan_tree [OF quiet_still [OF assms(1)]] assms(2) t] .
    show ?thesis
    proof (cases t)
      case (Inl e)
      with n Inr t v assms(3) show ?thesis
        by (auto simp: repairWithHooks_def and_then_def from_sum_def ok_def \<open>currentUid N = Inr uid\<close> repair_error_def
            split: thrown.splits)
    next
      case (Inr scan)
      let ?s = "\<lparr>rw_files = sc_files scan, rw_published = False, rw_proofs = []\<rparr>"
      obtain q u s where q: "repair_scanned N request uid scan (v, ?s) = (q, u, s)" by (metis prod.collapse)
      have res: "r = (case q of Inl e \<Rightarrow> Inl (repair_error (rw_published s) e) | Inr x \<Rightarrow> Inr x)"
        "w' = snd (closeScan N (rw_files s) (sc_directories scan) u)"
        using assms(3) by (auto simp: repairWithHooks_def and_then_def from_sum_def ok_def n \<open>currentUid N = Inr uid\<close> t Inr q)
      have close: "P u \<Longrightarrow> P w'" using keeps_close_scan [OF quiet_still [OF assms(1)]] by (simp add: res(2) keeps_def)
      have "recorded P (v, ?s)" using v by (simp add: recorded_def changed_def)
      then have J: "q = Inl (Internal Repair_outcome_uncertain) \<or> recorded P (u, s)"
        using survives_repair_scanned [OF assms(1), of request uid scan] q unfolding survives_def by (metis fst_conv snd_conv)
      show ?thesis
      proof (cases q)
        case (Inl e)
        with J close show ?thesis
          by (auto simp: res(1) repair_error_def recorded_def split: thrown.splits)
      next
        case (Inr result)
        have "res_files result = sort_by (\<lambda>p q. compareNames N (p_relativePath p) (p_relativePath q)) (rw_proofs s)"
          using q unfolding Inr by (rule repair_scanned_Inr)
        with J close Inr show ?thesis
          by (auto simp: res(1) recorded_def changed_def sort_by_set)
      qed
    qed
  qed
qed

text \<open>
  C33: A repair that returns accounts for every rollout below the sessions directory. Take the scan that
  it made. It is complete: for any property \<open>P\<close> of the world that holds at the start and that none of its
  calls changes (what the tree looks like, say), in worlds with \<open>P\<close> every directory from the sessions
  directory down was read to its end, each entry was found to be a directory, which was scanned too, or
  a rollout, which is among the files, and every file comes from such an entry and has the bytes read
  from it. There is at least one file and at most 256, of at most 256 MiB together. The proofs
  are, in the order of their paths, the digests and sizes of each of these files before and after its
  repair. All files belong to the requested session, no two to one thread, and one of them is the root thread.
\<close>
theorem repair_accounts_for_every_file:
  assumes "repairWithHooks N options w = (Inr result, w')"
  shows "\<exists>request uid scan v as. normalizeRequest options = Inr request \<and> currentUid N = Inr uid \<and>
    scanTree N (codexHome request) uid w = (Inr scan, v) \<and>
    (\<forall>P. still P N \<longrightarrow> P w \<longrightarrow> scan_complete P N (codexHome request) uid scan) \<and>
    res_rootSessionId result = rootSessionId request \<and> sc_files scan \<noteq> [] \<and> length (sc_files scan) \<le> 256 \<and>
    sum_list (map (\<lambda>f. length (f_bytes f)) (sc_files scan)) \<le> 268435456 \<and>
    list_all2 (\<lambda>f a. analyzeBytes (f_bytes f) = Inr a) (sc_files scan) as \<and>
    res_files result = sort_by (\<lambda>p q. compareNames N (p_relativePath p) (p_relativePath q))
      (map2 (proof_of N) (map content (sc_files scan)) as) \<and>
    (\<forall>a \<in> set as. sessionId (meta a) = rootSessionId request) \<and>
    distinct (map (\<lambda>a. threadId (meta a)) as) \<and> (\<exists>a \<in> set as. threadId (meta a) = rootSessionId request)"
proof -
  obtain request uid scan v u s where n: "normalizeRequest options = Inr request" "currentUid N = Inr uid"
    and t: "scanTree N (codexHome request) uid w = (Inr scan, v)"
    and q: "repair_scanned N request uid scan (v, \<lparr>rw_files = sc_files scan, rw_published = False, rw_proofs = []\<rparr>) =
      (Inr result, u, s)"
  proof -
    obtain request uid where r: "normalizeRequest options = Inr request" "currentUid N = Inr uid"
      "(case scanTree N (codexHome request) uid w of (Inl e, w') \<Rightarrow> (Inl (repair_error False e), w')
        | (Inr scan, v) \<Rightarrow> (case repair_scanned N request uid scan
              (v, \<lparr>rw_files = sc_files scan, rw_published = False, rw_proofs = []\<rparr>) of
             (r, u, s) \<Rightarrow> ((case r of Inl e \<Rightarrow> Inl (repair_error (rw_published s) e) | Inr x \<Rightarrow> Inr x),
                snd (closeScan N (rw_files s) (sc_directories scan) u)))) = (Inr result, w')"
      using assms by (auto simp: repairWithHooks_def run_simps)
    obtain t v where t: "scanTree N (codexHome request) uid w = (t, v)" by (metis prod.collapse)
    with r(3) obtain scan where scan: "t = Inr scan" by (cases t) simp_all
    obtain q u s where q: "repair_scanned N request uid scan
        (v, \<lparr>rw_files = sc_files scan, rw_published = False, rw_proofs = []\<rparr>) = (q, u, s)" by (metis prod.collapse)
    with r(3) t scan have "q = Inr result" by (cases q) simp_all
    with r(1,2) t scan q show ?thesis by (intro that) simp_all
  qed
  obtain as where as: "analyze_all (sc_files scan) = Inr as" "rollout_set_ok (rootSessionId request) as"
    and p: "rw_proofs s = map2 (proof_of N) (map content (sc_files scan)) as"
    and f: "res_files result = sort_by (\<lambda>p q. compareNames N (p_relativePath p) (p_relativePath q)) (rw_proofs s)"
    "res_rootSessionId result = rootSessionId request"
    using q by (rule repair_scanned_Inr)
  have "filter (\<lambda>a. threadId (meta a) = rootSessionId request) as \<noteq> []" "threads_ok (rootSessionId request) [] as"
    using as(2) by (auto simp: rollout_set_ok_def split: list.splits)
  then have "(\<forall>a \<in> set as. sessionId (meta a) = rootSessionId request)" "distinct (map (\<lambda>a. threadId (meta a)) as)"
    "\<exists>a \<in> set as. threadId (meta a) = rootSessionId request"
    by (auto simp: threads_ok_iff filter_empty_conv)
  moreover have "length (sc_files scan) \<le> 256" "sum_list (map (\<lambda>f. length (f_bytes f)) (sc_files scan)) \<le> 268435456" "sc_files scan \<noteq> []"
    using scanTree_bounds [OF t] by (simp_all add: MAX_ROLLOUT_FILES_def MAX_TOTAL_BYTES_def)
  moreover have "\<forall>P. still P N \<longrightarrow> P w \<longrightarrow> scan_complete P N (codexHome request) uid scan"
    using scanTree_complete [OF t] by blast
  ultimately show ?thesis
    using n t f p analyze_all_length [OF as(1)]
    by (intro exI [of _ request] exI [of _ uid] exI [of _ scan] exI [of _ v] exI [of _ as]) simp
qed

end
