(* ===== verification/Rollout_Examples.thy ===== *)
theory Rollout_Examples
  imports Rollout_Safety
begin

text \<open>
  A concrete file system with one rollout of one line, and its repair with the line feed present,
  where nothing is published, and without any bytes, where the repair fails. The guarantees of the
  analysis and the repair are applied to them.
\<close>

section \<open>A small file system\<close>

text \<open>The rollout's bytes and inode, the temporary file's bytes, and the entries still to be read.\<close>

record disk =
  dk_rollout :: "byte list"
  dk_inode :: int
  dk_temporary :: "byte list option"
  dk_entries :: "string list"
  dk_renames :: nat

definition ex_temporary :: string where
  "ex_temporary = ''.rollout-tail-repair-u.tmp''"

definition ex_dir_meta :: "int \<Rightarrow> metadata" where
  "ex_dir_meta ino = \<lparr>m_ctimeNs = 0, m_dev = 7, m_gid = 0, m_ino = ino, m_mode = 16832, m_mtimeNs = 0, m_nlink = 2,
     m_size = 0, m_type = Directory_type, m_uid = 1000\<rparr>"

definition ex_file_meta :: "int \<Rightarrow> byte list \<Rightarrow> metadata" where
  "ex_file_meta ino bytes = \<lparr>m_ctimeNs = 0, m_dev = 7, m_gid = 0, m_ino = ino, m_mode = 33152, m_mtimeNs = 0, m_nlink = 1,
     m_size = int (length bytes), m_type = Regular_type, m_uid = 1000\<rparr>"

definition ex_lstat :: "jsstr \<Rightarrow> disk \<Rightarrow> metadata option \<times> disk" where
  "ex_lstat p w = (if p = js ''/h'' then Some (ex_dir_meta 1) else if p = js ''/h/sessions'' then Some (ex_dir_meta 2)
     else if p = js ''/h/sessions/r.jsonl'' then Some (ex_file_meta (dk_inode w) (dk_rollout w))
     else map_option (ex_file_meta 4) (dk_temporary w), w)"

definition ex_fstat :: "nat \<Rightarrow> disk \<Rightarrow> metadata option \<times> disk" where
  "ex_fstat h w = (if h = 1 then Some (ex_dir_meta 1) else if h = 2 then Some (ex_dir_meta 2)
     else if h = 3 then Some (ex_file_meta (dk_inode w) (dk_rollout w))
     else map_option (ex_file_meta 4) (dk_temporary w), w)"

definition ex_read :: "nat \<Rightarrow> nat \<Rightarrow> nat \<Rightarrow> disk \<Rightarrow> byte list option \<times> disk" where
  "ex_read h n k w = (map_option (\<lambda>b. take n (drop k b)) (if h = 3 then Some (dk_rollout w) else dk_temporary w), w)"

definition ex_rename :: "jsstr \<Rightarrow> jsstr \<Rightarrow> disk \<Rightarrow> unit option \<times> disk" where
  "ex_rename p q w = (case dk_temporary w of None \<Rightarrow> (None, w)
     | Some b \<Rightarrow> (Some (), w\<lparr>dk_rollout := b, dk_inode := 4, dk_temporary := None, dk_renames := dk_renames w + 1\<rparr>))"

definition ex_opendir :: "jsstr \<Rightarrow> disk \<Rightarrow> nat option \<times> disk" where
  "ex_opendir p w = (Some 9, w\<lparr>dk_entries := if p = js ''/h'' then [''sessions'']
     else ''r.jsonl'' # (if dk_temporary w = None then [] else [ex_temporary])\<rparr>)"

definition ex_read_entry :: "nat \<Rightarrow> disk \<Rightarrow> jsval option \<times> disk" where
  "ex_read_entry h w = (case dk_entries w of [] \<Rightarrow> (Some JNull, w)
     | n # ns \<Rightarrow> (Some (plain_obj [(''name'', lit n)]), w\<lparr>dk_entries := ns\<rparr>))"

definition ex_done :: "disk \<Rightarrow> unit option \<times> disk" where
  "ex_done w = (Some (), w)"

definition ex_node :: "disk node" where
  "ex_node = \<lparr>lstat = ex_lstat, fstat = ex_fstat, chmod = \<lambda>_ _. ex_done, fsync = \<lambda>_. ex_done, close_handle = \<lambda>_. ex_done,
     open_directory = \<lambda>p w. (Some (if p = js ''/h'' then 1 else 2), w), open_file = \<lambda>_ w. (Some 3, w),
     create_file = \<lambda>_ w. (Some 4, w\<lparr>dk_temporary := Some []\<rparr>), read_at = ex_read,
     write_file = \<lambda>_ b w. (Some (), w\<lparr>dk_temporary := Some b\<rparr>), realpath = \<lambda>p w. (Some p, w), rename = ex_rename,
     unlink = \<lambda>_ w. (Some (), w\<lparr>dk_temporary := None\<rparr>), opendir = ex_opendir, read_entry = ex_read_entry,
     close_directory = \<lambda>_. ex_done, randomUUID = \<lambda>w. (Some (js ''u''), w), geteuid = Some 1000,
     sha256 = \<lambda>_. replicate 64 48, compareNames = \<lambda>_ _. True, afterRename = ex_done, afterDirectoryRead = ex_done,
     beforeHomeOpen = ex_done, beforeRename = ex_done, inspectAcl = \<lambda>_ w. (Some (JBool False), w), syncDirectory = \<lambda>_. ex_done\<rparr>"

section \<open>A rollout\<close>

definition ex_id :: string where
  "ex_id = ''11111111-1111-4111-8111-111111111111''"

definition ex_line_text :: string where
  "ex_line_text = ''{\"type\":\"session_meta\",\"payload\":{\"cli_version\":\"0.144.1\",\"id\":\"'' @ ex_id @
     ''\",\"session_id\":\"'' @ ex_id @ ''\"}}''"

definition ex_line :: "byte list" where
  "ex_line = map of_char ex_line_text"

definition ex_request :: jsval where
  "ex_request = plain_obj [(''codexHome'', lit ''/h''), (''rootSessionId'', lit ex_id),
     (''runtimeIdentity'', plain_obj [(''codexBinarySha256'', JStr (replicate 64 48)),
        (''codexVersion'', lit PINNED_CODEX_VERSION), (''sourceAnalysisCommit'', lit PINNED_SOURCE_COMMIT)])]"

definition ex_disk :: "byte list \<Rightarrow> disk" where
  "ex_disk b = \<lparr>dk_rollout = b, dk_inode = 3, dk_temporary = None, dk_entries = [], dk_renames = 0\<rparr>"

text \<open>The line is the printed form of a tree, so it is a JSON text.\<close>

definition ex_json :: json where
  "ex_json = JsObj [(js ''type'', JsStr (js ''session_meta'')), (js ''payload'', JsObj [(js ''cli_version'', JsStr (js ''0.144.1'')),
     (js ''id'', JsStr (js ex_id)), (js ''session_id'', JsStr (js ex_id))])]"

lemma ex_json_text: "json_print 0 0 ex_json = js ex_line_text"
  by code_simp

lemma utf8_decode_ascii:
  assumes "list_all (\<lambda>c. (of_char c :: nat) < 128) s"
  shows "utf8_decode (map of_char s) = Some (js s)"
proof -
  have byte: "unat (of_char c :: byte) = of_char c" for c
  proof -
    have "unat (of_nat (of_char c) :: byte) = (of_char c :: nat) mod 2 ^ 8" by (simp add: unat_of_nat)
    moreover have "(of_char c :: nat) < 2 ^ 8" using nat_of_char_less_256 [of c] by simp
    ultimately show ?thesis by (simp add: of_nat_of_char)
  qed
  have scalar: "of_scalar (of_char c) = [of_char c]" if "(of_char c :: nat) < 128" for c
    using that by (simp add: of_scalar_def of_nat_of_char)
  have "utf8_scalars (map of_char s) = Some (map of_char s)"
    using assms by (induction s) auto
  moreover have "concat (map of_scalar (map of_char s)) = js s"
    using assms by (induction s) (simp_all add: js_def scalar)
  ultimately show ?thesis by (simp add: utf8_decode_def comp_def byte)
qed

lemma ex_line_value: "jsonValue ex_line = Some (of_json ex_json)"
proof -
  have "list_all (\<lambda>c. (of_char c :: nat) < 128) ex_line_text" by code_simp
  from utf8_decode_ascii [OF this] have u: "utf8_decode ex_line = Some (js ex_line_text)" by (simp add: ex_line_def)
  have "printable ex_json" by (simp add: ex_json_def)
  from json_round_trip [OF this, of 0] have p: "JSON_parse (js ex_line_text) = Some (of_json ex_json)"
    by (simp add: JSON_parse_def ex_json_text)
  have "take 3 ex_line \<noteq> [239, 187, 191]" "js ex_line_text \<noteq> []" by code_simp+
  with u p show ?thesis by (simp add: jsonValue_def)
qed

definition ex_meta :: session_meta where
  "ex_meta = \<lparr>sessionId = lit ex_id, threadId = lit ex_id\<rparr>"

lemma ex_meta_ok: "assertSessionMeta (of_json ex_json) = Inr ex_meta"
  by code_simp

definition ex_rollout :: "byte list" where
  "ex_rollout = ex_line @ [10]"

definition ex_analysis :: "repair_action \<Rightarrow> rollout_analysis" where
  "ex_analysis act = \<lparr>action = act, after = ex_rollout, meta = ex_meta, removedBytes = 0\<rparr>"

lemma ex_line_plain: "10 \<notin> set ex_line"
  by code_simp

lemma ex_rollout_size: "int (length ex_rollout) \<le> MAX_FILE_BYTES"
  by code_simp

lemma ex_line_analyzed: "analyzeBytes ex_line = Inr (ex_analysis Append_lf)"
proof -
  have "complete_end ex_line = 0" using ex_line_plain by (auto simp: complete_end_def)
  moreover have "\<not> terminated ex_line" using ex_line_plain unfolding terminated_def by (metis last_in_set)
  ultimately show ?thesis
    using ex_rollout_size
    by (simp add: analyzeBytes_def repaired_def ex_line_value guarded_ok ex_meta_ok ex_analysis_def ex_rollout_def)
qed

lemma ex_analyzed: "analyzeBytes ex_rollout = Inr (ex_analysis Unchanged)"
proof -
  have "parse_lines [] ex_rollout = Inr [of_json ex_json]"
    by (simp add: ex_rollout_def parse_lines_line [OF ex_line_plain] ex_line_value)
  moreover have "terminated ex_rollout" by (simp add: terminated_def ex_rollout_def)
  ultimately show ?thesis
    using analyzeBytes_terminated [of ex_rollout] ex_rollout_size ex_meta_ok by (simp add: ex_analysis_def)
qed

section \<open>A repair\<close>

definition ex_directory :: "int \<Rightarrow> jsstr list option \<Rightarrow> jsstr \<Rightarrow> pinned_dir" where
  "ex_directory ino names path = \<lparr>d_entries = names, d_fingerprint = fingerprint (ex_dir_meta ino), d_handle = nat ino,
     d_path = path, d_preTightening = fingerprint (ex_dir_meta ino)\<rparr>"

definition ex_sessions :: pinned_dir where
  "ex_sessions = ex_directory 2 (Some [js ''r.jsonl'']) (js ''/h/sessions'')"

definition ex_file :: pinned_file where
  "ex_file = \<lparr>f_bytes = ex_rollout, f_fingerprint = fingerprint (ex_file_meta 3 ex_rollout), f_handle = Some 3,
     f_path = js ''/h/sessions/r.jsonl'', f_parent = ex_sessions, f_relativePath = js ''r.jsonl''\<rparr>"

definition ex_scan :: scan where
  "ex_scan = \<lparr>sc_directories = [ex_directory 1 None (js ''/h''), ex_sessions], sc_files = [ex_file],
     sc_budget = \<lparr>entries = 1, nameBytes = 7\<rparr>, sc_totalBytes = 156\<rparr>"

lemma ex_scanned: "scanTree ex_node (js ''/h'') 1000 (ex_disk ex_rollout) = (Inr ex_scan, ex_disk ex_rollout)"
  by code_simp

definition ex_normal_request :: repair_request where
  "ex_normal_request = \<lparr>codexHome = js ''/h'', rootSessionId = lit ex_id, codexBinarySha256 = JStr (replicate 64 48)\<rparr>"

lemma ex_normalized: "normalizeRequest ex_request = Inr ex_normal_request"
  by code_simp

definition ex_start :: repairing where
  "ex_start = \<lparr>rw_files = [ex_file], rw_published = False, rw_proofs = []\<rparr>"

lemma ex_repaired: "case repair_analyzed ex_node ex_normal_request 1000 ex_scan [ex_analysis Unchanged] (ex_disk ex_rollout, ex_start) of
   (Inr result, w, s) \<Rightarrow> map p_action (res_files result) = [Unchanged] \<and> dk_renames w = 0
   | _ \<Rightarrow> False"
  by code_simp

lemma ex_repair: "\<exists>result w. repairWithHooks ex_node ex_request (ex_disk ex_rollout) = (Inr result, w) \<and>
    map p_action (res_files result) = [Unchanged]"
proof -
  obtain result v s where r: "repair_analyzed ex_node ex_normal_request 1000 ex_scan [ex_analysis Unchanged] (ex_disk ex_rollout, ex_start) =
      (Inr result, v, s)" "map p_action (res_files result) = [Unchanged]"
    using ex_repaired by (auto split: prod.splits sum.splits)
  have files: "sc_files ex_scan = [ex_file]" "f_bytes ex_file = ex_rollout" by (simp_all add: ex_scan_def ex_file_def)
  have "repair_scanned ex_node ex_normal_request 1000 ex_scan (ex_disk ex_rollout, ex_start) = (Inr result, v, s)"
    using r(1) by (simp add: repair_scanned_def and_then_def from_sum_def ok_def files ex_analyzed)
  moreover have "ex_start = \<lparr>rw_files = sc_files ex_scan, rw_published = False, rw_proofs = []\<rparr>"
    by (simp add: ex_start_def files)
  moreover have "currentUid ex_node = Inr 1000" by (simp add: currentUid_def ex_node_def)
  moreover have "codexHome ex_normal_request = js ''/h''" by (simp add: ex_normal_request_def)
  ultimately show ?thesis
    using r(2) ex_scanned by (simp add: repairWithHooks_def and_then_def from_sum_def ok_def ex_normalized)
qed

section \<open>The guarantees\<close>

theorem repair_is_stable_witness:
  "analyzeBytes ex_line = Inr (ex_analysis Append_lf) \<and> analyzeBytes ex_rollout = Inr (ex_analysis Unchanged) \<and>
     (\<exists>C tail. ex_line = C @ tail \<and> repair_of C tail (ex_analysis Append_lf))"
  using repair_is_stable [OF ex_line_analyzed] ex_line_analyzed ex_analyzed by blast

definition ex_endless :: "nat \<Rightarrow> jsval option \<times> nat" where
  "ex_endless n = (Some (plain_obj [(''name'', lit ''x'')]), n + 1)"

theorem enumeration_ends_witness:
  "\<exists>c n w b. collectBoundedDirectoryEntries (counted ex_endless) [] ((0, 0), createEnumerationBudget) =
     (Inl (Internal c), (n, w), b) \<and> n \<le> 1281"
proof -
  obtain r n w b where run: "collectBoundedDirectoryEntries (counted ex_endless) [] ((0, 0), createEnumerationBudget) =
      (r, (n, w), b)" by (metis prod.collapse)
  have "\<forall>v. \<exists>e v'. ex_endless v = (Some e, v') \<and> e \<noteq> JNull" by (simp add: ex_endless_def plain_obj_def)
  with enumeration_ends [OF run] run show ?thesis by blast
qed

definition ex_unrenamed :: "disk \<Rightarrow> bool" where
  "ex_unrenamed w \<longleftrightarrow> dk_renames w = 0"

lemma ex_quiet: "quiet ex_unrenamed ex_node"
  unfolding quiet_def stays_def
  by (simp add: ex_node_def ex_unrenamed_def ex_lstat_def ex_fstat_def ex_read_def ex_opendir_def ex_read_entry_def ex_done_def
      split: list.splits)

lemma ex_empty_scan: "fst (scanTree ex_node (js ''/h'') 1000 (ex_disk [])) = Inl (Internal Rollout_content_invalid)"
  by code_simp

lemma ex_empty_fails:
  "\<exists>w. repairWithHooks ex_node ex_request (ex_disk []) = (Inl (Internal Rollout_content_invalid), w)"
proof -
  obtain w where "scanTree ex_node (js ''/h'') 1000 (ex_disk []) = (Inl (Internal Rollout_content_invalid), w)"
    using ex_empty_scan by (metis prod.collapse)
  moreover have "currentUid ex_node = Inr 1000" by (simp add: currentUid_def ex_node_def)
  moreover have "codexHome ex_normal_request = js ''/h''" by (simp add: ex_normal_request_def)
  ultimately show ?thesis
    by (simp add: repairWithHooks_def and_then_def from_sum_def ok_def ex_normalized repair_error_def)
qed

theorem publication_is_reported_witness:
  "\<exists>w. repairWithHooks ex_node ex_request (ex_disk []) = (Inl (Internal Rollout_content_invalid), w) \<and> dk_renames w = 0"
proof -
  obtain w where run: "repairWithHooks ex_node ex_request (ex_disk []) = (Inl (Internal Rollout_content_invalid), w)"
    using ex_empty_fails by blast
  have "ex_unrenamed (ex_disk [])" by (simp add: ex_unrenamed_def ex_disk_def)
  from publication_is_reported [OF ex_quiet this run] run show ?thesis by (simp add: ex_unrenamed_def)
qed

definition ex_tree :: "disk \<Rightarrow> bool" where
  "ex_tree w \<longleftrightarrow> dk_rollout w = ex_rollout \<and> dk_temporary w = None"

lemma ex_still: "still ex_tree ex_node"
  unfolding still_def stays_def
  by (simp add: ex_node_def ex_tree_def ex_lstat_def ex_fstat_def ex_read_def ex_opendir_def ex_read_entry_def ex_done_def
      split: list.splits)

text \<open>In the concrete tree the scan is complete and has one file, whose proof is the repair's result.\<close>

theorem repair_accounts_for_every_file_witness:
  "\<exists>result w scan v. repairWithHooks ex_node ex_request (ex_disk ex_rollout) = (Inr result, w) \<and>
     scanTree ex_node (js ''/h'') 1000 (ex_disk ex_rollout) = (Inr scan, v) \<and>
     scan_complete ex_tree ex_node (js ''/h'') 1000 scan \<and>
     map f_path (sc_files scan) = [js ''/h/sessions/r.jsonl''] \<and> map p_action (res_files result) = [Unchanged]"
proof -
  obtain result w where run: "repairWithHooks ex_node ex_request (ex_disk ex_rollout) = (Inr result, w)"
    and unchanged: "map p_action (res_files result) = [Unchanged]" using ex_repair by (elim exE conjE)
  have "codexHome ex_normal_request = js ''/h''" "currentUid ex_node = Inr 1000"
    by (simp_all add: ex_normal_request_def currentUid_def ex_node_def)
  moreover have "ex_tree (ex_disk ex_rollout)" by (simp add: ex_tree_def ex_disk_def)
  ultimately have "scan_complete ex_tree ex_node (js ''/h'') 1000 ex_scan"
    using repair_accounts_for_every_file [OF run] ex_still ex_normalized ex_scanned by auto
  moreover have "map f_path (sc_files ex_scan) = [js ''/h/sessions/r.jsonl'']" by (simp add: ex_scan_def ex_file_def)
  ultimately show ?thesis by (intro exI conjI) (rule run ex_scanned unchanged | assumption)+
qed

end
