(* ===== verification/Image_Paths.thy ===== *)
theory Image_Paths
  imports Contract_Mutation Js_Path
begin

text \<open>
  \<open>ext4-filesystem-image-paths.mjs\<close>: the paths of a storage's image, its mount, the attachments in it
  and the archived artifacts, all derived from hashes of identities below three configured roots.
  \<open>createExt4FilesystemImagePaths\<close> returns functions over its checked options; here these are
  operations on the record of the options. SHA-256 of \<open>node:crypto\<close> is a parameter from the hashed
  bytes to the digest. The hashed parts are opaque identifiers of at most 128 bytes, so their lengths
  always fit the four bytes that are hashed before them.
\<close>

datatype image_path_error =
    Invalid_ext4_filesystem_image_path_options
  | Invalid_ext4_filesystem_image_path_request

type_synonym 'a iresult = "image_path_error + 'a"

record image_paths =
  archiveRoot :: jsstr
  backendId :: jsstr
  imageRoot :: jsstr
  mountRoot :: jsstr

section \<open>Checks\<close>

definition OPTION_KEYS :: "string list" where
  "OPTION_KEYS = [''archiveRoot'', ''backendId'', ''imageRoot'', ''mountRoot'']"

definition RESTORED_ATTACHMENT_NAME_PATTERN :: rx where
  "RESTORED_ATTACHMENT_NAME_PATTERN = rx_cat [rx_lit ''generation-'', rx_rep 48 (RCls hex_cls)]"

definition MAX_PATH_BYTES :: nat where
  "MAX_PATH_BYTES = 4095"

definition DATA_CHILD_CAPACITY_NAME :: jsstr where
  "DATA_CHILD_CAPACITY_NAME = js ''data-'' @ replicate 48 48"

definition RESTORE_CHILD_CAPACITY_NAME :: jsstr where
  "RESTORE_CHILD_CAPACITY_NAME = js ''generation-'' @ replicate 48 48"

text \<open>\<open>exactDataObject\<close> hands on the value that it checked.\<close>

definition exactDataObjectI :: "jsval \<Rightarrow> string list \<Rightarrow> image_path_error \<Rightarrow> jsval iresult" where
  "exactDataObjectI v ks code = guarded
     [ensure (v \<noteq> JNull \<and> is_object v \<and> \<not> is_array v \<and> \<not> is_proxy v) code,
      ensure ((proto_of v = JObjectPrototype \<or> proto_of v = JNull) \<and> length (own_keys v) = length ks) code,
      ensure (list_all (\<lambda>k. list_ex (\<lambda>s. k = key s) ks \<and> enumerable_data v k) (own_keys v)) code]
     (Inr v)"

definition control_unit :: "unit16 \<Rightarrow> bool" where
  "control_unit c \<longleftrightarrow> c \<le> 31 \<or> c = 127"

definition canonicalPath :: "jsval \<Rightarrow> image_path_error \<Rightarrow> jsstr iresult" where
  "canonicalPath v code = (case v of
     JStr s \<Rightarrow> guarded
       [ensure (length s > 1 \<and> length s \<le> MAX_PATH_BYTES \<and> \<not> list_ex control_unit s) code,
        ensure (utf8_length s \<le> MAX_PATH_BYTES \<and> utf8_roundtrip s = s \<and> path_is_absolute s \<and>
          path_resolve s = s \<and> s \<noteq> [47] \<and> last s \<noteq> 47) code]
       (Inr s)
   | _ \<Rightarrow> Inl code)"

definition directChildPath :: "jsstr \<Rightarrow> jsstr \<Rightarrow> image_path_error \<Rightarrow> jsstr iresult" where
  "directChildPath parent childName code =
     rbind (canonicalPath (JStr (path_join parent childName)) code) (\<lambda>child.
     guarded [ensure (path_dirname child = parent) code] (Inr child))"

definition assertMountPathAttachmentCapacity :: "jsstr \<Rightarrow> image_path_error \<Rightarrow> jsstr iresult" where
  "assertMountPathAttachmentCapacity mountPath code =
     rbind (directChildPath mountPath DATA_CHILD_CAPACITY_NAME code) (\<lambda>_.
     rbind (directChildPath mountPath RESTORE_CHILD_CAPACITY_NAME code) (\<lambda>_. Inr mountPath))"

definition assertExt4FilesystemImageMountPathCapacity :: "jsval \<Rightarrow> jsstr iresult" where
  "assertExt4FilesystemImageMountPathCapacity v =
     (let code = Invalid_ext4_filesystem_image_path_request in
      rbind (canonicalPath v code) (\<lambda>p. assertMountPathAttachmentCapacity p code))"

definition pathContains :: "jsstr \<Rightarrow> jsstr \<Rightarrow> bool" where
  "pathContains parent child \<longleftrightarrow> child = parent \<or> str_starts child (parent @ [47])"

primrec assertDisjointRoots :: "jsstr list \<Rightarrow> image_path_error \<Rightarrow> image_path_error option" where
  "assertDisjointRoots [] code = None"
| "assertDisjointRoots (left # rest) code = first_err
     (map (\<lambda>right. ensure (\<not> pathContains left right \<and> \<not> pathContains right left) code) rest
      @ [assertDisjointRoots rest code])"

definition opaqueIdI :: "jsval \<Rightarrow> image_path_error \<Rightarrow> jsstr iresult" where
  "opaqueIdI v code = (case v of
     JStr s \<Rightarrow> guarded [ensure (rx_match OPAQUE_ID_PATTERN s) code] (Inr s) | _ \<Rightarrow> Inl code)"

definition runtimeSessionId :: "jsval \<Rightarrow> image_path_error \<Rightarrow> jsstr iresult" where
  "runtimeSessionId v code = (case v of
     JStr s \<Rightarrow> guarded [ensure (rx_match UUID_PATTERN s) code] (Inr s) | _ \<Rightarrow> Inl code)"

section \<open>Digests\<close>

text \<open>\<open>writeUInt32BE\<close>.\<close>

definition uint32_be :: "nat \<Rightarrow> 8 word list" where
  "uint32_be n = map of_nat [n div 16777216, n div 65536, n div 256, n]"

definition digest_input :: "jsstr list \<Rightarrow> 8 word list" where
  "digest_input parts = utf8_bytes (js ''portable-codex-runtime/ext4-path/v1'' @ [0]) @
     concat (map (\<lambda>part. uint32_be (utf8_length part) @ utf8_bytes part) parts)"

type_synonym sha256 = "8 word list \<Rightarrow> jsstr"

definition digest :: "sha256 \<Rightarrow> jsstr list \<Rightarrow> jsstr" where
  "digest H parts = H (digest_input parts)"

definition storageToken :: "sha256 \<Rightarrow> jsstr \<Rightarrow> jsstr \<Rightarrow> jsstr" where
  "storageToken H backend storage = digest H [js ''storage'', backend, storage]"

text \<open>The name of the data directory in a mount.\<close>

definition data_name :: "sha256 \<Rightarrow> jsstr \<Rightarrow> jsstr \<Rightarrow> jsstr" where
  "data_name H backend storage = js ''data-'' @ take 48 (digest H [js ''data-root'', backend, storage])"

section \<open>The operations\<close>

definition createExt4FilesystemImagePaths :: "jsval list \<Rightarrow> image_paths iresult" where
  "createExt4FilesystemImagePaths args = (let code = Invalid_ext4_filesystem_image_path_options in
     case args of
       [options] \<Rightarrow>
         rbind (exactDataObjectI options OPTION_KEYS code) (\<lambda>options.
         rbind (opaqueIdI (fld options ''backendId'') code) (\<lambda>backend.
         rbind (canonicalPath (fld options ''archiveRoot'') code) (\<lambda>archive.
         rbind (canonicalPath (fld options ''imageRoot'') code) (\<lambda>image.
         rbind (canonicalPath (fld options ''mountRoot'') code) (\<lambda>mount.
         guarded [assertDisjointRoots [archive, image, mount] code]
           (Inr \<lparr>archiveRoot = archive, backendId = backend, imageRoot = image, mountRoot = mount\<rparr>))))))
     | _ \<Rightarrow> Inl code)"

definition storageIdForSession :: "sha256 \<Rightarrow> image_paths \<Rightarrow> jsval \<Rightarrow> jsstr iresult" where
  "storageIdForSession H cfg v =
     rbind (runtimeSessionId v Invalid_ext4_filesystem_image_path_request) (\<lambda>sessionId.
     Inr (js ''ext4-storage:'' @ take 48 (digest H [js ''session'', backendId cfg, sessionId])))"

abbreviation request_error :: image_path_error where
  "request_error \<equiv> Invalid_ext4_filesystem_image_path_request"

definition planProvision :: "sha256 \<Rightarrow> image_paths \<Rightarrow> jsval \<Rightarrow> jsval iresult" where
  "planProvision H cfg input =
     rbind (rcatch (assertSessionProvisionRequest input) request_error) (\<lambda>request.
     guarded [ensure (js_seq (fld request ''backendId'') (JStr (backendId cfg))) request_error]
     (rbind (storageIdForSession H cfg (fld request ''sessionId'')) (\<lambda>storageId.
      let token = storageToken H (backendId cfg) storageId in
      rbind (directChildPath (mountRoot cfg) token request_error) (\<lambda>mountPath.
      rbind (directChildPath (imageRoot cfg) (token @ js ''.ext4'') request_error) (\<lambda>imagePath.
      Inr (exactFrozenRecord [(''imagePath'', JStr imagePath), (''mountPath'', JStr mountPath),
        (''storageId'', JStr storageId)]))))))"

definition planWritableAttachment :: "sha256 \<Rightarrow> image_paths \<Rightarrow> jsval \<Rightarrow> jsval iresult" where
  "planWritableAttachment H cfg input =
     rbind (rcatch (assertStorageMutationRequest input) request_error) (\<lambda>request.
     guarded [ensure (js_seq (fld request ''backendId'') (JStr (backendId cfg)) \<and>
         js_seq (fld request ''operation'') (lit ''attach'') \<and>
         js_seq (fld (fld request ''target'') ''kind'') (lit ''attachment'')) request_error]
     (let storageId = str_of (fld request ''storageId''); token = storageToken H (backendId cfg) storageId in
      rbind (directChildPath (mountRoot cfg) token request_error) (\<lambda>mountPath.
      rbind (directChildPath mountPath (data_name H (backendId cfg) storageId) request_error)
        (\<lambda>attachmentRootPath.
      rbind (directChildPath (imageRoot cfg) (token @ js ''.ext4'') request_error) (\<lambda>imagePath.
      Inr (exactFrozenRecord [(''attachmentRootPath'', JStr attachmentRootPath),
        (''imagePath'', JStr imagePath), (''mountPath'', JStr mountPath),
        (''storageId'', fld request ''storageId'')]))))))"

definition planRestoreDestination :: "sha256 \<Rightarrow> image_paths \<Rightarrow> jsval \<Rightarrow> jsval iresult" where
  "planRestoreDestination H cfg input =
     rbind (rcatch (assertStorageMutationRequest input) request_error) (\<lambda>request.
     guarded [ensure (js_seq (fld request ''backendId'') (JStr (backendId cfg)) \<and>
         js_seq (fld request ''operation'') (lit ''restore'') \<and>
         js_seq (fld (fld request ''target'') ''kind'') (lit ''checkpoint'')) request_error]
     (let token = storageToken H (backendId cfg) (str_of (fld request ''storageId'')) in
      rbind (directChildPath (mountRoot cfg) token request_error) (\<lambda>destinationOwnedRoot.
      rbind (directChildPath destinationOwnedRoot (js ''generation-'' @
          take 48 (digest H [js ''restore-operation'', str_of (fld request ''operationId'')])) request_error)
        (\<lambda>destinationDirectory.
      Inr (exactFrozenRecord [(''destinationDirectory'', JStr destinationDirectory),
        (''destinationOwnedRoot'', JStr destinationOwnedRoot)])))))"

definition checkpointAndRequest :: "jsval \<Rightarrow> jsstr \<Rightarrow> image_path_error \<Rightarrow> (jsval \<times> jsval) iresult" where
  "checkpointAndRequest input backend code =
     rbind (exactDataObjectI input [''checkpoint'', ''request''] code) (\<lambda>input.
     rbind (rcatch (assertBareCheckpointDescriptor (fld input ''checkpoint'')) code) (\<lambda>checkpoint.
     rbind (rcatch (assertStorageMutationRequest (fld input ''request'')) code) (\<lambda>request.
     guarded [ensure (js_seq (fld checkpoint ''backendId'') (JStr backend) \<and>
         js_seq (fld request ''backendId'') (JStr backend) \<and>
         js_seq (fld request ''operation'') (lit ''checkpoint'') \<and>
         same_fields [''sessionId'', ''storageId''] request checkpoint \<and>
         js_seq (fld (fld request ''target'') ''kind'') (lit ''checkpoint'') \<and>
         same_fields [''artifactId'', ''checkpointId''] (fld request ''target'') checkpoint) code]
       (Inr (checkpoint, request)))))"

definition resolveArtifactPaths :: "sha256 \<Rightarrow> image_paths \<Rightarrow> jsval \<Rightarrow> jsval iresult" where
  "resolveArtifactPaths H cfg input =
     rbind (checkpointAndRequest input (backendId cfg) request_error) (\<lambda>(checkpoint, request).
     let token = digest H (js ''artifact'' # backendId cfg # map (\<lambda>k. str_of (fld checkpoint k))
           [''sessionId'', ''storageId'', ''artifactId'', ''checkpointId'']) in
     rbind (directChildPath (archiveRoot cfg) (js ''artifact-'' @ take 48 token) request_error)
       (\<lambda>artifactDirectory.
     Inr (exactFrozenRecord [(''artifactDirectory'', JStr artifactDirectory),
       (''artifactOwnedRoot'', JStr (archiveRoot cfg))])))"

definition resolveSourceOwnedRoot :: "sha256 \<Rightarrow> image_paths \<Rightarrow> jsval \<Rightarrow> jsval iresult" where
  "resolveSourceOwnedRoot H cfg input =
     rbind (exactDataObjectI input [''canonicalAttachment'', ''checkpoint'', ''request''] request_error) (\<lambda>input.
     rbind (checkpointAndRequest (plain_obj [(''checkpoint'', fld input ''checkpoint''),
         (''request'', fld input ''request'')]) (backendId cfg) request_error) (\<lambda>(checkpoint, request).
     rbind (rcatch (assertSessionAttachment (fld input ''canonicalAttachment'')) request_error) (\<lambda>attachment.
     guarded [ensure (js_seq (fld attachment ''backendId'') (JStr (backendId cfg)) \<and>
         js_seq (fld attachment ''sessionId'') (fld checkpoint ''sessionId'') \<and>
         js_seq (fld attachment ''storageId'') (fld request ''storageId'')) request_error]
     (let storageId = str_of (fld attachment ''storageId''); rootPath = str_of (fld attachment ''rootPath'') in
      rbind (directChildPath (mountRoot cfg) (storageToken H (backendId cfg) storageId) request_error)
        (\<lambda>expectedOwnedRoot.
      rbind (directChildPath expectedOwnedRoot (data_name H (backendId cfg) storageId) request_error)
        (\<lambda>expectedSourceDirectory.
      guarded [ensure (path_dirname rootPath = expectedOwnedRoot \<and>
          (rootPath = expectedSourceDirectory \<or>
           rx_match RESTORED_ATTACHMENT_NAME_PATTERN (path_basename rootPath))) request_error]
       (Inr (exactFrozenRecord [(''sourceDirectory'', JStr rootPath),
          (''sourceOwnedRoot'', JStr expectedOwnedRoot)]))))))))"

end
