(* ===== verification/Image_Path_Properties.thy ===== *)
theory Image_Path_Properties
  imports Image_Paths
begin

text \<open>
  What the planned paths promise: their shape, when planning succeeds, that a planned attachment is
  accepted back as the source of a checkpoint, and that different identities are hashed from different
  bytes. SHA-256 is only assumed to answer 64 lower-case hexadecimal digits.
\<close>

section \<open>Canonical paths and their children\<close>

definition canonical_path :: "jsstr \<Rightarrow> bool" where
  "canonical_path p \<longleftrightarrow> normal_path p \<and> utf8_length p \<le> MAX_PATH_BYTES \<and> utf8_roundtrip p = p \<and>
     \<not> list_ex control_unit p"

lemma canonicalPath_Inr [simp]: "canonicalPath v code = Inr p \<longleftrightarrow> v = JStr p \<and> canonical_path p"
proof
  assume "v = JStr p \<and> canonical_path p"
  then have v: "v = JStr p" and c: "canonical_path p" by auto
  then have n: "normal_path p" by (simp add: canonical_path_def)
  have "length p > 1"
    using normal_path_facts [OF n] by (cases p rule: remdups_adj.cases) (auto simp: path_is_absolute_def)
  then show "canonicalPath v code = Inr p"
    using normal_path_facts [OF n] c utf8_bounds [of p] by (simp add: v canonicalPath_def canonical_path_def)
qed (use resolve_fixed_iff in \<open>auto simp: canonicalPath_def canonical_path_def split: jsval.splits\<close>)

lemma canonicalPath_Inl: "canonicalPath v code = Inl e \<Longrightarrow> e = code"
  by (auto simp: canonicalPath_def guarded_def first_err_Cons split: jsval.splits option.splits)

text \<open>The names the code appends: printable ASCII, no slash, longer than the dot segments.\<close>

definition child_name :: "jsstr \<Rightarrow> bool" where
  "child_name g \<longleftrightarrow> 2 < length g \<and> list_all (\<lambda>c. 32 \<le> c \<and> c < 127 \<and> c \<noteq> 47) g"

lemma child_name_proper: "child_name g \<Longrightarrow> proper_seg g"
  by (auto simp: child_name_def proper_seg_def list_all_iff)

lemma child_name_ascii: "child_name g \<Longrightarrow> list_all (\<lambda>c. c < 128) g"
  by (auto simp: child_name_def list_all_iff word_less_nat_alt)

lemma child_name_printable: "child_name g \<Longrightarrow> \<not> list_ex control_unit g"
  by (auto simp: child_name_def list_all_iff list_ex_iff control_unit_def word_le_nat_alt word_less_nat_alt)

lemma canonical_child:
  assumes "canonical_path r" and "child_name g"
  shows "canonical_path (r @ 47 # g) \<longleftrightarrow> utf8_length r + length g < MAX_PATH_BYTES"
proof -
  have a: "list_all (\<lambda>c. c < 128) ((47 :: unit16) # g)" using child_name_ascii [OF assms(2)] by simp
  have s: "\<not> lo_surrogate (47 :: unit16)" by (simp add: lo_surrogate_def)
  show ?thesis
    using assms child_name_printable [OF assms(2)] normal_child [OF _ child_name_proper [OF assms(2)]]
    unfolding canonical_path_def utf8_append [OF s] utf8_ascii [OF a]
    by (auto simp: control_unit_def)
qed

lemma directChildPath_child:
  assumes "canonical_path r" and "child_name g"
  shows "directChildPath r g code =
    (if utf8_length r + length g < MAX_PATH_BYTES then Inr (r @ 47 # g) else Inl code)"
proof -
  have r: "normal_path r" using assms(1) by (simp add: canonical_path_def)
  note g = child_name_proper [OF assms(2)]
  have "canonicalPath (JStr (r @ 47 # g)) code =
      (if utf8_length r + length g < MAX_PATH_BYTES then Inr (r @ 47 # g) else Inl code)"
    using canonical_child [OF assms] canonicalPath_Inr [of "JStr (r @ 47 # g)" code "r @ 47 # g"]
    by (cases "canonicalPath (JStr (r @ 47 # g)) code") (auto dest: canonicalPath_Inl)
  then show ?thesis
    by (simp add: directChildPath_def join_child [OF r g] dirname_child [OF r g] guarded_ok)
qed

lemma directChildPath_Inl: "directChildPath r g code = Inl e \<Longrightarrow> e = code"
  by (auto simp: directChildPath_def rbind_Inl guarded_def first_err_Cons split: option.splits
      dest: canonicalPath_Inl)

definition child_of :: "jsstr \<Rightarrow> jsstr \<Rightarrow> bool" where
  "child_of p r \<longleftrightarrow> canonical_path p \<and> path_dirname p = r"

lemma directChildPath_Inr:
  assumes "canonical_path r" and "child_name g" and "directChildPath r g code = Inr p"
  shows "p = r @ 47 # g" and "child_of p r" and "under p r"
proof -
  show p: "p = r @ 47 # g" using assms(3) by (simp add: directChildPath_child [OF assms(1,2)] split: if_splits)
  show "under p r" unfolding p by (rule under_child)
  show "child_of p r" using assms(3) by (auto simp: child_of_def directChildPath_def)
qed

section \<open>The names\<close>

definition hex_digest :: "sha256 \<Rightarrow> bool" where
  "hex_digest H \<longleftrightarrow> (\<forall>bs. length (H bs) = 64 \<and> list_all isLowerHex (H bs))"

lemma digest_hex: "hex_digest H \<Longrightarrow> length (digest H ps) = 64 \<and> list_all isLowerHex (digest H ps)"
  by (simp add: hex_digest_def digest_def)

lemma hex_child: "isLowerHex c \<Longrightarrow> 32 \<le> c \<and> c < 127 \<and> c \<noteq> 47"
  by (auto simp: isLowerHex_def word_le_nat_alt word_less_nat_alt)

lemma hex_name:
  assumes "list_all isLowerHex h" and "2 < length (a @ h @ b)"
    and "list_all (\<lambda>c. 32 \<le> c \<and> c < 127 \<and> c \<noteq> 47) (a @ b)"
  shows "child_name (a @ h @ b)"
  using assms hex_child by (auto simp: child_name_def list_all_iff)

lemma hex_take: "list_all isLowerHex h \<Longrightarrow> list_all isLowerHex (take n h)"
  by (auto simp: list_all_iff dest: in_set_takeD)

lemma child_names:
  assumes "hex_digest H"
  shows "child_name (digest H ps)" "child_name (digest H ps @ js ''.ext4'')"
    "child_name (js ''data-'' @ take 48 (digest H ps))" "child_name (js ''generation-'' @ take 48 (digest H ps))"
    "child_name (js ''artifact-'' @ take 48 (digest H ps))"
  using hex_name [of "digest H ps" "[]" "[]"] hex_name [of "digest H ps" "[]" "js ''.ext4''"]
    hex_name [of "take 48 (digest H ps)" "js ''data-''" "[]"]
    hex_name [of "take 48 (digest H ps)" "js ''generation-''" "[]"]
    hex_name [of "take 48 (digest H ps)" "js ''artifact-''" "[]"]
    digest_hex [OF assms, of ps] hex_take [of "digest H ps" 48]
  by (simp_all add: js_Cons)

lemma name_lengths:
  assumes "hex_digest H"
  shows "length (storageToken H b s) = 64" "length (data_name H b s) = 53"
    "length (js ''generation-'' @ take 48 (digest H ps)) = 59"
  using digest_hex [OF assms] by (simp_all add: storageToken_def data_name_def)

section \<open>The hashed bytes\<close>

text \<open>The parts the code hashes: ASCII strings whose length fits four bytes.\<close>

definition hash_part :: "jsstr \<Rightarrow> bool" where
  "hash_part p \<longleftrightarrow> list_all (\<lambda>c. c < 128) p \<and> length p < 4294967296"

lemma four_bytes:
  assumes "n < (4294967296 :: nat)"
  shows "n = n mod 256 + 256 * (n div 256 mod 256 + 256 * (n div 65536 mod 256 + 256 * (n div 16777216 mod 256)))"
proof -
  have d: "n div 65536 = n div 256 div 256" "n div 16777216 = n div 256 div 256 div 256"
    by (simp_all flip: div_mult2_eq)
  have "n div 256 div 256 div 256 < 256" using assms by (simp flip: d(2))
  then show ?thesis unfolding d by simp
qed

lemma uint32_be_inject:
  assumes "n < 4294967296" and "m < 4294967296" and "uint32_be n = uint32_be m"
  shows "n = m"
proof -
  have byte: "a mod 256 = b mod 256" if "(of_nat a :: 8 word) = of_nat b" for a b :: nat
    using arg_cong [OF that, of unat] by (simp add: unat_of_nat)
  have "n div 16777216 mod 256 = m div 16777216 mod 256" "n div 65536 mod 256 = m div 65536 mod 256"
    "n div 256 mod 256 = m div 256 mod 256" "n mod 256 = m mod 256"
    using assms(3) by (auto simp: uint32_be_def dest!: byte)
  then show "n = m" using four_bytes [OF assms(1)] four_bytes [OF assms(2)] by (simp only:)
qed

lemma length_uint32_be [simp]: "length (uint32_be n) = 4"
  by (simp add: uint32_be_def)

lemma hash_parts_inject:
  assumes "list_all hash_part ps" and "list_all hash_part qs"
    and "concat (map (\<lambda>p. uint32_be (utf8_length p) @ utf8_bytes p) ps) =
         concat (map (\<lambda>p. uint32_be (utf8_length p) @ utf8_bytes p) qs)"
  shows "ps = qs"
  using assms
proof (induction ps arbitrary: qs)
  case Nil
  then show ?case by (cases qs) (auto simp: uint32_be_def)
next
  case (Cons p ps)
  then obtain q qs' where qs: "qs = q # qs'" by (cases qs) (auto simp: uint32_be_def)
  have parts: "hash_part p" "hash_part q" using Cons.prems(1,2) by (simp_all add: qs)
  then have len: "utf8_length p = length p" "utf8_length q = length q"
    using utf8_ascii(1) by (auto simp: hash_part_def)
  have "uint32_be (utf8_length p) = uint32_be (utf8_length q)"
    and rest: "utf8_bytes p @ concat (map (\<lambda>p. uint32_be (utf8_length p) @ utf8_bytes p) ps) =
      utf8_bytes q @ concat (map (\<lambda>p. uint32_be (utf8_length p) @ utf8_bytes p) qs')"
    using Cons.prems(3) by (simp_all add: qs)
  then have "utf8_length p = utf8_length q"
    using parts by (intro uint32_be_inject) (auto simp: len hash_part_def)
  with rest have "utf8_bytes p = utf8_bytes q"
    and "concat (map (\<lambda>p. uint32_be (utf8_length p) @ utf8_bytes p) ps) =
      concat (map (\<lambda>p. uint32_be (utf8_length p) @ utf8_bytes p) qs')"
    by (simp_all add: utf8_bytes_length)
  with parts Cons.IH [of qs'] Cons.prems show ?case
    using utf8_ascii_inj [of p q] by (simp add: qs hash_part_def)
qed

lemma digest_input_inject:
  assumes "list_all hash_part ps" and "list_all hash_part qs"
  shows "digest_input ps = digest_input qs \<longleftrightarrow> ps = qs"
  using hash_parts_inject [OF assms] by (auto simp: digest_input_def)

lemma opaque_part: "isOpaqueId (JStr s) \<Longrightarrow> hash_part s"
proof -
  assume s: "isOpaqueId (JStr s)"
  then have "c < 128" if "c \<in> set s" for c
  proof -
    have "s \<noteq> []" using that by auto
    then have "c = s ! 0 \<or> c \<in> set (drop 1 s)" using that by (cases s) auto
    then have "isAsciiAlphaNumeric c \<or> c = 45 \<or> c = 46 \<or> c = 58 \<or> c = 95"
      using s by (auto simp: isOpaqueId_def list_all_iff)
    then show ?thesis by (auto simp: isAsciiAlphaNumeric_def word_le_nat_alt word_less_nat_alt)
  qed
  with s show "hash_part s" by (auto simp: hash_part_def isOpaqueId_def list_all_iff)
qed

lemma hex_less: "isLowerHex c \<Longrightarrow> c < 128"
  by (auto simp: isLowerHex_def word_le_nat_alt word_less_nat_alt)

lemma uuid_part: "isCanonicalUuid (JStr s) \<Longrightarrow> hash_part s"
proof -
  assume s: "isCanonicalUuid (JStr s)"
  then have "s ! i < 128" if "i < length s" for i
  proof -
    have "\<forall>i \<in> set [0..<length s]. s ! i = 45 \<or> isLowerHex (s ! i)"
      using s by (auto simp: isCanonicalUuid_def list_all_iff split: if_splits)
    with that have "s ! i = 45 \<or> isLowerHex (s ! i)" by simp
    then show ?thesis using hex_less by auto
  qed
  moreover have "length s = 36" using s by (simp add: isCanonicalUuid_def)
  ultimately show "hash_part s" by (simp add: hash_part_def list_all_length)
qed

section \<open>The configuration\<close>

lemma exactDataObjectI_Inr [simp]: "exactDataObjectI v ks code = Inr w \<longleftrightarrow> w = v \<and> exact_object v ks"
  by (cases v) (auto simp: exactDataObjectI_def exact_object_def plain_object_def list_all_iff)

lemma exactDataObjectI_Inl: "exactDataObjectI v ks code = Inl e \<Longrightarrow> e = code"
  by (auto simp: exactDataObjectI_def guarded_def first_err_Cons split: option.splits)

lemma opaqueIdI_Inr [simp]: "opaqueIdI v code = Inr s \<longleftrightarrow> v = JStr s \<and> isOpaqueId (JStr s)"
  by (auto simp: opaqueIdI_def isOpaqueId_pattern split: jsval.splits)

lemma runtimeSessionId_Inr [simp]: "runtimeSessionId v code = Inr s \<longleftrightarrow> v = JStr s \<and> isCanonicalUuid (JStr s)"
  by (auto simp: runtimeSessionId_def isCanonicalUuid_pattern split: jsval.splits)

definition configured :: "image_paths \<Rightarrow> bool" where
  "configured cfg \<longleftrightarrow> isOpaqueId (JStr (backendId cfg)) \<and>
     canonical_path (archiveRoot cfg) \<and> canonical_path (imageRoot cfg) \<and> canonical_path (mountRoot cfg) \<and>
     (\<forall>p. \<not> (under p (archiveRoot cfg) \<and> under p (imageRoot cfg)) \<and>
          \<not> (under p (archiveRoot cfg) \<and> under p (mountRoot cfg)) \<and>
          \<not> (under p (imageRoot cfg) \<and> under p (mountRoot cfg)))"

lemma pathContains_under: "pathContains parent child \<longleftrightarrow> under child parent"
  by (simp add: pathContains_def under_def)

lemma created_configured:
  assumes "createExt4FilesystemImagePaths args = Inr cfg"
  shows "configured cfg"
proof -
  have "isOpaqueId (JStr (backendId cfg))" "canonical_path (archiveRoot cfg)" "canonical_path (imageRoot cfg)"
    "canonical_path (mountRoot cfg)"
    and d: "assertDisjointRoots [archiveRoot cfg, imageRoot cfg, mountRoot cfg]
      Invalid_ext4_filesystem_image_path_options = None"
    using assms by (auto simp: createExt4FilesystemImagePaths_def Let_def split: list.splits)
  moreover have "\<not> (under p (archiveRoot cfg) \<and> under p (imageRoot cfg))"
    "\<not> (under p (archiveRoot cfg) \<and> under p (mountRoot cfg))"
    "\<not> (under p (imageRoot cfg) \<and> under p (mountRoot cfg))" for p
    using d apart_roots [of p] by (auto simp: pathContains_under)
  ultimately show ?thesis unfolding configured_def by blast
qed

section \<open>The planned paths\<close>

definition mount_path :: "sha256 \<Rightarrow> image_paths \<Rightarrow> jsstr \<Rightarrow> jsstr" where
  "mount_path H cfg s = mountRoot cfg @ 47 # storageToken H (backendId cfg) s"

definition image_path :: "sha256 \<Rightarrow> image_paths \<Rightarrow> jsstr \<Rightarrow> jsstr" where
  "image_path H cfg s = imageRoot cfg @ 47 # storageToken H (backendId cfg) s @ js ''.ext4''"

definition attachment_path :: "sha256 \<Rightarrow> image_paths \<Rightarrow> jsstr \<Rightarrow> jsstr" where
  "attachment_path H cfg s = mount_path H cfg s @ 47 # data_name H (backendId cfg) s"

definition generation_name :: "sha256 \<Rightarrow> jsstr \<Rightarrow> jsstr" where
  "generation_name H op = js ''generation-'' @ take 48 (digest H [js ''restore-operation'', op])"

lemma mount_child:
  assumes "hex_digest H" and "configured cfg"
  shows "directChildPath (mountRoot cfg) (storageToken H (backendId cfg) s) e =
      (if utf8_length (mountRoot cfg) + 64 < MAX_PATH_BYTES then Inr (mount_path H cfg s) else Inl e)"
  using directChildPath_child [OF _ child_names(1) [OF assms(1)], of "mountRoot cfg"] assms(2) digest_hex [OF assms(1)]
  by (simp add: configured_def mount_path_def storageToken_def)

lemma image_child:
  assumes "hex_digest H" and "configured cfg"
  shows "directChildPath (imageRoot cfg) (storageToken H (backendId cfg) s @ js ''.ext4'') e =
      (if utf8_length (imageRoot cfg) + 69 < MAX_PATH_BYTES then Inr (image_path H cfg s) else Inl e)"
  using directChildPath_child [OF _ child_names(2) [OF assms(1)], of "imageRoot cfg"] assms(2) digest_hex [OF assms(1)]
  by (simp add: configured_def image_path_def storageToken_def)

lemma mount_path_canonical:
  assumes "hex_digest H" and "configured cfg"
  shows "canonical_path (mount_path H cfg s) \<longleftrightarrow> utf8_length (mountRoot cfg) + 64 < MAX_PATH_BYTES"
    and "utf8_length (mount_path H cfg s) = utf8_length (mountRoot cfg) + 65"
    and "under (mount_path H cfg s) (mountRoot cfg)"
    and "path_dirname (mount_path H cfg s) = mountRoot cfg"
proof -
  note g = child_names(1) [OF assms(1)]
  have r: "canonical_path (mountRoot cfg)" using assms(2) by (simp add: configured_def)
  show "canonical_path (mount_path H cfg s) \<longleftrightarrow> utf8_length (mountRoot cfg) + 64 < MAX_PATH_BYTES"
    using canonical_child [OF r g] digest_hex [OF assms(1)] by (simp add: mount_path_def storageToken_def)
  have "list_all (\<lambda>c. c < 128) ((47 :: unit16) # digest H ps)" for ps
    using child_name_ascii [OF g] by simp
  then show "utf8_length (mount_path H cfg s) = utf8_length (mountRoot cfg) + 65"
    using digest_hex [OF assms(1)] unfolding mount_path_def storageToken_def
    by (subst utf8_append) (simp_all add: utf8_ascii lo_surrogate_def)
  show "under (mount_path H cfg s) (mountRoot cfg)" by (simp add: mount_path_def under_child)
  show "path_dirname (mount_path H cfg s) = mountRoot cfg"
    using dirname_child [OF _ child_name_proper [OF g]] r
    by (simp add: mount_path_def canonical_path_def storageToken_def)
qed

text \<open>The children of a mount: its data directory and the restored generations.\<close>

lemma mount_children:
  assumes "hex_digest H" and "configured cfg" and "utf8_length (mountRoot cfg) + 64 < MAX_PATH_BYTES"
  shows "directChildPath (mount_path H cfg s) (data_name H (backendId cfg) s) e =
      (if utf8_length (mountRoot cfg) + 118 < MAX_PATH_BYTES then Inr (attachment_path H cfg s) else Inl e)"
    and "directChildPath (mount_path H cfg s) (js ''generation-'' @ take 48 (digest H ps)) e =
      (if utf8_length (mountRoot cfg) + 124 < MAX_PATH_BYTES
       then Inr (mount_path H cfg s @ 47 # js ''generation-'' @ take 48 (digest H ps)) else Inl e)"
proof -
  have m: "canonical_path (mount_path H cfg s)" using mount_path_canonical(1) [OF assms(1,2)] assms(3) by blast
  note l = mount_path_canonical(2) [OF assms(1,2)] digest_hex [OF assms(1)]
  show "directChildPath (mount_path H cfg s) (data_name H (backendId cfg) s) e =
      (if utf8_length (mountRoot cfg) + 118 < MAX_PATH_BYTES then Inr (attachment_path H cfg s) else Inl e)"
    using directChildPath_child [OF m child_names(3) [OF assms(1)]] l by (simp add: attachment_path_def data_name_def)
  show "directChildPath (mount_path H cfg s) (js ''generation-'' @ take 48 (digest H ps)) e =
      (if utf8_length (mountRoot cfg) + 124 < MAX_PATH_BYTES
       then Inr (mount_path H cfg s @ 47 # js ''generation-'' @ take 48 (digest H ps)) else Inl e)"
    using directChildPath_child [OF m child_names(4) [OF assms(1)]] l by simp
qed

section \<open>The operations on an accepted configuration\<close>

lemma opaque_string: "isOpaqueId v \<Longrightarrow> \<exists>s. v = JStr s \<and> isOpaqueId (JStr s)"
  by (cases v) (simp_all add: isOpaqueId_def)

lemma uuid_string: "isCanonicalUuid v \<Longrightarrow> \<exists>s. v = JStr s \<and> isCanonicalUuid (JStr s)"
proof -
  assume v: "isCanonicalUuid v"
  then obtain s where "v = JStr s" by (cases v) (simp_all add: isCanonicalUuid_def)
  with v show ?thesis by blast
qed

lemma mutation_ids:
  assumes "assertStorageMutationRequest v = Inr w"
  shows "isOpaqueId (fld w ''storageId'')" and "isOpaqueId (fld w ''operationId'')"
  using mutation.result_checks [OF assms] by (auto simp: mutation_checks_def)

lemma mutation_kind:
  assumes "assertStorageMutationRequest v = Inr w"
  shows "fld (fld w ''target'') ''kind'' = lit (target_kind (fld w ''operation''))"
  using mutation.result_checks [OF assms] by (auto simp: mutation_checks_def assertStorageMutationTarget_def)

definition session_storage :: "sha256 \<Rightarrow> image_paths \<Rightarrow> jsval \<Rightarrow> jsstr" where
  "session_storage H cfg session =
     js ''ext4-storage:'' @ take 48 (digest H [js ''session'', backendId cfg, str_of session])"

lemma planProvision_Inr:
  assumes "hex_digest H" and "configured cfg"
  shows "planProvision H cfg v = Inr p \<longleftrightarrow> (\<exists>w s. assertSessionProvisionRequest v = Inr w \<and>
    fld w ''backendId'' = JStr (backendId cfg) \<and> s = session_storage H cfg (fld w ''sessionId'') \<and>
    utf8_length (mountRoot cfg) + 64 < MAX_PATH_BYTES \<and> utf8_length (imageRoot cfg) + 69 < MAX_PATH_BYTES \<and>
    p = exactFrozenRecord [(''imagePath'', JStr (image_path H cfg s)), (''mountPath'', JStr (mount_path H cfg s)),
      (''storageId'', JStr s)])"
proof -
  have session: "isCanonicalUuid (fld w ''sessionId'')" if "assertSessionProvisionRequest v = Inr w" for w
    using provision.result_checks [OF that] by (auto simp: provision_checks_def)
  have "storageIdForSession H cfg (fld w ''sessionId'') = Inr (session_storage H cfg (fld w ''sessionId''))"
    if "assertSessionProvisionRequest v = Inr w" for w
    unfolding storageIdForSession_def using uuid_string [OF session [OF that]]
    by (auto simp: session_storage_def str_of_def)
  then show ?thesis
    by (auto simp: planProvision_def Let_def mount_child [OF assms] image_child [OF assms] guarded_ok)
qed

lemma planWritableAttachment_Inr:
  assumes "hex_digest H" and "configured cfg"
  shows "planWritableAttachment H cfg v = Inr p \<longleftrightarrow> (\<exists>w s. assertStorageMutationRequest v = Inr w \<and>
    fld w ''backendId'' = JStr (backendId cfg) \<and> fld w ''operation'' = lit ''attach'' \<and>
    fld w ''storageId'' = JStr s \<and> isOpaqueId (JStr s) \<and>
    utf8_length (mountRoot cfg) + 118 < MAX_PATH_BYTES \<and> utf8_length (imageRoot cfg) + 69 < MAX_PATH_BYTES \<and>
    p = exactFrozenRecord [(''attachmentRootPath'', JStr (attachment_path H cfg s)),
      (''imagePath'', JStr (image_path H cfg s)), (''mountPath'', JStr (mount_path H cfg s)),
      (''storageId'', JStr s)])"
proof (cases "assertStorageMutationRequest v")
  case (Inr w)
  obtain s where s: "fld w ''storageId'' = JStr s" "isOpaqueId (JStr s)"
    using opaque_string mutation_ids(1) [OF Inr] by blast
  have "fld (fld w ''target'') ''kind'' = lit ''attachment''" if "fld w ''operation'' = lit ''attach''"
    using mutation_kind [OF Inr] that by (simp add: target_kind_def)
  then show ?thesis
    by (auto simp: planWritableAttachment_def Let_def Inr s mount_child [OF assms] image_child [OF assms]
        mount_children(1) [OF assms] str_of_def)
qed (simp add: planWritableAttachment_def)

lemma planRestoreDestination_Inr:
  assumes "hex_digest H" and "configured cfg"
  shows "planRestoreDestination H cfg v = Inr p \<longleftrightarrow> (\<exists>w s op. assertStorageMutationRequest v = Inr w \<and>
    fld w ''backendId'' = JStr (backendId cfg) \<and> fld w ''operation'' = lit ''restore'' \<and>
    fld w ''storageId'' = JStr s \<and> isOpaqueId (JStr s) \<and> fld w ''operationId'' = JStr op \<and>
    utf8_length (mountRoot cfg) + 124 < MAX_PATH_BYTES \<and>
    p = exactFrozenRecord [(''destinationDirectory'', JStr (mount_path H cfg s @ 47 # generation_name H op)),
      (''destinationOwnedRoot'', JStr (mount_path H cfg s))])"
proof (cases "assertStorageMutationRequest v")
  case (Inr w)
  obtain s op where s: "fld w ''storageId'' = JStr s" "isOpaqueId (JStr s)" "fld w ''operationId'' = JStr op"
    using opaque_string mutation_ids [OF Inr] by blast
  have "fld (fld w ''target'') ''kind'' = lit ''checkpoint''" if "fld w ''operation'' = lit ''restore''"
    using mutation_kind [OF Inr] that by (simp add: target_kind_def)
  then show ?thesis
    by (auto simp: planRestoreDestination_def Let_def Inr s mount_child [OF assms] mount_children(2) [OF assms]
        str_of_def generation_name_def)
qed (simp add: planRestoreDestination_def)

section \<open>Sources\<close>

lemma restored_name:
  "rx_match RESTORED_ATTACHMENT_NAME_PATTERN g \<longleftrightarrow>
     (\<exists>h. g = js ''generation-'' @ h \<and> length h = 48 \<and> list_all isLowerHex h)"
proof -
  have "hex_cls = isLowerHex" by (rule ext) simp
  then show ?thesis
    unfolding RESTORED_ATTACHMENT_NAME_PATTERN_def rx_match_lang lang_cat_two
    by (auto simp: lang_lit lang_rep_cls)
qed

lemma attachment_strings:
  assumes "assertSessionAttachment v = Inr a"
  shows "\<exists>s. fld a ''storageId'' = JStr s \<and> isOpaqueId (JStr s)" and "\<exists>s. fld a ''sessionId'' = JStr s"
    and "\<exists>s. fld a ''rootPath'' = JStr s" and "\<exists>s. fld a ''backendId'' = JStr s"
proof -
  have c: "isOpaqueId (fld a ''storageId'')" "isOpaqueId (fld a ''backendId'')" "isCanonicalUuid (fld a ''sessionId'')"
    "assertAttachmentRootPath (fld a ''rootPath'') Invalid_storage_attachment = None"
    using attachment.result_checks [OF assms] by (auto simp: attachment_checks_def)
  then show "\<exists>s. fld a ''storageId'' = JStr s \<and> isOpaqueId (JStr s)" "\<exists>s. fld a ''sessionId'' = JStr s"
    "\<exists>s. fld a ''backendId'' = JStr s"
    using opaque_string uuid_string by blast+
  from c(4) show "\<exists>s. fld a ''rootPath'' = JStr s"
    by (cases "fld a ''rootPath''") (simp_all add: assertAttachmentRootPath_def)
qed

lemma js_seq_string: "\<exists>s. a = JStr s \<Longrightarrow> js_seq a b \<longleftrightarrow> b = a"
  by auto

definition source_call :: "image_paths \<Rightarrow> jsval \<Rightarrow> jsval \<Rightarrow> jsval \<Rightarrow> jsval \<Rightarrow> bool" where
  "source_call cfg input c r a \<longleftrightarrow>
     exact_object input [''canonicalAttachment'', ''checkpoint'', ''request''] \<and>
     checkpointAndRequest (plain_obj [(''checkpoint'', fld input ''checkpoint''),
       (''request'', fld input ''request'')]) (backendId cfg) request_error = Inr (c, r) \<and>
     assertSessionAttachment (fld input ''canonicalAttachment'') = Inr a \<and>
     fld a ''backendId'' = JStr (backendId cfg) \<and> fld a ''sessionId'' = fld c ''sessionId'' \<and>
     fld a ''storageId'' = fld r ''storageId''"

lemma resolveSourceOwnedRoot_Inr:
  assumes "hex_digest H" and "configured cfg"
  shows "resolveSourceOwnedRoot H cfg input = Inr p \<longleftrightarrow> (\<exists>c r a s dir. source_call cfg input c r a \<and>
    fld a ''storageId'' = JStr s \<and> fld a ''rootPath'' = JStr dir \<and>
    utf8_length (mountRoot cfg) + 118 < MAX_PATH_BYTES \<and> path_dirname dir = mount_path H cfg s \<and>
    (dir = attachment_path H cfg s \<or> rx_match RESTORED_ATTACHMENT_NAME_PATTERN (path_basename dir)) \<and>
    p = exactFrozenRecord [(''sourceDirectory'', JStr dir), (''sourceOwnedRoot'', JStr (mount_path H cfg s))])"
proof (cases "assertSessionAttachment (fld input ''canonicalAttachment'')")
  case (Inr a)
  obtain s dir where s: "fld a ''storageId'' = JStr s" "fld a ''rootPath'' = JStr dir"
    using attachment_strings [OF Inr] by blast
  note seq = js_seq_string [OF attachment_strings(2) [OF Inr]]
  show ?thesis
    by (auto simp: resolveSourceOwnedRoot_def source_call_def Let_def Inr s seq mount_child [OF assms]
        mount_children(1) [OF assms] str_of_def split: prod.splits)
qed (auto simp: resolveSourceOwnedRoot_def source_call_def split: prod.splits)

text \<open>
  The directories planned for the attachments of a storage, by an attach request or by a restore
  request.
\<close>

definition planned_in :: "sha256 \<Rightarrow> image_paths \<Rightarrow> jsval \<Rightarrow> jsval \<Rightarrow> jsval \<Rightarrow> bool" where
  "planned_in H cfg storage mount dir \<longleftrightarrow>
     (\<exists>v p. planWritableAttachment H cfg v = Inr p \<and> fld p ''storageId'' = storage \<and>
        fld p ''mountPath'' = mount \<and> fld p ''attachmentRootPath'' = dir) \<or>
     (\<exists>v w p. planRestoreDestination H cfg v = Inr p \<and> assertStorageMutationRequest v = Inr w \<and>
        fld w ''storageId'' = storage \<and> fld p ''destinationOwnedRoot'' = mount \<and>
        fld p ''destinationDirectory'' = dir)"

lemma planned_in_cases:
  assumes "hex_digest H" and "configured cfg" and "planned_in H cfg storage mount dir"
  obtains s g where "storage = JStr s" "isOpaqueId (JStr s)" "mount = JStr (mount_path H cfg s)"
    "dir = JStr (mount_path H cfg s @ 47 # g)" "child_name g" "utf8_length (mountRoot cfg) + 118 < MAX_PATH_BYTES"
    "canonical_path (mount_path H cfg s @ 47 # g)" "g = data_name H (backendId cfg) s \<or> (\<exists>op. g = generation_name H op)"
  using assms(3) unfolding planned_in_def
proof (elim disjE exE conjE)
  fix v p
  assume p: "planWritableAttachment H cfg v = Inr p" "fld p ''storageId'' = storage" "fld p ''mountPath'' = mount"
    "fld p ''attachmentRootPath'' = dir"
  from p(1) obtain s where s: "isOpaqueId (JStr s)" "utf8_length (mountRoot cfg) + 118 < MAX_PATH_BYTES"
    "p = exactFrozenRecord [(''attachmentRootPath'', JStr (attachment_path H cfg s)),
      (''imagePath'', JStr (image_path H cfg s)), (''mountPath'', JStr (mount_path H cfg s)), (''storageId'', JStr s)]"
    unfolding planWritableAttachment_Inr [OF assms(1,2)] by blast
  have g: "child_name (data_name H (backendId cfg) s)" unfolding data_name_def by (rule child_names(3) [OF assms(1)])
  have "canonical_path (mount_path H cfg s)" using mount_path_canonical(1) [OF assms(1,2)] s(2) by simp
  from canonical_child [OF this g] s(2)
  have "canonical_path (mount_path H cfg s @ 47 # data_name H (backendId cfg) s)"
    by (simp add: mount_path_canonical(2) [OF assms(1,2)] name_lengths [OF assms(1)])
  with s g p(2-4) show ?thesis by (intro that) (auto simp: fld_frozen attachment_path_def)
next
  fix v w p
  assume p: "planRestoreDestination H cfg v = Inr p" "assertStorageMutationRequest v = Inr w"
    "fld w ''storageId'' = storage" "fld p ''destinationOwnedRoot'' = mount" "fld p ''destinationDirectory'' = dir"
  from p(1,2) obtain s op where s: "isOpaqueId (JStr s)" "utf8_length (mountRoot cfg) + 124 < MAX_PATH_BYTES"
    "fld w ''storageId'' = JStr s"
    "p = exactFrozenRecord [(''destinationDirectory'', JStr (mount_path H cfg s @ 47 # generation_name H op)),
      (''destinationOwnedRoot'', JStr (mount_path H cfg s))]"
    unfolding planRestoreDestination_Inr [OF assms(1,2)] by auto
  have g: "child_name (generation_name H op)" unfolding generation_name_def by (rule child_names(4) [OF assms(1)])
  have "canonical_path (mount_path H cfg s)" using mount_path_canonical(1) [OF assms(1,2)] s(2) by simp
  from canonical_child [OF this g] s(2)
  have "canonical_path (mount_path H cfg s @ 47 # generation_name H op)"
    by (simp add: mount_path_canonical(2) [OF assms(1,2)] name_lengths [OF assms(1)] generation_name_def
        del: length_append)
  with s g p(3-5) show ?thesis by (intro that) (auto simp: fld_frozen)
qed

section \<open>Failures\<close>

definition only_error :: "'e \<Rightarrow> 'e + 'a \<Rightarrow> bool" where
  "only_error e r \<longleftrightarrow> (\<forall>e'. r = Inl e' \<longrightarrow> e' = e)"

lemma only_error_intros:
  "only_error e (Inl e)" "only_error e (Inr a)" "only_error e (rcatch checked e)"
  "only_error e m \<Longrightarrow> (\<And>a. only_error e (f a)) \<Longrightarrow> only_error e (rbind m f)"
  "only_error e r \<Longrightarrow> only_error e (guarded [ensure b e] r)"
  "only_error e (directChildPath parent name e)" "only_error e (runtimeSessionId v e)"
  using directChildPath_Inl
  by (auto simp: only_error_def rbind_Inl guarded_def first_err_Cons runtimeSessionId_def
      split: jsval.splits option.splits)

lemma planProvision_only: "only_error request_error (planProvision H cfg v)"
  unfolding planProvision_def storageIdForSession_def Let_def by (intro only_error_intros)

section \<open>Artifacts\<close>

lemma checkpoint_strings:
  assumes "checkpointAndRequest input b e = Inr (c, r)" and "k \<in> {''sessionId'', ''storageId'', ''artifactId'', ''checkpointId''}"
  shows "\<exists>s. fld c k = JStr s \<and> hash_part s"
proof -
  obtain d where "assertBareCheckpointDescriptor d = Inr c"
    using assms(1) by (auto simp: checkpointAndRequest_def)
  from checkpoint.result_checks [OF this] assms(2) have "isOpaqueId (fld c k) \<or> isCanonicalUuid (fld c k)"
    by (auto simp: checkpoint_checks_def)
  then show ?thesis using opaque_string uuid_string opaque_part uuid_part by blast
qed

text \<open>The name of an artifact is hashed from the whole identity of its checkpoint.\<close>

definition artifact_parts :: "image_paths \<Rightarrow> jsval \<Rightarrow> jsstr list" where
  "artifact_parts cfg c = js ''artifact'' # backendId cfg # map (\<lambda>k. str_of (fld c k))
     [''sessionId'', ''storageId'', ''artifactId'', ''checkpointId'']"

lemma artifact_parts_inject:
  assumes "configured cfg" and "checkpointAndRequest input (backendId cfg) e = Inr (c, r)"
    and "checkpointAndRequest input' (backendId cfg) e = Inr (c', r')"
  shows "digest_input (artifact_parts cfg c) = digest_input (artifact_parts cfg c') \<longleftrightarrow>
    same_fields [''sessionId'', ''storageId'', ''artifactId'', ''checkpointId''] c c'"
proof -
  have b: "hash_part (backendId cfg)" using assms(1) by (simp add: configured_def opaque_part)
  let ?ks = "[''sessionId'', ''storageId'', ''artifactId'', ''checkpointId'']"
  have str: "\<forall>k \<in> set ?ks. \<exists>s. fld d k = JStr s \<and> hash_part s"
    if "checkpointAndRequest input (backendId cfg) e = Inr (d, r)" for input d r
    using checkpoint_strings [OF that] by simp
  have parts: "list_all hash_part (artifact_parts cfg d)" if fields: "\<forall>k \<in> set ?ks. \<exists>s. fld d k = JStr s \<and> hash_part s" for d
  proof -
    have "hash_part (js ''artifact'')" by (simp add: hash_part_def js_Cons)
    moreover have "hash_part (str_of (fld d k))" if k: "k \<in> set ?ks" for k
    proof -
      obtain s where "fld d k = JStr s" "hash_part s" using bspec [OF fields k] by blast
      then show ?thesis by (simp add: str_of_def)
    qed
    ultimately show ?thesis using b by (simp add: artifact_parts_def)
  qed
  have same: "str_of (fld c k) = str_of (fld c' k) \<longleftrightarrow> js_seq (fld c k) (fld c' k)" if k: "k \<in> set ?ks" for k
  proof -
    obtain s t where "fld c k = JStr s" "fld c' k = JStr t" using bspec [OF str [OF assms(2)] k] bspec [OF str [OF assms(3)] k] by blast
    then show ?thesis by (auto simp: str_of_def)
  qed
  have "artifact_parts cfg c = artifact_parts cfg c' \<longleftrightarrow> (\<forall>k \<in> set ?ks. str_of (fld c k) = str_of (fld c' k))"
    by (auto simp: artifact_parts_def)
  also have "\<dots> \<longleftrightarrow> same_fields ?ks c c'"
    unfolding same_fields_def list_all_iff by (rule ball_cong [OF refl same])
  finally have "artifact_parts cfg c = artifact_parts cfg c' \<longleftrightarrow> same_fields ?ks c c'" .
  then show ?thesis using digest_input_inject [OF parts [OF str [OF assms(2)]] parts [OF str [OF assms(3)]]] by simp
qed

lemma resolveArtifactPaths_Inr:
  assumes "hex_digest H" and "configured cfg"
  shows "resolveArtifactPaths H cfg input = Inr p \<longleftrightarrow> (\<exists>c r d. checkpointAndRequest input (backendId cfg) request_error = Inr (c, r) \<and>
    utf8_length (archiveRoot cfg) + 57 < MAX_PATH_BYTES \<and>
    d = archiveRoot cfg @ 47 # js ''artifact-'' @ take 48 (digest H (artifact_parts cfg c)) \<and>
    p = exactFrozenRecord [(''artifactDirectory'', JStr d), (''artifactOwnedRoot'', JStr (archiveRoot cfg))])"
proof -
  have "canonical_path (archiveRoot cfg)" using assms(2) by (simp add: configured_def)
  note child = directChildPath_child [OF this child_names(5) [OF assms(1)]]
  show ?thesis
    using digest_hex [OF assms(1)]
    by (auto simp: resolveArtifactPaths_def Let_def child artifact_parts_def split: prod.splits)
qed

section \<open>Properties\<close>

lemma canonical_root_path: "canonical_path p \<Longrightarrow> assertAttachmentRootPath (JStr p) e = None"
  using normal_path_facts [of p] utf8_bounds [of p]
  by (auto simp: assertAttachmentRootPath_def canonical_path_def MAX_PATH_BYTES_def containsNullCharacter_def
      control_unit_def list_ex_iff)

text \<open>
  C26: every directory planned for a storage, by an attach or a restore request, is a canonical path that
  the contract kernel accepts as an attachment's root; its parent is the storage's mount, the mount's
  parent is the configured mount root, and neither the image root nor the archive root contains it.
\<close>

theorem planned_directories_stay_in_their_mount:
  assumes "createExt4FilesystemImagePaths args = Inr cfg" and "hex_digest H" and "planned_in H cfg storage mount dir"
  shows "\<exists>m d. mount = JStr m \<and> dir = JStr d \<and> assertAttachmentRootPath dir Invalid_storage_attachment = None \<and>
    canonicalPath dir request_error = Inr d \<and> canonicalPath mount request_error = Inr m \<and>
    path_dirname d = m \<and> path_dirname m = mountRoot cfg \<and>
    \<not> under d (imageRoot cfg) \<and> \<not> under d (archiveRoot cfg)"
proof -
  note c = created_configured [OF assms(1)]
  obtain s g where s: "mount = JStr (mount_path H cfg s)" "dir = JStr (mount_path H cfg s @ 47 # g)" "child_name g"
    "utf8_length (mountRoot cfg) + 118 < MAX_PATH_BYTES" "canonical_path (mount_path H cfg s @ 47 # g)"
    by (rule planned_in_cases [OF assms(2) c assms(3)])
  note m = mount_path_canonical [OF assms(2) c, of s]
  have canon: "canonical_path (mount_path H cfg s)" using m(1) s(4) by simp
  then have "path_dirname (mount_path H cfg s @ 47 # g) = mount_path H cfg s"
    using dirname_child child_name_proper [OF s(3)] by (simp add: canonical_path_def)
  moreover have "under (mount_path H cfg s @ 47 # g) (mountRoot cfg)" using under_trans [OF under_child m(3)] .
  ultimately show ?thesis
    using c canon m(4) s(5) canonical_root_path [OF s(5)] by (auto simp: s(1,2) configured_def)
qed

lemma under_equal_length:
  assumes "length m = length n" and "under (m @ 47 # g) n"
  shows "m = n"
proof -
  have "m @ 47 # g \<noteq> n" using arg_cong [of "m @ 47 # g" n length] assms(1) by auto
  then obtain t where "m @ 47 # g = n @ 47 # t" using assms(2) by (auto simp: under_def str_starts_iff)
  then show ?thesis using assms(1) by simp
qed

lemma storage_parts: "isOpaqueId (JStr b) \<Longrightarrow> isOpaqueId (JStr s) \<Longrightarrow> list_all hash_part [js ''storage'', b, s]"
  using opaque_part [of b] opaque_part [of s] by (simp add: hash_part_def js_Cons)

text \<open>
  C27: two storages of a backend hash different bytes for their mounts. Unless the hash sends these two
  inputs to one digest, the storages have different mounts, and no directory planned for one is the mount
  of the other or lies in it.
\<close>

theorem storages_share_no_directory:
  assumes "createExt4FilesystemImagePaths args = Inr cfg" and "hex_digest H"
    and "planned_in H cfg (JStr s) mount dir" and "planned_in H cfg (JStr t) mount' dir'" and "s \<noteq> t"
  shows "digest_input [js ''storage'', backendId cfg, s] \<noteq> digest_input [js ''storage'', backendId cfg, t] \<and>
    (mount = mount' \<longleftrightarrow> H (digest_input [js ''storage'', backendId cfg, s]) =
       H (digest_input [js ''storage'', backendId cfg, t])) \<and>
    (mount \<noteq> mount' \<longrightarrow> \<not> under (str_of dir) (str_of mount'))"
proof (intro conjI impI)
  note c = created_configured [OF assms(1)]
  obtain g where s: "isOpaqueId (JStr s)" "mount = JStr (mount_path H cfg s)" "dir = JStr (mount_path H cfg s @ 47 # g)"
    by (rule planned_in_cases [OF assms(2) c assms(3)]) auto
  obtain g' where t: "isOpaqueId (JStr t)" "mount' = JStr (mount_path H cfg t)"
    by (rule planned_in_cases [OF assms(2) c assms(4)]) auto
  have b: "isOpaqueId (JStr (backendId cfg))" using c by (simp add: configured_def)
  show "digest_input [js ''storage'', backendId cfg, s] \<noteq> digest_input [js ''storage'', backendId cfg, t]"
    using digest_input_inject [OF storage_parts [OF b s(1)] storage_parts [OF b t(1)]] assms(5) by simp
  show "mount = mount' \<longleftrightarrow> H (digest_input [js ''storage'', backendId cfg, s]) =
       H (digest_input [js ''storage'', backendId cfg, t])"
    by (simp add: s(2) t(2) mount_path_def storageToken_def digest_def)
  have "length (mount_path H cfg s) = length (mount_path H cfg t)"
    by (simp add: mount_path_def name_lengths [OF assms(2)])
  moreover assume "mount \<noteq> mount'"
  ultimately show "\<not> under (str_of dir) (str_of mount')"
    using under_equal_length [of "mount_path H cfg s" "mount_path H cfg t"] by (auto simp: s(2,3) t(2) str_of_def)
qed

text \<open>
  C28: a directory planned for a storage comes back as the source of a checkpoint: an attachment of that
  storage rooted there, presented with a checkpoint and its request for the same storage and session,
  resolves to that directory in that mount.
\<close>

theorem planned_directory_is_a_source:
  assumes "createExt4FilesystemImagePaths args = Inr cfg" and "hex_digest H"
    and "planned_in H cfg (fld a ''storageId'') mount (fld a ''rootPath'')" and "source_call cfg input c r a"
  shows "resolveSourceOwnedRoot H cfg input = Inr (exactFrozenRecord
    [(''sourceDirectory'', fld a ''rootPath''), (''sourceOwnedRoot'', mount)])"
proof -
  note c = created_configured [OF assms(1)]
  obtain s g where s: "fld a ''storageId'' = JStr s" "mount = JStr (mount_path H cfg s)"
    "fld a ''rootPath'' = JStr (mount_path H cfg s @ 47 # g)" "child_name g"
    "utf8_length (mountRoot cfg) + 118 < MAX_PATH_BYTES"
    "g = data_name H (backendId cfg) s \<or> (\<exists>op. g = generation_name H op)"
    by (rule planned_in_cases [OF assms(2) c assms(3)])
  note g = child_name_proper [OF s(4)]
  have "normal_path (mount_path H cfg s)"
    using mount_path_canonical(1) [OF assms(2) c] s(5) by (simp add: canonical_path_def)
  then have "path_dirname (mount_path H cfg s @ 47 # g) = mount_path H cfg s" using g by (rule dirname_child)
  moreover have "mount_path H cfg s @ 47 # g = attachment_path H cfg s \<or>
      rx_match RESTORED_ATTACHMENT_NAME_PATTERN (path_basename (mount_path H cfg s @ 47 # g))"
    using s(6) digest_hex [OF assms(2)] hex_take
    by (auto simp: basename_child [OF g] restored_name attachment_path_def generation_name_def)
  ultimately show ?thesis
    unfolding resolveSourceOwnedRoot_Inr [OF assms(2) c] s(2,3)
    by (intro exI [of _ c] exI [of _ r] exI [of _ a] exI [of _ s] exI [of _ "mount_path H cfg s @ 47 # g"])
      (simp add: assms(4) s)
qed

text \<open>
  C30: planning a storage's provision succeeds exactly for an accepted request of the configured backend
  when the mount root has room for a 64-digit token and the image root for the token's image file; every
  failure is the request error.
\<close>

theorem provision_plan_succeeds_iff:
  assumes "createExt4FilesystemImagePaths args = Inr cfg" and "hex_digest H"
  shows "((\<exists>p. planProvision H cfg v = Inr p) \<longleftrightarrow>
      (\<exists>w. assertSessionProvisionRequest v = Inr w \<and> fld w ''backendId'' = JStr (backendId cfg)) \<and>
      utf8_length (mountRoot cfg) \<le> 4095 - 65 \<and> utf8_length (imageRoot cfg) \<le> 4095 - 70) \<and>
    (\<forall>e. planProvision H cfg v = Inl e \<longrightarrow> e = request_error)"
proof (intro conjI)
  note c = created_configured [OF assms(1)]
  show "(\<exists>p. planProvision H cfg v = Inr p) \<longleftrightarrow>
      (\<exists>w. assertSessionProvisionRequest v = Inr w \<and> fld w ''backendId'' = JStr (backendId cfg)) \<and>
      utf8_length (mountRoot cfg) \<le> 4095 - 65 \<and> utf8_length (imageRoot cfg) \<le> 4095 - 70"
    unfolding planProvision_Inr [OF assms(2) c] MAX_PATH_BYTES_def by auto
  show "\<forall>e. planProvision H cfg v = Inl e \<longrightarrow> e = request_error"
    using planProvision_only [of H cfg v] by (simp add: only_error_def)
qed

lemma capacity_iff:
  "assertExt4FilesystemImageMountPathCapacity v = Inr m \<longleftrightarrow>
     v = JStr m \<and> canonical_path m \<and> utf8_length m + 59 < MAX_PATH_BYTES"
proof -
  have n: "child_name DATA_CHILD_CAPACITY_NAME" "child_name RESTORE_CHILD_CAPACITY_NAME"
    "length DATA_CHILD_CAPACITY_NAME = 53" "length RESTORE_CHILD_CAPACITY_NAME = 59"
    by (simp_all add: child_name_def DATA_CHILD_CAPACITY_NAME_def RESTORE_CHILD_CAPACITY_NAME_def js_Cons list_all_iff)
  show ?thesis
    by (auto simp: assertExt4FilesystemImageMountPathCapacity_def assertMountPathAttachmentCapacity_def Let_def
        directChildPath_child n split: if_splits)
qed

text \<open>
  C29: a provisioned storage whose mount passes the capacity check can be attached and restored: every
  accepted attach request for it plans the provisioned mount and image, and every accepted restore request
  plans a destination in that mount.
\<close>

theorem mount_capacity_suffices:
  assumes "createExt4FilesystemImagePaths args = Inr cfg" and "hex_digest H"
    and "planProvision H cfg request = Inr p" and "assertExt4FilesystemImageMountPathCapacity (fld p ''mountPath'') = Inr m"
    and "assertStorageMutationRequest v = Inr w" and "fld w ''backendId'' = JStr (backendId cfg)"
    and "fld w ''storageId'' = fld p ''storageId''"
  shows "(fld w ''operation'' = lit ''attach'' \<longrightarrow> (\<exists>a. planWritableAttachment H cfg v = Inr a \<and>
      same_fields [''imagePath'', ''mountPath'', ''storageId''] a p)) \<and>
    (fld w ''operation'' = lit ''restore'' \<longrightarrow> (\<exists>d. planRestoreDestination H cfg v = Inr d \<and>
      fld d ''destinationOwnedRoot'' = fld p ''mountPath''))"
proof (intro conjI impI)
  note c = created_configured [OF assms(1)]
  obtain s where p: "utf8_length (imageRoot cfg) + 69 < MAX_PATH_BYTES"
    "p = exactFrozenRecord [(''imagePath'', JStr (image_path H cfg s)), (''mountPath'', JStr (mount_path H cfg s)),
      (''storageId'', JStr s)]"
    using assms(3) unfolding planProvision_Inr [OF assms(2) c] by auto
  have room: "utf8_length (mountRoot cfg) + 124 < MAX_PATH_BYTES"
    using assms(4) mount_path_canonical(2) [OF assms(2) c] by (auto simp: capacity_iff p(2) fld_frozen)
  obtain op where ids: "fld w ''storageId'' = JStr s" "isOpaqueId (JStr s)" "fld w ''operationId'' = JStr op"
    using opaque_string mutation_ids [OF assms(5)] assms(7) by (auto simp: p(2) fld_frozen)
  show "\<exists>a. planWritableAttachment H cfg v = Inr a \<and> same_fields [''imagePath'', ''mountPath'', ''storageId''] a p"
    if "fld w ''operation'' = lit ''attach''"
    unfolding planWritableAttachment_Inr [OF assms(2) c] using that assms(5,6) ids p(1) room
    by (auto simp: same_fields_def p(2) fld_frozen)
  show "\<exists>d. planRestoreDestination H cfg v = Inr d \<and> fld d ''destinationOwnedRoot'' = fld p ''mountPath''"
    if "fld w ''operation'' = lit ''restore''"
    unfolding planRestoreDestination_Inr [OF assms(2) c] using that assms(5,6) ids room
    by (auto simp: p(2) fld_frozen)
qed

end
