(* ===== verification/Image_Path_Examples.thy ===== *)
theory Image_Path_Examples
  imports Image_Path_Properties Contract_Examples
begin

text \<open>
  A configuration below \<open>/srv\<close>, requests for its storages and a stand-in for SHA-256 whose last digit is
  the parity of the number of hashed bytes, at which the guarantees about image paths apply.
\<close>

definition ex_sha :: sha256 where
  "ex_sha bs = replicate 63 48 @ [if even (length bs) then 48 else 49]"

lemma ex_sha_hex: "hex_digest ex_sha"
  by (simp add: hex_digest_def ex_sha_def isLowerHex_def list_all_iff)

definition ex_image_paths :: image_paths where
  "ex_image_paths = \<lparr>archiveRoot = js ''/srv/archive'', backendId = js ''backend-1'',
     imageRoot = js ''/srv/images'', mountRoot = js ''/srv/mounts''\<rparr>"

definition ex_image_options :: jsval where
  "ex_image_options = plain_obj [(''archiveRoot'', lit ''/srv/archive''), (''backendId'', lit ''backend-1''),
     (''imageRoot'', lit ''/srv/images''), (''mountRoot'', lit ''/srv/mounts'')]"

lemma ex_srv: "canonical_path (js ''/srv'')"
proof -
  have a: "list_all (\<lambda>c. c < 128) (js ''/srv'')" by (simp add: js_def)
  have "normal_path (js ''/srv'')"
    unfolding normal_path_def by (rule exI [of _ "[js ''srv'']"]) (simp add: proper_seg_def js_def)
  then show ?thesis
    using utf8_ascii [OF a] by (simp add: canonical_path_def MAX_PATH_BYTES_def) (simp add: js_def control_unit_def)
qed

lemma ex_srv_child: "child_name g \<Longrightarrow> length g < 100 \<Longrightarrow> canonical_path (js ''/srv'' @ 47 # g)"
  using canonical_child [OF ex_srv] utf8_bounds [of "js ''/srv''"] by (simp add: MAX_PATH_BYTES_def)

lemma ex_roots:
  "canonical_path (js ''/srv/archive'')" "canonical_path (js ''/srv/images'')" "canonical_path (js ''/srv/mounts'')"
  using ex_srv_child [of "js ''archive''"] ex_srv_child [of "js ''images''"] ex_srv_child [of "js ''mounts''"]
  by (simp_all add: child_name_def js_def)

lemma ex_created: "createExt4FilesystemImagePaths [ex_image_options] = Inr ex_image_paths"
proof -
  have "assertDisjointRoots [js ''/srv/archive'', js ''/srv/images'', js ''/srv/mounts'']
      Invalid_ext4_filesystem_image_path_options = None" by code_simp
  then show ?thesis
    by (simp add: createExt4FilesystemImagePaths_def ex_image_paths_def ex_image_options_def OPTION_KEYS_def Let_def
        exact_plain_obj fld_plain_obj ex_roots guarded_ok)
qed

lemma ex_root_lengths: "utf8_length (mountRoot ex_image_paths) = 11" "utf8_length (imageRoot ex_image_paths) = 11"
  unfolding ex_image_paths_def by code_simp+

definition ex_storage_mutation :: "string \<Rightarrow> jsstr \<Rightarrow> jsval" where
  "ex_storage_mutation operation s = plain_obj [(''backendId'', lit ''backend-1''), (''contractVersion'', JInt 1),
     (''fencingEpoch'', lit ''7''), (''holderId'', lit ''holder-1''), (''leaseId'', lit ''lease-1''),
     (''operation'', lit operation), (''operationId'', lit ''operation-1''), (''sessionId'', ex_session),
     (''storageId'', JStr s), (''target'', if operation = ''attach''
        then plain_obj [(''attachmentId'', lit ''attachment-1''), (''kind'', lit ''attachment'')]
        else ex_checkpoint_target)]"

lemma ex_storage_mutation_ok:
  assumes "operation \<in> {''attach'', ''checkpoint'', ''restore''}" and "isOpaqueId (JStr s)"
  shows "assertStorageMutationRequest (ex_storage_mutation operation s) = Inr (ex_storage_mutation operation s)"
proof -
  have "assertStorageMutationTarget ex_checkpoint_target (lit operation) x = None" if "operation \<noteq> ''attach''" for x
    using assms(1) that by (auto simp: assertStorageMutationTarget_def target_schema_def target_kind_def
        target_ids_def ex_checkpoint_target_def ex_simps)
  then have "list_all (\<lambda>c. c = None) (mutation_checks (fld (ex_storage_mutation operation s)))"
    using assms by (auto simp: mutation_checks_def ex_storage_mutation_def fld_plain_obj ex_target_ok
        STORAGE_CONTRACT_VERSION_def mutation_operations_def)
  moreover have "structured_clone ex_checkpoint_target = Some ex_checkpoint_target"
    by (simp add: ex_checkpoint_target_def ex_simps)
  ultimately show ?thesis
    by (simp add: mutation.accepted) (simp add: ex_storage_mutation_def mutation_keys_def ex_simps)
qed

lemma ex_attach_planned:
  assumes "isOpaqueId (JStr s)"
  shows "planWritableAttachment ex_sha ex_image_paths (ex_storage_mutation ''attach'' s) = Inr (exactFrozenRecord
    [(''attachmentRootPath'', JStr (attachment_path ex_sha ex_image_paths s)),
     (''imagePath'', JStr (image_path ex_sha ex_image_paths s)), (''mountPath'', JStr (mount_path ex_sha ex_image_paths s)),
     (''storageId'', JStr s)])"
  unfolding planWritableAttachment_Inr [OF ex_sha_hex created_configured [OF ex_created]]
  using ex_storage_mutation_ok [of "''attach''" s] assms ex_root_lengths
  by (auto simp: ex_storage_mutation_def fld_plain_obj ex_image_paths_def MAX_PATH_BYTES_def)

lemma ex_planned_in:
  assumes "isOpaqueId (JStr s)"
  shows "planned_in ex_sha ex_image_paths (JStr s) (JStr (mount_path ex_sha ex_image_paths s))
    (JStr (attachment_path ex_sha ex_image_paths s))"
  unfolding planned_in_def
  by (rule disjI1, intro exI conjI, rule ex_attach_planned [OF assms]) (simp_all add: fld_frozen)

definition ex_provision_request :: jsval where
  "ex_provision_request = plain_obj [(''backendId'', lit ''backend-1''), (''contractVersion'', JInt 1),
     (''operationId'', lit ''operation-1''), (''sessionId'', ex_session)]"

lemma ex_provision_request_ok: "assertSessionProvisionRequest ex_provision_request = Inr ex_provision_request"
  unfolding assertSessionProvisionRequest_def
  by (simp add: ex_provision_request_def provision_keys_def provision_checks_def ex_simps)

abbreviation ex_provisioned :: jsstr where
  "ex_provisioned \<equiv> session_storage ex_sha ex_image_paths ex_session"

lemma ex_provisioned_ok: "isOpaqueId (JStr ex_provisioned)"
proof -
  have "list_all (\<lambda>c. isAsciiAlphaNumeric c \<or> c = 45 \<or> c = 46 \<or> c = 58 \<or> c = 95) (js ''xt4-storage:'')"
    by (simp add: js_def isAsciiAlphaNumeric_def)
  then show ?thesis
    by (simp add: session_storage_def isOpaqueId_def digest_def ex_sha_def js_Cons [of "CHR ''e''"] isAsciiAlphaNumeric_def
        list_all_iff)
qed

lemma ex_provision_planned: "\<exists>p. planProvision ex_sha ex_image_paths ex_provision_request = Inr p \<and>
    fld p ''storageId'' = JStr ex_provisioned \<and> fld p ''mountPath'' = JStr (mount_path ex_sha ex_image_paths ex_provisioned)"
  unfolding planProvision_Inr [OF ex_sha_hex created_configured [OF ex_created]]
  using ex_provision_request_ok ex_root_lengths
  by (auto simp: ex_provision_request_def fld_plain_obj fld_frozen ex_image_paths_def MAX_PATH_BYTES_def)

section \<open>The guarantees at these requests\<close>

theorem planned_directories_stay_in_their_mount_witness:
  "\<exists>m d. JStr (attachment_path ex_sha ex_image_paths (js ''storage-1'')) = JStr d \<and>
     path_dirname d = m \<and> path_dirname m = js ''/srv/mounts''"
  using planned_directories_stay_in_their_mount [OF ex_created ex_sha_hex ex_planned_in, of "js ''storage-1''"]
  by (auto simp: ex_image_paths_def)

lemma ex_digest_length: "list_all hash_part ps \<Longrightarrow>
    length (digest_input ps) = length (digest_input []) + sum_list (map (\<lambda>p. 4 + length p) ps)"
  by (induction ps) (simp_all add: digest_input_def utf8_bytes_length hash_part_def utf8_ascii)

lemma ex_mounts_differ: "storageToken ex_sha (js ''backend-1'') (js ''storage-1'') \<noteq>
    storageToken ex_sha (js ''backend-1'') (js ''storage-10'')"
proof -
  have "isOpaqueId (lit ''storage-10'')" by (simp add: isOpaqueId_def isAsciiAlphaNumeric_def js_def)
  then have "list_all hash_part [js ''storage'', js ''backend-1'', js s]" if "s \<in> {''storage-1'', ''storage-10''}" for s
    using that by (intro storage_parts) auto
  note len = ex_digest_length [OF this]
  have "length (digest_input [js ''storage'', js ''backend-1'', js ''storage-10'']) =
      Suc (length (digest_input [js ''storage'', js ''backend-1'', js ''storage-1'']))"
    by (simp only: len [of "''storage-1''"] len [of "''storage-10''"] insert_iff simp_thms) simp
  then show ?thesis
    unfolding storageToken_def digest_def ex_sha_def by (simp del: replicate.simps)
qed

theorem storages_share_no_directory_witness:
  "\<not> under (attachment_path ex_sha ex_image_paths (js ''storage-1''))
     (mount_path ex_sha ex_image_paths (js ''storage-10''))"
proof -
  have "isOpaqueId (lit ''storage-10'')" by (simp add: isOpaqueId_def isAsciiAlphaNumeric_def js_def)
  note share = storages_share_no_directory [OF ex_created ex_sha_hex ex_planned_in [OF ex_opaque(5)] ex_planned_in [OF this]]
  have "JStr (mount_path ex_sha ex_image_paths (js ''storage-1'')) \<noteq> JStr (mount_path ex_sha ex_image_paths (js ''storage-10''))"
    using share ex_mounts_differ by (simp add: ex_image_paths_def storageToken_def digest_def)
  with share show ?thesis by (simp add: str_of_def)
qed

theorem provision_plan_succeeds_iff_witness: "\<exists>p. planProvision ex_sha ex_image_paths ex_provision_request = Inr p"
  using provision_plan_succeeds_iff [OF ex_created ex_sha_hex, of ex_provision_request] ex_provision_request_ok
    ex_root_lengths by (auto simp: ex_provision_request_def ex_image_paths_def fld_plain_obj)

theorem mount_capacity_suffices_witness:
  "(\<exists>a. planWritableAttachment ex_sha ex_image_paths (ex_storage_mutation ''attach'' ex_provisioned) = Inr a \<and>
      fld a ''mountPath'' = JStr (mount_path ex_sha ex_image_paths ex_provisioned)) \<and>
   (\<exists>d. planRestoreDestination ex_sha ex_image_paths (ex_storage_mutation ''restore'' ex_provisioned) = Inr d \<and>
      fld d ''destinationOwnedRoot'' = JStr (mount_path ex_sha ex_image_paths ex_provisioned))"
proof -
  obtain p where p: "planProvision ex_sha ex_image_paths ex_provision_request = Inr p"
    "fld p ''storageId'' = JStr ex_provisioned" "fld p ''mountPath'' = JStr (mount_path ex_sha ex_image_paths ex_provisioned)"
    using ex_provision_planned by blast
  note m = mount_path_canonical [OF ex_sha_hex created_configured [OF ex_created], of ex_provisioned]
  have capacity: "assertExt4FilesystemImageMountPathCapacity (fld p ''mountPath'') =
      Inr (mount_path ex_sha ex_image_paths ex_provisioned)"
    using m(1,2) ex_root_lengths by (simp add: capacity_iff p(3) MAX_PATH_BYTES_def)
  note ok = ex_storage_mutation_ok [OF _ ex_provisioned_ok]
  have f: "fld (ex_storage_mutation op s) ''backendId'' = JStr (backendId ex_image_paths)"
    "fld (ex_storage_mutation op s) ''storageId'' = JStr s" "fld (ex_storage_mutation op s) ''operation'' = lit op" for op s
    by (simp_all add: ex_storage_mutation_def ex_image_paths_def fld_plain_obj)
  note suffices = mount_capacity_suffices [OF ex_created ex_sha_hex p(1) capacity ok f(1)]
  from suffices [of "''attach''"] suffices [of "''restore''"] show ?thesis
    by (auto simp: f p(2,3) same_fields_def)
qed

definition ex_source_attachment :: "jsstr \<Rightarrow> jsval" where
  "ex_source_attachment dir = plain_obj [(''attachmentId'', lit ''attachment-1''), (''backendId'', lit ''backend-1''),
     (''contractVersion'', JInt 1), (''fencingEpoch'', lit ''7''), (''holderId'', lit ''holder-1''),
     (''kind'', lit ''directory''), (''leaseId'', lit ''lease-1''), (''mode'', lit ''read-write''),
     (''operationId'', lit ''operation-1''), (''proofId'', lit ''proof-1''), (''rootPath'', JStr dir),
     (''sessionId'', ex_session), (''storageId'', lit ''storage-1'')]"

lemma ex_source_attachment_ok:
  assumes "canonical_path dir"
  shows "assertSessionAttachment (ex_source_attachment dir) = Inr (ex_source_attachment dir)"
  unfolding assertSessionAttachment_def
  by (simp add: ex_source_attachment_def attachment_keys_def attachment_checks_def ex_simps
      canonical_root_path [OF assms])

definition ex_source_input :: "jsstr \<Rightarrow> jsval" where
  "ex_source_input dir = plain_obj [(''canonicalAttachment'', ex_source_attachment dir),
     (''checkpoint'', ex_checkpoint ''clean''), (''request'', ex_checkpoint_mutation ''checkpoint'' ''7'')]"

lemma ex_source_call:
  assumes "canonical_path dir"
  shows "source_call ex_image_paths (ex_source_input dir) (ex_checkpoint ''clean'')
    (ex_checkpoint_mutation ''checkpoint'' ''7'') (ex_source_attachment dir)"
proof -
  have "checkpointAndRequest (plain_obj [(''checkpoint'', ex_checkpoint ''clean''),
      (''request'', ex_checkpoint_mutation ''checkpoint'' ''7'')]) (js ''backend-1'') request_error =
      Inr (ex_checkpoint ''clean'', ex_checkpoint_mutation ''checkpoint'' ''7'')"
    by (simp add: checkpointAndRequest_def exact_plain_obj fld_plain_obj ex_checkpoint_ok ex_checkpoint_mutation_ok)
      (simp add: ex_checkpoint_def ex_checkpoint_mutation_def ex_checkpoint_target_def same_fields_def fld_plain_obj
        guarded_ok)
  then show ?thesis
    using ex_source_attachment_ok [OF assms]
    by (simp add: source_call_def ex_source_input_def exact_plain_obj fld_plain_obj ex_image_paths_def)
      (simp add: ex_source_attachment_def ex_checkpoint_def ex_checkpoint_mutation_def fld_plain_obj)
qed

theorem planned_directory_is_a_source_witness:
  "\<exists>p. resolveSourceOwnedRoot ex_sha ex_image_paths
       (ex_source_input (attachment_path ex_sha ex_image_paths (js ''storage-1''))) = Inr p \<and>
     fld p ''sourceDirectory'' = JStr (attachment_path ex_sha ex_image_paths (js ''storage-1''))"
proof -
  let ?d = "attachment_path ex_sha ex_image_paths (js ''storage-1'')"
  note planned = ex_planned_in [OF ex_opaque(5)]
  have "canonical_path ?d"
    by (rule planned_in_cases [OF ex_sha_hex created_configured [OF ex_created] planned]) simp
  note call = ex_source_call [OF this]
  have "fld (ex_source_attachment ?d) ''storageId'' = lit ''storage-1''" "fld (ex_source_attachment ?d) ''rootPath'' = JStr ?d"
    by (simp_all add: ex_source_attachment_def fld_plain_obj)
  with planned_directory_is_a_source [OF ex_created ex_sha_hex _ call] planned show ?thesis
    by (simp add: fld_frozen)
qed

end
