(* ===== verification/Spec2Isabelle.thy ===== *)
theory Spec2Isabelle
  imports Contract_Examples Snapshot_Examples Writer_History Restore_Examples Rollout_Examples
    Image_Path_Examples
begin

text \<open>
  A model of the portable Codex runtime's session contracts and of seven components built on them.
  All paths below are relative to the repository's \<open>src/\<close>.

  \<^bold>\<open>The program.\<close> A session is a directory of state that is leased to one worker at a time. Every
  mutation carries the fence of its lease: session, lease, holder and a fencing epoch that only
  grows. \<open>session-storage-contracts.mjs\<close> is the kernel of validators all other modules share: each
  takes an untrusted JavaScript value, checks its exact shape and returns a defensive clone, or
  throws a coded error. \<open>stopped-writer-capability.mjs\<close> coordinates the writers of a process:
  register, stop and issue a capability, consume it for one snapshot, revoke, retire, dispose.
  \<open>session-snapshot-core.mjs\<close> captures, reconciles and restores clean checkpoints through a storage
  backend, and \<open>session-crash-capture-core.mjs\<close> dispatches and verifies atomic crash captures; both
  reach the backend only through the kernel's checks and facades.
  \<open>postgres-detached-restore-plan.mjs\<close> turns a canonical request into a plan whose identities are
  hashes of its input, and \<open>postgres-detached-restore-operational-lease-budget.mjs\<close> decides whether
  the lease of a plan lasts through it. \<open>rollout-tail-repair.mjs\<close> repairs the unterminated last line
  of the session's rollout files on a restored copy before a writer is admitted.
  \<open>ext4-filesystem-image-paths.mjs\<close> derives where the image, the mount and the directories of a
  storage lie from hashes of the identities that the kernel's requests carry. The plan uses the
  identifiers, epochs and timestamps of the kernel, the budget reads branded plans, and the
  coordinator normalises its bindings with the kernel's lease and attachment validators.

  \<^bold>\<open>JavaScript.\<close>
  \<^item> \<open>Js_Prelude\<close>: results as sums, \<open>guarded\<close> lists of \<open>ensure\<close> checks (the first failure is the
    error), UTF-16 strings.
  \<^item> \<open>Js_Value\<close>: values with property descriptors, prototypes and proxies, strict equality,
    \<open>structuredClone\<close>, exact numbers. Objects that the sources only inspect are trees; objects whose
    identity matters (writers, capabilities, plans) are addresses in a heap or a store.
  \<^item> \<open>Js_Store\<close>: \<open>WeakMap\<close>s and \<open>WeakSet\<close>s of a module as stores from identities to records, behind the
    locale \<open>token_store\<close>: a new token is fresh and known, and no other changes.
  \<^item> \<open>Js_Regex\<close>: regular expressions by derivatives. \<open>Js_Text\<close>: decimal numbers, ISO timestamps, POSIX
    paths, UTF-8 lengths. \<open>Js_Path\<close>: parents, names and joins of paths, the bytes of UTF-8.
    \<open>Js_Json\<close>: \<open>JSON.parse\<close> and \<open>JSON.stringify\<close> with the round trip. The parser
    recurses on a bound of twice the length of the text plus one; \<open>jp_fuel\<close> and \<open>json_parse_fuel\<close>
    show that every larger bound gives the same result.

  \<^bold>\<open>The contract kernel\<close> (\<open>session-storage-contracts.mjs\<close>). \<open>Contract_Core\<close> has object shapes,
  identifiers, epochs and the locales of record validators; \<open>Contract_Lease\<close> leases, storage
  references, provisioning and attachments, with the refinement of renewal and fence matching to
  typed leases; \<open>Contract_Manifest\<close> the session manifest, image binding and worker template;
  \<open>Contract_Mutation\<close> force fences, storage mutations, checkpoints, restore admission and the lease
  snapshot rule; \<open>Contract_Capture\<close> crash capture and restore activation; \<open>Contract_Json\<close> the
  duplicate-key scanner and the parsing and printing of manifests. \<open>Contract_Properties\<close> shows that
  accepted results answer their requests under the same fence, that epochs are compared correctly and
  bounded by 2^64 - 1, and that validators are idempotent. \<open>Contract_Examples\<close> holds concrete records.
  \<open>Contract_Backend\<close> has the checks of storage backends and the facades over them. A foreign backend
  is a value with a prototype chain, which the walk \<open>dataValue\<close> follows for at most 64 objects, the
  source's bound; projections and facades are objects of a store, named by \<open>JOpaque n\<close>, whose methods
  are closures that end in the call of one foreign function. The invariant \<open>backend_inv\<close> says that
  every known projection or facade resolves to such a function.

  \<^bold>\<open>The snapshot and crash-capture cores.\<close> \<open>Snapshot_Core\<close> has every operation of
  \<open>session-snapshot-core.mjs\<close>, \<open>Crash_Core\<close> those of \<open>session-crash-capture-core.mjs\<close>. An asynchronous
  operation is split at its \<open>await\<close>: \<open>..._begin\<close> ends with the call of the backend, \<open>..._settled\<close> takes
  what the call settled with, so that any other operation may run in between; \<open>snapshot_step\<close> and
  \<open>crash_step\<close> are the relations of all operations that change the state. \<open>Snapshot_Properties\<close> and
  \<open>Crash_Core\<close> show that a prepared capture is dispatched at most once in any history, that the backend
  gets exactly what was checked at the preparation, that a restore carries a newer fence, and that an
  answer is accepted only when it answers the request, every other outcome staying uncertain.
  \<open>Snapshot_Examples\<close> runs both cores over a backend with a class. The handles of a module start at an
  arbitrary number, since other modules create objects too.

  \<^bold>\<open>The stopped-writer coordinator\<close> (\<open>stopped-writer-capability.mjs\<close>). \<open>Writer_Binding\<close> validates
  requests. \<open>Writer_Capability\<close> has the state (heaps of writers, capabilities and slots, the weak maps
  as partial functions, suspended calls) and one definition per operation; \<open>stopAndIssueCapability\<close>
  and \<open>consumeCapability\<close> are split at the callback and at the await, so that any other call can
  happen in between, and \<open>coord_step\<close> is the relation of all of them. \<open>Writer_Invariant\<close> proves the
  invariant, \<open>Writer_Properties\<close> what follows for any history: one writer per session, one snapshot
  per capability, no snapshot before a confirmed stop, increasing epochs, no snapshot result after a
  revocation, no release after an uncertain outcome. \<open>Writer_Liveness\<close> shows the converse of the last: a writer can still be retired
  exactly while neither its stop nor its snapshot has become uncertain. \<open>Writer_History\<close> runs a concrete
  history.

  \<^bold>\<open>The restore plan and its lease budget.\<close> \<open>Restore_Plan\<close> and \<open>Lease_Budget\<close> follow the two files
  function by function; the sets of branded plans and budgets are token stores. A plan is created exactly from canonical inputs, is rebuilt from its own
  record and from nothing that was altered, and keeps source and destination apart; a budget is
  created exactly when the lease covers both windows. \<open>Restore_Examples\<close> builds a plan and a budget.

  \<^bold>\<open>Image paths\<close> (\<open>ext4-filesystem-image-paths.mjs\<close>). \<open>Image_Paths\<close> has the checks, the hashed bytes
  and the operations over the checked options. \<open>Image_Path_Properties\<close> shows that planned directories
  stay in the mount of their storage and outside the other roots, that different identities are hashed
  from different bytes, that a planned directory resolves again as the source of a checkpoint, and
  when the roots leave room for the hashed names. \<open>Image_Path_Examples\<close> plans below \<open>/srv\<close>.

  \<^bold>\<open>The rollout repair\<close> (\<open>rollout-tail-repair.mjs\<close>). \<open>Rollout_Content\<close> has everything that touches no
  file, \<open>Rollout_Files\<close> the pinned files and directories, \<open>Rollout_Repair\<close> the scan, the replacement
  of a file and the whole repair, with the catch clauses. Node's file system, the hooks, SHA-256 and
  the collation are the record \<open>node\<close> of functions over a world of any type: a call may fail and may
  change the world arbitrarily, so that other processes are covered. Loops end by measures: the
  enumeration by the entries left in its budget, exact reads by the bytes left, the scan by the depth
  left (9 levels) and the names left; no fuel is used. \<open>Rollout_Safety\<close> shows which errors mean that
  nothing was published, that a scan leaves out no entry of the directories it read, from the sessions
  directory down, and that a result accounts for every file of its scan. \<open>Rollout_Examples\<close> runs repairs.

  \<^bold>\<open>Parameters.\<close> SHA-256 is a function from the hashed parts or bytes to a string; where a property
  needs it, the hypothesis is that it returns 64 lower-case hexadecimal digits, as \<open>node:crypto\<close>
  documents. Reads return at most the bytes that were asked for. Callbacks of the coordinator may
  return, throw or settle with any value.

  \<^bold>\<open>Not modelled.\<close> Error classes beyond their codes, the freezing of objects and functions, the
  copies of intrinsics that guard against a patched global object, and argument counts that the types
  fix. Getters and proxies answer the same whenever they are read, so a getter that changes between
  a check and a use is not modelled; the checks of captured backends refuse accessors and proxies. A
  facade method that is stored as a field of another backend object counts as a foreign function. Of
  \<open>rollout-tail-repair.mjs\<close> the open flags and the shape check of the hooks object of the tests. The
  PostgreSQL authority, its services and compositions, the filesystem-image provider, the Podman
  supervisor, the ext4 and LVM drivers, stopped trees, authentication, locks and probes are not
  modelled: they drive a database, containers, block devices or external services.
\<close>

end
